(* ===== verification/Rust_Prelude.thy ===== *)
theory Rust_Prelude
  imports Main "HOL-Library.Sublist" "HOL-Library.Word"
begin

text \<open>
  Shared vocabulary of the development: Rust's \<^verbatim>\<open>Result\<close>, strings and the
  string operations of the standard library that the modelled crates call, and
  the generic lemmas and fact collections the component theories rely on.

  A Rust \<^verbatim>\<open>String\<close>/\<^verbatim>\<open>&str\<close> is a list of Unicode scalar values (code points as
  integers). Where the code takes the byte length of a string, the model uses
  \<open>str_len\<close>, the length of the UTF-8 encoding. The modelled code slices strings
  only at byte offsets it obtained from \<^verbatim>\<open>find\<close>, \<^verbatim>\<open>char_indices\<close> or the length of
  a known substring; those are character boundaries, so the corresponding
  slices of the list of code points are the same strings.
  Collection lengths (\<^verbatim>\<open>usize\<close>) are \<open>nat\<close>: an allocation never exceeds
  \<open>2 ^ 63 - 1\<close> bytes, so sums of two lengths do not wrap.
\<close>

section \<open>Fact collections\<close>

named_theorems str_defs \<open>unfolding rules for the string operations\<close>
named_theorems str_facts \<open>derived facts about the string operations\<close>

section \<open>Results\<close>

datatype ('e, 'a) result = Err 'e | Ok 'a

fun is_ok :: "('e, 'a) result \<Rightarrow> bool" where
  "is_ok (Ok _) = True"
| "is_ok (Err _) = False"

fun bind_result :: "('e, 'a) result \<Rightarrow> ('a \<Rightarrow> ('e, 'b) result) \<Rightarrow> ('e, 'b) result" where
  "bind_result (Err e) f = Err e"
| "bind_result (Ok a) f = f a"

fun result_map :: "('a \<Rightarrow> 'b) \<Rightarrow> ('e, 'a) result \<Rightarrow> ('e, 'b) result" where
  "result_map f (Err e) = Err e"
| "result_map f (Ok a) = Ok (f a)"

fun result_map_err :: "('e \<Rightarrow> 'f) \<Rightarrow> ('e, 'a) result \<Rightarrow> ('f, 'a) result" where
  "result_map_err f (Err e) = Err (f e)"
| "result_map_err f (Ok a) = Ok a"

fun result_ok :: "('e, 'a) result \<Rightarrow> 'a option" where
  "result_ok (Err e) = None"
| "result_ok (Ok a) = Some a"

text \<open>\<^verbatim>\<open>iter.map(f).collect::<Result<Vec<_>, _>>()\<close>: the first error, or all values.\<close>

fun collect_results :: "('a \<Rightarrow> ('e, 'b) result) \<Rightarrow> 'a list \<Rightarrow> ('e, 'b list) result" where
  "collect_results f [] = Ok []"
| "collect_results f (x # xs) =
     bind_result (f x) (\<lambda>y. result_map (\<lambda>ys. y # ys) (collect_results f xs))"

lemma collect_results_Ok:
  "collect_results f xs = Ok ys \<longleftrightarrow> list_all2 (\<lambda>x y. f x = Ok y) xs ys"
proof (induction xs arbitrary: ys)
  case (Cons x xs)
  then show ?case
    by (cases "f x"; cases "collect_results f xs") (auto simp: list_all2_Cons1)
qed auto

lemma bind_result_eq:
  "bind_result r f = Ok y \<longleftrightarrow> (\<exists>x. r = Ok x \<and> f x = Ok y)"
  "bind_result r f = Err e \<longleftrightarrow> r = Err e \<or> (\<exists>x. r = Ok x \<and> f x = Err e)"
  by (cases r; auto)+

lemma result_map_eq:
  "result_map g r = Ok y \<longleftrightarrow> (\<exists>x. r = Ok x \<and> y = g x)"
  "result_map g r = Err e \<longleftrightarrow> r = Err e"
  by (cases r; auto)+

lemma result_map_err_Ok: "result_map_err f r = Ok x \<longleftrightarrow> r = Ok x"
  by (cases r) auto

section \<open>Saturating arithmetic\<close>

text \<open>\<^verbatim>\<open>usize::saturating_add\<close> on a 64-bit target; \<^verbatim>\<open>saturating_sub\<close> is subtraction on \<open>nat\<close>.\<close>

definition usize_max :: nat where "usize_max = 2 ^ 64 - 1"

definition saturating_add :: "nat \<Rightarrow> nat \<Rightarrow> nat" where
  "saturating_add a b = min (a + b) usize_max"

lemma saturating_add_assoc: "saturating_add (saturating_add a b) c = saturating_add a (b + c)"
  by (simp add: saturating_add_def)

lemma saturating_add_0 [simp]: "a \<le> usize_max \<Longrightarrow> saturating_add a 0 = a"
  by (simp add: saturating_add_def)

lemma saturating_add_min: "saturating_add (min usize_max n) k = min usize_max (n + k)"
  by (simp add: saturating_add_def)

lemma saturating_add_exact: "a + b \<le> usize_max \<Longrightarrow> saturating_add a b = a + b"
  by (simp add: saturating_add_def)

section \<open>Strings\<close>

type_synonym uchar = int
type_synonym rstr = "uchar list"

text \<open>A string literal of the source.\<close>

definition rs :: "string \<Rightarrow> rstr" where
  "rs s = map of_char s"

abbreviation LF :: uchar where "LF \<equiv> 10"
abbreviation CR :: uchar where "CR \<equiv> 13"

text \<open>\<^verbatim>\<open>char::len_utf8\<close> and \<^verbatim>\<open>str::len\<close>.\<close>

definition len_utf8 :: "uchar \<Rightarrow> nat" where
  "len_utf8 c = (if c < 0x80 then 1 else if c < 0x800 then 2 else if c < 0x10000 then 3 else 4)"

definition str_len :: "rstr \<Rightarrow> nat" where
  "str_len s = sum_list (map len_utf8 s)"

text \<open>\<^verbatim>\<open>char::is_whitespace\<close>: the Unicode property White_Space.\<close>

definition is_whitespace :: "uchar \<Rightarrow> bool" where
  "is_whitespace c \<longleftrightarrow> (9 \<le> c \<and> c \<le> 13) \<or> c = 32 \<or> c = 0x85 \<or> c = 0xA0 \<or> c = 0x1680
     \<or> (0x2000 \<le> c \<and> c \<le> 0x200A) \<or> c = 0x2028 \<or> c = 0x2029 \<or> c = 0x202F
     \<or> c = 0x205F \<or> c = 0x3000"

definition is_ascii_digit :: "uchar \<Rightarrow> bool" where
  "is_ascii_digit c \<longleftrightarrow> 48 \<le> c \<and> c \<le> 57"

definition to_ascii_lower :: "uchar \<Rightarrow> uchar" where
  "to_ascii_lower c = (if 65 \<le> c \<and> c \<le> 90 then c + 32 else c)"

definition to_ascii_lowercase :: "rstr \<Rightarrow> rstr" where
  "to_ascii_lowercase s = map to_ascii_lower s"

definition trim_start :: "rstr \<Rightarrow> rstr" where
  "trim_start s = dropWhile is_whitespace s"

definition trim_end :: "rstr \<Rightarrow> rstr" where
  "trim_end s = rev (dropWhile is_whitespace (rev s))"

definition trim :: "rstr \<Rightarrow> rstr" where
  "trim s = trim_end (trim_start s)"

text \<open>\<^verbatim>\<open>str::split_once\<close> and \<^verbatim>\<open>str::rsplit_once\<close> for a single character.\<close>

definition split_once :: "uchar \<Rightarrow> rstr \<Rightarrow> (rstr \<times> rstr) option" where
  "split_once c s =
     (case dropWhile (\<lambda>d. d \<noteq> c) s of [] \<Rightarrow> None
      | _ # t \<Rightarrow> Some (takeWhile (\<lambda>d. d \<noteq> c) s, t))"

definition rsplit_once :: "uchar \<Rightarrow> rstr \<Rightarrow> (rstr \<times> rstr) option" where
  "rsplit_once c s = map_option (\<lambda>(b, a). (rev a, rev b)) (split_once c (rev s))"

definition trim_end_matches :: "uchar \<Rightarrow> rstr \<Rightarrow> rstr" where
  "trim_end_matches c s = rev (dropWhile (\<lambda>d. d = c) (rev s))"

definition starts_with :: "rstr \<Rightarrow> rstr \<Rightarrow> bool" where
  "starts_with s p \<longleftrightarrow> take (length p) s = p"

definition ends_with :: "rstr \<Rightarrow> rstr \<Rightarrow> bool" where
  "ends_with s p \<longleftrightarrow> length p \<le> length s \<and> drop (length s - length p) s = p"

definition strip_prefix :: "rstr \<Rightarrow> rstr \<Rightarrow> rstr option" where
  "strip_prefix p s = (if starts_with s p then Some (drop (length p) s) else None)"

definition strip_suffix :: "rstr \<Rightarrow> rstr \<Rightarrow> rstr option" where
  "strip_suffix p s = (if ends_with s p then Some (take (length s - length p) s) else None)"

text \<open>\<^verbatim>\<open>str::find\<close>: the position of the first occurrence.\<close>

fun find_str :: "rstr \<Rightarrow> rstr \<Rightarrow> nat option" where
  "find_str p [] = (if p = [] then Some 0 else None)"
| "find_str p (c # s) =
     (if starts_with (c # s) p then Some 0 else map_option Suc (find_str p s))"

text \<open>\<^verbatim>\<open>str::split_once\<close> with a string.\<close>

definition split_once_str :: "rstr \<Rightarrow> rstr \<Rightarrow> (rstr \<times> rstr) option" where
  "split_once_str sep s = map_option (\<lambda>n. (take n s, drop (n + length sep) s)) (find_str sep s)"

definition contains_str :: "rstr \<Rightarrow> rstr \<Rightarrow> bool" where
  "contains_str s p \<longleftrightarrow> find_str p s \<noteq> None"

text \<open>\<^verbatim>\<open>str::split(c)\<close> for a single character: always at least one piece.\<close>

fun split_char :: "uchar \<Rightarrow> rstr \<Rightarrow> rstr list" where
  "split_char c [] = [[]]"
| "split_char c (d # s) =
     (if d = c then [] # split_char c s
      else (case split_char c s of [] \<Rightarrow> [[d]] | w # ws \<Rightarrow> (d # w) # ws))"

text \<open>\<^verbatim>\<open>[S]::join(sep)\<close>.\<close>

fun join_str :: "rstr \<Rightarrow> rstr list \<Rightarrow> rstr" where
  "join_str sep [] = []"
| "join_str sep [w] = w"
| "join_str sep (w # ws) = w @ sep @ join_str sep ws"

text \<open>
  \<^verbatim>\<open>str::lines\<close>: pieces ended by a line feed, with a carriage return just before
  the line feed removed; a last piece without a line feed is kept as it is, an
  empty last piece is dropped.
\<close>

definition strip_cr :: "rstr \<Rightarrow> rstr" where
  "strip_cr s = (if s \<noteq> [] \<and> last s = CR then butlast s else s)"

definition str_lines :: "rstr \<Rightarrow> rstr list" where
  "str_lines s =
     (let ps = split_char LF s
      in map strip_cr (butlast ps) @ (if last ps = [] then [] else [last ps]))"

text \<open>The decimal digits that formatting an unsigned number prints.\<close>

fun decimal :: "nat \<Rightarrow> rstr" where
  "decimal n = (if n < 10 then [48 + int n] else decimal (n div 10) @ [48 + int (n mod 10)])"

declare decimal.simps [simp del]

lemmas [str_defs] = rs_def is_whitespace_def trim_start_def trim_end_def trim_def
  starts_with_def ends_with_def strip_prefix_def strip_suffix_def

section \<open>Facts about the string operations\<close>

lemma starts_with_iff [str_facts]: "starts_with s p \<longleftrightarrow> (\<exists>t. s = p @ t)"
  unfolding starts_with_def by (metis append_eq_conv_conj append_take_drop_id)

lemma starts_with_prefix: "starts_with s p = prefix p s"
  by (auto simp: starts_with_iff prefix_def)

lemma ends_with_iff [str_facts]: "ends_with s p \<longleftrightarrow> (\<exists>t. s = t @ p)"
  unfolding ends_with_def
  by (metis append_eq_conv_conj append_take_drop_id diff_diff_cancel length_append
      length_drop le_add2 add_diff_cancel_right')

lemma strip_prefix_Some [str_facts]: "strip_prefix p s = Some t \<longleftrightarrow> s = p @ t"
  by (auto simp: strip_prefix_def starts_with_iff)

lemma strip_prefix_None: "strip_prefix p s = None \<longleftrightarrow> \<not> starts_with s p"
  by (simp add: strip_prefix_def)

lemma strip_prefix_append [simp]: "strip_prefix p (p @ t) = Some t"
  by (simp add: strip_prefix_Some)

lemma strip_prefix_single [simp]:
  "strip_prefix [c] (d # t) = (if c = d then Some t else None)"
  "strip_prefix [c] [] = None"
  by (auto simp: strip_prefix_def starts_with_def)

lemma split_once_Some: "split_once c s = Some (a, b) \<Longrightarrow> s = a @ c # b \<and> c \<notin> set a"
proof -
  assume h: "split_once c s = Some (a, b)"
  then obtain d where d: "dropWhile (\<lambda>d. d \<noteq> c) s = d # b" "a = takeWhile (\<lambda>d. d \<noteq> c) s"
    by (auto simp: split_once_def split: list.splits)
  then have "d = c" using hd_dropWhile [of "\<lambda>d. d \<noteq> c" s] by auto
  with d show ?thesis
    by (metis (mono_tags, lifting) set_takeWhileD takeWhile_dropWhile_id)
qed

lemma rsplit_once_Some: "rsplit_once c s = Some (a, b) \<Longrightarrow> s = a @ c # b \<and> c \<notin> set b"
  unfolding rsplit_once_def
  by (auto dest!: split_once_Some simp: rev_swap)

lemma trim_start_idem [simp]: "trim_start (trim_start s) = trim_start s"
  by (simp add: trim_start_def)

lemma trim_end_idem [simp]: "trim_end (trim_end s) = trim_end s"
  by (simp add: trim_end_def)

lemma trim_Nil [simp]: "trim_start [] = []" "trim_end [] = []" "trim [] = []"
  by (simp_all add: trim_start_def trim_end_def trim_def)

lemma trim_end_snoc:
  "trim_end (s @ [c]) = (if is_whitespace c then trim_end s else s @ [c])"
  by (simp add: trim_end_def)

lemma trim_end_decomp: "\<exists>w. s = trim_end s @ w \<and> (\<forall>c \<in> set w. is_whitespace c)"
  unfolding trim_end_def
  by (metis rev_append rev_rev_ident set_rev set_takeWhileD takeWhile_dropWhile_id)

lemma trim_start_decomp: "\<exists>w. s = w @ trim_start s \<and> (\<forall>c \<in> set w. is_whitespace c)"
  unfolding trim_start_def
  by (metis set_takeWhileD takeWhile_dropWhile_id)

lemma split_char_not_Nil [simp]: "split_char c s \<noteq> []"
  by (induction s) (auto split: list.splits)

lemma join_str_Cons: "ws \<noteq> [] \<Longrightarrow> join_str sep (w # ws) = w @ sep @ join_str sep ws"
  by (cases ws) auto

lemma join_split_char [simp]: "join_str [c] (split_char c s) = s"
proof (induction s)
  case Nil
  show ?case by simp
next
  case (Cons d s)
  obtain w ws where w: "split_char c s = w # ws"
    by (cases "split_char c s") auto
  from Cons w have "join_str [c] (w # ws) = s" by simp
  with w show ?case
    by (cases ws) (auto simp: join_str_Cons)
qed

lemma split_char_free: "c \<notin> set w \<Longrightarrow> split_char c w = [w]"
  by (induction w) auto

lemma split_char_append:
  "c \<notin> set w \<Longrightarrow> split_char c (w @ c # s) = w # split_char c s"
  by (induction w) auto

lemma split_char_append_sep: "split_char c (a @ c # b) = split_char c a @ split_char c b"
proof (induction a)
  case (Cons d a)
  then show ?case by (cases "split_char c a") auto
qed simp

lemma str_lines_terminated:
  assumes "a = [] \<or> last a = LF" "LF \<notin> set line"
  shows "str_lines (a @ line @ [LF]) = str_lines a @ [strip_cr line]"
proof -
  have line: "split_char LF (line @ [LF]) = [line, []]"
    using split_char_append_sep [of LF line "[]"] assms(2) by (simp add: split_char_free)
  show ?thesis
  proof (cases "a = []")
    case True
    then show ?thesis by (simp add: str_lines_def line)
  next
    case False
    with assms obtain b where b: "a = b @ [LF]" by (metis append_butlast_last_id)
    have "split_char LF (a @ line @ [LF]) = split_char LF b @ [line, []]"
      using split_char_append_sep [of LF b "line @ [LF]"] by (simp add: b line)
    moreover have "split_char LF a = split_char LF b @ [[]]"
      using split_char_append_sep [of LF b "[]"] by (simp add: b)
    ultimately show ?thesis by (simp add: str_lines_def butlast_append)
  qed
qed

lemma split_char_pieces: "w \<in> set (split_char c s) \<Longrightarrow> c \<notin> set w"
proof (induction s arbitrary: w)
  case Nil
  then show ?case by simp
next
  case (Cons d s)
  then show ?case
    by (cases "split_char c s") (auto split: if_splits)
qed

text \<open>Splitting undoes joining when no piece contains the separator.\<close>

lemma split_join_char:
  assumes "ws \<noteq> []" and "\<forall>w \<in> set ws. c \<notin> set w"
  shows "split_char c (join_str [c] ws) = ws"
  using assms
proof (induction ws rule: list_nonempty_induct)
  case (single w)
  then show ?case by (simp add: split_char_free)
next
  case (cons w ws)
  then show ?case by (simp add: join_str_Cons split_char_append)
qed

subsection \<open>Substring search\<close>

lemma find_str_Some_decomp:
  "find_str p s = Some n \<Longrightarrow> s = take n s @ p @ drop (n + length p) s"
proof (induction s arbitrary: n)
  case Nil
  then show ?case by (auto split: if_splits)
next
  case (Cons c s)
  show ?case
  proof (cases "starts_with (c # s) p")
    case True
    with Cons.prems have "n = 0" by simp
    with True show ?thesis
      by (metis add_0 append_eq_conv_conj append_take_drop_id self_append_conv2
          starts_with_def take_0)
  next
    case False
    with Cons.prems obtain m where "find_str p s = Some m" "n = Suc m" by auto
    with Cons.IH show ?thesis by auto
  qed
qed

lemma find_str_Some_bound: "find_str p s = Some n \<Longrightarrow> n + length p \<le> length s"
proof (induction s arbitrary: n)
  case Nil
  then show ?case by (auto split: if_splits)
next
  case (Cons c s)
  then show ?case
    by (auto split: if_splits simp: starts_with_iff)
      (metis length_Cons length_append le_add1)
qed

lemma find_str_least:
  "find_str p s = Some n \<Longrightarrow> m < n \<Longrightarrow> \<not> starts_with (drop m s) p"
proof (induction s arbitrary: n m)
  case Nil
  then show ?case by (auto split: if_splits)
next
  case (Cons c s)
  then obtain k where k: "find_str p s = Some k" "n = Suc k" "\<not> starts_with (c # s) p"
    by (auto split: if_splits)
  with Cons show ?case by (cases m) auto
qed

lemma find_str_None: "find_str p s = None \<longleftrightarrow> (\<forall>n \<le> length s. \<not> starts_with (drop n s) p)"
proof (induction s)
  case Nil
  show ?case by (auto simp: starts_with_def)
next
  case (Cons c s)
  show ?case
  proof (cases "starts_with (c # s) p")
    case True
    then show ?thesis by fastforce
  next
    case False
    have "(\<forall>n \<le> length (c # s). \<not> starts_with (drop n (c # s)) p)
        \<longleftrightarrow> (\<forall>n \<le> length s. \<not> starts_with (drop n s) p)"
    proof
      assume "\<forall>n \<le> length (c # s). \<not> starts_with (drop n (c # s)) p"
      then show "\<forall>n \<le> length s. \<not> starts_with (drop n s) p"
        by (metis Suc_le_mono drop_Suc_Cons length_Cons)
    next
      assume h: "\<forall>n \<le> length s. \<not> starts_with (drop n s) p"
      show "\<forall>n \<le> length (c # s). \<not> starts_with (drop n (c # s)) p"
      proof (intro allI impI)
        fix n assume "n \<le> length (c # s)"
        with h False show "\<not> starts_with (drop n (c # s)) p" by (cases n) auto
      qed
    qed
    with False Cons show ?thesis by simp
  qed
qed

lemma find_str_eqI:
  assumes "starts_with (drop n s) p" and "n \<le> length s"
    and "\<And>m. m < n \<Longrightarrow> \<not> starts_with (drop m s) p"
  shows "find_str p s = Some n"
proof (cases "find_str p s")
  case None
  with assms(1,2) show ?thesis by (simp add: find_str_None)
next
  case (Some k)
  then have "starts_with (drop k s) p"
    using find_str_Some_decomp [OF Some] find_str_Some_bound [OF Some]
    by (metis add_leD1 append_eq_conv_conj length_take min.absorb2 starts_with_iff)
  moreover have "\<not> k < n" using assms(3) calculation by blast
  moreover have "\<not> n < k" using find_str_least [OF Some] assms(1) by blast
  ultimately show ?thesis using Some by simp
qed

lemma split_once_str_append:
  "c \<notin> set a \<Longrightarrow> split_once_str (c # sep) (a @ (c # sep) @ b) = Some (a, b)"
proof -
  assume c: "c \<notin> set a"
  have "find_str (c # sep) (a @ (c # sep) @ b) = Some (length a)"
  proof (rule find_str_eqI)
    fix m assume "m < length a"
    then have "drop m (a @ (c # sep) @ b) = a ! m # drop (Suc m) a @ (c # sep) @ b"
      by (simp add: Cons_nth_drop_Suc [symmetric])
    with c \<open>m < length a\<close> show "\<not> starts_with (drop m (a @ (c # sep) @ b)) (c # sep)"
      by (auto simp: starts_with_iff)
  qed (auto simp: starts_with_iff)
  then show ?thesis by (simp add: split_once_str_def)
qed

end
