(* ===== verification/Patch_Parser.thy ===== *)
theory Patch_Parser
  imports Rust_Prelude
begin

text \<open>
  The apply-patch format: the hunk types and the boundary checks of
  \<^verbatim>\<open>apply-patch/src/parser.rs\<close> and the line-by-line state machine of
  \<^verbatim>\<open>apply-patch/src/streaming_parser.rs\<close>. A method that takes \<^verbatim>\<open>&mut self\<close> and may
  fail returns the state it leaves behind together with its result.
\<close>

section \<open>Patch format\<close>

definition BEGIN_PATCH_MARKER :: rstr where "BEGIN_PATCH_MARKER = rs ''*** Begin Patch''"
definition END_PATCH_MARKER :: rstr where "END_PATCH_MARKER = rs ''*** End Patch''"
definition ADD_FILE_MARKER :: rstr where "ADD_FILE_MARKER = rs ''*** Add File: ''"
definition DELETE_FILE_MARKER :: rstr where "DELETE_FILE_MARKER = rs ''*** Delete File: ''"
definition UPDATE_FILE_MARKER :: rstr where "UPDATE_FILE_MARKER = rs ''*** Update File: ''"
definition MOVE_TO_MARKER :: rstr where "MOVE_TO_MARKER = rs ''*** Move to: ''"
definition EOF_MARKER :: rstr where "EOF_MARKER = rs ''*** End of File''"
definition CHANGE_CONTEXT_MARKER :: rstr where "CHANGE_CONTEXT_MARKER = rs ''@@ ''"
definition EMPTY_CHANGE_CONTEXT_MARKER :: rstr where "EMPTY_CHANGE_CONTEXT_MARKER = rs ''@@''"
definition ENVIRONMENT_ID_MARKER :: rstr where "ENVIRONMENT_ID_MARKER = rs ''*** Environment ID:''"

lemmas marker_defs = BEGIN_PATCH_MARKER_def END_PATCH_MARKER_def ADD_FILE_MARKER_def
  DELETE_FILE_MARKER_def UPDATE_FILE_MARKER_def MOVE_TO_MARKER_def EOF_MARKER_def
  CHANGE_CONTEXT_MARKER_def EMPTY_CHANGE_CONTEXT_MARKER_def ENVIRONMENT_ID_MARKER_def

datatype parse_error =
  InvalidPatchError rstr
| InvalidHunkError rstr nat

record update_file_chunk =
  change_context :: "rstr option"
  old_lines :: "rstr list"
  new_lines :: "rstr list"
  is_end_of_file :: bool

datatype hunk =
  AddFile (add_path: rstr) (add_contents: rstr)
| DeleteFile (delete_path: rstr)
| UpdateFile (update_path: rstr) (update_move_path: "rstr option")
    (update_chunks: "update_file_chunk list")

text \<open>\<^verbatim>\<open>Hunk::path\<close>: the path a hunk affects, the destination for a rename.\<close>

fun hunk_path :: "hunk \<Rightarrow> rstr" where
  "hunk_path (AddFile p _) = p"
| "hunk_path (DeleteFile p) = p"
| "hunk_path (UpdateFile p (Some m) _) = m"
| "hunk_path (UpdateFile p None _) = p"

text \<open>
  \<^verbatim>\<open>Hunk::resolve_path\<close>: the path that is read, joined to the working directory
  (\<^verbatim>\<open>PathUri::join\<close> is the argument \<open>join\<close>).
\<close>

fun hunk_resolve_path :: "('cwd \<Rightarrow> rstr \<Rightarrow> ('e, 'p) result) \<Rightarrow> 'cwd \<Rightarrow> hunk \<Rightarrow> ('e, 'p) result" where
  "hunk_resolve_path join cwd (UpdateFile p _ _) = join cwd p"
| "hunk_resolve_path join cwd h = join cwd (hunk_path h)"

record apply_patch_args =
  args_patch :: rstr
  args_hunks :: "hunk list"
  args_workdir :: "rstr option"
  args_environment_id :: "rstr option"

section \<open>The streaming parser\<close>

datatype streaming_parser_mode =
  NotStarted | StartedPatch | InAddFile | InDeleteFile
| InUpdateFile (hunk_line_number: nat)
| EndedPatch

record streaming_parser_state =
  mode :: streaming_parser_mode
  hunks :: "hunk list"
  environment_id :: "rstr option"

record streaming_patch_parser =
  line_buffer :: rstr
  state :: streaming_parser_state
  line_number :: nat

definition default_parser :: streaming_patch_parser where
  "default_parser =
     \<lparr>line_buffer = [], state = \<lparr>mode = NotStarted, hunks = [], environment_id = None\<rparr>,
      line_number = 0\<rparr>"

abbreviation set_mode :: "streaming_parser_mode \<Rightarrow> streaming_patch_parser \<Rightarrow> streaming_patch_parser" where
  "set_mode m p \<equiv> p\<lparr>state := (state p)\<lparr>mode := m\<rparr>\<rparr>"

abbreviation set_hunks :: "hunk list \<Rightarrow> streaming_patch_parser \<Rightarrow> streaming_patch_parser" where
  "set_hunks hs p \<equiv> p\<lparr>state := (state p)\<lparr>hunks := hs\<rparr>\<rparr>"

definition last_opt :: "'a list \<Rightarrow> 'a option" where
  "last_opt xs = (if xs = [] then None else Some (last xs))"

definition chunk_is_empty :: "update_file_chunk \<Rightarrow> bool" where
  "chunk_is_empty c \<longleftrightarrow> old_lines c = [] \<and> new_lines c = []"

definition last_chunk_is :: "(update_file_chunk \<Rightarrow> bool) \<Rightarrow> update_file_chunk list \<Rightarrow> bool" where
  "last_chunk_is P cs \<longleftrightarrow> (case last_opt cs of None \<Rightarrow> False | Some c \<Rightarrow> P c)"

definition msg_empty_update :: "rstr \<Rightarrow> rstr" where
  "msg_empty_update path = rs ''Update file hunk for path '' @ [39] @ path @ [39] @ rs '' is empty''"

definition msg_unexpected_line :: "rstr \<Rightarrow> rstr" where
  "msg_unexpected_line line = rs ''Unexpected line found in update hunk: '' @ [39] @ line @ [39]
     @ rs ''. Every line should start with '' @ [39, 32, 39] @ rs '' (context line), ''
     @ [39, 43, 39] @ rs '' (added line), or '' @ [39, 45, 39] @ rs '' (removed line)''"

definition msg_not_header :: "rstr \<Rightarrow> rstr" where
  "msg_not_header trimmed = [39] @ trimmed @ [39]
     @ rs '' is not a valid hunk header. Valid hunk headers: '' @ [39] @ rs ''*** Add File: {path}''
     @ [39] @ rs '', '' @ [39] @ rs ''*** Delete File: {path}'' @ [39] @ rs '', '' @ [39]
     @ rs ''*** Update File: {path}'' @ [39]"

definition msg_expected_context :: "rstr \<Rightarrow> rstr" where
  "msg_expected_context line = rs ''Expected update hunk to start with a @@ context marker, got: ''
     @ [39] @ line @ [39]"

definition msg_first_line :: rstr where
  "msg_first_line = rs ''The first line of the patch must be '' @ [39] @ BEGIN_PATCH_MARKER @ [39]"

definition msg_last_line :: rstr where
  "msg_last_line = rs ''The last line of the patch must be '' @ [39] @ END_PATCH_MARKER @ [39]"

definition ensure_update_hunk_is_not_empty ::
  "streaming_patch_parser \<Rightarrow> rstr \<Rightarrow> (parse_error, unit) result" where
  "ensure_update_hunk_is_not_empty p line =
     (case last_opt (hunks (state p)) of
        Some (UpdateFile path _ chunks) \<Rightarrow>
          (case (chunks, mode (state p)) of
             ([], InUpdateFile n) \<Rightarrow> Err (InvalidHunkError (msg_empty_update path) n)
           | _ \<Rightarrow>
             if last_chunk_is chunk_is_empty chunks then
               (if line = END_PATCH_MARKER
                then Err (InvalidHunkError (rs ''Update hunk does not contain any lines'') (line_number p))
                else Err (InvalidHunkError (msg_unexpected_line line) (line_number p)))
             else Ok ())
      | _ \<Rightarrow> Ok ())"

text \<open>
  \<^verbatim>\<open>handle_hunk_headers_and_end_patch\<close>: \<open>Ok (p, True)\<close> when the line was a header or
  the end marker. No field is assigned before an error is returned.
\<close>

definition handle_hunk_headers_and_end_patch ::
  "streaming_patch_parser \<Rightarrow> rstr \<Rightarrow> (parse_error, streaming_patch_parser \<times> bool) result" where
  "handle_hunk_headers_and_end_patch p trimmed =
     (case (if mode (state p) = StartedPatch then strip_prefix ENVIRONMENT_ID_MARKER trimmed
            else None) of
        Some eid \<Rightarrow>
          if environment_id (state p) \<noteq> None then
            Err (InvalidPatchError (rs ''apply_patch environment_id cannot be specified more than once''))
          else if trim eid = [] then
            Err (InvalidPatchError (rs ''apply_patch environment_id cannot be empty''))
          else Ok (p\<lparr>state := (state p)\<lparr>environment_id := Some (trim eid)\<rparr>\<rparr>, True)
      | None \<Rightarrow>
     if trimmed = END_PATCH_MARKER then
       result_map (\<lambda>_. (set_mode EndedPatch p, True)) (ensure_update_hunk_is_not_empty p trimmed)
     else
     case strip_prefix ADD_FILE_MARKER trimmed of
       Some path \<Rightarrow>
         result_map (\<lambda>_. (set_mode InAddFile (set_hunks (hunks (state p) @ [AddFile path []]) p), True))
           (ensure_update_hunk_is_not_empty p trimmed)
     | None \<Rightarrow>
     (case strip_prefix DELETE_FILE_MARKER trimmed of
       Some path \<Rightarrow>
         result_map (\<lambda>_. (set_mode InDeleteFile (set_hunks (hunks (state p) @ [DeleteFile path]) p), True))
           (ensure_update_hunk_is_not_empty p trimmed)
     | None \<Rightarrow>
     (case strip_prefix UPDATE_FILE_MARKER trimmed of
       Some path \<Rightarrow>
         result_map (\<lambda>_. (set_mode (InUpdateFile (line_number p))
             (set_hunks (hunks (state p) @ [UpdateFile path None []]) p), True))
           (ensure_update_hunk_is_not_empty p trimmed)
     | None \<Rightarrow> Ok (p, False))))"

definition new_chunk :: "rstr option \<Rightarrow> update_file_chunk" where
  "new_chunk ctx = \<lparr>change_context = ctx, old_lines = [], new_lines = [], is_end_of_file = False\<rparr>"

text \<open>\<^verbatim>\<open>if chunks.is_empty()\<close> push an empty chunk; then change the last one.\<close>

definition update_last_chunk ::
  "(update_file_chunk \<Rightarrow> update_file_chunk) \<Rightarrow> update_file_chunk list \<Rightarrow> update_file_chunk list" where
  "update_last_chunk f chunks =
     (let cs = (if chunks = [] then [new_chunk None] else chunks) in butlast cs @ [f (last cs)])"

definition push_old :: "rstr \<Rightarrow> update_file_chunk \<Rightarrow> update_file_chunk" where
  "push_old l c = c\<lparr>old_lines := old_lines c @ [l]\<rparr>"

definition push_new :: "rstr \<Rightarrow> update_file_chunk \<Rightarrow> update_file_chunk" where
  "push_new l c = c\<lparr>new_lines := new_lines c @ [l]\<rparr>"

definition is_context_marker :: "rstr \<Rightarrow> bool" where
  "is_context_marker l \<longleftrightarrow> l = EMPTY_CHANGE_CONTEXT_MARKER \<or> starts_with l CHANGE_CONTEXT_MARKER"

text \<open>
  The body of the \<^verbatim>\<open>UpdateFile\<close> arm of \<^verbatim>\<open>process_line\<close> once no header matched, for
  the \<^verbatim>\<open>move_path\<close> and \<^verbatim>\<open>chunks\<close> of the last hunk: the new values, or an error.
\<close>

definition process_update_line ::
  "nat \<Rightarrow> rstr \<Rightarrow> rstr option \<Rightarrow> update_file_chunk list
     \<Rightarrow> (parse_error, rstr option \<times> update_file_chunk list) result" where
  "process_update_line ln line move_path chunks =
     (let update_line = trim_end line in
      if last_chunk_is is_end_of_file chunks \<and> update_line = [] then Ok (move_path, chunks)
      else if last_chunk_is is_end_of_file chunks \<and> \<not> is_context_marker update_line then
        Err (InvalidHunkError (msg_expected_context line) ln)
      else if chunks = [] \<and> move_path = None \<and> strip_prefix MOVE_TO_MARKER update_line \<noteq> None then
        Ok (strip_prefix MOVE_TO_MARKER update_line, chunks)
      else if is_context_marker update_line \<and> last_chunk_is chunk_is_empty chunks then
        Err (InvalidHunkError (msg_unexpected_line line) ln)
      else if update_line = EMPTY_CHANGE_CONTEXT_MARKER then
        Ok (move_path, chunks @ [new_chunk None])
      else case strip_prefix CHANGE_CONTEXT_MARKER update_line of
        Some ctx \<Rightarrow> Ok (move_path, chunks @ [new_chunk (Some ctx)])
      | None \<Rightarrow>
      if update_line = EOF_MARKER then
        (if last_chunk_is chunk_is_empty chunks
         then Err (InvalidHunkError (rs ''Update hunk does not contain any lines'') ln)
         else if chunks = [] then Ok (move_path, chunks)
         else Ok (move_path, butlast chunks @ [(last chunks)\<lparr>is_end_of_file := True\<rparr>]))
      else if line = [] then
        Ok (move_path, update_last_chunk (push_new [] \<circ> push_old []) chunks)
      else case strip_prefix [32] line of
        Some l \<Rightarrow> Ok (move_path, update_last_chunk (push_new l \<circ> push_old l) chunks)
      | None \<Rightarrow>
      (case strip_prefix [43] line of
        Some l \<Rightarrow> Ok (move_path, update_last_chunk (push_new l) chunks)
      | None \<Rightarrow>
      (case strip_prefix [45] line of
        Some l \<Rightarrow> Ok (move_path, update_last_chunk (push_old l) chunks)
      | None \<Rightarrow>
      if last_chunk_is (\<lambda>c. \<not> chunk_is_empty c) chunks then
        Err (InvalidHunkError (msg_expected_context line) ln)
      else Err (InvalidHunkError (msg_unexpected_line line) ln))))"

text \<open>
  \<^verbatim>\<open>process_line\<close>; an error leaves the parser as it was. The assignments
  \<^verbatim>\<open>self.state.mode = UpdateFile { hunk_line_number }\<close> of the update arm store the
  value the mode already has.
\<close>

definition process_line ::
  "streaming_patch_parser \<Rightarrow> rstr \<Rightarrow> (parse_error, streaming_patch_parser) result" where
  "process_line p line =
     (let trimmed = trim line in
      case mode (state p) of
        NotStarted \<Rightarrow>
          if trimmed = BEGIN_PATCH_MARKER then Ok (set_mode StartedPatch p)
          else Err (InvalidPatchError msg_first_line)
      | StartedPatch \<Rightarrow>
          bind_result (handle_hunk_headers_and_end_patch p trimmed) (\<lambda>(p', handled).
            if handled then Ok p'
            else Err (InvalidHunkError (msg_not_header trimmed) (line_number p)))
      | InAddFile \<Rightarrow>
          bind_result (handle_hunk_headers_and_end_patch p trimmed) (\<lambda>(p', handled).
            if handled then Ok p'
            else case (strip_prefix [43] line, last_opt (hunks (state p))) of
              (Some l, Some (AddFile path contents)) \<Rightarrow>
                Ok (set_hunks (butlast (hunks (state p)) @ [AddFile path (contents @ l @ [LF])]) p)
            | _ \<Rightarrow> Err (InvalidHunkError (msg_not_header trimmed) (line_number p)))
      | InDeleteFile \<Rightarrow>
          bind_result (handle_hunk_headers_and_end_patch p trimmed) (\<lambda>(p', handled).
            if handled then Ok p'
            else Err (InvalidHunkError (msg_not_header trimmed) (line_number p)))
      | InUpdateFile n \<Rightarrow>
          bind_result (handle_hunk_headers_and_end_patch p (trim_end line)) (\<lambda>(p', handled).
            if handled then Ok p'
            else case last_opt (hunks (state p)) of
              Some (UpdateFile path move_path chunks) \<Rightarrow>
                result_map (\<lambda>(mv, cs). set_hunks (butlast (hunks (state p)) @ [UpdateFile path mv cs]) p)
                  (process_update_line (line_number p) line move_path chunks)
            | _ \<Rightarrow> Err (InvalidHunkError (msg_unexpected_line line) (line_number p)))
      | EndedPatch \<Rightarrow>
          if trimmed = [] then Ok p else Err (InvalidPatchError msg_last_line))"

text \<open>
  \<^verbatim>\<open>push_delta\<close>: the parser afterwards and the result. On an error the parser has
  taken the failing line out of its buffer and counted it.
\<close>

fun push_delta ::
  "streaming_patch_parser \<Rightarrow> rstr \<Rightarrow> streaming_patch_parser \<times> (parse_error, hunk list) result" where
  "push_delta p [] = (p, Ok (hunks (state p)))"
| "push_delta p (ch # delta) =
     (if ch = LF then
        let line = strip_cr (line_buffer p);
            p' = p\<lparr>line_buffer := [], line_number := Suc (line_number p)\<rparr>
        in (case process_line p' line of
              Err e \<Rightarrow> (p', Err e)
            | Ok p'' \<Rightarrow> push_delta p'' delta)
      else push_delta (p\<lparr>line_buffer := line_buffer p @ [ch]\<rparr>) delta)"

definition finish_last_line ::
  "streaming_patch_parser \<Rightarrow> streaming_patch_parser \<times> (parse_error, unit) result" where
  "finish_last_line p =
     (if line_buffer p = [] then (p, Ok ())
      else
        let line = line_buffer p;
            p' = p\<lparr>line_buffer := [], line_number := Suc (line_number p)\<rparr>
        in if trim line = END_PATCH_MARKER then
             (case ensure_update_hunk_is_not_empty p' (trim line) of
                Err e \<Rightarrow> (p', Err e)
              | Ok _ \<Rightarrow> (set_mode EndedPatch p', Ok ()))
           else
             (case process_line p' line of
                Err e \<Rightarrow> (p', Err e)
              | Ok p'' \<Rightarrow> (p'', Ok ())))"

definition parser_finish ::
  "streaming_patch_parser \<Rightarrow> streaming_patch_parser \<times> (parse_error, hunk list) result" where
  "parser_finish p =
     (case finish_last_line p of
        (p', Err e) \<Rightarrow> (p', Err e)
      | (p', Ok _) \<Rightarrow>
          if mode (state p') \<noteq> EndedPatch then (p', Err (InvalidPatchError msg_last_line))
          else (p', Ok (hunks (state p'))))"

section \<open>Whole patches\<close>

datatype parse_mode = Strict | Lenient

definition PARSE_IN_STRICT_MODE :: bool where "PARSE_IN_STRICT_MODE = False"

definition check_start_and_end_lines_strict ::
  "rstr option \<Rightarrow> rstr option \<Rightarrow> (parse_error, unit) result" where
  "check_start_and_end_lines_strict first_line last_line =
     (case (map_option trim first_line, map_option trim last_line) of
        (Some first, Some l) \<Rightarrow>
          if first = BEGIN_PATCH_MARKER \<and> l = END_PATCH_MARKER then Ok ()
          else if first \<noteq> BEGIN_PATCH_MARKER then Err (InvalidPatchError msg_first_line)
          else Err (InvalidPatchError msg_last_line)
      | (Some first, None) \<Rightarrow>
          if first \<noteq> BEGIN_PATCH_MARKER then Err (InvalidPatchError msg_first_line)
          else Err (InvalidPatchError msg_last_line)
      | _ \<Rightarrow> Err (InvalidPatchError msg_last_line))"

definition check_patch_boundaries_strict :: "rstr list \<Rightarrow> (parse_error, rstr list) result" where
  "check_patch_boundaries_strict lines =
     result_map (\<lambda>_. lines)
       (case lines of
          [] \<Rightarrow> check_start_and_end_lines_strict None None
        | first # _ \<Rightarrow> check_start_and_end_lines_strict (Some first) (Some (last lines)))"

definition check_patch_boundaries_lenient :: "rstr list \<Rightarrow> (parse_error, rstr list) result" where
  "check_patch_boundaries_lenient original_lines =
     (case check_patch_boundaries_strict original_lines of
        Ok lines \<Rightarrow> Ok lines
      | Err original_parse_error \<Rightarrow>
          (case original_lines of
             first # second # rest \<Rightarrow>
               if first \<in> {rs ''<<EOF'', rs ''<<'' @ [39] @ rs ''EOF'' @ [39], rs ''<<'' @ [34] @ rs ''EOF'' @ [34]}
                  \<and> ends_with (last original_lines) (rs ''EOF'') \<and> 4 \<le> length original_lines
               then check_patch_boundaries_strict (butlast (tl original_lines))
               else Err original_parse_error
           | _ \<Rightarrow> Err original_parse_error))"

definition parse_patch_text :: "rstr \<Rightarrow> parse_mode \<Rightarrow> (parse_error, apply_patch_args) result" where
  "parse_patch_text patch m =
     (let lines = str_lines (trim patch) in
      bind_result
        (case m of Strict \<Rightarrow> check_patch_boundaries_strict lines
                 | Lenient \<Rightarrow> check_patch_boundaries_lenient lines)
        (\<lambda>patch_lines.
           let patch' = join_str [LF] patch_lines in
           case push_delta default_parser patch' of
             (_, Err e) \<Rightarrow> Err e
           | (parser, Ok _) \<Rightarrow>
               (case parser_finish parser of
                  (_, Err e) \<Rightarrow> Err e
                | (parser', Ok hs) \<Rightarrow>
                    Ok \<lparr>args_patch = patch', args_hunks = hs, args_workdir = None,
                        args_environment_id = environment_id (state parser')\<rparr>)))"

definition parse_patch :: "rstr \<Rightarrow> (parse_error, apply_patch_args) result" where
  "parse_patch patch = parse_patch_text patch (if PARSE_IN_STRICT_MODE then Strict else Lenient)"

end
