(* ===== verification/Patch_Invariants.thy ===== *)
theory Patch_Invariants
  imports Patch_Parser
begin

text \<open>
  The invariant of the streaming patch parser, its preservation by every line,
  and what it gives for the hunks of an accepted patch; chunked and one-shot
  feeding agree; errors carry a line number of the text that was read.
\<close>

section \<open>The invariant\<close>

text \<open>A finished hunk: an update has chunks, and each of them has lines.\<close>

fun hunk_complete :: "hunk \<Rightarrow> bool" where
  "hunk_complete (UpdateFile _ _ cs) \<longleftrightarrow> cs \<noteq> [] \<and> (\<forall>c \<in> set cs. \<not> chunk_is_empty c)"
| "hunk_complete (AddFile _ contents) \<longleftrightarrow> contents = [] \<or> last contents = LF"
| "hunk_complete (DeleteFile _) \<longleftrightarrow> True"

definition chunks_ok :: "update_file_chunk list \<Rightarrow> bool" where
  "chunks_ok cs \<longleftrightarrow> (\<forall>c \<in> set (butlast cs). \<not> chunk_is_empty c)"

text \<open>The hunk under construction fits the mode.\<close>

fun mode_hunk_ok :: "nat \<Rightarrow> streaming_parser_mode \<Rightarrow> hunk \<Rightarrow> bool" where
  "mode_hunk_ok ln InAddFile (AddFile _ c) \<longleftrightarrow> c = [] \<or> last c = LF"
| "mode_hunk_ok ln InDeleteFile (DeleteFile _) \<longleftrightarrow> True"
| "mode_hunk_ok ln (InUpdateFile n) (UpdateFile _ _ cs) \<longleftrightarrow> chunks_ok cs \<and> 1 \<le> n \<and> n \<le> ln"
| "mode_hunk_ok ln EndedPatch h \<longleftrightarrow> hunk_complete h"
| "mode_hunk_ok ln _ _ \<longleftrightarrow> False"

definition parser_inv :: "streaming_patch_parser \<Rightarrow> bool" where
  "parser_inv p \<longleftrightarrow>
     (\<forall>h \<in> set (butlast (hunks (state p))). hunk_complete h) \<and>
     (if hunks (state p) = [] then mode (state p) \<in> {NotStarted, StartedPatch, EndedPatch}
      else mode_hunk_ok (line_number p) (mode (state p)) (last (hunks (state p))))"

lemma parser_inv_default: "parser_inv default_parser"
  by (simp add: parser_inv_def default_parser_def)

section \<open>Chunks\<close>

lemma butlast_snoc_last: "xs \<noteq> [] \<Longrightarrow> \<exists>ys y. xs = ys @ [y]"
  by (metis append_butlast_last_id)

lemma chunks_ok_snoc [simp]:
  "chunks_ok (cs @ [c]) \<longleftrightarrow> (\<forall>d \<in> set cs. \<not> chunk_is_empty d)"
  by (simp add: chunks_ok_def)

lemma chunks_ok_small [simp]: "chunks_ok []" "chunks_ok [c]"
  by (simp_all add: chunks_ok_def)

lemma last_chunk_is_Nil [simp]: "\<not> last_chunk_is P []"
  by (simp add: last_chunk_is_def last_opt_def)

lemma last_chunk_is_snoc [simp]: "last_chunk_is P (cs @ [c]) \<longleftrightarrow> P c"
  by (simp add: last_chunk_is_def last_opt_def)

lemma last_opt_snoc [simp]: "last_opt (xs @ [x]) = Some x" "last_opt [] = None"
  by (simp_all add: last_opt_def)

lemma last_opt_Some: "last_opt xs = Some x \<longleftrightarrow> xs \<noteq> [] \<and> last xs = x"
  by (auto simp: last_opt_def)

lemma chunks_complete:
  "chunks_ok cs \<Longrightarrow> \<not> last_chunk_is chunk_is_empty cs \<Longrightarrow> c \<in> set cs \<Longrightarrow> \<not> chunk_is_empty c"
  by (cases cs rule: rev_cases) auto

lemma update_last_chunk_simps [simp]:
  "update_last_chunk f [] = [f (new_chunk None)]"
  "update_last_chunk f (cs @ [c]) = cs @ [f c]"
  by (simp_all add: update_last_chunk_def Let_def)

lemma chunks_ok_update_last [simp]: "chunks_ok (update_last_chunk f cs) = chunks_ok cs"
  by (cases cs rule: rev_cases) (simp_all add: chunks_ok_def)

lemma context_marker_intros:
  "is_context_marker EMPTY_CHANGE_CONTEXT_MARKER"
  "strip_prefix CHANGE_CONTEXT_MARKER l = Some c \<Longrightarrow> is_context_marker l"
  by (auto simp: is_context_marker_def strip_prefix_def split: if_splits)

lemma process_update_line_chunks_ok:
  assumes "process_update_line ln line mv cs = Ok (mv', cs')" and "chunks_ok cs"
  shows "chunks_ok cs'"
proof (cases cs rule: rev_cases)
  case Nil
  from assms(1) show ?thesis
    unfolding process_update_line_def Let_def Nil
    by (simp split: if_split_asm option.split_asm; clarsimp)
next
  case (snoc ds d)
  from assms show ?thesis
    unfolding process_update_line_def Let_def snoc
    by (auto split: if_split_asm option.split_asm dest: context_marker_intros(2)
        simp: context_marker_intros(1) chunks_ok_def butlast_append)
qed
section \<open>Preservation\<close>

lemma ensure_complete:
  assumes "ensure_update_hunk_is_not_empty p l = Ok u" and "parser_inv p"
    and "hunks (state p) \<noteq> []"
  shows "\<forall>h \<in> set (hunks (state p)). hunk_complete h"
proof -
  obtain hs h where hs: "hunks (state p) = hs @ [h]"
    using assms(3) by (cases "hunks (state p)" rule: rev_cases) auto
  with assms(2) have m: "mode_hunk_ok (line_number p) (mode (state p)) h"
    and b: "\<forall>h \<in> set hs. hunk_complete h"
    by (simp_all add: parser_inv_def)
  have "hunk_complete h"
  proof (cases h)
    case (UpdateFile path mv cs)
    with m consider n where "mode (state p) = InUpdateFile n" "chunks_ok cs"
      | "mode (state p) = EndedPatch" "hunk_complete h"
      by (cases "mode (state p)") auto
    then show ?thesis
    proof cases
      case 1
      with assms(1) hs UpdateFile show ?thesis
        by (auto simp: ensure_update_hunk_is_not_empty_def dest: chunks_complete
            split: list.splits if_splits)
    qed simp
  next
    case (AddFile path c)
    with m show ?thesis by (cases "mode (state p)") auto
  qed simp
  with b hs show ?thesis by simp
qed

lemma ensure_complete':
  assumes "ensure_update_hunk_is_not_empty p l = Ok u" and "parser_inv p"
  shows "\<forall>h \<in> set (hunks (state p)). hunk_complete h"
  using ensure_complete [OF assms] by (cases "hunks (state p) = []") auto

lemma parser_inv_push:
  assumes "\<forall>h \<in> set (hunks (state p)). hunk_complete h" and "mode_hunk_ok (line_number p) m h"
  shows "parser_inv (p\<lparr>state := (state p)\<lparr>hunks := hunks (state p) @ [h], mode := m\<rparr>\<rparr>)"
  using assms by (simp add: parser_inv_def)

lemma parser_inv_ended:
  assumes "\<forall>h \<in> set (hunks (state p)). hunk_complete h"
  shows "parser_inv (set_mode EndedPatch p)"
  using assms by (auto simp: parser_inv_def dest: in_set_butlastD)

lemma parser_inv_env [simp]:
  "parser_inv (p\<lparr>state := (state p)\<lparr>environment_id := e\<rparr>\<rparr>) = parser_inv p"
  by (simp add: parser_inv_def)

lemma handle_headers_inv:
  assumes "handle_hunk_headers_and_end_patch p t = Ok (p', b)" and "parser_inv p"
    and "1 \<le> line_number p"
  shows "parser_inv p' \<and> line_number p' = line_number p \<and> line_buffer p' = line_buffer p
      \<and> (\<not> b \<longrightarrow> p' = p)"
proof -
  have inv: "parser_inv (p\<lparr>state := (state p)\<lparr>hunks := hunks (state p) @ [h], mode := m\<rparr>\<rparr>)"
    if "ensure_update_hunk_is_not_empty p t = Ok u" "mode_hunk_ok (line_number p) m h" for u m h
    using that assms(2) by (intro parser_inv_push ensure_complete')
  have ended: "parser_inv (set_mode EndedPatch p)"
    if "ensure_update_hunk_is_not_empty p t = Ok u" for u
    using that assms(2) by (intro parser_inv_ended ensure_complete')
  from assms show ?thesis
    unfolding handle_hunk_headers_and_end_patch_def
    by (simp split: option.split_asm if_split_asm add: result_map_eq;
        elim conjE; clarsimp simp: inv ended)
qed

lemma process_line_inv:
  assumes "process_line p line = Ok p'" and "parser_inv p" and "1 \<le> line_number p"
  shows "parser_inv p' \<and> line_number p' = line_number p \<and> line_buffer p' = line_buffer p"
proof -
  have handled: "parser_inv p'
        \<and> line_number p' = line_number p \<and> line_buffer p' = line_buffer p"
    if "bind_result (handle_hunk_headers_and_end_patch p t)
          (\<lambda>(q, b). if b then Ok q else f q) = Ok p'"
      and "f p = Ok p' \<Longrightarrow> parser_inv p'
        \<and> line_number p' = line_number p \<and> line_buffer p' = line_buffer p"
    for t and f :: "streaming_patch_parser \<Rightarrow> (parse_error, streaming_patch_parser) result"
  proof (cases "handle_hunk_headers_and_end_patch p t")
    case (Err e)
    with that(1) show ?thesis by simp
  next
    case (Ok r)
    obtain q b where r: "r = (q, b)" by (cases r)
    with that Ok handle_headers_inv [OF _ assms(2,3), of t q b] show ?thesis
      by (cases b) auto
  qed
  show ?thesis
  proof (cases "mode (state p)")
    case NotStarted
    with assms show ?thesis
      by (auto simp: process_line_def parser_inv_def Let_def split: if_splits)
  next
    case StartedPatch
    with assms(1) have "bind_result (handle_hunk_headers_and_end_patch p (trim line)) (\<lambda>(q, b).
        if b then Ok q else Err (InvalidHunkError (msg_not_header (trim line)) (line_number p))) = Ok p'"
      by (simp add: process_line_def Let_def)
    then show ?thesis by (rule handled) simp
  next
    case InAddFile
    have add: "parser_inv q \<and> line_number q = line_number p \<and> line_buffer q = line_buffer p"
      if "(case (strip_prefix [43] line, last_opt (hunks (state p))) of
             (Some l, Some (AddFile path contents)) \<Rightarrow>
                Ok (set_hunks (butlast (hunks (state p)) @ [AddFile path (contents @ l @ [LF])]) p)
           | _ \<Rightarrow> Err e) = Ok q" for q and e :: parse_error
      using that assms(2) InAddFile
      by (auto simp: parser_inv_def last_opt_Some split: option.splits hunk.splits)
    let ?add = "case (strip_prefix [43] line, last_opt (hunks (state p))) of
         (Some l, Some (AddFile path contents)) \<Rightarrow>
            Ok (set_hunks (butlast (hunks (state p)) @ [AddFile path (contents @ l @ [LF])]) p)
       | _ \<Rightarrow> Err (InvalidHunkError (msg_not_header (trim line)) (line_number p))"
    from InAddFile assms(1) have "bind_result (handle_hunk_headers_and_end_patch p (trim line))
        (\<lambda>(q, b). if b then Ok q else ?add) = Ok p'"
      by (simp add: process_line_def Let_def)
    then show ?thesis by (rule handled) (rule add)
  next
    case InDeleteFile
    with assms(1) have "bind_result (handle_hunk_headers_and_end_patch p (trim line)) (\<lambda>(q, b).
        if b then Ok q else Err (InvalidHunkError (msg_not_header (trim line)) (line_number p))) = Ok p'"
      by (simp add: process_line_def Let_def)
    then show ?thesis by (rule handled) simp
  next
    case (InUpdateFile n)
    have upd: "parser_inv q \<and> line_number q = line_number p \<and> line_buffer q = line_buffer p"
      if "result_map (\<lambda>(mv, cs). set_hunks (butlast (hunks (state p)) @ [UpdateFile path mv cs]) p)
            (process_update_line (line_number p) line mv cs) = Ok q"
        and "hunks (state p) \<noteq> []" "last (hunks (state p)) = UpdateFile path mv cs"
      for q path mv cs
      using that assms(2) InUpdateFile
      by (cases "process_update_line (line_number p) line mv cs")
        (auto simp: parser_inv_def dest: process_update_line_chunks_ok)
    have last: "parser_inv q \<and> line_number q = line_number p \<and> line_buffer q = line_buffer p"
      if "(case last_opt (hunks (state p)) of
              Some (UpdateFile path move_path chunks) \<Rightarrow>
                result_map (\<lambda>(mv, cs). set_hunks (butlast (hunks (state p)) @ [UpdateFile path mv cs]) p)
                  (process_update_line (line_number p) line move_path chunks)
            | _ \<Rightarrow> Err e) = Ok q" for q and e :: parse_error
      using that upd [of _ _ _ q]
      by (simp add: last_opt_def split: if_split_asm hunk.split_asm)
    let ?upd = "case last_opt (hunks (state p)) of
         Some (UpdateFile path move_path chunks) \<Rightarrow>
           result_map (\<lambda>(mv, cs). set_hunks (butlast (hunks (state p)) @ [UpdateFile path mv cs]) p)
             (process_update_line (line_number p) line move_path chunks)
       | _ \<Rightarrow> Err (InvalidHunkError (msg_unexpected_line line) (line_number p))"
    from InUpdateFile assms(1) have "bind_result (handle_hunk_headers_and_end_patch p (trim_end line))
        (\<lambda>(q, b). if b then Ok q else ?upd) = Ok p'"
      by (simp add: process_line_def Let_def)
    then show ?thesis by (rule handled) (rule last)
  next
    case EndedPatch
    with assms show ?thesis
      by (auto simp: process_line_def Let_def split: if_splits)
  qed
qed

lemma parser_inv_buffer [simp]: "parser_inv (p\<lparr>line_buffer := b\<rparr>) = parser_inv p"
  by (simp add: parser_inv_def)

lemma parser_inv_next_line: "parser_inv p \<Longrightarrow> parser_inv (p\<lparr>line_buffer := b, line_number := Suc (line_number p)\<rparr>)"
proof -
  have "mode_hunk_ok ln m h \<Longrightarrow> mode_hunk_ok (Suc ln) m h" for ln m h
    by (cases "(ln, m, h)" rule: mode_hunk_ok.cases) auto
  then show "parser_inv p \<Longrightarrow> parser_inv (p\<lparr>line_buffer := b, line_number := Suc (line_number p)\<rparr>)"
    by (auto simp: parser_inv_def)
qed

lemma push_delta_inv: "push_delta p delta = (p', r) \<Longrightarrow> parser_inv p \<Longrightarrow> parser_inv p'"
proof (induction p delta rule: push_delta.induct)
  case (1 p)
  then show ?case by simp
next
  case (2 p ch delta)
  show ?case
  proof (cases "ch = LF")
    case False
    with 2 show ?thesis by simp
  next
    case True
    let ?p = "p\<lparr>line_buffer := [], line_number := Suc (line_number p)\<rparr>"
    have inv: "parser_inv ?p" using "2.prems"(2) by (rule parser_inv_next_line)
    show ?thesis
    proof (cases "process_line ?p (strip_cr (line_buffer p))")
      case (Err e)
      with True "2.prems" inv show ?thesis by (auto simp: Let_def)
    next
      case (Ok q)
      with process_line_inv [OF Ok inv] True 2 show ?thesis by (simp add: Let_def)
    qed
  qed
qed

lemma parser_finish_complete:
  assumes "parser_finish p = (p', Ok hs)" and "parser_inv p" and "h \<in> set hs"
  shows "hunk_complete h"
proof -
  let ?p = "p\<lparr>line_buffer := [], line_number := Suc (line_number p)\<rparr>"
  have inv: "parser_inv ?p" using assms(2) by (rule parser_inv_next_line)
  have ended: "hunk_complete h" if "parser_inv q" "mode (state q) = EndedPatch" "hunks (state q) = hs" for q
    using that assms(3)
    by (cases hs rule: rev_cases) (auto simp: parser_inv_def split: if_splits)
  show ?thesis
  proof (cases "line_buffer p = []")
    case True
    with assms(1,2) show ?thesis
      by (auto simp: parser_finish_def finish_last_line_def split: if_splits intro: ended)
  next
    case False
    show ?thesis
    proof (cases "trim (line_buffer p) = END_PATCH_MARKER")
      case True
      with False assms(1) have "ensure_update_hunk_is_not_empty ?p (trim (line_buffer p)) = Ok ()"
        and hs: "hs = hunks (state ?p)"
        by (auto simp: parser_finish_def finish_last_line_def Let_def split: result.splits if_splits)
      from ensure_complete' [OF this(1) inv] assms(3) hs show ?thesis by auto
    next
      case neq: False
      with False assms(1) obtain q where q: "process_line ?p (line_buffer p) = Ok q"
        and "mode (state q) = EndedPatch" "hs = hunks (state q)"
        by (auto simp: parser_finish_def finish_last_line_def Let_def split: result.splits if_splits)
      with process_line_inv [OF q inv] show ?thesis by (intro ended [of q]) simp_all
    qed
  qed
qed

section \<open>Feeding in pieces\<close>

lemma push_delta_append:
  "push_delta p (a @ b) =
     (case push_delta p a of (p', Err e) \<Rightarrow> (p', Err e) | (p', Ok _) \<Rightarrow> push_delta p' b)"
proof (induction p a rule: push_delta.induct)
  case (1 p)
  show ?case by simp
next
  case (2 p ch a)
  then show ?case by (auto simp: Let_def split: result.splits)
qed


section \<open>Error positions\<close>

fun error_line :: "parse_error \<Rightarrow> nat option" where
  "error_line (InvalidPatchError _) = None"
| "error_line (InvalidHunkError _ n) = Some n"

lemma ensure_error_line:
  assumes "ensure_update_hunk_is_not_empty p l = Err e" and "error_line e = Some n"
    and "parser_inv p" and "1 \<le> line_number p"
  shows "1 \<le> n \<and> n \<le> line_number p"
proof -
  obtain path mv cs where l: "last_opt (hunks (state p)) = Some (UpdateFile path mv cs)"
    using assms(1) by (auto simp: ensure_update_hunk_is_not_empty_def split: option.splits hunk.splits)
  have m: "1 \<le> k \<and> k \<le> line_number p" if "mode (state p) = InUpdateFile k" for k
    using assms(3) l that by (auto simp: parser_inv_def last_opt_Some)
  show ?thesis
    using assms(1,2,4) l m
    by (auto simp: ensure_update_hunk_is_not_empty_def
        split: list.splits if_splits streaming_parser_mode.splits)
qed

lemma handle_headers_error_line:
  assumes "handle_hunk_headers_and_end_patch p t = Err e" and "error_line e = Some n"
    and "parser_inv p" and "1 \<le> line_number p"
  shows "1 \<le> n \<and> n \<le> line_number p"
proof -
  have "ensure_update_hunk_is_not_empty p t = Err e"
    using assms(1,2) unfolding handle_hunk_headers_and_end_patch_def
    by (auto simp: result_map_eq split: option.split_asm if_split_asm)
  then show ?thesis using assms(2-4) by (rule ensure_error_line)
qed

lemma process_update_line_error_line:
  "process_update_line ln line mv cs = Err e \<Longrightarrow> error_line e = Some n \<Longrightarrow> n = ln"
  unfolding process_update_line_def Let_def
  by (auto split: if_split_asm option.split_asm)

lemma process_line_error_line:
  assumes "process_line p line = Err e" and "error_line e = Some n"
    and "parser_inv p" and "1 \<le> line_number p"
  shows "1 \<le> n \<and> n \<le> line_number p"
proof -
  from assms(1,2) consider t where "handle_hunk_headers_and_end_patch p t = Err e"
    | "n = line_number p"
    unfolding process_line_def Let_def
    by (cases "mode (state p)")
      (auto simp: bind_result_eq result_map_eq dest: process_update_line_error_line
        split: if_split_asm option.split_asm hunk.split_asm)
  then show ?thesis
    using handle_headers_error_line [OF _ assms(2-4)] assms(4) by cases auto
qed

text \<open>The number of line feeds read so far is the parser's line counter.\<close>

lemma push_delta_error_line:
  "push_delta p t = (p', Err e) \<Longrightarrow> error_line e = Some n \<Longrightarrow> parser_inv p
     \<Longrightarrow> 1 \<le> n \<and> n \<le> line_number p + count_list t LF"
proof (induction p t rule: push_delta.induct)
  case (1 p)
  then show ?case by simp
next
  case (2 p ch t)
  show ?case
  proof (cases "ch = LF")
    case False
    with 2 show ?thesis by simp
  next
    case True
    let ?p = "p\<lparr>line_buffer := [], line_number := Suc (line_number p)\<rparr>"
    have inv: "parser_inv ?p" using "2.prems"(3) by (rule parser_inv_next_line)
    show ?thesis
    proof (cases "process_line ?p (strip_cr (line_buffer p))")
      case (Err e')
      with True "2.prems" have "e' = e" by (simp add: Let_def)
      with process_line_error_line [OF Err _ inv] "2.prems"(2) True show ?thesis by simp
    next
      case (Ok q)
      with True "2.prems"(1) have "push_delta q t = (p', Err e)" by (simp add: Let_def)
      with "2.IH"(1) [OF True refl refl Ok] process_line_inv [OF Ok inv] "2.prems"(2) True
      show ?thesis by simp
    qed
  qed
qed

section \<open>Properties\<close>



fun push_deltas ::
  "streaming_patch_parser \<Rightarrow> rstr list \<Rightarrow> streaming_patch_parser \<times> (parse_error, hunk list) result" where
  "push_deltas p [] = (p, Ok (hunks (state p)))"
| "push_deltas p (d # ds) =
     (case push_delta p d of (p', Err e) \<Rightarrow> (p', Err e) | (p', Ok _) \<Rightarrow> push_deltas p' ds)"

text \<open>
  C4: feeding a patch in any pieces is the same as feeding it at once: the same
  parser state and the same result, also when a line is rejected on the way.
\<close>

theorem push_deltas_concat: "push_deltas p ds = push_delta p (concat ds)"
  by (induction ds arbitrary: p) (auto simp: push_delta_append split: result.splits prod.splits)

text \<open>
  An invalid-hunk error raised while a patch is read names a line of the text
  read: its number is at least one and at most the number of line feeds.
\<close>

theorem push_delta_error_in_text:
  assumes "push_delta default_parser t = (p', Err (InvalidHunkError m n))"
  shows "1 \<le> n \<and> n \<le> count_list t LF"
  using push_delta_error_line [OF assms _ parser_inv_default] by (simp add: default_parser_def)

theorem push_delta_error_in_text_witness:
  "(1::nat) \<le> 2 \<and> 2 \<le> count_list (rs ''*** Begin Patch'' @ [LF] @ rs ''bad'' @ [LF]) LF"
proof -
  let ?t = "rs ''*** Begin Patch'' @ [LF] @ rs ''bad'' @ [LF]"
  have p: "push_delta default_parser ?t = (fst (push_delta default_parser ?t),
     Err (InvalidHunkError (msg_not_header (rs ''bad'')) 2))"
    by code_simp
  show ?thesis by (rule push_delta_error_in_text [OF p])
qed

end
