(* ===== verification/Patch_Roundtrip.thy ===== *)
theory Patch_Roundtrip
  imports Patch_Invariants
begin

text \<open>
  Rendering hunks in the documented patch grammar and parsing them back. The
  renderer is the specification: it writes every hunk the way the grammar in the
  header of \<^verbatim>\<open>parser.rs\<close> spells it.
\<close>

section \<open>Rendering\<close>

fun render_context :: "rstr option \<Rightarrow> rstr" where
  "render_context None = EMPTY_CHANGE_CONTEXT_MARKER"
| "render_context (Some c) = CHANGE_CONTEXT_MARKER @ c"

text \<open>The lines that a chunk leaves unchanged at its beginning are written as context lines.\<close>

fun common_lines :: "rstr list \<Rightarrow> rstr list \<Rightarrow> rstr list" where
  "common_lines (x # xs) (y # ys) = (if x = y then x # common_lines xs ys else [])"
| "common_lines _ _ = []"

definition render_chunk :: "update_file_chunk \<Rightarrow> rstr list" where
  "render_chunk c =
     (let kept = common_lines (old_lines c) (new_lines c) in
      render_context (change_context c) # map ((#) 32) kept @ map ((#) 45) (drop (length kept) (old_lines c))
      @ map ((#) 43) (drop (length kept) (new_lines c)) @ (if is_end_of_file c then [EOF_MARKER] else []))"

fun render_hunk :: "hunk \<Rightarrow> rstr list" where
  "render_hunk (AddFile p contents) = (ADD_FILE_MARKER @ p) # map ((#) 43) (butlast (split_char LF contents))"
| "render_hunk (DeleteFile p) = [DELETE_FILE_MARKER @ p]"
| "render_hunk (UpdateFile p mv cs) = (UPDATE_FILE_MARKER @ p)
     # (case mv of None \<Rightarrow> [] | Some m \<Rightarrow> [MOVE_TO_MARKER @ m]) @ concat (map render_chunk cs)"

fun render_env :: "rstr option \<Rightarrow> rstr list" where
  "render_env None = []"
| "render_env (Some e) = [ENVIRONMENT_ID_MARKER @ 32 # e]"

definition render_patch :: "rstr option \<Rightarrow> hunk list \<Rightarrow> rstr" where
  "render_patch env hs = join_str [LF]
     (BEGIN_PATCH_MARKER # render_env env @ concat (map render_hunk hs) @ [END_PATCH_MARKER])"

text \<open>
  What can be written on one line: no line feed and, since the parser drops a
  carriage return at the end of a line, none there. Paths, context lines and the
  environment id are also read with surrounding blanks removed.
\<close>

definition line_ok :: "rstr \<Rightarrow> bool" where
  "line_ok l \<longleftrightarrow> LF \<notin> set l \<and> (l = [] \<or> last l \<noteq> CR)"

definition field_ok :: "rstr \<Rightarrow> bool" where
  "field_ok p \<longleftrightarrow> p \<noteq> [] \<and> LF \<notin> set p \<and> trim_end p = p"

definition chunk_ok :: "update_file_chunk \<Rightarrow> bool" where
  "chunk_ok c \<longleftrightarrow> pred_option field_ok (change_context c) \<and> list_all line_ok (old_lines c)
     \<and> list_all line_ok (new_lines c) \<and> \<not> chunk_is_empty c"

fun hunk_ok :: "hunk \<Rightarrow> bool" where
  "hunk_ok (AddFile p contents) \<longleftrightarrow> field_ok p \<and> list_all line_ok (split_char LF contents)
     \<and> last (split_char LF contents) = []"
| "hunk_ok (DeleteFile p) \<longleftrightarrow> field_ok p"
| "hunk_ok (UpdateFile p mv cs) \<longleftrightarrow> field_ok p \<and> pred_option field_ok mv
     \<and> cs \<noteq> [] \<and> list_all chunk_ok cs"

definition env_ok :: "rstr \<Rightarrow> bool" where
  "env_ok e \<longleftrightarrow> field_ok e \<and> trim e = e"

section \<open>Processing whole lines\<close>

text \<open>One complete line, and a list of them, as \<open>push_delta\<close> treats them.\<close>

definition step_line :: "streaming_patch_parser \<Rightarrow> rstr \<Rightarrow> (parse_error, streaming_patch_parser) result" where
  "step_line p l = process_line (p\<lparr>line_buffer := [], line_number := Suc (line_number p)\<rparr>) l"

fun run_lines :: "streaming_patch_parser \<Rightarrow> rstr list \<Rightarrow> (parse_error, streaming_patch_parser) result" where
  "run_lines p [] = Ok p"
| "run_lines p (l # ls) = bind_result (step_line p l) (\<lambda>q. run_lines q ls)"

lemma run_lines_append: "run_lines p (a @ b) = bind_result (run_lines p a) (\<lambda>q. run_lines q b)"
proof (induction a arbitrary: p)
  case Nil
  show ?case by simp
next
  case (Cons l a)
  then show ?case by (cases "step_line p l") simp_all
qed

lemma push_delta_buffer:
  "LF \<notin> set l \<Longrightarrow> push_delta p (l @ t) = push_delta (p\<lparr>line_buffer := line_buffer p @ l\<rparr>) t"
  by (induction l arbitrary: p) simp_all

lemma strip_cr_line_ok: "line_ok l \<Longrightarrow> strip_cr l = l"
  by (auto simp: strip_cr_def line_ok_def)

lemma line_buffer_idem: "line_buffer p = [] \<Longrightarrow> p\<lparr>line_buffer := [], line_number := n\<rparr> = p\<lparr>line_number := n\<rparr>"
  by simp

lemma push_delta_lines:
  assumes "run_lines p ls = Ok q" and "list_all line_ok ls" and "line_buffer p = []" and "parser_inv p"
  shows "push_delta p (concat (map (\<lambda>l. l @ [LF]) ls) @ t) = push_delta q t \<and> line_buffer q = []"
  using assms
proof (induction ls arbitrary: p)
  case Nil
  then show ?case by simp
next
  case (Cons l ls)
  then obtain r where r: "step_line p l = Ok r" and q: "run_lines r ls = Ok q"
    by (auto simp: bind_result_eq)
  let ?p = "p\<lparr>line_buffer := [], line_number := Suc (line_number p)\<rparr>"
  have inv: "parser_inv ?p" using Cons.prems(4) by (rule parser_inv_next_line)
  with r have "parser_inv r \<and> line_buffer r = []"
    using process_line_inv [of ?p l r] by (simp add: step_line_def)
  with Cons.IH [OF q] Cons.prems(2) r show ?case
    using Cons.prems(2,3)
    by (simp add: push_delta_buffer line_ok_def strip_cr_line_ok step_line_def)
qed

text \<open>
  From every parser in state \<open>s\<close> the lines are accepted and lead to a state with \<open>S\<close>.
\<close>

definition lines_lead :: "streaming_parser_state \<Rightarrow> rstr list \<Rightarrow> (streaming_parser_state \<Rightarrow> bool) \<Rightarrow> bool" where
  "lines_lead s ls S \<longleftrightarrow> (\<forall>p. state p = s \<longrightarrow> (\<exists>q. run_lines p ls = Ok q \<and> S (state q)))"

lemma lines_lead_append:
  assumes "lines_lead s a S" and "\<And>s'. S s' \<Longrightarrow> lines_lead s' b T"
  shows "lines_lead s (a @ b) T"
  using assms unfolding lines_lead_def by (fastforce simp: run_lines_append bind_result_eq)

lemma lines_lead_Cons:
  assumes "lines_lead s [l] S" and "\<And>s'. S s' \<Longrightarrow> lines_lead s' ls T"
  shows "lines_lead s (l # ls) T"
  using lines_lead_append [OF assms] by simp

lemma lines_lead_Nil: "S s \<Longrightarrow> lines_lead s [] S"
  by (simp add: lines_lead_def)

lemma lines_lead_single:
  assumes "\<And>p. state p = s \<Longrightarrow> \<exists>q. process_line p l = Ok q \<and> S (state q)"
  shows "lines_lead s [l] S"
  unfolding lines_lead_def
proof (intro allI impI)
  fix p :: streaming_patch_parser
  assume "state p = s"
  with assms [of "p\<lparr>line_buffer := [], line_number := Suc (line_number p)\<rparr>"]
  show "\<exists>q. run_lines p [l] = Ok q \<and> S (state q)"
    by (auto simp: step_line_def)
qed

section \<open>Recognising the rendered lines\<close>

lemma not_ws [simp]: "\<not> is_whitespace 42" "\<not> is_whitespace 43" "\<not> is_whitespace 45" "\<not> is_whitespace 64"
  by (simp_all add: is_whitespace_def)

lemma trim_end_Cons: "\<not> is_whitespace c \<Longrightarrow> \<exists>t. trim_end (c # l) = c # t"
  by (simp add: trim_end_def dropWhile_append)
    (metis rev.simps(2) rev_rev_ident append_is_Nil_conv dropWhile_eq_Nil_conv rev_append
      append_Cons append_Nil)

lemma trim_Cons: "\<not> is_whitespace c \<Longrightarrow> trim (c # l) = trim_end (c # l)"
  by (simp add: trim_def trim_start_def)

lemma trim_end_last: "p \<noteq> [] \<Longrightarrow> trim_end p = p \<longleftrightarrow> \<not> is_whitespace (last p)"
proof (cases p rule: rev_cases)
  case (snoc q c)
  have "length (trim_end q) \<le> length q"
    by (simp add: trim_end_def length_dropWhile_le [of is_whitespace "rev q", simplified])
  with snoc show ?thesis by (auto simp: trim_end_snoc)
qed simp

lemma trim_end_append: "field_ok p \<Longrightarrow> trim_end (m @ p) = m @ p"
proof -
  assume "field_ok p"
  then have "p \<noteq> []" and "\<not> is_whitespace (last p)"
    using trim_end_last [of p] by (auto simp: field_ok_def)
  then show ?thesis using trim_end_last [of "m @ p"] by simp
qed

lemma header_hd:
  "hd BEGIN_PATCH_MARKER = 42" "hd END_PATCH_MARKER = 42" "hd ADD_FILE_MARKER = 42"
  "hd DELETE_FILE_MARKER = 42" "hd UPDATE_FILE_MARKER = 42" "hd MOVE_TO_MARKER = 42"
  "hd EOF_MARKER = 42" "hd ENVIRONMENT_ID_MARKER = 42"
  by (simp_all add: marker_defs rs_def)

lemma marker_trim:
  assumes "field_ok p" and "m \<noteq> []" and "hd m = 42"
  shows "trim (m @ p) = m @ p" and "trim_end (m @ p) = m @ p"
  using assms trim_end_append [OF assms(1), of m]
  by (cases m; simp add: trim_Cons)+

lemma marker_clash:
  "strip_prefix ENVIRONMENT_ID_MARKER (ADD_FILE_MARKER @ p) = None"
  "strip_prefix ENVIRONMENT_ID_MARKER (DELETE_FILE_MARKER @ p) = None"
  "strip_prefix ENVIRONMENT_ID_MARKER (UPDATE_FILE_MARKER @ p) = None"
  "strip_prefix ADD_FILE_MARKER (DELETE_FILE_MARKER @ p) = None"
  "strip_prefix ADD_FILE_MARKER (UPDATE_FILE_MARKER @ p) = None"
  "strip_prefix DELETE_FILE_MARKER (UPDATE_FILE_MARKER @ p) = None"
  "strip_prefix ADD_FILE_MARKER (MOVE_TO_MARKER @ p) = None"
  "strip_prefix DELETE_FILE_MARKER (MOVE_TO_MARKER @ p) = None"
  "strip_prefix UPDATE_FILE_MARKER (MOVE_TO_MARKER @ p) = None"
  "ADD_FILE_MARKER @ p \<noteq> END_PATCH_MARKER" "DELETE_FILE_MARKER @ p \<noteq> END_PATCH_MARKER"
  "UPDATE_FILE_MARKER @ p \<noteq> END_PATCH_MARKER" "MOVE_TO_MARKER @ p \<noteq> END_PATCH_MARKER"
  "strip_prefix ADD_FILE_MARKER EOF_MARKER = None"
  "strip_prefix DELETE_FILE_MARKER EOF_MARKER = None"
  "strip_prefix UPDATE_FILE_MARKER EOF_MARKER = None"
  "strip_prefix MOVE_TO_MARKER EOF_MARKER = None"
  "EOF_MARKER \<noteq> END_PATCH_MARKER" "strip_prefix ENVIRONMENT_ID_MARKER END_PATCH_MARKER = None"
  by (simp_all add: strip_prefix_def starts_with_def marker_defs rs_def)

lemma strip_prefix_hd_neq: "c \<noteq> hd m \<Longrightarrow> m \<noteq> [] \<Longrightarrow> strip_prefix m (c # t) = None"
  by (cases m) (auto simp: strip_prefix_def starts_with_def)

lemma markers_not_Nil:
  "BEGIN_PATCH_MARKER \<noteq> []" "END_PATCH_MARKER \<noteq> []" "ADD_FILE_MARKER \<noteq> []"
  "DELETE_FILE_MARKER \<noteq> []" "UPDATE_FILE_MARKER \<noteq> []" "MOVE_TO_MARKER \<noteq> []"
  "EOF_MARKER \<noteq> []" "ENVIRONMENT_ID_MARKER \<noteq> []"
  by (simp_all add: marker_defs rs_def)

text \<open>A line that does not begin with an asterisk is no header.\<close>

lemma handle_headers_other:
  assumes "c \<noteq> 42"
  shows "handle_hunk_headers_and_end_patch p (c # t) = Ok (p, False)"
proof -
  have "c # t \<noteq> END_PATCH_MARKER" using assms header_hd(2) by (metis list.sel(1))
  with assms show ?thesis
    by (simp add: handle_hunk_headers_and_end_patch_def strip_prefix_hd_neq header_hd markers_not_Nil)
qed

lemma handle_headers_blank: "handle_hunk_headers_and_end_patch p [] = Ok (p, False)"
  by (simp add: handle_hunk_headers_and_end_patch_def strip_prefix_def starts_with_iff markers_not_Nil
      markers_not_Nil [symmetric])

section \<open>States between hunks\<close>

definition ready :: "streaming_parser_state \<Rightarrow> bool" where
  "ready s \<longleftrightarrow> mode s \<notin> {NotStarted, EndedPatch} \<and>
     (case last_opt (hunks s) of
        Some (UpdateFile _ _ cs) \<Rightarrow> cs \<noteq> [] \<and> \<not> chunk_is_empty (last cs)
      | _ \<Rightarrow> True)"

lemma ready_ensure: "ready (state p) \<Longrightarrow> ensure_update_hunk_is_not_empty p l = Ok ()"
  by (auto simp: ready_def ensure_update_hunk_is_not_empty_def last_chunk_is_def last_opt_def
      split: option.splits hunk.splits list.splits if_splits)

text \<open>The parser inside an update hunk.\<close>

definition in_update :: "streaming_parser_state \<Rightarrow> rstr \<Rightarrow> rstr option \<Rightarrow> update_file_chunk list
    \<Rightarrow> streaming_parser_state \<Rightarrow> bool" where
  "in_update s path mv cs s' \<longleftrightarrow>
     (\<exists>n. mode s' = InUpdateFile n) \<and> hunks s' = hunks s @ [UpdateFile path mv cs]
     \<and> environment_id s' = environment_id s"

definition in_add :: "streaming_parser_state \<Rightarrow> rstr \<Rightarrow> rstr \<Rightarrow> streaming_parser_state \<Rightarrow> bool" where
  "in_add s path c s' \<longleftrightarrow> mode s' = InAddFile \<and> hunks s' = hunks s @ [AddFile path c]
     \<and> environment_id s' = environment_id s"

text \<open>The state after one more complete hunk.\<close>

definition after_hunk :: "streaming_parser_state \<Rightarrow> hunk \<Rightarrow> streaming_parser_state \<Rightarrow> bool" where
  "after_hunk s h s' \<longleftrightarrow>
     ready s' \<and> hunks s' = hunks s @ [h] \<and> environment_id s' = environment_id s"

lemma header_line:
  assumes "ready s" and "trim l = l" and "trim_end l = l"
    and "\<And>p. state p = s \<Longrightarrow> \<exists>q. handle_hunk_headers_and_end_patch p l = Ok (q, True) \<and> S (state q)"
  shows "lines_lead s [l] S"
proof (rule lines_lead_single)
  fix p :: streaming_patch_parser
  assume p: "state p = s"
  with assms(4) obtain q where "handle_hunk_headers_and_end_patch p l = Ok (q, True)" "S (state q)"
    by blast
  with assms(1-3) p show "\<exists>q. process_line p l = Ok q \<and> S (state q)"
    by (auto simp: process_line_def ready_def Let_def split: streaming_parser_mode.splits)
qed

lemma add_header:
  assumes "ready s" and "field_ok path"
  shows "lines_lead s [ADD_FILE_MARKER @ path] (in_add s path [])"
  by (rule header_line [OF assms(1)])
    (use assms in \<open>auto simp: marker_trim header_hd markers_not_Nil marker_clash
      handle_hunk_headers_and_end_patch_def ready_ensure in_add_def\<close>)

lemma delete_header:
  assumes "ready s" and "field_ok path"
  shows "lines_lead s [DELETE_FILE_MARKER @ path] (after_hunk s (DeleteFile path))"
  by (rule header_line [OF assms(1)])
    (use assms in \<open>auto simp: marker_trim header_hd markers_not_Nil marker_clash
      handle_hunk_headers_and_end_patch_def ready_ensure after_hunk_def ready_def [of "_\<lparr>mode := _\<rparr>"]\<close>)

lemma update_header:
  assumes "ready s" and "field_ok path"
  shows "lines_lead s [UPDATE_FILE_MARKER @ path] (in_update s path None [])"
  by (rule header_line [OF assms(1)])
    (use assms in \<open>auto simp: marker_trim header_hd markers_not_Nil marker_clash
      handle_hunk_headers_and_end_patch_def ready_ensure in_update_def\<close>)

section \<open>Lines of an added file\<close>

lemma add_line:
  assumes "in_add s path c s'"
  shows "lines_lead s' [43 # l] (in_add s path (c @ l @ [LF]))"
proof (rule lines_lead_single)
  fix p :: streaming_patch_parser
  assume p: "state p = s'"
  obtain t where t: "trim_end (43 # l) = 43 # t" using trim_end_Cons [of 43 l] by auto
  from p assms show "\<exists>q. process_line p (43 # l) = Ok q \<and> in_add s path (c @ l @ [LF]) (state q)"
    by (auto simp: process_line_def in_add_def trim_Cons t handle_headers_other)
qed

lemma add_lines:
  assumes "in_add s path c s'"
  shows "lines_lead s' (map ((#) 43) ls) (in_add s path (c @ concat (map (\<lambda>l. l @ [LF]) ls)))"
  using assms
proof (induction ls arbitrary: c s')
  case Nil
  then show ?case by (simp add: lines_lead_Nil)
next
  case (Cons l ls)
  have "lines_lead s' ((43 # l) # map ((#) 43) ls)
      (in_add s path ((c @ l @ [LF]) @ concat (map (\<lambda>l. l @ [LF]) ls)))"
    by (rule lines_lead_Cons [OF add_line [OF Cons.prems]]) (rule Cons.IH)
  then show ?case by simp
qed

section \<open>Lines of an update\<close>

lemma update_line:
  assumes "in_update s path mv cs s'"
    and "\<And>p. state p = s' \<Longrightarrow> handle_hunk_headers_and_end_patch p (trim_end l) = Ok (p, False)"
    and "\<And>ln. process_update_line ln l mv cs = Ok (mv', cs')"
  shows "lines_lead s' [l] (in_update s path mv' cs')"
proof (rule lines_lead_single)
  fix p :: streaming_patch_parser
  assume p: "state p = s'"
  with assms show "\<exists>q. process_line p l = Ok q \<and> in_update s path mv' cs' (state q)"
    by (auto simp: process_line_def in_update_def)
qed

lemma move_line:
  assumes "in_update s path None [] s'" and "field_ok m"
  shows "lines_lead s' [MOVE_TO_MARKER @ m] (in_update s path (Some m) [])"
proof (rule update_line [OF assms(1)])
  fix p :: streaming_patch_parser
  assume "state p = s'"
  with assms show "handle_hunk_headers_and_end_patch p (trim_end (MOVE_TO_MARKER @ m)) = Ok (p, False)"
    by (auto simp: marker_trim header_hd markers_not_Nil marker_clash
        handle_hunk_headers_and_end_patch_def in_update_def)
next
  show "process_update_line ln (MOVE_TO_MARKER @ m) None [] = Ok (Some m, [])" for ln
    by (simp add: process_update_line_def Let_def trim_end_append [OF assms(2)])
qed

lemma context_line:
  assumes "in_update s path mv cs s'" and "\<not> last_chunk_is chunk_is_empty cs"
    and "pred_option field_ok ctx"
  shows "lines_lead s' [render_context ctx] (in_update s path mv (cs @ [new_chunk ctx]))"
proof (rule update_line [OF assms(1)])
  have "trim_end EMPTY_CHANGE_CONTEXT_MARKER = EMPTY_CHANGE_CONTEXT_MARKER"
    by (simp add: marker_defs rs_def trim_end_def is_whitespace_def)
  with assms(3) have t: "trim_end (render_context ctx) = render_context ctx"
    by (cases ctx) (simp_all add: trim_end_append)
  have c: "\<exists>r. render_context ctx = 64 # r"
    by (cases ctx) (simp_all add: marker_defs rs_def)
  then obtain r where r: "render_context ctx = 64 # r" by blast
  from t r show "handle_hunk_headers_and_end_patch p (trim_end (render_context ctx)) = Ok (p, False)"
    for p by (simp add: handle_headers_other)
  have m: "strip_prefix MOVE_TO_MARKER (render_context ctx) = None"
    by (simp add: r strip_prefix_hd_neq header_hd markers_not_Nil)
  have k: "is_context_marker (render_context ctx)"
    by (cases ctx) (simp_all add: is_context_marker_def starts_with_def)
  have n: "render_context ctx \<noteq> []" by (simp add: r)
  have e: "ctx \<noteq> None \<Longrightarrow> render_context ctx \<noteq> EMPTY_CHANGE_CONTEXT_MARKER"
    using assms(3) by (auto simp: marker_defs rs_def)
  show "process_update_line ln (render_context ctx) mv cs = Ok (mv, cs @ [new_chunk ctx])" for ln
    unfolding process_update_line_def Let_def t
    using m k n e assms(2) by (cases ctx) simp_all
qed

lemma changed_line:
  assumes "in_update s path mv (cs @ [c]) s'" and "\<not> is_end_of_file c"
  shows "lines_lead s' [45 # l] (in_update s path mv (cs @ [push_old l c]))"
    and "lines_lead s' [43 # l] (in_update s path mv (cs @ [push_new l c]))"
proof -
  have gen: "lines_lead s' [d # l] (in_update s path mv (cs @ [f c]))"
    if d: "d \<in> {43, 45}" and f: "f = (if d = 45 then push_old l else push_new l)" for d f
  proof (rule update_line [OF assms(1)])
    obtain t where t: "trim_end (d # l) = d # t" using trim_end_Cons [of d l] d by auto
    with d show "handle_hunk_headers_and_end_patch p (trim_end (d # l)) = Ok (p, False)" for p
      by (auto simp: handle_headers_other)
    have "strip_prefix CHANGE_CONTEXT_MARKER (d # t) = None" "d # t \<noteq> EMPTY_CHANGE_CONTEXT_MARKER"
      "d # t \<noteq> EOF_MARKER" "\<not> is_context_marker (d # t)"
      using d by (auto simp: marker_defs rs_def strip_prefix_def starts_with_def is_context_marker_def)
    with d f assms(2)
    show "process_update_line ln (d # l) mv (cs @ [c]) = Ok (mv, cs @ [f c])" for ln
      unfolding process_update_line_def Let_def t by auto
  qed
  show "lines_lead s' [45 # l] (in_update s path mv (cs @ [push_old l c]))"
    using gen [of 45 "push_old l"] by simp
  show "lines_lead s' [43 # l] (in_update s path mv (cs @ [push_new l c]))"
    using gen [of 43 "push_new l"] by simp
qed

lemma trim_end_blank: "trim_end (32 # l) = [] \<or> (\<exists>t. trim_end (32 # l) = 32 # t)"
  using trim_end_decomp [of "32 # l"] by (cases "trim_end (32 # l)") auto

lemma kept_line:
  assumes "in_update s path mv (cs @ [c]) s'" and "\<not> is_end_of_file c"
  shows "lines_lead s' [32 # l] (in_update s path mv (cs @ [push_new l (push_old l c)]))"
proof (rule update_line [OF assms(1)])
  consider "trim_end (32 # l) = []" | t where "trim_end (32 # l) = 32 # t" using trim_end_blank by blast
  then show "handle_hunk_headers_and_end_patch p (trim_end (32 # l)) = Ok (p, False)" for p
    by cases (simp_all add: handle_headers_other handle_headers_blank)
  have "strip_prefix CHANGE_CONTEXT_MARKER (trim_end (32 # l)) = None" "trim_end (32 # l) \<noteq> EMPTY_CHANGE_CONTEXT_MARKER"
    "trim_end (32 # l) \<noteq> EOF_MARKER" "\<not> is_context_marker (trim_end (32 # l))"
    using trim_end_blank [of l]
    by (auto simp: marker_defs rs_def strip_prefix_def starts_with_def is_context_marker_def)
  with assms(2) show "process_update_line ln (32 # l) mv (cs @ [c]) = Ok (mv, cs @ [push_new l (push_old l c)])" for ln
    unfolding process_update_line_def Let_def by auto
qed

lemma eof_line:
  assumes "in_update s path mv (cs @ [c]) s'" and "\<not> is_end_of_file c" and "\<not> chunk_is_empty c"
  shows "lines_lead s' [EOF_MARKER] (in_update s path mv (cs @ [c\<lparr>is_end_of_file := True\<rparr>]))"
proof (rule update_line [OF assms(1)])
  have t: "trim_end EOF_MARKER = EOF_MARKER"
    by (simp add: marker_defs rs_def trim_end_def is_whitespace_def)
  fix p :: streaming_patch_parser
  assume "state p = s'"
  with assms(1) t show "handle_hunk_headers_and_end_patch p (trim_end EOF_MARKER) = Ok (p, False)"
    by (auto simp: marker_clash handle_hunk_headers_and_end_patch_def in_update_def)
next
  have t: "trim_end EOF_MARKER = EOF_MARKER"
    by (simp add: marker_defs rs_def trim_end_def is_whitespace_def)
  have "\<not> is_context_marker EOF_MARKER" "strip_prefix CHANGE_CONTEXT_MARKER EOF_MARKER = None"
    "EOF_MARKER \<noteq> EMPTY_CHANGE_CONTEXT_MARKER"
    by (simp_all add: marker_defs rs_def strip_prefix_def starts_with_def is_context_marker_def)
  with assms(2,3) show "process_update_line ln EOF_MARKER mv (cs @ [c])
      = Ok (mv, cs @ [c\<lparr>is_end_of_file := True\<rparr>])" for ln
    unfolding process_update_line_def Let_def t by simp
qed

definition add_old :: "rstr list \<Rightarrow> update_file_chunk \<Rightarrow> update_file_chunk" where
  "add_old ls c = c\<lparr>old_lines := old_lines c @ ls\<rparr>"

definition add_new :: "rstr list \<Rightarrow> update_file_chunk \<Rightarrow> update_file_chunk" where
  "add_new ls c = c\<lparr>new_lines := new_lines c @ ls\<rparr>"

lemma old_lines_lead:
  assumes "in_update s path mv (cs @ [c]) s'" and "\<not> is_end_of_file c"
  shows "lines_lead s' (map ((#) 45) ls) (in_update s path mv (cs @ [add_old ls c]))"
  using assms
proof (induction ls arbitrary: c s')
  case Nil
  then show ?case by (simp add: lines_lead_Nil add_old_def)
next
  case (Cons l ls)
  have "lines_lead s' ((45 # l) # map ((#) 45) ls) (in_update s path mv (cs @ [add_old ls (push_old l c)]))"
    using Cons.prems(2)
    by (intro lines_lead_Cons [OF changed_line(1) [OF Cons.prems]] Cons.IH) (auto simp: push_old_def)
  then show ?case by (simp add: add_old_def push_old_def)
qed

lemma new_lines_lead:
  assumes "in_update s path mv (cs @ [c]) s'" and "\<not> is_end_of_file c"
  shows "lines_lead s' (map ((#) 43) ls) (in_update s path mv (cs @ [add_new ls c]))"
  using assms
proof (induction ls arbitrary: c s')
  case Nil
  then show ?case by (simp add: lines_lead_Nil add_new_def)
next
  case (Cons l ls)
  have "lines_lead s' ((43 # l) # map ((#) 43) ls) (in_update s path mv (cs @ [add_new ls (push_new l c)]))"
    using Cons.prems(2)
    by (intro lines_lead_Cons [OF changed_line(2) [OF Cons.prems]] Cons.IH) (auto simp: push_new_def)
  then show ?case by (simp add: add_new_def push_new_def)
qed

lemma kept_lines_lead:
  assumes "in_update s path mv (cs @ [c]) s'" and "\<not> is_end_of_file c"
  shows "lines_lead s' (map ((#) 32) ls) (in_update s path mv (cs @ [add_new ls (add_old ls c)]))"
  using assms
proof (induction ls arbitrary: c s')
  case Nil
  then show ?case by (simp add: lines_lead_Nil add_old_def add_new_def)
next
  case (Cons l ls)
  have "lines_lead s' ((32 # l) # map ((#) 32) ls)
      (in_update s path mv (cs @ [add_new ls (add_old ls (push_new l (push_old l c)))]))"
    using Cons.prems(2)
    by (intro lines_lead_Cons [OF kept_line [OF Cons.prems]] Cons.IH) (auto simp: push_old_def push_new_def)
  then show ?case by (simp add: add_old_def push_old_def add_new_def push_new_def)
qed

lemma common_lines_prefix:
  "common_lines xs ys @ drop (length (common_lines xs ys)) xs = xs"
  "common_lines xs ys @ drop (length (common_lines xs ys)) ys = ys"
  by (induction xs ys rule: common_lines.induct) auto

lemma chunk_lead:
  assumes "in_update s path mv cs s'" and "\<not> last_chunk_is chunk_is_empty cs" and "chunk_ok c"
  shows "lines_lead s' (render_chunk c) (in_update s path mv (cs @ [c]))"
proof -
  define k where "k = common_lines (old_lines c) (new_lines c)"
  define old new where "old = drop (length k) (old_lines c)" and "new = drop (length k) (new_lines c)"
  have split: "k @ old = old_lines c" "k @ new = new_lines c"
    by (simp_all add: k_def old_def new_def common_lines_prefix)
  let ?c1 = "add_new k (add_old k (new_chunk (change_context c)))"
  let ?d = "add_new new (add_old old ?c1)"
  note add_defs = add_new_def add_old_def new_chunk_def
  have d: "?d\<lparr>is_end_of_file := is_end_of_file c\<rparr> = c" by (simp add: add_defs split)
  have eof: "lines_lead t (if is_end_of_file c then [EOF_MARKER] else []) (in_update s path mv (cs @ [c]))"
    if t: "in_update s path mv (cs @ [?d]) t" for t
  proof (cases "is_end_of_file c")
    case True
    have "lines_lead t [EOF_MARKER] (in_update s path mv (cs @ [?d\<lparr>is_end_of_file := True\<rparr>]))"
      using assms(3) split by (intro eof_line [OF t]) (auto simp: add_defs chunk_is_empty_def chunk_ok_def)
    with True d show ?thesis by simp
  next
    case False
    then have "c = ?d" using d by (simp add: add_defs)
    with t False show ?thesis by (simp add: lines_lead_Nil)
  qed
  have new: "lines_lead t (map ((#) 43) new @ (if is_end_of_file c then [EOF_MARKER] else [])) (in_update s path mv (cs @ [c]))"
    if "in_update s path mv (cs @ [add_old old ?c1]) t" for t
    by (rule lines_lead_append [OF new_lines_lead [OF that] eof]) (simp add: add_defs)
  have old: "lines_lead t (map ((#) 45) old @ map ((#) 43) new @ (if is_end_of_file c then [EOF_MARKER] else []))
      (in_update s path mv (cs @ [c]))"
    if "in_update s path mv (cs @ [?c1]) t" for t
    by (rule lines_lead_append [OF old_lines_lead [OF that] new]) (simp add: add_defs)
  have kept: "lines_lead t (map ((#) 32) k @ map ((#) 45) old @ map ((#) 43) new
        @ (if is_end_of_file c then [EOF_MARKER] else [])) (in_update s path mv (cs @ [c]))"
    if "in_update s path mv (cs @ [new_chunk (change_context c)]) t" for t
    by (rule lines_lead_append [OF kept_lines_lead [OF that] old]) (simp add: new_chunk_def)
  show ?thesis unfolding render_chunk_def Let_def k_def [symmetric] old_def [symmetric] new_def [symmetric]
    by (rule lines_lead_Cons [OF context_line [OF assms(1,2)] kept])
      (use assms(3) in \<open>simp add: chunk_ok_def\<close>)
qed

lemma chunks_lead:
  assumes "in_update s path mv cs s'" and "\<not> last_chunk_is chunk_is_empty cs" and "list_all chunk_ok ds"
  shows "lines_lead s' (concat (map render_chunk ds)) (in_update s path mv (cs @ ds))"
  using assms
proof (induction ds arbitrary: cs s')
  case Nil
  then show ?case by (simp add: lines_lead_Nil)
next
  case (Cons c ds)
  from Cons.prems(3) have c: "chunk_ok c" and ds: "list_all chunk_ok ds" by simp_all
  have "lines_lead s' (render_chunk c @ concat (map render_chunk ds)) (in_update s path mv ((cs @ [c]) @ ds))"
    by (rule lines_lead_append [OF chunk_lead [OF Cons.prems(1,2) c] Cons.IH])
      (use c ds in \<open>simp_all add: chunk_ok_def [of c]\<close>)
  then show ?case by simp
qed

lemma concat_lines_split:
  assumes "last (split_char LF t) = []"
  shows "concat (map (\<lambda>l. l @ [LF]) (butlast (split_char LF t))) = t"
proof -
  have gen: "join_str [c] (ws @ [[]]) = concat (map (\<lambda>l. l @ [c]) ws)" for ws and c :: uchar
    by (induction ws) (auto simp: join_str_Cons)
  have "split_char LF t = butlast (split_char LF t) @ [[]]"
    using assms by (metis append_butlast_last_id split_char_not_Nil)
  with gen [of LF "butlast (split_char LF t)"] show ?thesis by (metis join_split_char)
qed

lemma hunk_lead:
  assumes "ready s" and "hunk_ok h"
  shows "lines_lead s (render_hunk h) (after_hunk s h)"
proof (cases h)
  case (AddFile p contents)
  have after: "after_hunk s (AddFile p c) s'" if "in_add s p c s'" for c s'
    using that by (auto simp: in_add_def after_hunk_def ready_def)
  from assms AddFile have "field_ok p" and c: "last (split_char LF contents) = []" by auto
  have "lines_lead s' (map ((#) 43) (butlast (split_char LF contents))) (in_add s p contents)"
    if "in_add s p [] s'" for s'
    using add_lines [OF that, of "butlast (split_char LF contents)"]
    by (simp add: concat_lines_split [OF c])
  then have "lines_lead s (render_hunk h) (in_add s p contents)"
    unfolding AddFile render_hunk.simps
    by (rule lines_lead_Cons [OF add_header [OF assms(1) \<open>field_ok p\<close>]])
  with after AddFile show ?thesis unfolding lines_lead_def by fastforce
next
  case (DeleteFile p)
  with assms delete_header show ?thesis by simp
next
  case (UpdateFile p mv cs)
  from assms UpdateFile have p: "field_ok p" and mv: "pred_option field_ok mv"
    and cs: "cs \<noteq> []" "list_all chunk_ok cs" by auto
  have after: "after_hunk s h s'" if "in_update s p mv cs s'" for s'
  proof -
    have "\<not> chunk_is_empty (last cs)" using cs by (simp add: list_all_iff chunk_ok_def)
    with that cs(1) UpdateFile show ?thesis by (auto simp: in_update_def after_hunk_def ready_def)
  qed
  have mvl: "lines_lead s' (case mv of None \<Rightarrow> [] | Some m \<Rightarrow> [MOVE_TO_MARKER @ m]) (in_update s p mv [])"
    if "in_update s p None [] s'" for s'
    using that mv by (cases mv) (auto simp: lines_lead_Nil move_line)
  have "lines_lead s (render_hunk h) (in_update s p mv ([] @ cs))"
    unfolding UpdateFile render_hunk.simps
    by (rule lines_lead_Cons [OF update_header [OF assms(1) p]], rule lines_lead_append [OF mvl],
        assumption, rule chunks_lead) (simp_all add: cs)
  with after show ?thesis unfolding lines_lead_def by fastforce
qed

lemma hunks_lead:
  assumes "ready s" and "list_all hunk_ok hs"
  shows "lines_lead s (concat (map render_hunk hs))
    (\<lambda>s'. ready s' \<and> hunks s' = hunks s @ hs \<and> environment_id s' = environment_id s)"
  using assms
proof (induction hs arbitrary: s)
  case Nil
  then show ?case by (simp add: lines_lead_Nil)
next
  case (Cons h hs)
  have "lines_lead s' (concat (map render_hunk hs))
      (\<lambda>s'. ready s' \<and> hunks s' = hunks s @ h # hs \<and> environment_id s' = environment_id s)"
    if "after_hunk s h s'" for s'
    using that Cons.IH [of s'] Cons.prems by (auto simp: after_hunk_def)
  with Cons.prems show ?case
    by (auto intro: lines_lead_append [OF hunk_lead])
qed

section \<open>Rendered lines\<close>

lemma markers_LF_free:
  "LF \<notin> set BEGIN_PATCH_MARKER" "LF \<notin> set END_PATCH_MARKER" "LF \<notin> set ADD_FILE_MARKER"
  "LF \<notin> set DELETE_FILE_MARKER" "LF \<notin> set UPDATE_FILE_MARKER" "LF \<notin> set MOVE_TO_MARKER"
  "LF \<notin> set EOF_MARKER" "LF \<notin> set ENVIRONMENT_ID_MARKER" "LF \<notin> set CHANGE_CONTEXT_MARKER"
  by (simp_all add: marker_defs rs_def)

lemma markers_line_ok:
  "line_ok BEGIN_PATCH_MARKER" "line_ok END_PATCH_MARKER" "line_ok EOF_MARKER"
  "line_ok EMPTY_CHANGE_CONTEXT_MARKER"
  by (simp_all add: marker_defs rs_def line_ok_def)

lemma field_last: "field_ok p \<Longrightarrow> p \<noteq> [] \<and> LF \<notin> set p \<and> last p \<noteq> CR"
proof -
  assume "field_ok p"
  then have "p \<noteq> []" "LF \<notin> set p" "\<not> is_whitespace (last p)"
    using trim_end_last [of p] by (auto simp: field_ok_def)
  then show ?thesis by (auto simp: is_whitespace_def)
qed

lemma line_ok_field: "field_ok p \<Longrightarrow> LF \<notin> set m \<Longrightarrow> line_ok (m @ p)"
  using field_last [of p] by (simp add: line_ok_def)

lemma line_ok_Cons: "line_ok l \<Longrightarrow> c \<noteq> LF \<Longrightarrow> c \<noteq> CR \<Longrightarrow> line_ok (c # l)"
  by (auto simp: line_ok_def)

lemma render_chunk_lines:
  assumes "chunk_ok c"
  shows "list_all line_ok (render_chunk c)"
proof -
  let ?k = "common_lines (old_lines c) (new_lines c)"
  have "set ?k \<subseteq> set (old_lines c)" by (metis common_lines_prefix(1) set_append sup_ge1)
  with assms have "\<forall>l \<in> set ?k. line_ok l" by (auto simp: chunk_ok_def list_all_iff)
  with assms show ?thesis
    by (cases "change_context c")
      (auto simp: render_chunk_def Let_def chunk_ok_def list_all_iff markers_line_ok markers_LF_free
        dest!: in_set_dropD intro: line_ok_field line_ok_Cons)
qed

lemma render_hunk_lines: "hunk_ok h \<Longrightarrow> list_all line_ok (render_hunk h)"
proof (cases h)
  case (AddFile p c)
  moreover assume "hunk_ok h"
  ultimately show ?thesis
    by (auto simp: list_all_iff markers_LF_free dest: in_set_butlastD intro!: line_ok_field line_ok_Cons)
next
  case (UpdateFile p mv cs)
  moreover assume "hunk_ok h"
  ultimately show ?thesis using render_chunk_lines
    by (cases mv) (auto simp: list_all_iff markers_LF_free intro: line_ok_field)
qed (auto simp: markers_LF_free intro: line_ok_field)

lemma render_env_lines: "pred_option env_ok env \<Longrightarrow> list_all line_ok (render_env env)"
proof (cases env)
  case (Some e)
  assume "pred_option env_ok env"
  then have "line_ok ((ENVIRONMENT_ID_MARKER @ [32]) @ e)"
    unfolding Some by (intro line_ok_field) (simp_all add: env_ok_def markers_LF_free)
  with Some show ?thesis by simp
qed simp

lemma render_lines_ok:
  assumes "list_all hunk_ok hs" and "pred_option env_ok env"
  shows "list_all line_ok (BEGIN_PATCH_MARKER # render_env env @ concat (map render_hunk hs))"
  using assms render_env_lines render_hunk_lines
  by (fastforce simp: list_all_iff markers_line_ok)

lemma str_lines_join:
  assumes "list_all line_ok (ls @ [l])" and "l \<noteq> []"
  shows "str_lines (join_str [LF] (ls @ [l])) = ls @ [l]"
proof -
  have "split_char LF (join_str [LF] (ls @ [l])) = ls @ [l]"
    using assms(1) by (intro split_join_char) (auto simp: list_all_iff line_ok_def)
  moreover have "map strip_cr ls = ls"
    using assms(1) by (intro map_idI) (auto simp: list_all_iff strip_cr_line_ok)
  ultimately show ?thesis using assms(2) by (simp add: str_lines_def)
qed

lemma join_str_snoc: "join_str [c] (ls @ [l]) = concat (map (\<lambda>l. l @ [c]) ls) @ l"
  by (induction ls) (auto simp: join_str_Cons)

lemma env_lead:
  assumes "mode s = StartedPatch" and "hunks s = []" and "environment_id s = None"
    and "pred_option env_ok env"
  shows "lines_lead s (render_env env)
    (\<lambda>s'. ready s' \<and> hunks s' = [] \<and> environment_id s' = env)"
proof (cases env)
  case None
  with assms(1-3) show ?thesis by (simp add: lines_lead_Nil ready_def)
next
  case (Some e)
  with assms(4) have e: "field_ok e" "trim e = e" by (simp_all add: env_ok_def)
  have ready: "ready s" using assms(1,2) by (simp add: ready_def)
  have t: "trim ((ENVIRONMENT_ID_MARKER @ [32]) @ e) = (ENVIRONMENT_ID_MARKER @ [32]) @ e"
    "trim_end ((ENVIRONMENT_ID_MARKER @ [32]) @ e) = (ENVIRONMENT_ID_MARKER @ [32]) @ e"
    by (rule marker_trim [OF e(1)]; simp add: header_hd markers_not_Nil)+
  have e': "trim (32 # e) = e" using e(2) by (simp add: trim_def trim_start_def is_whitespace_def)
  have "e \<noteq> []" using e(1) by (simp add: field_ok_def)
  have "lines_lead s [ENVIRONMENT_ID_MARKER @ 32 # e]
      (\<lambda>s'. ready s' \<and> hunks s' = [] \<and> environment_id s' = Some e)"
    using t e' \<open>e \<noteq> []\<close> assms(1-3)
    by (intro header_line [OF ready])
      (auto simp: handle_hunk_headers_and_end_patch_def ready_def)
  with Some show ?thesis by simp
qed

lemma body_lead:
  assumes "list_all hunk_ok hs" and "pred_option env_ok env"
  shows "lines_lead (state default_parser) (BEGIN_PATCH_MARKER # render_env env @ concat (map render_hunk hs))
    (\<lambda>s. ready s \<and> hunks s = hs \<and> environment_id s = env)"
proof (rule lines_lead_Cons)
  have "trim BEGIN_PATCH_MARKER = BEGIN_PATCH_MARKER"
    by (simp add: marker_defs rs_def trim_def trim_start_def trim_end_def is_whitespace_def)
  then show "lines_lead (state default_parser) [BEGIN_PATCH_MARKER]
      (\<lambda>s. mode s = StartedPatch \<and> hunks s = [] \<and> environment_id s = None)"
    by (intro lines_lead_single) (auto simp: process_line_def default_parser_def)
next
  fix s :: streaming_parser_state
  assume s: "mode s = StartedPatch \<and> hunks s = [] \<and> environment_id s = None"
  show "lines_lead s (render_env env @ concat (map render_hunk hs))
      (\<lambda>s. ready s \<and> hunks s = hs \<and> environment_id s = env)"
  proof (rule lines_lead_append [OF env_lead [of s env]])
    fix s' :: streaming_parser_state
    assume "ready s' \<and> hunks s' = [] \<and> environment_id s' = env"
    with hunks_lead [of s' hs] assms(1) show "lines_lead s' (concat (map render_hunk hs))
        (\<lambda>s. ready s \<and> hunks s = hs \<and> environment_id s = env)" by simp
  qed (use s assms(2) in simp_all)
qed

lemma end_marker_trim: "trim END_PATCH_MARKER = END_PATCH_MARKER"
  by (simp add: marker_defs rs_def trim_def trim_start_def trim_end_def is_whitespace_def)

lemma parse_rendered_lines:
  assumes "list_all hunk_ok hs" and "pred_option env_ok env"
  obtains p r p' where "push_delta default_parser (render_patch env hs) = (p, Ok r)"
    and "parser_finish p = (p', Ok hs)" and "environment_id (state p') = env"
proof -
  let ?ls = "BEGIN_PATCH_MARKER # render_env env @ concat (map render_hunk hs)"
  obtain q where run: "run_lines default_parser ?ls = Ok q" and q: "ready (state q)"
    "hunks (state q) = hs" "environment_id (state q) = env"
    using body_lead [OF assms] unfolding lines_lead_def by blast
  have l: "list_all line_ok ?ls" using assms by (rule render_lines_ok)
  have push: "push_delta default_parser (concat (map (\<lambda>l. l @ [LF]) ?ls) @ END_PATCH_MARKER)
      = push_delta q END_PATCH_MARKER" and b: "line_buffer q = []"
    using push_delta_lines [OF run l _ parser_inv_default] by (simp_all add: default_parser_def)
  let ?p = "q\<lparr>line_buffer := END_PATCH_MARKER\<rparr>"
  have "push_delta q END_PATCH_MARKER = (?p, Ok (hunks (state q)))"
    using push_delta_buffer [OF markers_LF_free(2), of q "[]"] b by simp
  with push have "push_delta default_parser (render_patch env hs) = (?p, Ok (hunks (state q)))"
    using join_str_snoc [of LF ?ls END_PATCH_MARKER] by (simp add: render_patch_def)
  moreover have "parser_finish ?p = (set_mode EndedPatch
      (?p\<lparr>line_buffer := [], line_number := Suc (line_number q)\<rparr>), Ok hs)"
    using q ready_ensure by (simp add: parser_finish_def finish_last_line_def markers_not_Nil
        Let_def end_marker_trim)
  ultimately show thesis using that q(3) by simp
qed

section \<open>Property\<close>

text \<open>
  C2: the parser inverts the documented grammar: a list of well-formed hunks,
  with or without an environment id, rendered as a patch is parsed back to
  exactly those hunks and that id, and the patch text is returned unchanged;
  unchanged lines at the beginning of a chunk are written as context, the others as
  removed and added lines.
\<close>

theorem parse_render_patch:
  assumes "list_all hunk_ok hs" and "pred_option env_ok env"
  shows "parse_patch (render_patch env hs) =
    Ok \<lparr>args_patch = render_patch env hs, args_hunks = hs, args_workdir = None,
        args_environment_id = env\<rparr>"
proof -
  let ?ls = "BEGIN_PATCH_MARKER # render_env env @ concat (map render_hunk hs)"
  have join: "render_patch env hs = join_str [LF] (?ls @ [END_PATCH_MARKER])"
    by (simp add: render_patch_def)
  have last: "last (render_patch env hs) = 104" "hd (render_patch env hs) = 42" "render_patch env hs \<noteq> []"
    unfolding join join_str_snoc by (simp_all add: marker_defs rs_def)
  have "trim_end (render_patch env hs) = render_patch env hs"
    using last trim_end_last by (simp add: is_whitespace_def)
  moreover have "trim_start (render_patch env hs) = render_patch env hs"
    using last(2,3) by (cases "render_patch env hs") (simp_all add: trim_start_def)
  ultimately have trim: "trim (render_patch env hs) = render_patch env hs" by (simp add: trim_def)
  have lines: "str_lines (render_patch env hs) = ?ls @ [END_PATCH_MARKER]"
    unfolding join using render_lines_ok [OF assms] markers_line_ok(2) markers_not_Nil(2)
    by (intro str_lines_join) simp_all
  have "trim BEGIN_PATCH_MARKER = BEGIN_PATCH_MARKER"
    by (simp add: marker_defs rs_def trim_def trim_start_def trim_end_def is_whitespace_def)
  then have "check_patch_boundaries_lenient (?ls @ [END_PATCH_MARKER]) = Ok (?ls @ [END_PATCH_MARKER])"
    by (simp add: check_patch_boundaries_lenient_def check_patch_boundaries_strict_def
        check_start_and_end_lines_strict_def end_marker_trim)
  moreover obtain p r p' where "push_delta default_parser (render_patch env hs) = (p, Ok r)"
    "parser_finish p = (p', Ok hs)" "environment_id (state p') = env"
    using assms by (rule parse_rendered_lines)
  ultimately show ?thesis
    unfolding parse_patch_def parse_patch_text_def PARSE_IN_STRICT_MODE_def Let_def
    by (simp add: trim lines flip: render_patch_def)
qed

theorem parse_render_patch_witness:
  "\<exists>hs. length hs = 3 \<and> parse_patch (render_patch (Some (rs ''env'')) hs) =
    Ok \<lparr>args_patch = render_patch (Some (rs ''env'')) hs, args_hunks = hs, args_workdir = None,
        args_environment_id = Some (rs ''env'')\<rparr>"
proof -
  let ?hs = "[AddFile (rs ''a'') (rs ''x'' @ [LF]), DeleteFile (rs ''b''),
     UpdateFile (rs ''c'') (Some (rs ''d''))
       [\<lparr>change_context = Some (rs ''fn f''), old_lines = [rs ''o'', rs ''p''], new_lines = [rs ''o'', rs ''q'', []],
         is_end_of_file = True\<rparr>]]"
  have h: "list_all hunk_ok ?hs" "pred_option env_ok (Some (rs ''env''))"
    by (simp_all add: env_ok_def field_ok_def line_ok_def chunk_ok_def chunk_is_empty_def str_defs)
  show ?thesis by (rule exI [of _ ?hs]) (use parse_render_patch [OF h] in simp)
qed

end
