(* ===== verification/Seek_Sequence.thy ===== *)
theory Seek_Sequence
  imports Rust_Prelude
begin

text \<open>
  Locating the context and removed lines of a patch in a file
  (\<^verbatim>\<open>apply-patch/src/seek_sequence.rs\<close>): four passes of decreasing strictness over
  the same range of start positions.
\<close>

section \<open>Definitions\<close>

text \<open>The character map inside \<^verbatim>\<open>normalise\<close>.\<close>

definition normalise_char :: "uchar \<Rightarrow> uchar" where
  "normalise_char c =
     (if c \<in> {0x2010, 0x2011, 0x2012, 0x2013, 0x2014, 0x2015, 0x2212} then 45
      else if c \<in> {0x2018, 0x2019, 0x201A, 0x201B} then 39
      else if c \<in> {0x201C, 0x201D, 0x201E, 0x201F} then 34
      else if c \<in> {0x00A0, 0x2002, 0x2003, 0x2004, 0x2005, 0x2006, 0x2007, 0x2008, 0x2009,
                   0x200A, 0x202F, 0x205F, 0x3000} then 32
      else c)"

definition normalise :: "rstr \<Rightarrow> rstr" where
  "normalise s = map normalise_char (trim s)"

text \<open>
  One comparison of the pattern with the lines from position \<open>i\<close> on, each line
  seen through \<open>f\<close>. The loops only use positions where all indices are in range.
\<close>

definition lines_match :: "(rstr \<Rightarrow> rstr) \<Rightarrow> rstr list \<Rightarrow> rstr list \<Rightarrow> nat \<Rightarrow> bool" where
  "lines_match f lines pattern i \<longleftrightarrow>
     list_all2 (\<lambda>l p. f l = f p) (take (length pattern) (drop i lines)) pattern"

definition seek_sequence :: "rstr list \<Rightarrow> rstr list \<Rightarrow> nat \<Rightarrow> bool \<Rightarrow> nat option" where
  "seek_sequence lines pattern start eof =
     (if pattern = [] then Some start
      else if length lines < length pattern then None
      else
        let search_start =
              (if eof \<and> length pattern \<le> length lines then length lines - length pattern
               else start);
            range = [search_start..<Suc (length lines - length pattern)]
        in case find (\<lambda>i. take (length pattern) (drop i lines) = pattern) range of
             Some i \<Rightarrow> Some i
           | None \<Rightarrow>
          (case find (lines_match trim_end lines pattern) range of
             Some i \<Rightarrow> Some i
           | None \<Rightarrow>
          (case find (lines_match trim lines pattern) range of
             Some i \<Rightarrow> Some i
           | None \<Rightarrow> find (lines_match normalise lines pattern) range)))"

section \<open>The strictness levels\<close>

lemma lines_match_id: "lines_match id lines pattern i \<longleftrightarrow> take (length pattern) (drop i lines) = pattern"
  by (simp add: lines_match_def list.rel_eq)

lemma lines_match_mono:
  assumes "lines_match f lines pattern i" and "\<And>a b. f a = f b \<Longrightarrow> g a = g b"
  shows "lines_match g lines pattern i"
  using assms(1) unfolding lines_match_def by (rule list_all2_mono) (rule assms(2))

lemma dropWhile_rev_trim:
  "dropWhile P (rev (dropWhile P (rev xs))) = rev (dropWhile P (rev (dropWhile P xs)))"
proof (cases "\<forall>x \<in> set xs. P x")
  case True
  then have d: "dropWhile P (rev xs) = []" "dropWhile P xs = []" by simp_all
  show ?thesis unfolding d by simp
next
  case False
  then obtain ys x zs where xs: "xs = ys @ x # zs" and ys: "\<forall>y \<in> set ys. P y" and x: "\<not> P x"
    using split_list_first_prop [of xs "\<lambda>x. \<not> P x"] by auto
  from x have r: "dropWhile P (rev zs @ x # ws) = dropWhile P (rev zs) @ x # ws" for ws
    by (rule dropWhile_append3)
  have "dropWhile P (ys @ x # us) = x # us" for us
    using ys x by (induction ys) auto
  with r [of "rev ys"] r [of "[]"] show ?thesis
    by (simp add: xs)
qed

lemma trim_alt: "trim s = trim_start (trim_end s)"
  by (simp add: trim_def trim_start_def trim_end_def dropWhile_rev_trim)

lemma lines_match_levels:
  "lines_match id lines pattern i \<Longrightarrow> lines_match trim_end lines pattern i"
  "lines_match trim_end lines pattern i \<Longrightarrow> lines_match trim lines pattern i"
  "lines_match trim lines pattern i \<Longrightarrow> lines_match normalise lines pattern i"
  by (auto elim!: lines_match_mono simp: trim_alt normalise_def)

lemma lines_match_length:
  "lines_match f lines pattern i \<Longrightarrow> pattern \<noteq> [] \<Longrightarrow> i + length pattern \<le> length lines"
  by (auto simp: lines_match_def dest!: list_all2_lengthD) (cases pattern; auto)

section \<open>Behaviour of the search\<close>

text \<open>The positions that a call looks at.\<close>

definition seek_start :: "rstr list \<Rightarrow> rstr list \<Rightarrow> nat \<Rightarrow> bool \<Rightarrow> nat" where
  "seek_start lines pattern start eof =
     (if eof then length lines - length pattern else start)"

lemma find_upt_Some:
  "find P [a..<b] = Some i \<longleftrightarrow> a \<le> i \<and> i < b \<and> P i \<and> (\<forall>j. a \<le> j \<and> j < i \<longrightarrow> \<not> P j)"
proof
  assume "find P [a..<b] = Some i"
  then obtain k where k: "k < b - a" "P (a + k)" "i = a + k" "\<forall>j < k. \<not> P (a + j)"
    by (auto simp: find_Some_iff)
  then show "a \<le> i \<and> i < b \<and> P i \<and> (\<forall>j. a \<le> j \<and> j < i \<longrightarrow> \<not> P j)"
    by (auto simp: le_iff_add)
next
  assume h: "a \<le> i \<and> i < b \<and> P i \<and> (\<forall>j. a \<le> j \<and> j < i \<longrightarrow> \<not> P j)"
  then show "find P [a..<b] = Some i"
    unfolding find_Some_iff by (intro exI [of _ "i - a"]) auto
qed

lemma find_upt_None: "find P [a..<b] = None \<longleftrightarrow> (\<forall>i. a \<le> i \<and> i < b \<longrightarrow> \<not> P i)"
  by (auto simp: find_None_iff)

text \<open>A match of one level at or after the search start, and the first such position.\<close>

definition first_match :: "(rstr \<Rightarrow> rstr) \<Rightarrow> rstr list \<Rightarrow> rstr list \<Rightarrow> nat \<Rightarrow> nat \<Rightarrow> bool" where
  "first_match f lines pattern lo i \<longleftrightarrow>
     lo \<le> i \<and> lines_match f lines pattern i \<and>
     (\<forall>j. lo \<le> j \<and> j < i \<longrightarrow> \<not> lines_match f lines pattern j)"

definition no_match :: "(rstr \<Rightarrow> rstr) \<Rightarrow> rstr list \<Rightarrow> rstr list \<Rightarrow> nat \<Rightarrow> bool" where
  "no_match f lines pattern lo \<longleftrightarrow> (\<forall>i \<ge> lo. \<not> lines_match f lines pattern i)"

lemma find_lines_match:
  assumes "pattern \<noteq> []" and "length pattern \<le> length lines"
  shows "find (lines_match f lines pattern) [lo..<Suc (length lines - length pattern)] = Some i
           \<longleftrightarrow> first_match f lines pattern lo i"
    and "find (lines_match f lines pattern) [lo..<Suc (length lines - length pattern)] = None
           \<longleftrightarrow> no_match f lines pattern lo"
proof -
  have b: "lines_match f lines pattern i \<Longrightarrow> i < Suc (length lines - length pattern)" for i
    using lines_match_length [OF _ assms(1), of f lines i] by simp
  then show "find (lines_match f lines pattern) [lo..<Suc (length lines - length pattern)] = Some i
      \<longleftrightarrow> first_match f lines pattern lo i"
    unfolding find_upt_Some first_match_def by blast
  from b show "find (lines_match f lines pattern) [lo..<Suc (length lines - length pattern)] = None
      \<longleftrightarrow> no_match f lines pattern lo"
    unfolding find_upt_None no_match_def by blast
qed

lemma no_match_longer:
  "pattern \<noteq> [] \<Longrightarrow> length lines < length pattern \<Longrightarrow> no_match f lines pattern lo"
  using lines_match_length by (fastforce simp: no_match_def)

lemma first_match_not_no_match: "first_match f lines pattern lo i \<Longrightarrow> \<not> no_match f lines pattern lo"
  by (auto simp: first_match_def no_match_def)

lemma no_match_levels:
  "no_match normalise lines pattern lo \<Longrightarrow> no_match trim lines pattern lo"
  "no_match trim lines pattern lo \<Longrightarrow> no_match trim_end lines pattern lo"
  "no_match trim_end lines pattern lo \<Longrightarrow> no_match id lines pattern lo"
  by (auto simp: no_match_def dest: lines_match_levels)

lemma first_match_unique:
  "first_match f lines pattern lo i \<Longrightarrow> first_match f lines pattern lo j \<Longrightarrow> i = j"
  by (metis first_match_def linorder_less_linear)

lemma seek_sequence_unfold:
  assumes "pattern \<noteq> []" and "length pattern \<le> length lines"
  shows "seek_sequence lines pattern start eof =
     (let range = [seek_start lines pattern start eof..<Suc (length lines - length pattern)]
      in case find (lines_match id lines pattern) range of Some i \<Rightarrow> Some i
       | None \<Rightarrow> (case find (lines_match trim_end lines pattern) range of Some i \<Rightarrow> Some i
       | None \<Rightarrow> (case find (lines_match trim lines pattern) range of Some i \<Rightarrow> Some i
       | None \<Rightarrow> find (lines_match normalise lines pattern) range)))"
proof -
  have "lines_match id lines pattern = (\<lambda>i. take (length pattern) (drop i lines) = pattern)"
    by (rule ext) (rule lines_match_id)
  with assms show ?thesis
    by (simp add: seek_sequence_def seek_start_def Let_def del: upt_Suc)
qed

lemma seek_sequence_Some_iff:
  assumes "pattern \<noteq> []"
  defines "s \<equiv> \<lambda>lines start eof. seek_start lines pattern start eof"
  shows "seek_sequence lines pattern start eof = Some i \<longleftrightarrow>
    first_match id lines pattern (s lines start eof) i
    \<or> no_match id lines pattern (s lines start eof)
       \<and> first_match trim_end lines pattern (s lines start eof) i
    \<or> no_match trim_end lines pattern (s lines start eof)
       \<and> first_match trim lines pattern (s lines start eof) i
    \<or> no_match trim lines pattern (s lines start eof)
       \<and> first_match normalise lines pattern (s lines start eof) i"
proof (cases "length pattern \<le> length lines")
  case False
  with assms(1) show ?thesis
    by (auto simp: seek_sequence_def dest!: first_match_not_no_match
        intro: no_match_longer)
next
  case True
  note f = find_lines_match [OF assms(1) True]
  show ?thesis
    unfolding seek_sequence_unfold [OF assms(1) True] s_def Let_def
    by (auto simp del: upt_Suc split: option.splits simp: f
        dest: first_match_not_no_match no_match_levels first_match_unique)
qed

lemma seek_sequence_None_iff:
  assumes "pattern \<noteq> []"
  shows "seek_sequence lines pattern start eof = None \<longleftrightarrow>
    no_match normalise lines pattern (seek_start lines pattern start eof)"
proof (cases "length pattern \<le> length lines")
  case False
  with assms show ?thesis by (simp add: seek_sequence_def no_match_longer)
next
  case True
  note f = find_lines_match [OF assms True]
  show ?thesis
    unfolding seek_sequence_unfold [OF assms True] Let_def
    by (auto simp del: upt_Suc split: option.splits simp: f
        dest: first_match_not_no_match no_match_levels)
qed

lemma seek_sequence_normalised:
  assumes "seek_sequence lines pattern start eof = Some i" and "pattern \<noteq> []"
  shows "lines_match normalise lines pattern i" and "seek_start lines pattern start eof \<le> i"
    and "i + length pattern \<le> length lines"
proof -
  from assms show m: "lines_match normalise lines pattern i"
    and "seek_start lines pattern start eof \<le> i"
    by (auto simp: seek_sequence_Some_iff first_match_def intro: lines_match_levels)
  from m assms(2) show "i + length pattern \<le> length lines" by (rule lines_match_length)
qed

lemma seek_sequence_empty [simp]: "seek_sequence lines [] start eof = Some start"
  by (simp add: seek_sequence_def)

lemma seek_sequence_bounds:
  assumes "seek_sequence lines pattern start False = Some i" and "start \<le> length lines"
  shows "start \<le> i" and "i + length pattern \<le> length lines"
  using assms seek_sequence_normalised [OF assms(1)]
  by (cases "pattern = []"; simp add: seek_start_def)+

end
