(* ===== verification/Patch_Apply.thy ===== *)
theory Patch_Apply
  imports Seek_Sequence Patch_Parser "HOL-Library.Multiset"
begin

text \<open>
  From the chunks of an update hunk to the new contents of a file: locating the
  chunks (\<^verbatim>\<open>compute_replacements\<close>), rewriting the lines (\<^verbatim>\<open>apply_replacements\<close>) and the
  text around them (\<^verbatim>\<open>derive_new_contents_from_chunks\<close>) of
  \<^verbatim>\<open>apply-patch/src/lib.reps\<close>. \<^verbatim>\<open>Vec::insert\<close> panics beyond the end of the vector; here
  that is \<open>None\<close>.
\<close>

section \<open>Definitions\<close>

type_synonym replacement = "nat \<times> nat \<times> rstr list"

text \<open>One chunk: the new \<^verbatim>\<open>line_index\<close> and the replacement, or an error message.\<close>

definition msg_no_context :: "rstr \<Rightarrow> rstr \<Rightarrow> rstr" where
  "msg_no_context ctx path = rs ''Failed to find context '' @ [39] @ ctx @ [39] @ rs '' in '' @ path"

definition msg_no_lines :: "rstr \<Rightarrow> rstr list \<Rightarrow> rstr" where
  "msg_no_lines path old = rs ''Failed to find expected lines in '' @ path @ rs '':'' @ [LF]
     @ join_str [LF] old"

definition last_line_empty :: "rstr list \<Rightarrow> bool" where
  "last_line_empty ls \<longleftrightarrow> ls \<noteq> [] \<and> last ls = []"

definition seek_context ::
  "rstr list \<Rightarrow> rstr \<Rightarrow> rstr option \<Rightarrow> nat \<Rightarrow> (rstr, nat) result" where
  "seek_context original_lines path ctx line_index =
     (case ctx of
        None \<Rightarrow> Ok line_index
      | Some ctx_line \<Rightarrow>
          (case seek_sequence original_lines [ctx_line] line_index False of
             Some idx \<Rightarrow> Ok (idx + 1)
           | None \<Rightarrow> Err (msg_no_context ctx_line path)))"

definition locate_old_lines ::
  "rstr list \<Rightarrow> rstr \<Rightarrow> update_file_chunk \<Rightarrow> nat \<Rightarrow> (rstr, nat \<times> replacement) result" where
  "locate_old_lines original_lines path chunk line_index =
     (let pattern = old_lines chunk;
          found = seek_sequence original_lines pattern line_index (is_end_of_file chunk);
          new_slice = new_lines chunk;
          retry = (found = None \<and> last_line_empty pattern);
          pattern' = (if retry then butlast pattern else pattern);
          new_slice' = (if retry \<and> last_line_empty new_slice then butlast new_slice else new_slice);
          found' = (if retry then seek_sequence original_lines pattern' line_index (is_end_of_file chunk)
                    else found)
      in case found' of
           Some start_idx \<Rightarrow>
             Ok (start_idx + length pattern', (start_idx, length pattern', new_slice'))
         | None \<Rightarrow> Err (msg_no_lines path (old_lines chunk)))"

definition locate_chunk ::
  "rstr list \<Rightarrow> rstr \<Rightarrow> update_file_chunk \<Rightarrow> nat \<Rightarrow> (rstr, nat \<times> replacement) result" where
  "locate_chunk original_lines path chunk line_index =
     bind_result (seek_context original_lines path (change_context chunk) line_index) (\<lambda>line_index.
       if old_lines chunk = [] then
         Ok (line_index,
             (if last_line_empty original_lines then length original_lines - 1
              else length original_lines, 0, new_lines chunk))
       else locate_old_lines original_lines path chunk line_index)"

fun collect_replacements ::
  "rstr list \<Rightarrow> rstr \<Rightarrow> update_file_chunk list \<Rightarrow> nat \<Rightarrow> (rstr, replacement list) result" where
  "collect_replacements original_lines path [] line_index = Ok []"
| "collect_replacements original_lines path (chunk # chunks) line_index =
     bind_result (locate_chunk original_lines path chunk line_index) (\<lambda>(line_index', r).
       result_map ((#) r) (collect_replacements original_lines path chunks line_index'))"

definition compute_replacements ::
  "rstr list \<Rightarrow> rstr \<Rightarrow> update_file_chunk list \<Rightarrow> (rstr, replacement list) result" where
  "compute_replacements original_lines path chunks =
     result_map (sort_key fst) (collect_replacements original_lines path chunks 0)"

definition vec_insert :: "'a list \<Rightarrow> nat \<Rightarrow> 'a \<Rightarrow> 'a list option" where
  "vec_insert xs i x = (if i \<le> length xs then Some (take i xs @ x # drop i xs) else None)"

definition vec_remove :: "'a list \<Rightarrow> nat \<Rightarrow> 'a list" where
  "vec_remove xs i = take i xs @ drop (Suc i) xs"

fun remove_old :: "'a list \<Rightarrow> nat \<Rightarrow> nat \<Rightarrow> 'a list" where
  "remove_old lines start_idx 0 = lines"
| "remove_old lines start_idx (Suc n) =
     remove_old (if start_idx < length lines then vec_remove lines start_idx else lines) start_idx n"

fun insert_new :: "'a list \<Rightarrow> nat \<Rightarrow> 'a list \<Rightarrow> 'a list option" where
  "insert_new lines i [] = Some lines"
| "insert_new lines i (x # xs) = Option.bind (vec_insert lines i x) (\<lambda>l. insert_new l (Suc i) xs)"

fun replace_region :: "replacement \<Rightarrow> rstr list \<Rightarrow> rstr list option" where
  "replace_region (start_idx, old_len, new_segment) lines =
     insert_new (remove_old lines start_idx old_len) start_idx new_segment"

fun apply_in_order :: "replacement list \<Rightarrow> rstr list \<Rightarrow> rstr list option" where
  "apply_in_order [] lines = Some lines"
| "apply_in_order (r # reps) lines = Option.bind (replace_region r lines) (apply_in_order reps)"

definition apply_replacements :: "rstr list \<Rightarrow> replacement list \<Rightarrow> rstr list option" where
  "apply_replacements lines replacements = apply_in_order (rev replacements) lines"

text \<open>The text part of \<^verbatim>\<open>derive_new_contents_from_chunks\<close>; \<open>None\<close> is a panic.\<close>

definition original_lines_of :: "rstr \<Rightarrow> rstr list" where
  "original_lines_of contents =
     (let ls = split_char LF contents in if last_line_empty ls then butlast ls else ls)"

definition new_contents_from_chunks ::
  "rstr \<Rightarrow> rstr \<Rightarrow> update_file_chunk list \<Rightarrow> (rstr, rstr option) result" where
  "new_contents_from_chunks original_contents path chunks =
     (let original_lines = original_lines_of original_contents in
      result_map
        (\<lambda>replacements. map_option
           (\<lambda>new_lines. join_str [LF] (if last_line_empty new_lines then new_lines else new_lines @ [[]]))
           (apply_replacements original_lines replacements))
        (compute_replacements original_lines path chunks))"

section \<open>Rewriting one region\<close>

lemma remove_old_eq: "remove_old xs i n = take i xs @ drop (i + n) xs"
proof (induction n arbitrary: xs)
  case 0
  show ?case by simp
next
  case (Suc n)
  show ?case
  proof (cases "i < length xs")
    case True
    with Suc show ?thesis by (simp add: vec_remove_def add.commute)
  next
    case False
    with Suc show ?thesis by simp
  qed
qed

lemma insert_new_eq: "i \<le> length xs \<Longrightarrow> insert_new xs i ys = Some (take i xs @ ys @ drop i xs)"
proof (induction ys arbitrary: xs i)
  case Nil
  show ?case by simp
next
  case (Cons y ys)
  then show ?case by (simp add: vec_insert_def)
qed

lemma replace_region_eq:
  assumes "i \<le> length xs"
  shows "replace_region (i, n, new) xs = Some (take i xs @ new @ drop (i + n) xs)"
  using assms by (simp add: remove_old_eq insert_new_eq)

section \<open>Well-placed replacements\<close>

text \<open>Sorted, inside the file and pairwise disjoint, from position \<open>lo\<close> on.\<close>

fun well_placed :: "nat \<Rightarrow> nat \<Rightarrow> replacement list \<Rightarrow> bool" where
  "well_placed len lo [] \<longleftrightarrow> lo \<le> len"
| "well_placed len lo ((i, n, _) # reps) \<longleftrightarrow> lo \<le> i \<and> well_placed len (i + n) reps"

text \<open>The intended result: one pass from the front, copying what lies between the regions.\<close>

fun splice_regions :: "'a list \<Rightarrow> nat \<Rightarrow> (nat \<times> nat \<times> 'a list) list \<Rightarrow> 'a list" where
  "splice_regions xs pos [] = drop pos xs"
| "splice_regions xs pos ((i, n, new) # reps) = take (i - pos) (drop pos xs) @ new @ splice_regions xs (i + n) reps"

lemma well_placed_bound: "well_placed len lo reps \<Longrightarrow> lo \<le> len"
  by (induction len lo reps rule: well_placed.induct) auto

lemma apply_in_order_append:
  "apply_in_order (a @ b) xs = Option.bind (apply_in_order a xs) (apply_in_order b)"
proof (induction a arbitrary: xs)
  case Nil
  show ?case by simp
next
  case (Cons r a)
  then show ?case by (cases "replace_region r xs") simp_all
qed

lemma apply_well_placed:
  assumes "well_placed (length xs) lo reps"
  shows "apply_in_order (rev reps) xs = Some (take lo xs @ splice_regions xs lo reps)"
  using assms
proof (induction reps arbitrary: lo)
  case Nil
  then show ?case by simp
next
  case (Cons r reps)
  obtain i n new where r: "r = (i, n, new)" by (cases r)
  with Cons.prems have lo: "lo \<le> i" and wp: "well_placed (length xs) (i + n) reps" by auto
  from wp have b: "i + n \<le> length xs" by (rule well_placed_bound)
  have "apply_in_order (rev (r # reps)) xs = replace_region (i, n, new) (take (i + n) xs @ splice_regions xs (i + n) reps)"
    using Cons.IH [OF wp]
    by (simp add: apply_in_order_append r fun_eq_iff [of "apply_in_order []"] del: replace_region.simps)
      (cases "replace_region (i, n, new) (take (i + n) xs @ splice_regions xs (i + n) reps)"; simp)
  also have "\<dots> = Some (take i xs @ new @ splice_regions xs (i + n) reps)"
    using b by (subst replace_region_eq) auto
  also have "take i xs = take lo xs @ take (i - lo) (drop lo xs)"
    using lo by (metis le_add_diff_inverse take_add)
  finally show ?case by (simp add: r)
qed

text \<open>Positions inside the file are enough for the absence of a panic.\<close>

lemma apply_in_order_some:
  assumes "\<forall>(i, n, new) \<in> set reps. i \<le> m" and "m \<le> length xs" and "sorted (map fst (rev reps))"
  shows "\<exists>ys. apply_in_order reps xs = Some ys"
  using assms
proof (induction reps arbitrary: xs m)
  case Nil
  show ?case by simp
next
  case (Cons r reps)
  obtain i n new where r: "r = (i, n, new)" by (cases r)
  with Cons.prems have i: "i \<le> length xs" by auto
  let ?xs = "take i xs @ new @ drop (i + n) xs"
  have "\<exists>ys. apply_in_order reps ?xs = Some ys"
  proof (rule Cons.IH)
    show "\<forall>(j, k, w) \<in> set reps. j \<le> i"
      using Cons.prems(3) r by (auto simp: sorted_append)
    show "i \<le> length ?xs" using i by simp
    show "sorted (map fst (rev reps))" using Cons.prems(3) by (simp add: sorted_append)
  qed
  with r i show ?case by (simp add: replace_region_eq del: replace_region.simps)
qed

section \<open>Where the chunks are placed\<close>

lemma seek_any_bounds:
  assumes "seek_sequence ls pat start eof = Some i" and "start \<le> length ls"
  shows "i + length pat \<le> length ls"
  using assms seek_sequence_normalised(3) [OF assms(1)] by (cases "pat = []") auto

lemma seek_context_bounds:
  assumes "seek_context ls path ctx idx = Ok idx'" and "idx \<le> length ls"
  shows "idx \<le> idx'" and "idx' \<le> length ls"
  using assms seek_sequence_bounds [of ls _ idx]
  by (fastforce simp: seek_context_def split: option.splits)+

lemma locate_old_lines_bounds:
  assumes "locate_old_lines ls path c idx = Ok (idx', (i, n, new))" and "idx \<le> length ls"
  shows "idx' = i + n" and "i + n \<le> length ls" and "\<not> is_end_of_file c \<Longrightarrow> idx \<le> i"
  using assms seek_any_bounds [OF _ assms(2)] seek_sequence_bounds(1) [OF _ assms(2)]
  by (fastforce simp: locate_old_lines_def Let_def split: option.splits if_splits)+

definition is_addition :: "rstr list \<Rightarrow> update_file_chunk \<Rightarrow> bool" where
  "is_addition ls c \<longleftrightarrow> old_lines c = [] \<and> last_line_empty ls"

lemma locate_chunk_bounds:
  assumes "locate_chunk ls path c idx = Ok (idx', (i, n, new))" and "idx \<le> length ls"
  shows "i + n \<le> length ls" and "idx' \<le> length ls"
    and "\<not> is_end_of_file c \<Longrightarrow> \<not> is_addition ls c
      \<Longrightarrow> idx \<le> idx' \<and> (i < length ls \<longrightarrow> idx \<le> i \<and> idx' = i + n)"
proof -
  from assms(1) obtain k where k: "seek_context ls path (change_context c) idx = Ok k"
    and l: "if old_lines c = [] then idx' = k \<and> n = 0 \<and>
        i = (if last_line_empty ls then length ls - 1 else length ls)
      else locate_old_lines ls path c k = Ok (idx', (i, n, new))"
    by (auto simp: locate_chunk_def bind_result_eq split: if_splits)
  note kb = seek_context_bounds [OF k assms(2)]
  note b = locate_old_lines_bounds [of ls path c k idx' i n new]
  show "i + n \<le> length ls" "idx' \<le> length ls"
    using l kb b by (auto split: if_splits)
  show "idx \<le> idx' \<and> (i < length ls \<longrightarrow> idx \<le> i \<and> idx' = i + n)"
    if "\<not> is_end_of_file c" "\<not> is_addition ls c"
    using that l kb b by (auto simp: is_addition_def split: if_splits)
qed

lemma collect_in_file:
  assumes "collect_replacements ls path cs idx = Ok reps" and "idx \<le> length ls"
  shows "\<forall>(i, n, new) \<in> set reps. i + n \<le> length ls"
  using assms
proof (induction cs arbitrary: idx reps)
  case Nil
  then show ?case by simp
next
  case (Cons c cs)
  then obtain idx' i n new reps' where l: "locate_chunk ls path c idx = Ok (idx', (i, n, new))"
    and reps': "collect_replacements ls path cs idx' = Ok reps'" "reps = (i, n, new) # reps'"
    by (auto simp: bind_result_eq result_map_eq)
  with Cons.IH [OF reps'(1)] locate_chunk_bounds [OF l Cons.prems(2)] show ?case by simp
qed

lemma well_placed_mono: "well_placed len lo reps \<Longrightarrow> lo' \<le> lo \<Longrightarrow> well_placed len lo' reps"
  by (cases "(len, lo, reps)" rule: well_placed.cases) auto

lemma collect_well_placed:
  assumes "collect_replacements ls path cs idx = Ok reps" and "idx \<le> length ls"
    and "\<forall>c \<in> set cs. \<not> is_end_of_file c \<and> \<not> is_addition ls c"
  shows "well_placed (length ls) idx (filter (\<lambda>r. fst r < length ls) reps)"
  using assms
proof (induction cs arbitrary: idx reps)
  case Nil
  then show ?case by simp
next
  case (Cons c cs)
  then obtain idx' i n new reps' where l: "locate_chunk ls path c idx = Ok (idx', (i, n, new))"
    and reps': "collect_replacements ls path cs idx' = Ok reps'" "reps = (i, n, new) # reps'"
    by (auto simp: bind_result_eq result_map_eq)
  with Cons.IH [OF reps'(1)] locate_chunk_bounds [OF l Cons.prems(2)] Cons.prems(3) show ?case
    by (auto intro: well_placed_mono)
qed

lemma well_placed_sorted: "well_placed len lo reps \<Longrightarrow> sorted (map fst reps) \<and> (\<forall>r \<in> set reps. lo \<le> fst r)"
proof (induction len lo reps rule: well_placed.induct)
  case (2 len lo i n w reps)
  then have "sorted (map fst reps)" "\<forall>r \<in> set reps. i + n \<le> fst r" "lo \<le> i" by auto
  then show ?case by fastforce
qed simp

lemma well_placed_append_end:
  assumes "well_placed len lo p" and "\<forall>(i, n, w) \<in> set q. i = len \<and> n = 0"
  shows "well_placed len lo (p @ q)"
  using assms(1)
proof (induction p arbitrary: lo)
  case Nil
  from assms(2) have "lo' \<le> len \<Longrightarrow> well_placed len lo' q" for lo'
    by (induction q arbitrary: lo') auto
  with Nil show ?case by simp
next
  case (Cons r p)
  then show ?case by (cases r) auto
qed

lemma sort_key_split:
  assumes "\<forall>x \<in> set xs. f x \<le> (k::nat)" and "sorted (map f (filter (\<lambda>x. f x < k) xs))"
  shows "sort_key f xs = filter (\<lambda>x. f x < k) xs @ filter (\<lambda>x. f x = k) xs"
proof (rule properties_for_sort_key)
  have "filter (\<lambda>x. \<not> f x < k) xs = filter (\<lambda>x. f x = k) xs"
    using assms(1) by (intro filter_cong) auto
  then show "mset (filter (\<lambda>x. f x < k) xs @ filter (\<lambda>x. f x = k) xs) = mset xs"
    using multiset_partition [of "mset xs" "\<lambda>x. f x < k"] by (simp flip: mset_filter)
  show "filter (\<lambda>y. f x = f y) (filter (\<lambda>x. f x < k) xs @ filter (\<lambda>x. f x = k) xs)
      = filter (\<lambda>y. f x = f y) xs"
    if "x \<in> set (filter (\<lambda>x. f x < k) xs @ filter (\<lambda>x. f x = k) xs)" for x
  proof (cases "f x < k")
    case True
    then have "filter (\<lambda>y. f y < k \<and> f x = f y) xs = filter (\<lambda>y. f x = f y) xs"
      and "filter (\<lambda>y. f y = k \<and> f x = f y) xs = []"
      by (auto intro!: filter_cong simp: filter_empty_conv)
    then show ?thesis by (simp add: conj_commute)
  next
    case False
    with that have "f x = k" by auto
    then have "filter (\<lambda>y. f y = k \<and> f x = f y) xs = filter (\<lambda>y. f x = f y) xs"
      and "filter (\<lambda>y. f y < k \<and> f x = f y) xs = []"
      by (auto intro!: filter_cong simp: filter_empty_conv)
    then show ?thesis by (simp add: conj_commute)
  qed
  show "sorted (map f (filter (\<lambda>x. f x < k) xs @ filter (\<lambda>x. f x = k) xs))"
  proof -
    have "sorted (map f (filter (\<lambda>x. f x = k) xs))" by (induction xs) auto
    with assms(2) show ?thesis by (auto simp: sorted_append intro: less_imp_le)
  qed
qed

lemma compute_well_placed:
  assumes "compute_replacements ls path cs = Ok reps"
    and "\<forall>c \<in> set cs. \<not> is_end_of_file c \<and> \<not> is_addition ls c"
  shows "well_placed (length ls) 0 reps"
proof -
  from assms(1) obtain raw where raw: "collect_replacements ls path cs 0 = Ok raw"
    and reps: "reps = sort_key fst raw"
    by (auto simp: compute_replacements_def result_map_eq)
  have b: "\<forall>(i, n, new) \<in> set raw. i + n \<le> length ls" using collect_in_file [OF raw] by simp
  have w: "well_placed (length ls) 0 (filter (\<lambda>r. fst r < length ls) raw)"
    using collect_well_placed [OF raw _ assms(2)] by simp
  have "reps = filter (\<lambda>r. fst r < length ls) raw @ filter (\<lambda>r. fst r = length ls) raw"
    unfolding reps using b w [THEN well_placed_sorted] by (intro sort_key_split) auto
  moreover have "well_placed (length ls) 0
      (filter (\<lambda>r. fst r < length ls) raw @ filter (\<lambda>r. fst r = length ls) raw)"
    using b by (intro well_placed_append_end [OF w]) auto
  ultimately show ?thesis by simp
qed

section \<open>Properties\<close>

text \<open>
  The search tries the strictness levels in order (exact, trailing blanks
  ignored, surrounding blanks ignored, punctuation normalised) and returns the
  first position, at or after the search start, of the first level that matches
  anywhere there; it fails exactly when not even the most lenient level matches.
\<close>

theorem seek_sequence_spec:
  assumes "pattern \<noteq> []" and "lo = (if eof then length lines - length pattern else start)"
  shows "(case seek_sequence lines pattern start eof of
     None \<Rightarrow> no_match normalise lines pattern lo
   | Some i \<Rightarrow> i + length pattern \<le> length lines \<and>
      (first_match id lines pattern lo i
       \<or> no_match id lines pattern lo \<and> first_match trim_end lines pattern lo i
       \<or> no_match trim_end lines pattern lo \<and> first_match trim lines pattern lo i
       \<or> no_match trim lines pattern lo \<and> first_match normalise lines pattern lo i))"
  using assms seek_sequence_None_iff [OF assms(1)] seek_sequence_Some_iff [OF assms(1)]
    seek_sequence_normalised(3) [OF _ assms(1)]
  by (simp add: seek_start_def split: option.split)

theorem seek_sequence_spec_witness:
  "\<not> no_match id [rs ''a '', rs ''a''] [rs ''a''] 0
   \<and> seek_sequence [rs ''a '', rs ''a''] [rs ''a''] 0 False = Some 1"
proof -
  have s: "seek_sequence [rs ''a '', rs ''a''] [rs ''a''] 0 False = Some 1"
    by (simp add: seek_sequence_def rs_def)
  have "first_match id [rs ''a '', rs ''a''] [rs ''a''] 0 1
     \<or> no_match id [rs ''a '', rs ''a''] [rs ''a''] 0"
    using seek_sequence_spec [of "[rs ''a'']" 0 False "[rs ''a '', rs ''a'']" 0] s
    by (auto dest: no_match_levels)
  moreover have "lines_match id [rs ''a '', rs ''a''] [rs ''a''] 1"
    by (simp add: lines_match_def)
  ultimately show ?thesis using s by (auto simp: no_match_def)
qed

text \<open>
  A chunk marked as end-of-file is only looked for at the very end of the
  file: whatever \<^verbatim>\<open>start\<close> is, the answer is the last possible position or none. The
  documented fallback to a search from \<^verbatim>\<open>start\<close> does not take place.
\<close>

theorem seek_sequence_eof_no_fallback:
  assumes "pattern \<noteq> []"
  shows "seek_sequence lines pattern start True \<in> {None, Some (length lines - length pattern)}
    \<and> seek_sequence lines pattern start True = seek_sequence lines pattern start' True"
proof
  show "seek_sequence lines pattern start True \<in> {None, Some (length lines - length pattern)}"
    using seek_sequence_normalised [OF _ assms, of lines start True]
    by (cases "seek_sequence lines pattern start True") (auto simp: seek_start_def)
  show "seek_sequence lines pattern start True = seek_sequence lines pattern start' True"
    using assms by (simp add: seek_sequence_def)
qed

theorem seek_sequence_eof_no_fallback_witness:
  "seek_sequence [rs ''a'', rs ''b''] [rs ''a''] 0 True = None"
  using seek_sequence_eof_no_fallback [of "[rs ''a'']" "[rs ''a'', rs ''b'']" 0]
  by (simp add: seek_sequence_def rs_def lines_match_def normalise_def normalise_char_def
      trim_def trim_start_def trim_end_def is_whitespace_def)

text \<open>
  Applying the computed replacements never indexes outside the file: for any
  file and any chunks, once the replacements are computed the rewriting returns.
\<close>

theorem new_contents_no_panic:
  assumes "new_contents_from_chunks contents path chunks = Ok r"
  shows "r \<noteq> None"
proof -
  let ?ls = "original_lines_of contents"
  from assms obtain raw where raw: "collect_replacements ?ls path chunks 0 = Ok raw"
    and r: "r = map_option (\<lambda>n. join_str [LF] (if last_line_empty n then n else n @ [[]]))
        (apply_replacements ?ls (sort_key fst raw))"
    by (auto simp: new_contents_from_chunks_def compute_replacements_def result_map_eq Let_def)
  have "\<exists>ys. apply_in_order (rev (sort_key fst raw)) ?ls = Some ys"
    using collect_in_file [OF raw] by (intro apply_in_order_some [where m = "length ?ls"]) auto
  with r show ?thesis by (auto simp: apply_replacements_def)
qed

theorem new_contents_no_panic_witness:
  "new_contents_from_chunks (rs ''a'') [] [push_new (rs ''b'') (new_chunk None)] \<noteq> Ok None"
  using new_contents_no_panic [of "rs ''a''" "[]" "[push_new (rs ''b'') (new_chunk None)]"
      "Some (rs ''a'' @ [LF] @ rs ''b'' @ [LF])"]
  by code_simp



fun chunk_placed :: "rstr list \<Rightarrow> update_file_chunk \<Rightarrow> replacement \<Rightarrow> bool" where
  "chunk_placed ls c (i, n, new) \<longleftrightarrow>
     (if old_lines c = [] then
        n = 0 \<and> new = new_lines c \<and>
        i = (if last_line_empty ls then length ls - 1 else length ls)
      else
        lines_match normalise ls (old_lines c) i \<and> n = length (old_lines c) \<and> new = new_lines c
        \<or> last_line_empty (old_lines c) \<and> lines_match normalise ls (butlast (old_lines c)) i
          \<and> n = length (old_lines c) - 1
          \<and> new = (if last_line_empty (new_lines c) then butlast (new_lines c) else new_lines c))"

lemma seek_sequence_matches: "seek_sequence ls pat start eof = Some i \<Longrightarrow> lines_match normalise ls pat i"
  by (cases "pat = []") (auto dest: seek_sequence_normalised simp: lines_match_def)

lemma locate_chunk_placed:
  assumes "locate_chunk ls path c idx = Ok (idx', r)"
  shows "chunk_placed ls c r"
  using assms
  by (auto simp: locate_chunk_def locate_old_lines_def bind_result_eq Let_def
      dest: seek_sequence_matches split: if_splits option.splits)

text \<open>
  Every chunk is placed where its removed lines are: the replacement of a
  chunk with removed lines covers lines of the file that agree with them up to
  the most lenient comparison (or with all but a final empty one), and carries
  the chunk's added lines; a chunk without removed lines inserts at the end of
  the file, before a final empty line.
\<close>

theorem compute_replacements_placed:
  assumes "compute_replacements ls path chunks = Ok reps"
  shows "\<exists>raw. mset raw = mset reps \<and> list_all2 (chunk_placed ls) chunks raw"
proof -
  from assms obtain raw where raw: "collect_replacements ls path chunks 0 = Ok raw"
    and reps: "reps = sort_key fst raw"
    by (auto simp: compute_replacements_def result_map_eq)
  have "collect_replacements ls path chunks idx = Ok raw \<Longrightarrow> list_all2 (chunk_placed ls) chunks raw" for idx raw
  proof (induction chunks arbitrary: idx raw)
    case (Cons c cs)
    then show ?case by (auto simp: bind_result_eq result_map_eq dest!: locate_chunk_placed)
  qed simp
  with raw reps show ?thesis by auto
qed

theorem compute_replacements_placed_witness:
  "\<exists>raw. mset raw = {#(1::nat, 1::nat, [rs ''x''])#} \<and>
     list_all2 (chunk_placed [rs ''a'', rs ''b'' @ [32]])
       [push_new (rs ''x'') (push_old (rs ''b'') (new_chunk (Some (rs ''a''))))] raw"
proof -
  have "compute_replacements [rs ''a'', rs ''b'' @ [32]] []
      [push_new (rs ''x'') (push_old (rs ''b'') (new_chunk (Some (rs ''a''))))] = Ok [(1, 1, [rs ''x''])]"
    by code_simp
  from compute_replacements_placed [OF this] show ?thesis by simp
qed

lemma join_str_final: "ls \<noteq> [] \<Longrightarrow> last ls = [] \<Longrightarrow> join_str [c] ls = [] \<or> last (join_str [c] ls) = c"
proof (induction ls rule: list_nonempty_induct)
  case (cons l ls)
  then show ?case by (cases "join_str [c] ls = []") (auto simp: join_str_Cons)
qed simp

text \<open>An updated file is empty or ends with a line feed.\<close>

theorem new_contents_newline_terminated:
  assumes "new_contents_from_chunks contents path chunks = Ok (Some new)"
  shows "new = [] \<or> last new = LF"
proof -
  from assms obtain n where
    "new = join_str [LF] (if last_line_empty n then n else n @ [[]])"
    by (auto simp: new_contents_from_chunks_def result_map_eq Let_def dest!: sym [of "Some new"])
  then show ?thesis
    using join_str_final [of "if last_line_empty n then n else n @ [[]]" LF]
    by (auto simp: last_line_empty_def)
qed

theorem new_contents_newline_terminated_witness:
  "last (rs ''a'' @ [LF] @ rs ''b'' @ [LF]) = LF"
proof -
  have "new_contents_from_chunks (rs ''a'') [] [push_new (rs ''b'') (new_chunk None)]
      = Ok (Some (rs ''a'' @ [LF] @ rs ''b'' @ [LF]))"
    by code_simp
  from new_contents_newline_terminated [OF this] show ?thesis by simp
qed

end
