(* ===== verification/Patch_Files.thy ===== *)
theory Patch_Files
  imports Patch_Apply
begin

text \<open>
  Applying parsed hunks to a file system: \<^verbatim>\<open>apply_hunks_to_files\<close>, \<^verbatim>\<open>apply_hunks\<close> and
  \<^verbatim>\<open>apply_patch\<close> of \<^verbatim>\<open>apply-patch/src/lib.rs\<close> with their helpers and the delta they
  report. The file system is the trait object \<^verbatim>\<open>&dyn ExecutorFileSystem\<close> the code
  receives: a record of its operations on an arbitrary state \<open>'s\<close>. \<^verbatim>\<open>PathUri\<close> values
  have type \<open>'p\<close>; joining, parent, conversion to a \<^verbatim>\<open>PathBuf\<close> (\<open>'b\<close>) and display are
  the operations of \<^verbatim>\<open>PathUri\<close> the code uses. The awaits are sequential.
\<close>

section \<open>Errors and file system operations\<close>

datatype io_error_kind = NotFound | InvalidInput | InvalidData | OtherKind

record io_error =
  io_kind :: io_error_kind
  io_message :: rstr

datatype 'pe apply_patch_error =
  ParseErr parse_error
| IoErr rstr io_error
| ComputeReplacements rstr
| PathUriErr 'pe
| ImplicitInvocation

text \<open>\<^verbatim>\<open>anyhow::Error\<close> as the code builds it; \<open>Panic\<close> stands for a Rust panic.\<close>

datatype 'pe anyhow =
  AnyhowIo "rstr option" io_error
| AnyhowApply "'pe apply_patch_error"
| AnyhowPath 'pe
| AnyhowMsg rstr
| Panic

record file_metadata =
  is_directory :: bool
  is_file :: bool
  is_symlink :: bool

record ('s, 'p) executor_file_system =
  read_file_text :: "'s \<Rightarrow> 'p \<Rightarrow> (io_error, rstr) result"
  get_metadata :: "'s \<Rightarrow> 'p \<Rightarrow> (io_error, file_metadata) result"
  write_file :: "'s \<Rightarrow> 'p \<Rightarrow> rstr \<Rightarrow> 's \<times> (io_error, unit) result"
  create_directory :: "'s \<Rightarrow> 'p \<Rightarrow> 's \<times> (io_error, unit) result"
  remove_path :: "'s \<Rightarrow> 'p \<Rightarrow> 's \<times> (io_error, unit) result"

record ('p, 'b, 'pe) path_uri_ops =
  uri_join :: "'p \<Rightarrow> rstr \<Rightarrow> ('pe, 'p) result"
  uri_parent :: "'p \<Rightarrow> 'p option"
  uri_to_path_buf :: "'p \<Rightarrow> 'b"
  uri_display :: "'p \<Rightarrow> rstr"

section \<open>Deltas\<close>

datatype 'b applied_patch_file_change =
  ChangeAdd rstr "rstr option"
| ChangeDelete rstr
| ChangeUpdate "'b option" rstr "rstr option" rstr

record 'b applied_patch_change =
  change_path :: 'b
  change :: "'b applied_patch_file_change"

record 'b applied_patch_delta =
  delta_changes :: "'b applied_patch_change list"
  exact :: bool

definition delta_empty :: "'b applied_patch_delta" where
  "delta_empty = \<lparr>delta_changes = [], exact = True\<rparr>"

definition delta_append :: "'b applied_patch_delta \<Rightarrow> 'b applied_patch_delta \<Rightarrow> 'b applied_patch_delta" where
  "delta_append d other =
     d\<lparr>delta_changes := delta_changes d @ delta_changes other, exact := exact d \<and> exact other\<rparr>"

definition push_change ::
  "'b \<Rightarrow> 'b applied_patch_file_change \<Rightarrow> 'b applied_patch_delta \<Rightarrow> 'b applied_patch_delta" where
  "push_change p c d = d\<lparr>delta_changes := delta_changes d @ [\<lparr>change_path = p, change = c\<rparr>]\<rparr>"

definition and_exact :: "bool \<Rightarrow> 'b applied_patch_delta \<Rightarrow> 'b applied_patch_delta" where
  "and_exact b d = d\<lparr>exact := exact d \<and> b\<rparr>"

record affected_paths =
  added :: "rstr list"
  modified :: "rstr list"
  deleted :: "rstr list"

section \<open>Helpers\<close>

definition ensure_not_directory ::
  "('s, 'p) executor_file_system \<Rightarrow> 's \<Rightarrow> 'p \<Rightarrow> (io_error, unit) result" where
  "ensure_not_directory fs s path =
     bind_result (get_metadata fs s path) (\<lambda>metadata.
       if is_directory metadata
       then Err \<lparr>io_kind = InvalidInput, io_message = rs ''path is a directory''\<rparr>
       else Ok ())"

definition remove_failure_was_side_effect_free ::
  "('s, 'p) executor_file_system \<Rightarrow> 's \<Rightarrow> 'p \<Rightarrow> rstr option \<Rightarrow> bool" where
  "remove_failure_was_side_effect_free fs s path expected_content =
     (case expected_content of
        Some c \<Rightarrow> (case read_file_text fs s path of Ok content \<Rightarrow> content = c | Err _ \<Rightarrow> False)
      | None \<Rightarrow> False)"

text \<open>The value of \<^verbatim>\<open>*exact\<close> after \<^verbatim>\<open>note_existing_path_delta_support\<close>.\<close>

definition note_existing_path_delta_support ::
  "('s, 'p) executor_file_system \<Rightarrow> 's \<Rightarrow> 'p \<Rightarrow> bool \<Rightarrow> bool" where
  "note_existing_path_delta_support fs s path ex =
     (case get_metadata fs s path of
        Ok metadata \<Rightarrow> if is_file metadata \<and> \<not> is_symlink metadata then ex else False
      | Err source \<Rightarrow> if io_kind source = NotFound then ex else False)"

definition read_optional_file_text_for_delta ::
  "('s, 'p) executor_file_system \<Rightarrow> 's \<Rightarrow> 'p \<Rightarrow> bool \<Rightarrow> bool \<times> rstr option" where
  "read_optional_file_text_for_delta fs s path ex =
     (let ex' = note_existing_path_delta_support fs s path ex in
      case read_file_text fs s path of
        Ok content \<Rightarrow> (ex', Some content)
      | Err source \<Rightarrow> if io_kind source = NotFound then (ex', None) else (False, None))"

definition with_context :: "rstr \<Rightarrow> (io_error, 'a) result \<Rightarrow> ('pe anyhow, 'a) result" where
  "with_context ctx r = result_map_err (AnyhowIo (Some ctx)) r"

definition write_file_with_missing_parent_retry ::
  "('p, 'b, 'pe) path_uri_ops \<Rightarrow> ('s, 'p) executor_file_system \<Rightarrow> 's \<Rightarrow> 'p \<Rightarrow> rstr
     \<Rightarrow> 's \<times> ('pe anyhow, unit) result" where
  "write_file_with_missing_parent_retry po fs s path contents =
     (case write_file fs s path contents of
        (s1, Ok _) \<Rightarrow> (s1, Ok ())
      | (s1, Err err) \<Rightarrow>
          if io_kind err = NotFound then
            (case (case uri_parent po path of
                     Some parent \<Rightarrow> create_directory fs s1 parent
                   | None \<Rightarrow> (s1, Ok ())) of
               (s2, Err e) \<Rightarrow>
                 (s2, Err (AnyhowIo (Some (rs ''Failed to create parent directories for '' @ uri_display po path)) e))
             | (s2, Ok _) \<Rightarrow>
                 (case write_file fs s2 path contents of
                    (s3, r) \<Rightarrow> (s3, with_context (rs ''Failed to write file '' @ uri_display po path) r)))
          else (s1, Err (AnyhowIo (Some (rs ''Failed to write file '' @ uri_display po path)) err)))"

text \<open>The original and the new contents, as \<^verbatim>\<open>AppliedPatch\<close>.\<close>

definition derive_new_contents_from_chunks ::
  "('p, 'b, 'pe) path_uri_ops \<Rightarrow> ('s, 'p) executor_file_system \<Rightarrow> 's \<Rightarrow> 'p
     \<Rightarrow> update_file_chunk list \<Rightarrow> ('pe anyhow, rstr \<times> rstr) result" where
  "derive_new_contents_from_chunks po fs s path chunks =
     (case read_file_text fs s path of
        Err err \<Rightarrow> Err (AnyhowApply (IoErr (rs ''Failed to read file to update '' @ uri_display po path) err))
      | Ok original_contents \<Rightarrow>
          (case new_contents_from_chunks original_contents (uri_display po path) chunks of
             Err msg \<Rightarrow> Err (AnyhowApply (ComputeReplacements msg))
           | Ok None \<Rightarrow> Err Panic
           | Ok (Some new_contents) \<Rightarrow> Ok (original_contents, new_contents)))"

section \<open>One hunk\<close>

text \<open>
  The arms of the loop in \<^verbatim>\<open>apply_hunks_to_files\<close>: the file system state, the delta and
  the result afterwards.
\<close>

definition apply_add_hunk ::
  "('p, 'b, 'pe) path_uri_ops \<Rightarrow> ('s, 'p) executor_file_system \<Rightarrow> 's \<Rightarrow> 'b applied_patch_delta \<Rightarrow> 'p \<Rightarrow> rstr
     \<Rightarrow> 's \<times> 'b applied_patch_delta \<times> ('pe anyhow, unit) result" where
  "apply_add_hunk po fs s d path contents =
     (case read_optional_file_text_for_delta fs s path (exact d) of
        (ex, overwritten_content) \<Rightarrow>
          let d1 = d\<lparr>exact := ex\<rparr> in
          (case write_file_with_missing_parent_retry po fs s path contents of
             (s1, Err e) \<Rightarrow> (s1, and_exact False d1, Err e)
           | (s1, Ok _) \<Rightarrow>
               (s1, push_change (uri_to_path_buf po path) (ChangeAdd contents overwritten_content) d1, Ok ())))"

definition apply_delete_hunk ::
  "('p, 'b, 'pe) path_uri_ops \<Rightarrow> ('s, 'p) executor_file_system \<Rightarrow> 's \<Rightarrow> 'b applied_patch_delta \<Rightarrow> 'p
     \<Rightarrow> 's \<times> 'b applied_patch_delta \<times> ('pe anyhow, unit) result" where
  "apply_delete_hunk po fs s d path =
     (let d1 = d\<lparr>exact := note_existing_path_delta_support fs s path (exact d)\<rparr>;
          deleted_content = result_ok (read_file_text fs s path);
          d2 = (if deleted_content = None then and_exact False d1 else d1);
          ctx = rs ''Failed to delete file '' @ uri_display po path
      in case ensure_not_directory fs s path of
           Err e \<Rightarrow> (s, d2, Err (AnyhowIo (Some ctx) e))
         | Ok _ \<Rightarrow>
             (case remove_path fs s path of
                (s1, Err e) \<Rightarrow>
                  (s1, and_exact (remove_failure_was_side_effect_free fs s1 path deleted_content) d2,
                   Err (AnyhowIo (Some ctx) e))
              | (s1, Ok _) \<Rightarrow>
                  (s1, (case deleted_content of
                          Some content \<Rightarrow> push_change (uri_to_path_buf po path) (ChangeDelete content) d2
                        | None \<Rightarrow> d2), Ok ())))"

definition apply_move_hunk ::
  "('p, 'b, 'pe) path_uri_ops \<Rightarrow> ('s, 'p) executor_file_system \<Rightarrow> 's \<Rightarrow> 'b applied_patch_delta \<Rightarrow> 'p \<Rightarrow> 'p
     \<Rightarrow> rstr \<Rightarrow> rstr \<Rightarrow> 's \<times> 'b applied_patch_delta \<times> ('pe anyhow, unit) result" where
  "apply_move_hunk po fs s d path dest original_contents new_contents =
     (case read_optional_file_text_for_delta fs s dest (exact d) of
        (ex, overwritten_move_content) \<Rightarrow>
          let d1 = d\<lparr>exact := ex\<rparr>;
              ctx = rs ''Failed to remove original '' @ uri_display po path
          in (case write_file_with_missing_parent_retry po fs s dest new_contents of
             (s1, Err e) \<Rightarrow> (s1, and_exact False d1, Err e)
           | (s1, Ok _) \<Rightarrow>
               let i = length (delta_changes d1);
                   d2 = push_change (uri_to_path_buf po dest) (ChangeAdd new_contents overwritten_move_content) d1
               in (case ensure_not_directory fs s1 path of
                     Err e \<Rightarrow> (s1, d2, Err (AnyhowIo (Some ctx) e))
                   | Ok _ \<Rightarrow>
                       (case remove_path fs s1 path of
                          (s2, Err e) \<Rightarrow>
                            (s2, and_exact (remove_failure_was_side_effect_free fs s2 path (Some original_contents)) d2,
                             Err (AnyhowIo (Some ctx) e))
                        | (s2, Ok _) \<Rightarrow>
                            (s2, d2\<lparr>delta_changes := (delta_changes d2)[i :=
                               \<lparr>change_path = uri_to_path_buf po path,
                                change = ChangeUpdate (Some (uri_to_path_buf po dest)) original_contents
                                  overwritten_move_content new_contents\<rparr>]\<rparr>, Ok ())))))"

definition apply_update_hunk ::
  "('p, 'b, 'pe) path_uri_ops \<Rightarrow> ('s, 'p) executor_file_system \<Rightarrow> 'p \<Rightarrow> 's \<Rightarrow> 'b applied_patch_delta \<Rightarrow> 'p
     \<Rightarrow> rstr option \<Rightarrow> update_file_chunk list
     \<Rightarrow> 's \<times> 'b applied_patch_delta \<times> ('pe anyhow, unit) result" where
  "apply_update_hunk po fs cwd s d path move_path chunks =
     (let d1 = d\<lparr>exact := note_existing_path_delta_support fs s path (exact d)\<rparr> in
      case derive_new_contents_from_chunks po fs s path chunks of
        Err e \<Rightarrow> (s, d1, Err e)
      | Ok (original_contents, new_contents) \<Rightarrow>
          (case move_path of
             Some dest \<Rightarrow>
               (case uri_join po cwd dest of
                  Err e \<Rightarrow> (s, d1, Err (AnyhowPath e))
                | Ok dest_uri \<Rightarrow>
                    apply_move_hunk po fs s d1 path dest_uri original_contents new_contents)
           | None \<Rightarrow>
               (case write_file fs s path new_contents of
                  (s1, Err e) \<Rightarrow>
                    (s1, and_exact False d1,
                     Err (AnyhowIo (Some (rs ''Failed to write file '' @ uri_display po path)) e))
                | (s1, Ok _) \<Rightarrow>
                    (s1, push_change (uri_to_path_buf po path)
                       (ChangeUpdate None original_contents None new_contents) d1, Ok ()))))"

definition apply_hunk ::
  "('p, 'b, 'pe) path_uri_ops \<Rightarrow> ('s, 'p) executor_file_system \<Rightarrow> 'p \<Rightarrow> 's \<Rightarrow> 'b applied_patch_delta
     \<Rightarrow> hunk \<Rightarrow> 's \<times> 'b applied_patch_delta \<times> ('pe anyhow, unit) result" where
  "apply_hunk po fs cwd s d h =
     (case hunk_resolve_path (uri_join po) cwd h of
        Err e \<Rightarrow> (s, d, Err (AnyhowPath e))
      | Ok path \<Rightarrow>
          (case h of
             AddFile _ contents \<Rightarrow> apply_add_hunk po fs s d path contents
           | DeleteFile _ \<Rightarrow> apply_delete_hunk po fs s d path
           | UpdateFile _ move_path chunks \<Rightarrow> apply_update_hunk po fs cwd s d path move_path chunks))"

section \<open>All hunks\<close>

fun note_affected :: "hunk \<Rightarrow> affected_paths \<Rightarrow> affected_paths" where
  "note_affected (AddFile p c) a = a\<lparr>added := added a @ [hunk_path (AddFile p c)]\<rparr>"
| "note_affected (DeleteFile p) a = a\<lparr>deleted := deleted a @ [hunk_path (DeleteFile p)]\<rparr>"
| "note_affected (UpdateFile p m cs) a = a\<lparr>modified := modified a @ [hunk_path (UpdateFile p m cs)]\<rparr>"

fun apply_hunk_list ::
  "('p, 'b, 'pe) path_uri_ops \<Rightarrow> ('s, 'p) executor_file_system \<Rightarrow> 'p \<Rightarrow> 's \<Rightarrow> 'b applied_patch_delta
     \<Rightarrow> affected_paths \<Rightarrow> hunk list \<Rightarrow> 's \<times> 'b applied_patch_delta \<times> ('pe anyhow, affected_paths) result" where
  "apply_hunk_list po fs cwd s d a [] = (s, d, Ok a)"
| "apply_hunk_list po fs cwd s d a (h # hs) =
     (case apply_hunk po fs cwd s d h of
        (s1, d1, Err e) \<Rightarrow> (s1, d1, Err e)
      | (s1, d1, Ok _) \<Rightarrow> apply_hunk_list po fs cwd s1 d1 (note_affected h a) hs)"

definition apply_hunks_to_files ::
  "('p, 'b, 'pe) path_uri_ops \<Rightarrow> ('s, 'p) executor_file_system \<Rightarrow> 'p \<Rightarrow> 's \<Rightarrow> 'b applied_patch_delta
     \<Rightarrow> hunk list \<Rightarrow> 's \<times> 'b applied_patch_delta \<times> ('pe anyhow, affected_paths) result" where
  "apply_hunks_to_files po fs cwd s d hs =
     (if hs = [] then (s, d, Err (AnyhowMsg (rs ''No files were modified.'')))
      else apply_hunk_list po fs cwd s d \<lparr>added = [], modified = [], deleted = []\<rparr> hs)"

section \<open>Reporting\<close>

fun show_digits :: "nat \<Rightarrow> nat \<Rightarrow> rstr" where
  "show_digits 0 n = []"
| "show_digits (Suc k) n =
     (if n < 10 then [48 + int n] else show_digits k (n div 10) @ [48 + int (n mod 10)])"

definition show_nat :: "nat \<Rightarrow> rstr" where
  "show_nat n = show_digits (Suc n) n"

fun parse_error_display :: "parse_error \<Rightarrow> rstr" where
  "parse_error_display (InvalidPatchError m) = rs ''invalid patch: '' @ m"
| "parse_error_display (InvalidHunkError m n) = rs ''invalid hunk at line '' @ show_nat n @ rs '', '' @ m"

fun apply_error_display :: "('pe \<Rightarrow> rstr) \<Rightarrow> 'pe apply_patch_error \<Rightarrow> rstr" where
  "apply_error_display sp (ParseErr e) = parse_error_display e"
| "apply_error_display sp (IoErr ctx e) = ctx @ rs '': '' @ io_message e"
| "apply_error_display sp (ComputeReplacements m) = m"
| "apply_error_display sp (PathUriErr e) = sp e"
| "apply_error_display sp ImplicitInvocation =
     rs ''patch detected without explicit call to apply_patch. Rerun as ['' @ [34] @ rs ''apply_patch'' @ [34]
     @ rs '', '' @ [34] @ rs ''<patch>'' @ [34] @ rs '']''"

fun anyhow_display :: "('pe \<Rightarrow> rstr) \<Rightarrow> 'pe anyhow \<Rightarrow> rstr" where
  "anyhow_display sp (AnyhowIo (Some ctx) e) = ctx"
| "anyhow_display sp (AnyhowIo None e) = io_message e"
| "anyhow_display sp (AnyhowApply e) = apply_error_display sp e"
| "anyhow_display sp (AnyhowPath e) = sp e"
| "anyhow_display sp (AnyhowMsg m) = m"
| "anyhow_display sp Panic = []"

text \<open>\<^verbatim>\<open>impl From<std::io::Error> for ApplyPatchError\<close>.\<close>

definition io_apply_error :: "io_error \<Rightarrow> 'pe apply_patch_error" where
  "io_apply_error e = IoErr (rs ''I/O error'') e"

text \<open>The error conversion at the end of \<^verbatim>\<open>apply_hunks\<close>: a downcast to \<^verbatim>\<open>std::io::Error\<close>.\<close>

definition to_apply_error :: "('pe \<Rightarrow> rstr) \<Rightarrow> 'pe anyhow \<Rightarrow> 'pe apply_patch_error" where
  "to_apply_error sp error =
     (case error of
        AnyhowIo _ io \<Rightarrow> io_apply_error io
      | _ \<Rightarrow> IoErr (anyhow_display sp error)
               \<lparr>io_kind = OtherKind, io_message = anyhow_display sp error\<rparr>)"

record ('b, 'pe) apply_patch_failure =
  failure_error :: "'pe apply_patch_error"
  failure_delta :: "'b applied_patch_delta"

text \<open>A stream is the state of the writer and its \<^verbatim>\<open>writeln!\<close>.\<close>

type_synonym 'o writer = "'o \<Rightarrow> rstr \<Rightarrow> 'o \<times> (io_error, unit) result"

fun write_lines :: "'o writer \<Rightarrow> 'o \<Rightarrow> rstr list \<Rightarrow> 'o \<times> (io_error, unit) result" where
  "write_lines w out [] = (out, Ok ())"
| "write_lines w out (l # ls) =
     (case w out l of (out', Err e) \<Rightarrow> (out', Err e) | (out', Ok _) \<Rightarrow> write_lines w out' ls)"

definition print_summary :: "'o writer \<Rightarrow> affected_paths \<Rightarrow> 'o \<Rightarrow> 'o \<times> (io_error, unit) result" where
  "print_summary w affected out =
     write_lines w out
       (rs ''Success. Updated the following files:''
        # map (\<lambda>p. rs ''A '' @ p) (added affected)
        @ map (\<lambda>p. rs ''M '' @ p) (modified affected)
        @ map (\<lambda>p. rs ''D '' @ p) (deleted affected))"

definition apply_hunks ::
  "('p, 'b, 'pe) path_uri_ops \<Rightarrow> ('pe \<Rightarrow> rstr) \<Rightarrow> 'o writer \<Rightarrow> 'o writer \<Rightarrow> ('s, 'p) executor_file_system
     \<Rightarrow> 'p \<Rightarrow> 's \<Rightarrow> 'o \<Rightarrow> 'o \<Rightarrow> hunk list
     \<Rightarrow> 's \<times> 'o \<times> 'o \<times> (('b, 'pe) apply_patch_failure, 'b applied_patch_delta) result" where
  "apply_hunks po sp wout werr fs cwd s stdout stderr hs =
     (case apply_hunks_to_files po fs cwd s delta_empty hs of
        (s1, delta, Ok affected) \<Rightarrow>
          (case print_summary wout affected stdout of
             (stdout1, Err e) \<Rightarrow>
               (s1, stdout1, stderr, Err \<lparr>failure_error = io_apply_error e, failure_delta = delta\<rparr>)
           | (stdout1, Ok _) \<Rightarrow> (s1, stdout1, stderr, Ok delta))
      | (s1, delta, Err error) \<Rightarrow>
          (case werr stderr (anyhow_display sp error) of
             (stderr1, Err e) \<Rightarrow>
               (s1, stdout, stderr1, Err \<lparr>failure_error = io_apply_error e, failure_delta = delta\<rparr>)
           | (stderr1, Ok _) \<Rightarrow>
               (s1, stdout, stderr1,
                Err \<lparr>failure_error = to_apply_error sp error, failure_delta = delta\<rparr>)))"

fun parse_failure_message :: "parse_error \<Rightarrow> rstr" where
  "parse_failure_message (InvalidPatchError m) = rs ''Invalid patch: '' @ m"
| "parse_failure_message (InvalidHunkError m n) = rs ''Invalid patch hunk on line '' @ show_nat n @ rs '': '' @ m"

definition apply_patch ::
  "('p, 'b, 'pe) path_uri_ops \<Rightarrow> ('pe \<Rightarrow> rstr) \<Rightarrow> 'o writer \<Rightarrow> 'o writer \<Rightarrow> ('s, 'p) executor_file_system
     \<Rightarrow> 'p \<Rightarrow> 's \<Rightarrow> 'o \<Rightarrow> 'o \<Rightarrow> rstr
     \<Rightarrow> 's \<times> 'o \<times> 'o \<times> (('b, 'pe) apply_patch_failure, 'b applied_patch_delta) result" where
  "apply_patch po sp wout werr fs cwd s stdout stderr patch =
     (case parse_patch patch of
        Ok source \<Rightarrow> apply_hunks po sp wout werr fs cwd s stdout stderr (args_hunks source)
      | Err e \<Rightarrow>
          (case werr stderr (parse_failure_message e) of
             (stderr1, Err io) \<Rightarrow>
               (s, stdout, stderr1, Err \<lparr>failure_error = io_apply_error io, failure_delta = delta_empty\<rparr>)
           | (stderr1, Ok _) \<Rightarrow>
               (s, stdout, stderr1, Err \<lparr>failure_error = ParseErr e, failure_delta = delta_empty\<rparr>)))"

end
