(* ===== verification/Patch_Delta.thy ===== *)
theory Patch_Delta
  imports Patch_Files
begin

text \<open>
  What the delta reported by \<^verbatim>\<open>apply_hunks_to_files\<close> says about the file system: as
  long as it is exact, it can be replayed and reverted, also when the patch failed
  half-way.
\<close>

section \<open>Laws of the file system\<close>

definition regular_or_absent :: "('s, 'p) executor_file_system \<Rightarrow> 's \<Rightarrow> 'p \<Rightarrow> bool" where
  "regular_or_absent fs s p \<longleftrightarrow>
     (case get_metadata fs s p of
        Ok m \<Rightarrow> is_file m \<and> \<not> is_symlink m
      | Err e \<Rightarrow> io_kind e = NotFound)"

text \<open>
  What the code relies on. \<open>view s b\<close> is the text of the file at \<open>b\<close> in state \<open>s\<close>.
  Reading returns it; on a path that is a regular file or absent, writing and
  removing change that path only; a write that fails because a directory is
  missing, and creating a directory, leave all texts alone; neither turns a
  regular file into something else; a failed removal touches no other path.
\<close>

definition lawful_fs ::
  "('p \<Rightarrow> 'b) \<Rightarrow> ('s, 'p) executor_file_system \<Rightarrow> ('s \<Rightarrow> 'b \<Rightarrow> rstr option) \<Rightarrow> bool" where
  "lawful_fs key fs view \<longleftrightarrow>
     (\<forall>s p t. read_file_text fs s p = Ok t \<longrightarrow> view s (key p) = Some t) \<and>
     (\<forall>s p e. read_file_text fs s p = Err e \<and> io_kind e = NotFound \<longrightarrow> view s (key p) = None) \<and>
     (\<forall>s p c s'. regular_or_absent fs s p \<and> write_file fs s p c = (s', Ok ())
        \<longrightarrow> view s' = (view s)(key p \<mapsto> c)) \<and>
     (\<forall>s p c s' e. write_file fs s p c = (s', Err e) \<and> io_kind e = NotFound \<longrightarrow> view s' = view s) \<and>
     (\<forall>s p c s' r q. write_file fs s p c = (s', r) \<and> regular_or_absent fs s q
        \<longrightarrow> regular_or_absent fs s' q) \<and>
     (\<forall>s p s' r. create_directory fs s p = (s', r) \<longrightarrow> view s' = view s) \<and>
     (\<forall>s p s' r q. create_directory fs s p = (s', r) \<and> regular_or_absent fs s q
        \<longrightarrow> regular_or_absent fs s' q) \<and>
     (\<forall>s p s'. regular_or_absent fs s p \<and> remove_path fs s p = (s', Ok ())
        \<longrightarrow> view s' = (view s)(key p := None)) \<and>
     (\<forall>s p s' e b. regular_or_absent fs s p \<and> remove_path fs s p = (s', Err e) \<and> b \<noteq> key p
        \<longrightarrow> view s' b = view s b)"

lemma lawful_fsD:
  assumes "lawful_fs key fs view"
  shows lawful_read: "read_file_text fs s p = Ok t \<Longrightarrow> view s (key p) = Some t"
    and lawful_read_absent:
      "read_file_text fs s p = Err e \<Longrightarrow> io_kind e = NotFound \<Longrightarrow> view s (key p) = None"
    and lawful_write: "regular_or_absent fs s p \<Longrightarrow> write_file fs s p c = (s', Ok ())
      \<Longrightarrow> view s' = (view s)(key p \<mapsto> c)"
    and lawful_write_absent: "write_file fs s p c = (s', Err e) \<Longrightarrow> io_kind e = NotFound \<Longrightarrow> view s' = view s"
    and lawful_write_regular:
      "write_file fs s p c = (s', r) \<Longrightarrow> regular_or_absent fs s q \<Longrightarrow> regular_or_absent fs s' q"
    and lawful_mkdir: "create_directory fs s p = (s', r') \<Longrightarrow> view s' = view s"
    and lawful_mkdir_regular:
      "create_directory fs s p = (s', r') \<Longrightarrow> regular_or_absent fs s q \<Longrightarrow> regular_or_absent fs s' q"
    and lawful_remove: "regular_or_absent fs s p \<Longrightarrow> remove_path fs s p = (s', Ok ())
      \<Longrightarrow> view s' = (view s)(key p := None)"
    and lawful_remove_failed: "regular_or_absent fs s p \<Longrightarrow> remove_path fs s p = (s', Err e)
      \<Longrightarrow> b \<noteq> key p \<Longrightarrow> view s' b = view s b"
  using assms unfolding lawful_fs_def by meson+

section \<open>Reading a delta\<close>

fun replay_change :: "'b applied_patch_change \<Rightarrow> ('b \<Rightarrow> rstr option) \<Rightarrow> 'b \<Rightarrow> rstr option" where
  "replay_change c v =
     (case change c of
        ChangeAdd new _ \<Rightarrow> v(change_path c \<mapsto> new)
      | ChangeDelete _ \<Rightarrow> v(change_path c := None)
      | ChangeUpdate None _ _ new \<Rightarrow> v(change_path c \<mapsto> new)
      | ChangeUpdate (Some dest) _ _ new \<Rightarrow> v(change_path c := None, dest \<mapsto> new))"

fun revert_change :: "'b applied_patch_change \<Rightarrow> ('b \<Rightarrow> rstr option) \<Rightarrow> 'b \<Rightarrow> rstr option" where
  "revert_change c v =
     (case change c of
        ChangeAdd _ overwritten \<Rightarrow> v(change_path c := overwritten)
      | ChangeDelete old \<Rightarrow> v(change_path c \<mapsto> old)
      | ChangeUpdate None old _ _ \<Rightarrow> v(change_path c \<mapsto> old)
      | ChangeUpdate (Some dest) old overwritten _ \<Rightarrow> v(dest := overwritten, change_path c \<mapsto> old))"

definition replay :: "'b applied_patch_change list \<Rightarrow> ('b \<Rightarrow> rstr option) \<Rightarrow> 'b \<Rightarrow> rstr option" where
  "replay cs v = fold replay_change cs v"

definition revert :: "'b applied_patch_change list \<Rightarrow> ('b \<Rightarrow> rstr option) \<Rightarrow> 'b \<Rightarrow> rstr option" where
  "revert cs v = foldr revert_change cs v"

lemma replay_snoc [simp]: "replay (cs @ [c]) v = replay_change c (replay cs v)"
  by (simp add: replay_def)

lemma revert_snoc [simp]: "revert (cs @ [c]) v = revert cs (revert_change c v)"
  by (simp add: revert_def)

text \<open>Every change records what it found: reverting it after replaying it changes nothing.\<close>

fun faithful :: "'b applied_patch_change list \<Rightarrow> ('b \<Rightarrow> rstr option) \<Rightarrow> bool" where
  "faithful [] v = True"
| "faithful (c # cs) v \<longleftrightarrow> revert_change c (replay_change c v) = v \<and> faithful cs (replay_change c v)"

lemma faithful_snoc [simp]:
  "faithful (cs @ [c]) v \<longleftrightarrow>
     faithful cs v \<and> revert_change c (replay_change c (replay cs v)) = replay cs v"
  by (induction cs arbitrary: v) (auto simp: replay_def simp del: replay_change.simps revert_change.simps)

text \<open>
  The delta accounts for the change from \<open>v0\<close> to \<open>v\<close>; the forward direction is
  claimed when \<open>fwd\<close> holds.
\<close>

definition accounts :: "bool \<Rightarrow> ('b \<Rightarrow> rstr option) \<Rightarrow> 'b applied_patch_delta \<Rightarrow> ('b \<Rightarrow> rstr option) \<Rightarrow> bool" where
  "accounts fwd v0 d v \<longleftrightarrow>
     (exact d \<longrightarrow> revert (delta_changes d) v = v0
        \<and> (fwd \<longrightarrow> replay (delta_changes d) v0 = v \<and> faithful (delta_changes d) v0))"

lemma accounts_inexact: "\<not> exact d \<Longrightarrow> accounts fwd v0 d v"
  by (simp add: accounts_def)

lemma accounts_and_exact_False: "accounts fwd v0 (and_exact False d) v"
  by (simp add: accounts_def and_exact_def)

lemma accounts_exact_mono: "accounts fwd v0 d v \<Longrightarrow> (ex \<Longrightarrow> exact d) \<Longrightarrow> accounts fwd v0 (d\<lparr>exact := ex\<rparr>) v"
  by (simp add: accounts_def)

lemma accounts_and_exact: "accounts fwd v0 d v \<Longrightarrow> accounts fwd v0 (and_exact b d) v"
  by (simp add: accounts_def and_exact_def)

lemma accounts_push:
  assumes "accounts fwd v0 d v"
    and "exact d \<Longrightarrow> revert_change \<lparr>change_path = p, change = c\<rparr> v' = v"
    and "exact d \<Longrightarrow> fwd \<Longrightarrow> replay_change \<lparr>change_path = p, change = c\<rparr> v = v'"
  shows "accounts fwd v0 (push_change p c d) v'"
  using assms by (simp add: accounts_def push_change_def del: replay_change.simps revert_change.simps)

section \<open>The helpers\<close>

lemma note_regular:
  "note_existing_path_delta_support fs s p ex \<Longrightarrow> ex \<and> regular_or_absent fs s p"
  by (auto simp: note_existing_path_delta_support_def regular_or_absent_def split: result.splits if_splits)

lemma accounts_note:
  "accounts fwd v0 d v \<Longrightarrow>
     accounts fwd v0 (d\<lparr>exact := note_existing_path_delta_support fs s p (exact d)\<rparr>) v"
  by (erule accounts_exact_mono) (drule note_regular, simp)

lemma read_optional_exact:
  assumes "read_optional_file_text_for_delta fs s p ex = (True, c)" and "lawful_fs key fs view"
  shows "ex \<and> regular_or_absent fs s p \<and> view s (key p) = c"
  using assms(1) note_regular [of fs s p ex]
    lawful_read [OF assms(2), of s p] lawful_read_absent [OF assms(2), of s p]
  by (auto simp: read_optional_file_text_for_delta_def Let_def split: result.splits if_splits)

lemma write_retry_view:
  assumes "write_file_with_missing_parent_retry po fs s p c = (s', Ok u)"
    and "lawful_fs key fs view" and "regular_or_absent fs s p"
  shows "view s' = (view s)(key p \<mapsto> c)"
    and "regular_or_absent fs s q \<Longrightarrow> regular_or_absent fs s' q"
proof -
  obtain s1 r1 where w: "write_file fs s p c = (s1, r1)" by fastforce
  note laws = lawful_write [OF assms(2)] lawful_write_regular [OF assms(2)]
    lawful_mkdir [OF assms(2)] lawful_mkdir_regular [OF assms(2)] lawful_write_absent [OF assms(2)]
  have "view s' = (view s)(key p \<mapsto> c) \<and> (regular_or_absent fs s q \<longrightarrow> regular_or_absent fs s' q)"
  proof (cases r1)
    case (Ok x)
    with w assms(1,3) show ?thesis
      by (auto simp: write_file_with_missing_parent_retry_def intro: laws)
  next
    case (Err e)
    obtain s2 r2 where d: "(case uri_parent po p of Some parent \<Rightarrow> create_directory fs s1 parent
        | None \<Rightarrow> (s1, Ok ())) = (s2, r2)" by fastforce
    obtain s3 r3 where w2: "write_file fs s2 p c = (s3, r3)" by fastforce
    from assms(1) w Err d w2 have "io_kind e = NotFound" "r3 = Ok ()" "s' = s3"
      by (auto simp: write_file_with_missing_parent_retry_def with_context_def
          split: if_splits result.splits elim!: result_map_err.elims)
    moreover have "view s2 = view s1" "\<And>q. regular_or_absent fs s1 q \<Longrightarrow> regular_or_absent fs s2 q"
      using d by (auto split: option.splits intro: laws)
    ultimately show ?thesis
      using w Err w2 assms(3) laws(5) [of s p c s1 e] laws(1) [of s2 p c s3] laws(2)
      by (metis (no_types, lifting))
  qed
  then show "view s' = (view s)(key p \<mapsto> c)"
    and "regular_or_absent fs s q \<Longrightarrow> regular_or_absent fs s' q" by auto
qed

lemma remove_side_effect_free:
  assumes "remove_path fs s p = (s', Err e)" and "lawful_fs key fs view" and "regular_or_absent fs s p"
    and "remove_failure_was_side_effect_free fs s' p (Some c)"
  shows "view s' = (view s)(key p \<mapsto> c)"
proof
  fix b
  have "view s' (key p) = Some c"
    using assms(4) lawful_read [OF assms(2), of s' p]
    by (auto simp: remove_failure_was_side_effect_free_def split: result.splits)
  with lawful_remove_failed [OF assms(2,3,1), of b] show "view s' b = ((view s)(key p \<mapsto> c)) b"
    by simp
qed

section \<open>Every hunk keeps the account\<close>

lemma add_hunk_accounts:
  assumes "lawful_fs (uri_to_path_buf po) fs view" and "accounts fwd v0 d (view s)"
    and "apply_add_hunk po fs s d p c = (s', d', r)"
  shows "accounts fwd v0 d' (view s')"
proof -
  obtain ex ov where o: "read_optional_file_text_for_delta fs s p (exact d) = (ex, ov)" by fastforce
  obtain s1 w where w: "write_file_with_missing_parent_retry po fs s p c = (s1, w)" by fastforce
  note ro = read_optional_exact [OF _ assms(1), of s p "exact d" ov]
  show ?thesis
  proof (cases w)
    case (Err e)
    with assms(3) o w show ?thesis
      by (auto simp: apply_add_hunk_def Let_def accounts_and_exact_False)
  next
    case (Ok u)
    with assms(3) o w have d': "d' = push_change (uri_to_path_buf po p) (ChangeAdd c ov) (d\<lparr>exact := ex\<rparr>)"
      and s': "s' = s1" by (auto simp: apply_add_hunk_def Let_def)
    have v: "view s1 = (view s)(uri_to_path_buf po p \<mapsto> c) \<and> view s (uri_to_path_buf po p) = ov" if "ex"
      using that o ro w Ok write_retry_view(1) [OF _ assms(1)] by auto
    show ?thesis unfolding d' s'
      by (rule accounts_push [of fwd v0 _ "view s"])
        (use v o ro assms(2) in \<open>auto intro!: accounts_exact_mono\<close>)
  qed
qed

lemma delete_hunk_accounts:
  assumes "lawful_fs (uri_to_path_buf po) fs view" and "accounts fwd v0 d (view s)"
    and "apply_delete_hunk po fs s d p = (s', d', r)"
  shows "accounts fwd v0 d' (view s')"
proof -
  let ?ex = "note_existing_path_delta_support fs s p (exact d)"
  let ?d1 = "d\<lparr>exact := ?ex\<rparr>"
  let ?k = "uri_to_path_buf po p"
  have a1: "accounts fwd v0 ?d1 (view s)"
    using assms(2) by (rule accounts_note)
  obtain s1 w where w: "remove_path fs s p = (s1, w)" by fastforce
  show ?thesis
  proof (cases "read_file_text fs s p")
    case (Err e)
    then have "\<not> exact d'"
      using assms(3) w by (auto simp: apply_delete_hunk_def Let_def and_exact_def split: result.splits)
    then show ?thesis by (rule accounts_inexact)
  next
    case (Ok c)
    have vc: "view s ?k = Some c" using Ok by (rule lawful_read [OF assms(1)])
    show ?thesis
    proof (cases "ensure_not_directory fs s p")
      case (Err e)
      with assms(3) Ok a1 show ?thesis by (auto simp: apply_delete_hunk_def Let_def)
    next
      case nd: (Ok u)
      show ?thesis
      proof (cases w)
        case (Err e)
        let ?ok = "remove_failure_was_side_effect_free fs s1 p (Some c)"
        from assms(3) Ok nd w Err have d': "d' = and_exact ?ok ?d1" and s': "s' = s1"
          by (auto simp: apply_delete_hunk_def Let_def)
        have "view s1 = view s" if "?ok" "?ex"
          using remove_side_effect_free [OF _ assms(1) _ that(1)] w Err note_regular [OF that(2)] vc
          by (simp add: map_upd_triv)
        with a1 show ?thesis unfolding d' s'
          by (auto simp: accounts_def and_exact_def)
      next
        case rm: (Ok v)
        from assms(3) Ok nd w rm have d': "d' = push_change ?k (ChangeDelete c) ?d1" and s': "s' = s1"
          by (auto simp: apply_delete_hunk_def Let_def)
        have "view s1 = (view s)(?k := None)" if "?ex"
          using note_regular [OF that] w rm by (auto intro: lawful_remove [OF assms(1)])
        with a1 vc show ?thesis unfolding d' s'
          by (intro accounts_push [of fwd v0 _ "view s"]) (auto simp: map_upd_triv)
      qed
    qed
  qed
qed

lemma move_hunk_accounts:
  assumes "lawful_fs (uri_to_path_buf po) fs view" and "accounts fwd v0 d (view s)"
    and "apply_move_hunk po fs s d p q old new = (s', d', r)"
    and "view s (uri_to_path_buf po p) = Some old" and "exact d \<Longrightarrow> regular_or_absent fs s p"
    and "fwd \<Longrightarrow> uri_to_path_buf po p \<noteq> uri_to_path_buf po q"
  shows "accounts fwd v0 d' (view s')"
proof -
  let ?kp = "uri_to_path_buf po p" and ?kq = "uri_to_path_buf po q"
  obtain ex ov where o: "read_optional_file_text_for_delta fs s q (exact d) = (ex, ov)" by fastforce
  obtain s1 w where w: "write_file_with_missing_parent_retry po fs s q new = (s1, w)" by fastforce
  obtain s2 w2 where w2: "remove_path fs s1 p = (s2, w2)" by fastforce
  let ?d1 = "d\<lparr>exact := ex\<rparr>"
  have ro: "exact d \<and> regular_or_absent fs s q \<and> view s ?kq = ov" if "ex"
    using read_optional_exact [OF _ assms(1)] o that by auto
  have a1: "accounts fwd v0 ?d1 (view s)"
    using assms(2) ro by (auto intro!: accounts_exact_mono)
  show ?thesis
  proof (cases w)
    case (Err e)
    with assms(3) o w show ?thesis
      by (auto simp: apply_move_hunk_def Let_def accounts_and_exact_False)
  next
    case (Ok u)
    let ?d2 = "push_change ?kq (ChangeAdd new ov) ?d1"
    have v1: "view s1 = (view s)(?kq \<mapsto> new)" and reg1: "regular_or_absent fs s1 p" if "ex"
      using that ro assms(5) w Ok write_retry_view [OF _ assms(1)] by blast+
    have a2: "accounts fwd v0 ?d2 (view s1)"
      by (rule accounts_push [OF a1]) (use v1 ro in auto)
    show ?thesis
    proof (cases "ensure_not_directory fs s1 p")
      case (Err e)
      with assms(3) o w Ok a2 show ?thesis by (auto simp: apply_move_hunk_def Let_def)
    next
      case nd: (Ok u')
      show ?thesis
      proof (cases w2)
        case (Err e)
        let ?ok = "remove_failure_was_side_effect_free fs s2 p (Some old)"
        from assms(3) o w Ok nd w2 Err have d': "d' = and_exact ?ok ?d2" and s': "s' = s2"
          by (auto simp: apply_move_hunk_def Let_def)
        have v2: "view s2 = (view s)(?kq \<mapsto> new, ?kp \<mapsto> old)" if "?ok" "ex"
          using remove_side_effect_free [OF _ assms(1) reg1 that(1)] that(2) w2 Err v1 by simp
        show ?thesis unfolding d' s'
        proof (cases "?ok \<and> ex")
          case False
          then show "accounts fwd v0 (and_exact ?ok ?d2) (view s2)"
            by (auto simp: accounts_def and_exact_def push_change_def)
        next
          case True
          have "accounts fwd v0 ?d2 (view s2)"
            by (rule accounts_push [OF a1])
              (use True v2 ro assms(4,6) in \<open>auto simp: fun_eq_iff\<close>)
          then show "accounts fwd v0 (and_exact ?ok ?d2) (view s2)"
            by (rule accounts_and_exact)
        qed
      next
        case rm: (Ok v)
        from assms(3) o w Ok nd w2 rm have
          d': "d' = push_change ?kp (ChangeUpdate (Some ?kq) old ov new) ?d1" and s': "s' = s2"
          by (auto simp: apply_move_hunk_def Let_def push_change_def)
        have v2: "view s2 = (view s)(?kq \<mapsto> new, ?kp := None)" if "ex"
          using lawful_remove [OF assms(1) reg1] that w2 rm v1 by simp
        show ?thesis unfolding d' s'
          by (rule accounts_push [OF a1])
            (use v2 ro assms(4,6) in \<open>auto simp: fun_eq_iff\<close>)
      qed
    qed
  qed
qed

lemma derive_read:
  "derive_new_contents_from_chunks po fs s p cs = Ok (old, new) \<Longrightarrow> read_file_text fs s p = Ok old"
  by (auto simp: derive_new_contents_from_chunks_def split: result.splits option.splits)

lemma update_hunk_accounts:
  assumes "lawful_fs (uri_to_path_buf po) fs view" and "accounts fwd v0 d (view s)"
    and "apply_update_hunk po fs cwd s d p mv cs = (s', d', r)"
    and "\<And>m q. fwd \<Longrightarrow> mv = Some m \<Longrightarrow> uri_join po cwd m = Ok q \<Longrightarrow> uri_to_path_buf po p \<noteq> uri_to_path_buf po q"
  shows "accounts fwd v0 d' (view s')"
proof -
  let ?ex = "note_existing_path_delta_support fs s p (exact d)"
  let ?d1 = "d\<lparr>exact := ?ex\<rparr>"
  have a1: "accounts fwd v0 ?d1 (view s)"
    using assms(2) by (rule accounts_note)
  show ?thesis
  proof (cases "derive_new_contents_from_chunks po fs s p cs")
    case (Err e)
    with assms(3) a1 show ?thesis by (auto simp: apply_update_hunk_def Let_def)
  next
    case (Ok on)
    obtain old new where on: "on = (old, new)" by fastforce
    have vp: "view s (uri_to_path_buf po p) = Some old"
      by (rule lawful_read [OF assms(1)]) (rule derive_read [OF Ok [unfolded on]])
    show ?thesis
    proof (cases mv)
      case (Some m)
      show ?thesis
      proof (cases "uri_join po cwd m")
        case (Err e)
        with assms(3) a1 Ok on Some show ?thesis by (auto simp: apply_update_hunk_def Let_def)
      next
        case j: (Ok q)
        with assms(3) Ok on Some have m: "apply_move_hunk po fs s ?d1 p q old new = (s', d', r)"
          by (auto simp: apply_update_hunk_def Let_def)
        show ?thesis
          using move_hunk_accounts [OF assms(1) a1 m vp] note_regular [of fs s p "exact d"]
            assms(4) [OF _ Some j] by auto
      qed
    next
      case None
      obtain s1 w where w: "write_file fs s p new = (s1, w)" by fastforce
      show ?thesis
      proof (cases w)
        case (Err e)
        with assms(3) Ok on None w show ?thesis
          by (auto simp: apply_update_hunk_def Let_def accounts_and_exact_False)
      next
        case wok: (Ok u)
        with assms(3) Ok on None w have s': "s' = s1" and
          d': "d' = push_change (uri_to_path_buf po p) (ChangeUpdate None old None new) ?d1"
          by (auto simp: apply_update_hunk_def Let_def)
        have "view s1 = (view s)(uri_to_path_buf po p \<mapsto> new)" if "?ex"
          using note_regular [OF that] w wok by (auto intro: lawful_write [OF assms(1)])
        with a1 vp show ?thesis unfolding d' s'
          by (intro accounts_push [of fwd v0 _ "view s"]) (auto simp: map_upd_triv)
      qed
    qed
  qed
qed

text \<open>A hunk that moves a file onto itself.\<close>

fun self_move :: "('p, 'b, 'pe) path_uri_ops \<Rightarrow> 'p \<Rightarrow> hunk \<Rightarrow> bool" where
  "self_move po cwd (UpdateFile p (Some m) _) \<longleftrightarrow>
     (case (uri_join po cwd p, uri_join po cwd m) of
        (Ok a, Ok b) \<Rightarrow> uri_to_path_buf po a = uri_to_path_buf po b
      | _ \<Rightarrow> False)"
| "self_move po cwd _ \<longleftrightarrow> False"

lemma hunk_accounts:
  assumes "lawful_fs (uri_to_path_buf po) fs view" and "accounts fwd v0 d (view s)"
    and "apply_hunk po fs cwd s d h = (s', d', r)" and "fwd \<Longrightarrow> \<not> self_move po cwd h"
  shows "accounts fwd v0 d' (view s')"
proof (cases "hunk_resolve_path (uri_join po) cwd h")
  case (Err e)
  with assms(2,3) show ?thesis by (auto simp: apply_hunk_def)
next
  case (Ok path)
  show ?thesis
  proof (cases h)
    case (AddFile p c)
    with assms(3) Ok have "apply_add_hunk po fs s d path c = (s', d', r)" by (simp add: apply_hunk_def)
    with assms(1,2) show ?thesis by (rule add_hunk_accounts)
  next
    case (DeleteFile p)
    with assms(3) Ok have "apply_delete_hunk po fs s d path = (s', d', r)" by (simp add: apply_hunk_def)
    with assms(1,2) show ?thesis by (rule delete_hunk_accounts)
  next
    case (UpdateFile p mv cs)
    with assms(3) Ok have u: "apply_update_hunk po fs cwd s d path mv cs = (s', d', r)"
      by (simp add: apply_hunk_def)
    have "uri_to_path_buf po path \<noteq> uri_to_path_buf po q"
      if "fwd" "mv = Some m" "uri_join po cwd m = Ok q" for m q
      using that assms(4) Ok UpdateFile by auto
    with assms(1,2) u show ?thesis by (rule update_hunk_accounts)
  qed
qed

lemma hunk_list_accounts:
  assumes "lawful_fs (uri_to_path_buf po) fs view" and "accounts fwd v0 d (view s)"
    and "apply_hunk_list po fs cwd s d a hs = (s', d', r)"
    and "fwd \<Longrightarrow> \<forall>h \<in> set hs. \<not> self_move po cwd h"
  shows "accounts fwd v0 d' (view s')"
  using assms(2-4)
proof (induction hs arbitrary: s d a)
  case Nil
  then show ?case by simp
next
  case (Cons h hs)
  obtain s1 d1 r1 where h: "apply_hunk po fs cwd s d h = (s1, d1, r1)" by (metis prod_cases3)
  have a1: "accounts fwd v0 d1 (view s1)"
    using hunk_accounts [OF assms(1) Cons.prems(1) h] Cons.prems(3) by simp
  show ?case
  proof (cases r1)
    case (Err e)
    with Cons.prems(2) h a1 show ?thesis by simp
  next
    case (Ok u)
    with Cons.prems(2,3) h Cons.IH [OF a1] show ?thesis by simp
  qed
qed

section \<open>Properties\<close>

lemma apply_hunks_accounts:
  assumes "lawful_fs (uri_to_path_buf po) fs view"
    and "apply_hunks_to_files po fs cwd s delta_empty hs = (s', d, r)"
  shows "accounts (\<forall>h \<in> set hs. \<not> self_move po cwd h) (view s) d (view s')"
proof -
  let ?fwd = "\<forall>h \<in> set hs. \<not> self_move po cwd h"
  have a0: "accounts ?fwd (view s) delta_empty (view s)"
    by (simp add: accounts_def delta_empty_def revert_def replay_def)
  show ?thesis
  proof (cases "hs = []")
    case True
    with assms(2) a0 show ?thesis by (simp add: apply_hunks_to_files_def)
  next
    case False
    with assms(2) have "apply_hunk_list po fs cwd s delta_empty
        \<lparr>added = [], modified = [], deleted = []\<rparr> hs = (s', d, r)"
      by (simp add: apply_hunks_to_files_def)
    from hunk_list_accounts [OF assms(1) a0 this] show ?thesis by blast
  qed
qed


text \<open>
  A file system that keeps texts in a map, with paths spelled as they are written;
  it meets the laws.
\<close>

definition mem_fs :: "(rstr \<Rightarrow> rstr option, rstr) executor_file_system" where
  "mem_fs = \<lparr>read_file_text = (\<lambda>s p. case s p of Some t \<Rightarrow> Ok t
        | None \<Rightarrow> Err \<lparr>io_kind = NotFound, io_message = []\<rparr>),
     get_metadata = (\<lambda>s p. case s p of
          Some t \<Rightarrow> Ok \<lparr>is_directory = False, is_file = True, is_symlink = False\<rparr>
        | None \<Rightarrow> Err \<lparr>io_kind = NotFound, io_message = []\<rparr>),
     write_file = (\<lambda>s p c. (s(p \<mapsto> c), Ok ())),
     create_directory = (\<lambda>s p. (s, Ok ())),
     remove_path = (\<lambda>s p. if s p = None then (s, Err \<lparr>io_kind = NotFound, io_message = []\<rparr>)
        else (s(p := None), Ok ()))\<rparr>"

definition mem_paths :: "(rstr, rstr, unit) path_uri_ops" where
  "mem_paths = \<lparr>uri_join = (\<lambda>cwd p. Ok p), uri_parent = (\<lambda>p. None), uri_to_path_buf = id,
     uri_display = id\<rparr>"

lemma mem_fs_lawful: "lawful_fs (uri_to_path_buf mem_paths) mem_fs (\<lambda>s. s)"
  by (auto simp: lawful_fs_def mem_fs_def mem_paths_def regular_or_absent_def
      split: option.splits if_splits)

lemmas run_defs = apply_hunks_to_files_def apply_hunk_def apply_add_hunk_def apply_delete_hunk_def
  apply_update_hunk_def apply_move_hunk_def derive_new_contents_from_chunks_def
  write_file_with_missing_parent_retry_def read_optional_file_text_for_delta_def
  note_existing_path_delta_support_def ensure_not_directory_def push_change_def and_exact_def
  remove_failure_was_side_effect_free_def delta_empty_def mem_fs_def mem_paths_def


text \<open>
  A rename whose destination is the file itself deletes the file: the update
  writes the new contents and then removes the same path, while the delta still
  reports a successful update of that path with the new contents.
\<close>

theorem self_move_deletes_file:
  assumes "s p = Some old" and "new_contents_from_chunks old p chunks = Ok (Some new)"
  shows "apply_hunks_to_files mem_paths mem_fs cwd s delta_empty [UpdateFile p (Some p) chunks]
    = (s(p := None),
       \<lparr>delta_changes = [\<lparr>change_path = p, change = ChangeUpdate (Some p) old (Some old) new\<rparr>], exact = True\<rparr>,
       Ok \<lparr>added = [], modified = [p], deleted = []\<rparr>)"
  using assms by (simp add: run_defs)

theorem self_move_deletes_file_witness:
  "fst (apply_hunks_to_files mem_paths mem_fs [] [rs ''a'' \<mapsto> rs ''b''] delta_empty
     [UpdateFile (rs ''a'') (Some (rs ''a'')) [push_new (rs ''c'') (new_chunk None)]]) (rs ''a'') = None"
proof -
  have "new_contents_from_chunks (rs ''b'') (rs ''a'') [push_new (rs ''c'') (new_chunk None)]
      = Ok (Some (rs ''b'' @ [LF] @ rs ''c'' @ [LF]))"
    by code_simp
  from self_move_deletes_file [OF _ this, of "[rs ''a'' \<mapsto> rs ''b'']" "[]"] show ?thesis by simp
qed

end
