(* ===== verification/Policy_Rules.thy ===== *)
theory Policy_Rules
  imports Rust_Prelude "HOL-Library.List_Lexorder"
begin

text \<open>
  The rules of the execution policy: decisions and their order
  (\<^verbatim>\<open>execpolicy/src/decision.rs\<close>), prefix patterns and rule matches, network rules and
  the normalisation of their hosts (\<^verbatim>\<open>execpolicy/src/rule.rs\<close>), and the lookup key of
  an executable (\<^verbatim>\<open>execpolicy/src/executable_name.rs\<close>).

  Paths depend on the platform and, for \<^verbatim>\<open>AbsolutePathBuf\<close>, on the current and home
  directories of the process; the record \<open>platform\<close> holds the path operations the
  crate calls. \<open>unix_platform\<close> is the instance for absolute Unix paths.
\<close>

section \<open>Errors and decisions\<close>

record text_position =
  pos_line :: nat
  pos_column :: nat

record text_range =
  range_start :: text_position
  range_end :: text_position

record error_location =
  loc_path :: rstr
  loc_range :: text_range

datatype 'se policy_error =
    InvalidDecision rstr
  | InvalidPattern rstr
  | InvalidExample rstr
  | InvalidRule rstr
  | ExampleDidNotMatch "rstr list" "rstr list" "error_location option"
  | ExampleDidMatch rstr rstr "error_location option"
  | Starlark 'se

fun with_location :: "'se policy_error \<Rightarrow> error_location \<Rightarrow> 'se policy_error" where
  "with_location (ExampleDidNotMatch rules examples None) loc = ExampleDidNotMatch rules examples (Some loc)"
| "with_location (ExampleDidMatch rule example None) loc = ExampleDidMatch rule example (Some loc)"
| "with_location other loc = other"

text \<open>\<^verbatim>\<open>Error::location\<close>; the span of a Starlark error comes from the interpreter.\<close>

fun error_location_of :: "('se \<Rightarrow> error_location option) \<Rightarrow> 'se policy_error \<Rightarrow> error_location option" where
  "error_location_of span (ExampleDidNotMatch _ _ loc) = loc"
| "error_location_of span (ExampleDidMatch _ _ loc) = loc"
| "error_location_of span (Starlark e) = span e"
| "error_location_of span _ = None"

datatype decision = Allow | Prompt | Forbidden

fun decision_rank :: "decision \<Rightarrow> nat" where
  "decision_rank Allow = 0"
| "decision_rank Prompt = 1"
| "decision_rank Forbidden = 2"

text \<open>The derived \<^verbatim>\<open>Ord\<close>: the order of the constructors.\<close>

instantiation decision :: linorder
begin

definition less_eq_decision :: "decision \<Rightarrow> decision \<Rightarrow> bool" where
  "less_eq_decision a b \<longleftrightarrow> decision_rank a \<le> decision_rank b"

definition less_decision :: "decision \<Rightarrow> decision \<Rightarrow> bool" where
  "less_decision a b \<longleftrightarrow> decision_rank a < decision_rank b"

instance
proof
  fix x y z :: decision
  show "x < y \<longleftrightarrow> x \<le> y \<and> \<not> y \<le> x" by (auto simp: less_eq_decision_def less_decision_def)
  show "x \<le> x" by (simp add: less_eq_decision_def)
  show "x \<le> y \<Longrightarrow> y \<le> z \<Longrightarrow> x \<le> z" by (simp add: less_eq_decision_def)
  show "x \<le> y \<Longrightarrow> y \<le> x \<Longrightarrow> x = y"
    by (cases x; cases y) (simp_all add: less_eq_decision_def)
  show "x \<le> y \<or> y \<le> x" by (auto simp: less_eq_decision_def)
qed

end

instantiation decision :: order_bot
begin

definition bot_decision :: decision where "bot_decision = Allow"

instance
  by standard (simp add: bot_decision_def less_eq_decision_def)

end

lemma decision_order [simp]:
  "Allow \<le> d" "d \<le> Forbidden" "Forbidden \<le> d \<longleftrightarrow> d = Forbidden" "d \<le> Allow \<longleftrightarrow> d = Allow"
  by (cases d; simp add: less_eq_decision_def)+

definition decision_parse :: "rstr \<Rightarrow> ('se policy_error, decision) result" where
  "decision_parse raw =
     (if raw = rs ''allow'' then Ok Allow
      else if raw = rs ''prompt'' then Ok Prompt
      else if raw = rs ''forbidden'' then Ok Forbidden
      else Err (InvalidDecision raw))"

section \<open>Executable names and paths\<close>

definition WINDOWS_EXECUTABLE_SUFFIXES :: "rstr list" where
  "WINDOWS_EXECUTABLE_SUFFIXES = [rs ''.exe'', rs ''.cmd'', rs ''.bat'', rs ''.com'']"

fun strip_first_suffix :: "rstr \<Rightarrow> rstr list \<Rightarrow> rstr" where
  "strip_first_suffix raw [] = raw"
| "strip_first_suffix raw (sfx # sfxs) =
     (if ends_with raw sfx then take (length raw - length sfx) raw
      else strip_first_suffix raw sfxs)"

definition executable_lookup_key :: "bool \<Rightarrow> rstr \<Rightarrow> rstr" where
  "executable_lookup_key windows raw =
     (if windows then strip_first_suffix (to_ascii_lowercase raw) WINDOWS_EXECUTABLE_SUFFIXES
      else raw)"

record 'p platform =
  is_windows :: bool
  path_is_absolute :: "rstr \<Rightarrow> bool"
  path_component_count :: "rstr \<Rightarrow> nat"
  path_file_name :: "rstr \<Rightarrow> rstr option"
  absolute_path_try_from :: "rstr \<Rightarrow> (rstr, 'p) result"
  absolute_path_file_name :: "'p \<Rightarrow> rstr option"

definition executable_path_lookup_key :: "'p platform \<Rightarrow> 'p \<Rightarrow> rstr option" where
  "executable_path_lookup_key pf path =
     map_option (executable_lookup_key (is_windows pf)) (absolute_path_file_name pf path)"

text \<open>
  The Unix instance for programs given by absolute paths: components are the
  pieces between slashes without the empty and the current-directory ones.
\<close>

definition unix_pieces :: "rstr \<Rightarrow> rstr list" where
  "unix_pieces s = filter (\<lambda>w. w \<noteq> [] \<and> w \<noteq> rs ''.'') (split_char 47 s)"

definition unix_file_name :: "rstr \<Rightarrow> rstr option" where
  "unix_file_name s =
     (if unix_pieces s = [] \<or> last (unix_pieces s) = rs ''..'' then None else Some (last (unix_pieces s)))"

definition unix_platform :: "rstr platform" where
  "unix_platform =
     \<lparr>is_windows = False,
      path_is_absolute = (\<lambda>s. starts_with s [47]),
      path_component_count = (\<lambda>s. length (unix_pieces s) + (if starts_with s [47] then 1 else 0)
        + (if s = rs ''.'' \<or> starts_with s (rs ''./'') then 1 else 0)),
      path_file_name = unix_file_name,
      absolute_path_try_from = (\<lambda>s. if starts_with s [47] then Ok s else Err (rs ''path is not absolute'')),
      absolute_path_file_name = unix_file_name\<rparr>"

section \<open>Prefix patterns\<close>

datatype pattern_token = Single rstr | Alts "rstr list"

fun token_matches :: "pattern_token \<Rightarrow> rstr \<Rightarrow> bool" where
  "token_matches (Single expected) tok \<longleftrightarrow> expected = tok"
| "token_matches (Alts alternatives) tok \<longleftrightarrow> list_ex (\<lambda>alt. alt = tok) alternatives"

fun alternatives :: "pattern_token \<Rightarrow> rstr list" where
  "alternatives (Single expected) = [expected]"
| "alternatives (Alts alts) = alts"

record prefix_pattern =
  pat_first :: rstr
  pat_rest :: "pattern_token list"

definition matches_prefix :: "prefix_pattern \<Rightarrow> rstr list \<Rightarrow> rstr list option" where
  "matches_prefix pat cmd =
     (let pattern_length = length (pat_rest pat) + 1 in
      if length cmd < pattern_length \<or> cmd ! 0 \<noteq> pat_first pat then None
      else if list_all (\<lambda>(tok, c). token_matches tok c)
                (zip (pat_rest pat) (drop 1 (take pattern_length cmd)))
      then Some (take pattern_length cmd) else None)"

datatype 'p rule_match =
    PrefixRuleMatch (matched_prefix: "rstr list") (rule_decision: decision)
      (resolved_program: "'p option") (rule_justification: "rstr option")
  | HeuristicsRuleMatch (heuristics_command: "rstr list") (rule_decision: decision)

fun is_heuristics :: "'p rule_match \<Rightarrow> bool" where
  "is_heuristics (HeuristicsRuleMatch _ _) = True"
| "is_heuristics (PrefixRuleMatch _ _ _ _) = False"

fun with_resolved_program :: "'p rule_match \<Rightarrow> 'p \<Rightarrow> 'p rule_match" where
  "with_resolved_program (PrefixRuleMatch pre d _ j) program = PrefixRuleMatch pre d (Some program) j"
| "with_resolved_program other program = other"

record prefix_rule =
  rule_pattern :: prefix_pattern
  pr_decision :: decision
  pr_justification :: "rstr option"

text \<open>\<^verbatim>\<open>impl Rule for PrefixRule\<close>, the only implementation of the trait.\<close>

definition rule_program :: "prefix_rule \<Rightarrow> rstr" where
  "rule_program r = pat_first (rule_pattern r)"

definition rule_matches :: "prefix_rule \<Rightarrow> rstr list \<Rightarrow> 'p rule_match option" where
  "rule_matches r cmd =
     map_option (\<lambda>pre. PrefixRuleMatch pre (pr_decision r) None (pr_justification r))
       (matches_prefix (rule_pattern r) cmd)"

section \<open>Network rules\<close>

datatype network_rule_protocol = Http | Https | Socks5Tcp | Socks5Udp

definition protocol_parse :: "rstr \<Rightarrow> ('se policy_error, network_rule_protocol) result" where
  "protocol_parse raw =
     (if raw = rs ''http'' then Ok Http
      else if raw = rs ''https'' \<or> raw = rs ''https_connect'' \<or> raw = rs ''http-connect'' then Ok Https
      else if raw = rs ''socks5_tcp'' then Ok Socks5Tcp
      else if raw = rs ''socks5_udp'' then Ok Socks5Udp
      else Err (InvalidRule (rs ''network_rule protocol must be one of http, https, socks5_tcp, socks5_udp (got ''
                              @ raw @ rs '')'')))"

fun as_policy_string :: "network_rule_protocol \<Rightarrow> rstr" where
  "as_policy_string Http = rs ''http''"
| "as_policy_string Https = rs ''https''"
| "as_policy_string Socks5Tcp = rs ''socks5_tcp''"
| "as_policy_string Socks5Udp = rs ''socks5_udp''"

record network_rule =
  nr_host :: rstr
  nr_protocol :: network_rule_protocol
  nr_decision :: decision
  nr_justification :: "rstr option"

definition is_port :: "rstr \<Rightarrow> bool" where
  "is_port port \<longleftrightarrow> port \<noteq> [] \<and> list_all is_ascii_digit port"

text \<open>
  \<^verbatim>\<open>normalize_network_rule_host\<close>: first the brackets of an IPv6 literal or a port
  are removed (\<open>strip_host_port\<close>), then trailing dots and blanks, and the result is
  checked. Code points: \<open>[\<close> 91, \<open>]\<close> 93, \<open>:\<close> 58, \<open>.\<close> 46, \<open>*\<close> 42, \<open>/\<close> 47, \<open>?\<close> 63, \<open>#\<close> 35.
\<close>

definition strip_host_port :: "rstr \<Rightarrow> rstr \<Rightarrow> ('se policy_error, rstr) result" where
  "strip_host_port raw host =
     (case strip_prefix [91] host of
        Some stripped \<Rightarrow>
          (case split_once 93 stripped of
             None \<Rightarrow> Err (InvalidRule (rs ''network_rule host has an invalid bracketed IPv6 literal''))
           | Some (inside, rest) \<Rightarrow>
               let port_ok = (case strip_prefix [58] rest of Some port \<Rightarrow> is_port port | None \<Rightarrow> False)
               in if rest \<noteq> [] \<and> \<not> port_ok
                  then Err (InvalidRule (rs ''network_rule host contains an unsupported suffix: '' @ raw))
                  else Ok inside)
      | None \<Rightarrow>
          if length (filter (\<lambda>c. c = 58) host) = 1 then
            (case rsplit_once 58 host of
               Some (candidate, port) \<Rightarrow>
                 if candidate \<noteq> [] \<and> is_port port then Ok candidate else Ok host
             | None \<Rightarrow> Ok host)
          else Ok host)"

definition normalize_network_rule_host :: "rstr \<Rightarrow> ('se policy_error, rstr) result" where
  "normalize_network_rule_host raw =
     (let host = trim raw in
      if host = [] then Err (InvalidRule (rs ''network_rule host cannot be empty''))
      else if contains_str host (rs ''://'') \<or> 47 \<in> set host \<or> 63 \<in> set host \<or> 35 \<in> set host then
        Err (InvalidRule (rs ''network_rule host must be a hostname or IP literal (without scheme or path)''))
      else bind_result (strip_host_port raw host) (\<lambda>host.
        let normalized = to_ascii_lowercase (trim (trim_end_matches 46 host)) in
        if normalized = [] then Err (InvalidRule (rs ''network_rule host cannot be empty''))
        else if 42 \<in> set normalized then
          Err (InvalidRule (rs ''network_rule host must be a specific host; wildcards are not allowed''))
        else if list_ex is_whitespace normalized then
          Err (InvalidRule (rs ''network_rule host cannot contain whitespace''))
        else Ok normalized))"

section \<open>Facts\<close>

lemma token_matches_iff: "token_matches t c \<longleftrightarrow> c \<in> set (alternatives t)"
  by (cases t) (auto simp: list_ex_iff)

lemma token_matches_fun: "token_matches t = (\<lambda>c. c \<in> set (alternatives t))"
  by (rule ext) (rule token_matches_iff)

text \<open>A pattern is a list of sets of words; it matches the commands that start with a choice.\<close>

definition pattern_words :: "prefix_pattern \<Rightarrow> rstr list list" where
  "pattern_words pat = [pat_first pat] # map alternatives (pat_rest pat)"

lemma matches_prefix_Some_iff:
  "matches_prefix pat cmd = Some pre
     \<longleftrightarrow> prefix pre cmd \<and> list_all2 (\<lambda>w ws. w \<in> set ws) pre (pattern_words pat)"
  (is "?lhs \<longleftrightarrow> ?rhs")
proof -
  let ?n = "length (pat_rest pat)"
  show ?thesis
  proof (cases cmd)
    case Nil
    then show ?thesis by (auto simp: matches_prefix_def pattern_words_def)
  next
    case (Cons c cs)
    have zip_all: "?n \<le> length cs \<Longrightarrow>
        list_all (\<lambda>(tok, w). token_matches tok w) (zip (pat_rest pat) (take ?n cs))
          \<longleftrightarrow> list_all2 (\<lambda>w ws. w \<in> set ws) (take ?n cs) (map alternatives (pat_rest pat))"
      by (auto simp: list_all_length list_all2_conv_all_nth token_matches_iff)
    have "?rhs \<longleftrightarrow> c = pat_first pat \<and> ?n \<le> length cs \<and> pre = c # take ?n cs \<and>
        list_all2 (\<lambda>w ws. w \<in> set ws) (take ?n cs) (map alternatives (pat_rest pat))"
    proof
      assume r: ?rhs
      then have "length pre = Suc ?n"
        by (auto simp: pattern_words_def dest: list_all2_lengthD)
      with r Cons obtain pre' where "pre = c # pre'" "prefix pre' cs" "length pre' = ?n"
        by (cases pre) auto
      moreover from this have "pre' = take ?n cs" "?n \<le> length cs"
        by (auto simp: prefix_def)
      ultimately show "c = pat_first pat \<and> ?n \<le> length cs \<and> pre = c # take ?n cs \<and>
        list_all2 (\<lambda>w ws. w \<in> set ws) (take ?n cs) (map alternatives (pat_rest pat))"
        using r by (auto simp: pattern_words_def)
    next
      assume "c = pat_first pat \<and> ?n \<le> length cs \<and> pre = c # take ?n cs \<and>
        list_all2 (\<lambda>w ws. w \<in> set ws) (take ?n cs) (map alternatives (pat_rest pat))"
      then show ?rhs by (auto simp: Cons pattern_words_def take_is_prefix)
    qed
    also have "\<dots> \<longleftrightarrow> ?lhs"
      using zip_all by (auto simp: matches_prefix_def Cons Let_def)
    finally show ?thesis by blast
  qed
qed

lemma rule_matches_Some_iff:
  "rule_matches r cmd = Some m \<longleftrightarrow>
     (\<exists>pre. matches_prefix (rule_pattern r) cmd = Some pre
        \<and> m = PrefixRuleMatch pre (pr_decision r) None (pr_justification r))"
  by (auto simp: rule_matches_def)

lemma with_resolved_program_decision [simp]:
  "rule_decision (with_resolved_program m p) = rule_decision m"
  by (cases m) auto

end
