(* ===== verification/Bash_Commands.thy ===== *)
theory Bash_Commands
  imports Policy_Rules "HOL-Library.Multiset"
begin

text \<open>
  Shell wrappers: which shell a path names (\<^verbatim>\<open>shell-command/src/shell_detect.rs\<close>) and
  the commands of a \<^verbatim>\<open>bash -lc\<close> script (\<^verbatim>\<open>shell-command/src/bash.rs\<close>), on a Unix build.

  The script is parsed by tree-sitter, which is not part of the repository: its
  parser is an argument of the definitions, and a node is a value of \<open>ts_node\<close> that
  holds what the code asks of a node (kind, whether it is named, whether it holds an
  error, its first byte, its text, its children).
\<close>

section \<open>Shells\<close>

datatype shell_type = Zsh | Bash | PowerShell | Sh | Cmd

text \<open>\<^verbatim>\<open>Path::file_stem\<close> and the components \<^verbatim>\<open>Path\<close> equality compares.\<close>

definition name_stem :: "rstr \<Rightarrow> rstr" where
  "name_stem f =
     (case rsplit_once 46 f of None \<Rightarrow> f | Some (before, after) \<Rightarrow> if before = [] then f else before)"

definition unix_file_stem :: "rstr \<Rightarrow> rstr option" where
  "unix_file_stem s = map_option name_stem (unix_file_name s)"

definition unix_components :: "rstr \<Rightarrow> rstr list" where
  "unix_components s =
     (if starts_with s [47] then [[47]] else if hd (split_char 47 s) = rs ''.'' then [rs ''.''] else [])
       @ unix_pieces s"

lemma split_char_length: "w \<in> set (split_char c s) \<Longrightarrow> length w < length s \<or> w = s"
proof (induction s arbitrary: w)
  case (Cons d s)
  obtain w0 ws where ws: "split_char c s = w0 # ws" by (cases "split_char c s") auto
  show ?case using Cons.prems Cons.IH [of w0] Cons.IH [of w] ws by (auto split: if_splits)
qed simp

lemma name_stem_length: "length (name_stem f) < length f \<or> name_stem f = f"
  by (auto simp: name_stem_def dest!: rsplit_once_Some split: option.splits)

lemma unix_file_stem_length: "unix_file_stem s = Some n \<Longrightarrow> length n < length s \<or> n = s"
proof -
  assume "unix_file_stem s = Some n"
  then obtain f where f: "unix_file_name s = Some f" "n = name_stem f" by (auto simp: unix_file_stem_def)
  then have "f \<in> set (unix_pieces s)"
    by (auto simp: unix_file_name_def split: if_splits)
  then have "f \<in> set (split_char 47 s)" by (simp add: unix_pieces_def)
  from split_char_length [OF this] name_stem_length [of f] f(2) show ?thesis by auto
qed

function detect_shell_type :: "rstr \<Rightarrow> shell_type option" where
  "detect_shell_type shell_path =
     (if shell_path = rs ''zsh'' then Some Zsh
      else if shell_path = rs ''sh'' then Some Sh
      else if shell_path = rs ''cmd'' then Some Cmd
      else if shell_path = rs ''bash'' then Some Bash
      else if shell_path = rs ''pwsh'' then Some PowerShell
      else if shell_path = rs ''powershell'' then Some PowerShell
      else case unix_file_stem shell_path of
          None \<Rightarrow> None
        | Some shell_name \<Rightarrow>
            if unix_components shell_name \<noteq> unix_components shell_path
            then detect_shell_type shell_name else None)"
  by pat_completeness auto

termination
  by (relation "measure length") (auto dest: unix_file_stem_length)

declare detect_shell_type.simps [simp del]

section \<open>Scripts\<close>

datatype ts_node = TsNode
  (nd_kind: rstr) (nd_named: bool) (nd_has_error: bool) (nd_start: nat)
  (nd_text: "rstr option") (nd_children: "ts_node list")

type_synonym shell_parser = "rstr \<Rightarrow> ts_node option"

definition named_children :: "ts_node \<Rightarrow> ts_node list" where
  "named_children n = filter nd_named (nd_children n)"

abbreviation stack_size :: "ts_node list \<Rightarrow> nat" where
  "stack_size ns \<equiv> sum_list (map size ns)"

lemma children_size: "stack_size (nd_children n) < size n"
  by (cases n) (simp add: size_list_conv_sum_list)

lemma filtered_size: "stack_size (filter P ns) \<le> stack_size ns"
  by (induction ns) auto

lemma named_children_size: "stack_size (named_children n) < size n"
  unfolding named_children_def using filtered_size [of nd_named "nd_children n"] children_size [of n]
  by (rule order.strict_trans1)

definition ALLOWED_KINDS :: "rstr list" where
  "ALLOWED_KINDS = map rs [''program'', ''list'', ''pipeline'', ''command'', ''command_name'', ''word'',
     ''string'', ''string_content'', ''raw_string'', ''number'', ''concatenation'']"

definition ALLOWED_PUNCT_TOKENS :: "rstr list" where
  "ALLOWED_PUNCT_TOKENS = [rs ''&&'', rs ''||'', rs '';'', rs ''|'', [34], [39]]"

text \<open>The checks one node has to pass in the walk.\<close>

definition node_allowed :: "ts_node \<Rightarrow> bool" where
  "node_allowed node =
     (let kind = nd_kind node in
      if nd_named node then kind \<in> set ALLOWED_KINDS
      else \<not> (list_ex (\<lambda>c. c \<in> set (rs ''&;|'')) kind \<and> kind \<notin> set ALLOWED_PUNCT_TOKENS)
         \<and> (kind \<in> set ALLOWED_PUNCT_TOKENS \<or> trim kind = []))"

definition is_command_node :: "ts_node \<Rightarrow> bool" where
  "is_command_node node \<longleftrightarrow> nd_named node \<and> nd_kind node = rs ''command''"

text \<open>The stack is a list with its top first: the last child pushed is the first popped.\<close>

function collect_command_nodes :: "ts_node list \<Rightarrow> ts_node list \<Rightarrow> ts_node list option" where
  "collect_command_nodes [] command_nodes = Some command_nodes"
| "collect_command_nodes (node # stack) command_nodes =
     (if \<not> node_allowed node then None
      else collect_command_nodes (rev (nd_children node) @ stack)
             (if is_command_node node then command_nodes @ [node] else command_nodes))"
  by pat_completeness auto

termination
  by (relation "measure (\<lambda>(stack, _). stack_size stack)") (auto simp: children_size rev_map [symmetric])

definition parse_double_quoted_string :: "ts_node \<Rightarrow> rstr option" where
  "parse_double_quoted_string node =
     (if nd_kind node \<noteq> rs ''string'' then None
      else if list_ex (\<lambda>part. nd_kind part \<noteq> rs ''string_content'') (named_children node) then None
      else Option.bind (nd_text node) (\<lambda>raw.
           Option.bind (strip_prefix [34] raw) (strip_suffix [34])))"

definition parse_raw_string :: "ts_node \<Rightarrow> rstr option" where
  "parse_raw_string node =
     (if nd_kind node \<noteq> rs ''raw_string'' then None
      else Option.bind (nd_text node) (\<lambda>raw.
           Option.bind (strip_prefix [39] raw) (strip_suffix [39])))"

text \<open>A word or a quoted string; \<^verbatim>\<open>"word" | "number"\<close>, \<^verbatim>\<open>"string"\<close> and \<^verbatim>\<open>"raw_string"\<close> of both matches.\<close>

definition parse_simple_word :: "ts_node \<Rightarrow> rstr option" where
  "parse_simple_word child =
     (let kind = nd_kind child in
      if kind = rs ''word'' \<or> kind = rs ''number'' then nd_text child
      else if kind = rs ''string'' then parse_double_quoted_string child
      else if kind = rs ''raw_string'' then parse_raw_string child
      else None)"

definition parse_plain_word :: "ts_node \<Rightarrow> rstr option" where
  "parse_plain_word child =
     (let kind = nd_kind child in
      if kind = rs ''command_name'' then
        (case named_children child of
           [] \<Rightarrow> None
         | word_node # _ \<Rightarrow> if nd_kind word_node \<noteq> rs ''word'' then None else nd_text word_node)
      else if kind = rs ''concatenation'' then
        Option.bind (those (map parse_simple_word (named_children child))) (\<lambda>parts.
          if concat parts = [] then None else Some (concat parts))
      else parse_simple_word child)"

definition parse_plain_command_from_node :: "ts_node \<Rightarrow> rstr list option" where
  "parse_plain_command_from_node cmd =
     (if nd_kind cmd \<noteq> rs ''command'' then None
      else those (map parse_plain_word (named_children cmd)))"

definition try_parse_word_only_commands_sequence :: "ts_node \<Rightarrow> rstr list list option" where
  "try_parse_word_only_commands_sequence root =
     (if nd_has_error root then None
      else Option.bind (collect_command_nodes [root] []) (\<lambda>command_nodes.
           those (map parse_plain_command_from_node (sort_key nd_start command_nodes))))"

definition parse_shell_script_into_commands :: "shell_parser \<Rightarrow> rstr \<Rightarrow> rstr list list option" where
  "parse_shell_script_into_commands try_parse_shell script =
     Option.bind (try_parse_shell script) try_parse_word_only_commands_sequence"

fun extract_bash_command :: "rstr list \<Rightarrow> (rstr \<times> rstr) option" where
  "extract_bash_command [shell, flag, script] =
     (if \<not> (flag = rs ''-lc'' \<or> flag = rs ''-c'')
         \<or> detect_shell_type shell \<notin> {Some Zsh, Some Bash, Some Sh}
      then None else Some (shell, script))"
| "extract_bash_command _ = None"

definition parse_shell_lc_plain_commands :: "shell_parser \<Rightarrow> rstr list \<Rightarrow> rstr list list option" where
  "parse_shell_lc_plain_commands try_parse_shell command =
     Option.bind (extract_bash_command command) (\<lambda>(_, script).
       parse_shell_script_into_commands try_parse_shell script)"

section \<open>Here-documents\<close>

definition is_literal_word_or_number :: "ts_node \<Rightarrow> bool" where
  "is_literal_word_or_number node \<longleftrightarrow>
     (nd_kind node = rs ''word'' \<or> nd_kind node = rs ''number'') \<and> named_children node = []"

definition is_allowed_heredoc_attachment_kind :: "rstr \<Rightarrow> bool" where
  "is_allowed_heredoc_attachment_kind kind \<longleftrightarrow>
     kind \<in> set (map rs [''heredoc_body'', ''simple_heredoc_body'', ''heredoc_redirect'',
       ''herestring_redirect'', ''redirected_statement''])"

text \<open>What one child adds to the words: nothing, one word, or a rejection.\<close>

definition parse_heredoc_word :: "ts_node \<Rightarrow> rstr list option" where
  "parse_heredoc_word child =
     (let kind = nd_kind child in
      if kind = rs ''command_name'' then
        (case named_children child of
           [] \<Rightarrow> None
         | word_node # _ \<Rightarrow>
             if \<not> (nd_kind word_node = rs ''word'' \<or> nd_kind word_node = rs ''number'')
                \<or> \<not> is_literal_word_or_number word_node
             then None else map_option (\<lambda>t. [t]) (nd_text word_node))
      else if kind = rs ''word'' \<or> kind = rs ''number'' then
        if \<not> is_literal_word_or_number child then None else map_option (\<lambda>t. [t]) (nd_text child)
      else if kind = rs ''comment'' then Some []
      else if is_allowed_heredoc_attachment_kind kind then Some []
      else None)"

definition parse_heredoc_command_words :: "ts_node \<Rightarrow> rstr list option" where
  "parse_heredoc_command_words cmd =
     (if nd_kind cmd \<noteq> rs ''command'' then None
      else Option.bind (those (map parse_heredoc_word (named_children cmd))) (\<lambda>parts.
           if concat parts = [] then None else Some (concat parts)))"

function has_named_descendant_kind_in :: "ts_node list \<Rightarrow> rstr \<Rightarrow> bool" where
  "has_named_descendant_kind_in [] kind = False"
| "has_named_descendant_kind_in (current # stack) kind =
     (if nd_kind current = kind then True
      else has_named_descendant_kind_in (rev (named_children current) @ stack) kind)"
  by pat_completeness auto

termination
  by (relation "measure (\<lambda>(stack, _). stack_size stack)") (auto simp: named_children_size rev_map [symmetric])

definition has_named_descendant_kind :: "ts_node \<Rightarrow> rstr \<Rightarrow> bool" where
  "has_named_descendant_kind node kind = has_named_descendant_kind_in [node] kind"

function find_single_command_in :: "ts_node list \<Rightarrow> ts_node option \<Rightarrow> ts_node option" where
  "find_single_command_in [] single_command = single_command"
| "find_single_command_in (node # stack) single_command =
     (if nd_kind node = rs ''command'' then
        if single_command \<noteq> None then None
        else find_single_command_in (rev (named_children node) @ stack) (Some node)
      else find_single_command_in (rev (named_children node) @ stack) single_command)"
  by pat_completeness auto

termination
  by (relation "measure (\<lambda>(stack, _). stack_size stack)") (auto simp: named_children_size rev_map [symmetric])

definition find_single_command_node :: "ts_node \<Rightarrow> ts_node option" where
  "find_single_command_node root = find_single_command_in [root] None"

definition parse_shell_lc_single_command_prefix :: "shell_parser \<Rightarrow> rstr list \<Rightarrow> rstr list option" where
  "parse_shell_lc_single_command_prefix try_parse_shell command =
     Option.bind (extract_bash_command command) (\<lambda>(_, script).
     Option.bind (try_parse_shell script) (\<lambda>root.
       if nd_has_error root then None
       else if \<not> has_named_descendant_kind root (rs ''heredoc_redirect'') then None
       else if has_named_descendant_kind root (rs ''file_redirect'') then None
       else Option.bind (find_single_command_node root) parse_heredoc_command_words))"

section \<open>The walks and the order of the source\<close>

text \<open>All nodes of a tree, and those reached through named nodes, in the order of the source.\<close>

fun preorder :: "ts_node \<Rightarrow> ts_node list" where
  "preorder (TsNode k nm e s t cs) = TsNode k nm e s t cs # concat (map preorder cs)"

fun named_preorder :: "ts_node \<Rightarrow> ts_node list" where
  "named_preorder (TsNode k nm e s t cs) =
     TsNode k nm e s t cs # concat (map (\<lambda>c. if nd_named c then named_preorder c else []) cs)"

abbreviation all_nodes :: "ts_node list \<Rightarrow> ts_node list" where
  "all_nodes ns \<equiv> concat (map preorder ns)"

abbreviation all_named :: "ts_node list \<Rightarrow> ts_node list" where
  "all_named ns \<equiv> concat (map named_preorder ns)"

lemma preorder_children: "preorder n = n # all_nodes (nd_children n)"
  by (cases n) simp

lemma named_preorder_children: "named_preorder n = n # all_named (named_children n)"
proof -
  have "concat (map (\<lambda>c. if nd_named c then named_preorder c else []) cs) = all_named (filter nd_named cs)" for cs
    by (induction cs) auto
  then show ?thesis by (cases n) (simp add: named_children_def)
qed

lemma mset_concat_rev: "mset (concat (rev xss)) = mset (concat xss)"
  by (induction xss) auto

lemma filter_mset_concat_rev: "mset (filter P (concat (rev xss))) = mset (filter P (concat xss))"
  by (simp add: mset_filter mset_concat_rev)

lemma set_all_nodes_push:
  "set (all_nodes (node # stack)) = insert node (set (all_nodes (rev (nd_children node) @ stack)))"
  by (auto simp: preorder_children [of node])

lemma mset_all_nodes_push:
  "filter_mset P (mset (all_nodes (node # stack)))
     = filter_mset P {#node#} + filter_mset P (mset (all_nodes (rev (nd_children node) @ stack)))"
  by (simp add: preorder_children [of node] mset_concat_rev rev_map [symmetric])

lemma mset_all_named_push:
  "filter_mset P (mset (all_named (node # stack)))
     = filter_mset P {#node#} + filter_mset P (mset (all_named (rev (named_children node) @ stack)))"
  by (simp add: named_preorder_children [of node] mset_concat_rev rev_map [symmetric])

lemma collect_command_nodes_None:
  "\<exists>n \<in> set (all_nodes stack). \<not> node_allowed n \<Longrightarrow> collect_command_nodes stack acc = None"
proof (induction stack acc rule: collect_command_nodes.induct)
  case (2 node stack acc)
  then show ?case unfolding set_all_nodes_push by (cases "node_allowed node") (simp_all del: map_append)
qed simp

lemma collect_command_nodes_Some:
  "\<forall>n \<in> set (all_nodes stack). node_allowed n \<Longrightarrow>
   \<exists>cs. collect_command_nodes stack acc = Some (acc @ cs)
     \<and> mset cs = filter_mset is_command_node (mset (all_nodes stack))"
proof (induction stack acc rule: collect_command_nodes.induct)
  case (2 node stack acc)
  from 2(2) have ok: "node_allowed node" "\<forall>n \<in> set (all_nodes (rev (nd_children node) @ stack)). node_allowed n"
    unfolding set_all_nodes_push by blast+
  with 2(1) obtain cs where
    "collect_command_nodes (node # stack) acc = Some ((if is_command_node node then acc @ [node] else acc) @ cs)"
    "mset cs = filter_mset is_command_node (mset (all_nodes (rev (nd_children node) @ stack)))" by fastforce
  then show ?case unfolding mset_all_nodes_push
    by (intro exI [of _ "if is_command_node node then node # cs else cs"]) (simp del: collect_command_nodes.simps map_append)
qed simp

lemma sort_key_collected:
  assumes "mset cs = mset xs" "sorted (map f xs)" "distinct (map f xs)"
  shows "sort_key f cs = xs"
proof (rule map_sorted_distinct_set_unique [of f])
  have s: "set cs = set xs" by (rule mset_eq_setD [OF assms(1)])
  then show "set (sort_key f cs) = set xs" by simp
  show "inj_on f (set (sort_key f cs) \<union> set xs)"
    using assms(3) by (simp add: s distinct_map)
  show "sorted (map f (sort_key f cs))" by simp
  have "mset (map f (sort_key f cs)) = mset (map f xs)" by (simp add: assms(1))
  then show "distinct (map f (sort_key f cs))"
    using assms(3) by (metis mset_eq_imp_distinct_iff)
qed (use assms in simp_all)

text \<open>
  Reading a script with a stack and sorting by position afterwards gives the commands
  of the syntax tree in the order of the source, provided every node of the tree
  is of an allowed kind; a single node of any other kind rejects the whole script.
\<close>

theorem word_only_commands_in_order:
  assumes "\<not> nd_has_error root"
    and "sorted (map nd_start (filter is_command_node (preorder root)))"
    and "distinct (map nd_start (filter is_command_node (preorder root)))"
  shows "try_parse_word_only_commands_sequence root =
    (if list_all node_allowed (preorder root)
     then those (map parse_plain_command_from_node (filter is_command_node (preorder root))) else None)"
proof (cases "list_all node_allowed (preorder root)")
  case True
  then obtain cs where "collect_command_nodes [root] [] = Some cs"
      "mset cs = mset (filter is_command_node (preorder root))"
    using collect_command_nodes_Some [of "[root]" "[]"] by (auto simp: list_all_iff simp del: collect_command_nodes.simps)
  moreover from this(2) assms(2,3) have "sort_key nd_start cs = filter is_command_node (preorder root)"
    by (rule sort_key_collected)
  ultimately show ?thesis using True assms(1)
    by (simp add: try_parse_word_only_commands_sequence_def del: collect_command_nodes.simps)
next
  case False
  then have "collect_command_nodes [root] [] = None"
    by (intro collect_command_nodes_None) (auto simp: list_all_iff)
  with False show ?thesis by (simp add: try_parse_word_only_commands_sequence_def)
qed

text \<open>The tree of \<^verbatim>\<open>ls | wc\<close>.\<close>

definition sample_command :: "nat \<Rightarrow> rstr \<Rightarrow> ts_node" where
  "sample_command at w =
     TsNode (rs ''command'') True False at (Some w)
       [TsNode (rs ''command_name'') True False at (Some w)
          [TsNode (rs ''word'') True False at (Some w) []]]"

definition sample_pipeline :: ts_node where
  "sample_pipeline =
     TsNode (rs ''program'') True False 0 (Some (rs ''ls | wc''))
       [TsNode (rs ''pipeline'') True False 0 (Some (rs ''ls | wc''))
          [sample_command 0 (rs ''ls''), TsNode (rs ''|'') False False 3 (Some (rs ''|'')) [],
           sample_command 5 (rs ''wc'')]]"

theorem word_only_commands_in_order_witness:
  "try_parse_word_only_commands_sequence sample_pipeline = Some [[rs ''ls''], [rs ''wc'']]"
proof -
  have a: "\<not> nd_has_error sample_pipeline" by code_simp
  have b: "sorted (map nd_start (filter is_command_node (preorder sample_pipeline)))" by code_simp
  have c: "distinct (map nd_start (filter is_command_node (preorder sample_pipeline)))" by code_simp
  have d: "list_all node_allowed (preorder sample_pipeline)" by code_simp
  have e: "those (map parse_plain_command_from_node (filter is_command_node (preorder sample_pipeline)))
      = Some [[rs ''ls''], [rs ''wc'']]" by code_simp
  from word_only_commands_in_order [OF a b c] d e show ?thesis by simp
qed

lemma has_named_descendant_kind_in_iff:
  "has_named_descendant_kind_in stack kind \<longleftrightarrow> (\<exists>n \<in> set (all_named stack). nd_kind n = kind)"
proof (induction stack kind rule: has_named_descendant_kind_in.induct)
  case (2 current stack kind)
  have "set (all_named (current # stack)) = insert current (set (all_named (rev (named_children current) @ stack)))"
    by (auto simp: named_preorder_children [of current])
  with 2 show ?case by (simp del: map_append list.map concat.simps)
qed simp

lemma find_single_command_in_Some:
  "find_single_command_in stack single = Some n \<longleftrightarrow>
     filter_mset (\<lambda>m. nd_kind m = rs ''command'') (mset (all_named stack))
       + (case single of None \<Rightarrow> {#} | Some m \<Rightarrow> {#m#}) = {#n#}"
proof (induction stack single rule: find_single_command_in.induct)
  case (2 node stack single)
  then show ?case unfolding mset_all_named_push
    by (cases single) (auto simp del: map_append simp: union_is_single)
qed (auto split: option.split)

text \<open>A here-document script is reduced to a command only when it holds exactly one.\<close>

lemma single_command_prefix:
  assumes "parse_shell_lc_single_command_prefix parse command = Some words"
  shows "\<exists>shell flag script root n. command = [shell, flag, script] \<and> parse script = Some root
    \<and> filter (\<lambda>m. nd_kind m = rs ''command'') (named_preorder root) = [n]
    \<and> (\<forall>m \<in> set (named_preorder root). nd_kind m \<noteq> rs ''file_redirect'')
    \<and> parse_heredoc_command_words n = Some words"
proof -
  from assms obtain shell script root n where
    e: "extract_bash_command command = Some (shell, script)" and r: "parse script = Some root"
    and f: "\<not> has_named_descendant_kind root (rs ''file_redirect'')"
    and n: "find_single_command_node root = Some n" "parse_heredoc_command_words n = Some words"
    by (auto simp: parse_shell_lc_single_command_prefix_def split: if_splits Option.bind_splits)
  from e obtain flag where c: "command = [shell, flag, script]"
    by (cases command rule: extract_bash_command.cases) (auto split: if_splits)
  from n(1) have "mset (filter (\<lambda>m. nd_kind m = rs ''command'') (named_preorder root)) = {#n#}"
    by (simp add: find_single_command_node_def find_single_command_in_Some del: find_single_command_in.simps)
  then have "filter (\<lambda>m. nd_kind m = rs ''command'') (named_preorder root) = [n]"
    by (metis mset_single_iff)
  moreover from f have "\<forall>m \<in> set (named_preorder root). nd_kind m \<noteq> rs ''file_redirect''"
    by (simp add: has_named_descendant_kind_def has_named_descendant_kind_in_iff del: has_named_descendant_kind_in.simps)
  ultimately show ?thesis using c r n(2) by blast
qed

section \<open>Where the words come from\<close>

text \<open>What the code relies on: the text of a node is part of the source it was parsed from.\<close>

definition texts_from_source :: "shell_parser \<Rightarrow> bool" where
  "texts_from_source parse \<longleftrightarrow>
     (\<forall>src root n t. parse src = Some root \<longrightarrow> n \<in> set (preorder root) \<longrightarrow> nd_text n = Some t \<longrightarrow> set t \<subseteq> set src)"

lemma those_map_Some: "those (map f xs) = Some ys \<longleftrightarrow> list_all2 (\<lambda>x y. f x = Some y) xs ys"
proof (induction xs arbitrary: ys)
  case (Cons x xs)
  then show ?case by (cases "f x"; cases "those (map f xs)") (auto simp: list_all2_Cons1)
qed auto

lemma those_map_mem: "those (map f xs) = Some ys \<Longrightarrow> y \<in> set ys \<Longrightarrow> \<exists>x \<in> set xs. f x = Some y"
  unfolding those_map_Some by (induction xs ys rule: list_all2_induct) auto

lemma preorder_child: "n \<in> set (preorder r) \<Longrightarrow> m \<in> set (nd_children n) \<Longrightarrow> m \<in> set (preorder r)"
proof (induction r rule: preorder.induct)
  case (1 k nm e s t cs)
  show ?case
  proof (cases "n = TsNode k nm e s t cs")
    case True
    with 1(3) have "m \<in> set cs" by simp
    moreover have "m \<in> set (preorder m)" by (cases m) simp
    ultimately show ?thesis by auto
  next
    case False
    with 1(2) obtain c where "c \<in> set cs" "n \<in> set (preorder c)" by auto
    with 1(1) 1(3) show ?thesis by auto
  qed
qed

lemma preorder_named_child:
  "n \<in> set (preorder r) \<Longrightarrow> m \<in> set (named_children n) \<Longrightarrow> m \<in> set (preorder r)"
  by (auto simp: named_children_def intro: preorder_child)

lemma strip_chars: "strip_prefix p s = Some t \<Longrightarrow> set t \<subseteq> set s" "strip_suffix p s = Some t \<Longrightarrow> set t \<subseteq> set s"
  by (auto simp: strip_prefix_def strip_suffix_def dest: in_set_dropD in_set_takeD split: if_splits)

lemma parse_simple_word_chars:
  assumes "parse_simple_word n = Some w" "\<And>t. nd_text n = Some t \<Longrightarrow> set t \<subseteq> S"
  shows "set w \<subseteq> S"
  using assms
  by (fastforce simp: parse_simple_word_def parse_double_quoted_string_def parse_raw_string_def Let_def
      dest: strip_chars split: if_splits Option.bind_splits)

lemma parse_plain_word_chars:
  assumes n: "n \<in> set (preorder r)" "\<And>m t. m \<in> set (preorder r) \<Longrightarrow> nd_text m = Some t \<Longrightarrow> set t \<subseteq> S"
    and w: "parse_plain_word n = Some w"
  shows "set w \<subseteq> S"
proof -
  have named: "m \<in> set (preorder r)" if "m \<in> set (named_children n)" for m
    using that by (rule preorder_named_child [OF n(1)])
  show ?thesis
  proof (cases "nd_kind n = rs ''command_name''")
    case True
    then obtain m ms where "named_children n = m # ms" "nd_text m = Some w"
      using w by (simp add: parse_plain_word_def split: list.splits if_splits)
    with n(2) [of m w] named [of m] show ?thesis by simp
  next
    case name: False
    show ?thesis
    proof (cases "nd_kind n = rs ''concatenation''")
      case True
      with name w obtain ws where ws: "those (map parse_simple_word (named_children n)) = Some ws" "w = concat ws"
        by (cases "those (map parse_simple_word (named_children n))") (simp_all add: parse_plain_word_def split: if_splits)
      have "set v \<subseteq> S" if v: "v \<in> set ws" for v
      proof -
        obtain m where "m \<in> set (named_children n)" "parse_simple_word m = Some v"
          using those_map_mem [OF ws(1) v] by blast
        with n(2) named show ?thesis by (metis parse_simple_word_chars)
      qed
      with ws(2) show ?thesis by auto
    next
      case False
      with name w have "parse_simple_word n = Some w" by (simp add: parse_plain_word_def)
      with n show ?thesis by (metis parse_simple_word_chars)
    qed
  qed
qed

lemma collect_command_nodes_subset:
  assumes "collect_command_nodes [root] [] = Some cs"
  shows "set cs \<subseteq> set (preorder root)"
proof -
  have "\<forall>n \<in> set (all_nodes [root]). node_allowed n"
    using collect_command_nodes_None [of "[root]" "[]"] assms by (auto simp del: collect_command_nodes.simps)
  from collect_command_nodes_Some [OF this, of "[]"] assms
  have "mset cs = filter_mset is_command_node (mset (preorder root))" by (auto simp del: collect_command_nodes.simps)
  then show ?thesis by (metis filter_is_subset mset_eq_setD mset_filter)
qed

lemma script_words_chars:
  assumes "texts_from_source parse" "parse_shell_script_into_commands parse script = Some commands"
    and "cmd \<in> set commands" "w \<in> set cmd"
  shows "set w \<subseteq> set script"
proof -
  from assms(2) obtain root cs where root: "parse script = Some root" "collect_command_nodes [root] [] = Some cs"
      "those (map parse_plain_command_from_node (sort_key nd_start cs)) = Some commands"
    by (auto simp: parse_shell_script_into_commands_def try_parse_word_only_commands_sequence_def
        split: if_splits Option.bind_splits simp del: collect_command_nodes.simps)
  from root(3) assms(3) obtain n where n: "n \<in> set cs" "parse_plain_command_from_node n = Some cmd"
    using those_map_mem by fastforce
  from n(2) have "those (map parse_plain_word (named_children n)) = Some cmd"
    by (simp add: parse_plain_command_from_node_def split: if_splits)
  with assms(4) obtain m where m: "m \<in> set (named_children n)" "parse_plain_word m = Some w"
    using those_map_mem by fastforce
  from n(1) collect_command_nodes_subset [OF root(2)] have "n \<in> set (preorder root)" by auto
  then have "m \<in> set (preorder root)" by (rule preorder_named_child [OF _ m(1)])
  then show ?thesis
  proof (rule parse_plain_word_chars [OF _ _ m(2)])
    show "set t \<subseteq> set script" if "k \<in> set (preorder root)" "nd_text k = Some t" for k t
      using assms(1) root(1) that by (auto simp only: texts_from_source_def)
  qed
qed

end
