(* ===== verification/Command_Safety.thy ===== *)
theory Command_Safety
  imports Bash_Commands
begin

text \<open>
  Which commands are known to be safe and which are dangerous, on a Unix build
  (\<^verbatim>\<open>shell-command/src/command_safety/is_safe_command.rs\<close> and
  \<^verbatim>\<open>is_dangerous_command.rs\<close>). The argument \<open>linux\<close> is \<^verbatim>\<open>cfg!(target_os = "linux")\<close>; the
  script parser is an argument, as in the theory of shell wrappers.
\<close>

section \<open>Dangerous commands\<close>

definition is_git_global_option_with_value :: "rstr \<Rightarrow> bool" where
  "is_git_global_option_with_value arg \<longleftrightarrow>
     arg \<in> set (map rs [''-C'', ''-c'', ''--config-env'', ''--exec-path'', ''--git-dir'', ''--namespace'',
       ''--super-prefix'', ''--work-tree''])"

definition is_git_global_option_with_inline_value :: "rstr \<Rightarrow> bool" where
  "is_git_global_option_with_inline_value arg \<longleftrightarrow>
     starts_with arg (rs ''--config-env='') \<or> starts_with arg (rs ''--exec-path='')
     \<or> starts_with arg (rs ''--git-dir='') \<or> starts_with arg (rs ''--namespace='')
     \<or> starts_with arg (rs ''--super-prefix='') \<or> starts_with arg (rs ''--work-tree='')
     \<or> ((starts_with arg (rs ''-C'') \<or> starts_with arg (rs ''-c'')) \<and> str_len arg > 2)"

definition executable_name_lookup_key :: "rstr \<Rightarrow> rstr option" where
  "executable_name_lookup_key raw = unix_file_name raw"

text \<open>The loop over the arguments, from position \<open>idx\<close>; \<open>skip_next\<close> skips the value of an option.\<close>

fun scan_git_args :: "rstr list \<Rightarrow> bool \<Rightarrow> nat \<Rightarrow> rstr list \<Rightarrow> (nat \<times> rstr) option" where
  "scan_git_args subcommands skip_next idx [] = None"
| "scan_git_args subcommands skip_next idx (arg # args) =
     (if skip_next then scan_git_args subcommands False (Suc idx) args
      else if is_git_global_option_with_inline_value arg then scan_git_args subcommands False (Suc idx) args
      else if is_git_global_option_with_value arg then scan_git_args subcommands True (Suc idx) args
      else if arg = rs ''--'' \<or> starts_with arg (rs ''-'') then scan_git_args subcommands False (Suc idx) args
      else if arg \<in> set subcommands then Some (idx, arg)
      else None)"

definition find_git_subcommand :: "rstr list \<Rightarrow> rstr list \<Rightarrow> (nat \<times> rstr) option" where
  "find_git_subcommand command subcommands =
     (case command of
        [] \<Rightarrow> None
      | cmd0 # args \<Rightarrow>
          if executable_name_lookup_key cmd0 \<noteq> Some (rs ''git'') then None
          else scan_git_args subcommands False 1 args)"

fun is_dangerous_to_call_with_exec :: "rstr list \<Rightarrow> bool" where
  "is_dangerous_to_call_with_exec [] = False"
| "is_dangerous_to_call_with_exec (cmd0 # args) =
     (if cmd0 = rs ''rm'' then
        (case args of [] \<Rightarrow> False | flag # _ \<Rightarrow> flag = rs ''-f'' \<or> flag = rs ''-rf'')
      else if cmd0 = rs ''sudo'' then is_dangerous_to_call_with_exec args
      else False)"

definition command_might_be_dangerous :: "shell_parser \<Rightarrow> rstr list \<Rightarrow> bool" where
  "command_might_be_dangerous parse command \<longleftrightarrow>
     is_dangerous_to_call_with_exec command \<or>
     (case parse_shell_lc_plain_commands parse command of
        None \<Rightarrow> False
      | Some all_commands \<Rightarrow> list_ex is_dangerous_to_call_with_exec all_commands)"

section \<open>Safe commands\<close>

datatype git_option_pattern =
    Exact rstr
  | ShortWithInlineValue rstr
  | Prefix rstr

fun git_option_matches :: "git_option_pattern \<Rightarrow> rstr \<Rightarrow> bool" where
  "git_option_matches (Exact option) arg = (arg = option)"
| "git_option_matches (ShortWithInlineValue option) arg =
     (starts_with arg option \<and> str_len arg > str_len option)"
| "git_option_matches (Prefix pre) arg = starts_with arg pre"

definition UNSAFE_GIT_GLOBAL_OPTIONS :: "git_option_pattern list" where
  "UNSAFE_GIT_GLOBAL_OPTIONS =
     [Exact (rs ''-C''), ShortWithInlineValue (rs ''-C''), Exact (rs ''-c''), ShortWithInlineValue (rs ''-c''),
      Exact (rs ''-p''), Exact (rs ''--config-env''), Prefix (rs ''--config-env=''),
      Exact (rs ''--exec-path''), Prefix (rs ''--exec-path=''), Exact (rs ''--git-dir''),
      Prefix (rs ''--git-dir=''), Exact (rs ''--namespace''), Prefix (rs ''--namespace=''),
      Exact (rs ''--paginate''), Exact (rs ''--super-prefix''), Prefix (rs ''--super-prefix=''),
      Exact (rs ''--work-tree''), Prefix (rs ''--work-tree='')]"

definition UNSAFE_GIT_SUBCOMMAND_OPTIONS :: "git_option_pattern list" where
  "UNSAFE_GIT_SUBCOMMAND_OPTIONS =
     [Exact (rs ''--output''), Prefix (rs ''--output=''), Exact (rs ''--ext-diff''),
      Exact (rs ''--textconv''), Exact (rs ''--exec''), Prefix (rs ''--exec='')]"

definition git_matches_option_pattern :: "rstr \<Rightarrow> git_option_pattern list \<Rightarrow> bool" where
  "git_matches_option_pattern arg patterns = list_ex (\<lambda>pattern. git_option_matches pattern arg) patterns"

definition git_has_unsafe_global_option :: "rstr list \<Rightarrow> bool" where
  "git_has_unsafe_global_option global_args =
     list_ex (\<lambda>arg. git_matches_option_pattern arg UNSAFE_GIT_GLOBAL_OPTIONS) global_args"

definition git_subcommand_args_are_read_only :: "rstr list \<Rightarrow> bool" where
  "git_subcommand_args_are_read_only args =
     (\<not> list_ex (\<lambda>arg. git_matches_option_pattern arg UNSAFE_GIT_SUBCOMMAND_OPTIONS) args)"

definition READ_ONLY_BRANCH_FLAGS :: "rstr list" where
  "READ_ONLY_BRANCH_FLAGS = map rs [''--list'', ''-l'', ''--show-current'', ''-a'', ''--all'', ''-r'',
     ''--remotes'', ''-v'', ''-vv'', ''--verbose'']"

fun branch_args_read_only :: "bool \<Rightarrow> rstr list \<Rightarrow> bool" where
  "branch_args_read_only saw_read_only_flag [] = saw_read_only_flag"
| "branch_args_read_only saw_read_only_flag (arg # args) =
     (if arg \<in> set READ_ONLY_BRANCH_FLAGS then branch_args_read_only True args
      else if starts_with arg (rs ''--format='') then branch_args_read_only True args
      else False)"

definition git_branch_is_read_only :: "rstr list \<Rightarrow> bool" where
  "git_branch_is_read_only branch_args =
     (if branch_args = [] then True else branch_args_read_only False branch_args)"

definition is_safe_git_command :: "rstr list \<Rightarrow> bool" where
  "is_safe_git_command command =
     (case find_git_subcommand command [rs ''status'', rs ''log'', rs ''diff'', rs ''show'', rs ''branch''] of
        None \<Rightarrow> False
      | Some (subcommand_idx, subcommand) \<Rightarrow>
          let global_args = drop 1 (take subcommand_idx command);
              subcommand_args = drop (subcommand_idx + 1) command in
          if git_has_unsafe_global_option global_args then False
          else if subcommand \<in> set [rs ''status'', rs ''log'', rs ''diff'', rs ''show''] then
            git_subcommand_args_are_read_only subcommand_args
          else if subcommand = rs ''branch'' then
            git_subcommand_args_are_read_only subcommand_args \<and> git_branch_is_read_only subcommand_args
          else False)"

definition all_digits :: "rstr \<Rightarrow> bool" where
  "all_digits s \<longleftrightarrow> s \<noteq> [] \<and> list_all is_ascii_digit s"

definition is_valid_sed_n_arg :: "rstr option \<Rightarrow> bool" where
  "is_valid_sed_n_arg arg =
     (case arg of None \<Rightarrow> False
      | Some s \<Rightarrow>
     (case strip_suffix (rs ''p'') s of None \<Rightarrow> False
      | Some core \<Rightarrow>
     (case split_char 44 core of
        [num] \<Rightarrow> all_digits num
      | [a, b] \<Rightarrow> all_digits a \<and> all_digits b
      | _ \<Rightarrow> False)))"

definition list_get :: "'a list \<Rightarrow> nat \<Rightarrow> 'a option" where
  "list_get xs i = (if i < length xs then Some (xs ! i) else None)"

definition ALWAYS_SAFE :: "rstr list" where
  "ALWAYS_SAFE = map rs [''cat'', ''cd'', ''cut'', ''echo'', ''expr'', ''false'', ''grep'', ''head'', ''id'',
     ''ls'', ''nl'', ''paste'', ''pwd'', ''rev'', ''seq'', ''stat'', ''tail'', ''tr'', ''true'', ''uname'',
     ''uniq'', ''wc'', ''which'', ''whoami'']"

definition UNSAFE_BASE64_OPTIONS :: "rstr list" where
  "UNSAFE_BASE64_OPTIONS = [rs ''-o'', rs ''--output'']"

definition UNSAFE_FIND_OPTIONS :: "rstr list" where
  "UNSAFE_FIND_OPTIONS = map rs [''-exec'', ''-execdir'', ''-ok'', ''-okdir'', ''-delete'', ''-fls'',
     ''-fprint'', ''-fprint0'', ''-fprintf'']"

definition UNSAFE_RIPGREP_OPTIONS_WITH_ARGS :: "rstr list" where
  "UNSAFE_RIPGREP_OPTIONS_WITH_ARGS = [rs ''--pre'', rs ''--hostname-bin'']"

definition UNSAFE_RIPGREP_OPTIONS_WITHOUT_ARGS :: "rstr list" where
  "UNSAFE_RIPGREP_OPTIONS_WITHOUT_ARGS = [rs ''--search-zip'', rs ''-z'']"

definition is_safe_to_call_with_exec :: "bool \<Rightarrow> rstr list \<Rightarrow> bool" where
  "is_safe_to_call_with_exec linux command =
     (case command of [] \<Rightarrow> False
      | cmd0 # args \<Rightarrow>
     (case executable_name_lookup_key cmd0 of None \<Rightarrow> False
      | Some cmd \<Rightarrow>
      if linux \<and> (cmd = rs ''numfmt'' \<or> cmd = rs ''tac'') then True
      else if cmd \<in> set ALWAYS_SAFE then True
      else if cmd = rs ''base64'' then
        \<not> list_ex (\<lambda>arg. arg \<in> set UNSAFE_BASE64_OPTIONS \<or> starts_with arg (rs ''--output='')
             \<or> (starts_with arg (rs ''-o'') \<and> arg \<noteq> rs ''-o'')) args
      else if cmd = rs ''find'' then
        \<not> list_ex (\<lambda>arg. arg \<in> set UNSAFE_FIND_OPTIONS) command
      else if cmd = rs ''rg'' then
        \<not> list_ex (\<lambda>arg. arg \<in> set UNSAFE_RIPGREP_OPTIONS_WITHOUT_ARGS
             \<or> list_ex (\<lambda>opt. arg = opt \<or> starts_with arg (opt @ rs ''='')) UNSAFE_RIPGREP_OPTIONS_WITH_ARGS) command
      else if cmd = rs ''git'' then is_safe_git_command command
      else if cmd = rs ''sed'' then
        length command \<le> 4 \<and> list_get command 1 = Some (rs ''-n'') \<and> is_valid_sed_n_arg (list_get command 2)
      else False))"

definition zsh_as_bash :: "rstr list \<Rightarrow> rstr list" where
  "zsh_as_bash command = map (\<lambda>s. if s = rs ''zsh'' then rs ''bash'' else s) command"

definition is_known_safe_command :: "bool \<Rightarrow> shell_parser \<Rightarrow> rstr list \<Rightarrow> bool" where
  "is_known_safe_command linux parse command =
     (let command = zsh_as_bash command in
      if is_safe_to_call_with_exec linux command then True
      else case parse_shell_lc_plain_commands parse command of
          None \<Rightarrow> False
        | Some all_commands \<Rightarrow> all_commands \<noteq> [] \<and> list_all (is_safe_to_call_with_exec linux) all_commands)"

section \<open>Safe git commands\<close>

lemma scan_git_args_Some:
  "scan_git_args subs skip idx args = Some (i, sub) \<Longrightarrow>
     idx \<le> i \<and> i < idx + length args \<and> args ! (i - idx) = sub \<and> sub \<in> set subs
     \<and> (\<not> skip \<longrightarrow> \<not> list_ex is_git_global_option_with_value (take (i - idx) args) \<longrightarrow>
          list_all (\<lambda>a. starts_with a (rs ''-'')) (take (i - idx) args))"
proof (induction subs skip idx args rule: scan_git_args.induct)
  case (2 subs skip idx arg args)
  have inline: "starts_with arg (rs ''-'')" if "is_git_global_option_with_inline_value arg"
    using that by (cases arg) (auto simp: is_git_global_option_with_inline_value_def starts_with_def rs_def)
  have step: ?case if r: "scan_git_args subs k (Suc idx) args = Some (i, sub)"
      and ih: "Suc idx \<le> i \<and> i < Suc idx + length args \<and> args ! (i - Suc idx) = sub \<and> sub \<in> set subs
        \<and> (\<not> k \<longrightarrow> \<not> list_ex is_git_global_option_with_value (take (i - Suc idx) args) \<longrightarrow>
          list_all (\<lambda>a. starts_with a (rs ''-'')) (take (i - Suc idx) args))"
      and arg: "\<not> skip \<Longrightarrow> (k \<longrightarrow> is_git_global_option_with_value arg) \<and> (\<not> k \<longrightarrow> starts_with arg (rs ''-''))" for k
  proof -
    from ih have i: "i - idx = Suc (i - Suc idx)" by linarith
    show ?thesis using ih arg by (cases k) (auto simp: i)
  qed
  show ?case
  proof (cases skip)
    case True
    with 2(1) 2(5) show ?thesis by (intro step [of False]) auto
  next
    case skip: False
    consider "is_git_global_option_with_inline_value arg"
      | "\<not> is_git_global_option_with_inline_value arg" "is_git_global_option_with_value arg"
      | "\<not> is_git_global_option_with_inline_value arg" "\<not> is_git_global_option_with_value arg"
        "arg = rs ''--'' \<or> starts_with arg (rs ''-'')"
      | "i = idx" "sub = arg" "arg \<in> set subs"
      using 2(5) skip by (auto split: if_splits)
    then show ?thesis
    proof cases
      case 1
      with 2(2) 2(5) skip inline show ?thesis by (intro step [of False]) auto
    next
      case 2
      with "2.IH"(3) "2.prems" skip show ?thesis by (intro step [of True]) auto
    next
      case 3
      then have "starts_with arg (rs ''-'')" by (auto simp: starts_with_def rs_def)
      with 3 "2.IH"(4) "2.prems" skip show ?thesis by (intro step [of False]) auto
    next
      case 4
      then show ?thesis by simp
    qed
  qed
qed simp

lemma value_options_unsafe:
  "is_git_global_option_with_value a \<Longrightarrow> git_matches_option_pattern a UNSAFE_GIT_GLOBAL_OPTIONS"
  by (auto simp: is_git_global_option_with_value_def git_matches_option_pattern_def UNSAFE_GIT_GLOBAL_OPTIONS_def)

lemma branch_args_read_only_all:
  "branch_args_read_only b args \<Longrightarrow>
     \<forall>a \<in> set args. a \<in> set READ_ONLY_BRANCH_FLAGS \<or> starts_with a (rs ''--format='')"
  by (induction b args rule: branch_args_read_only.induct) (auto split: if_splits)

text \<open>
  C12: a git command that is accepted as safe has the shape \<^verbatim>\<open>git <options> <subcommand> <args>\<close>
  with a read-only subcommand that is the first word after the options: no option
  before it takes a value, so no word before it can be mistaken for a subcommand;
  no option changes the repository, the configuration or the pager; no argument
  writes a file or runs a program; and \<^verbatim>\<open>branch\<close> has listing flags only.
\<close>

theorem safe_git_command_shape:
  assumes "is_safe_git_command command"
  shows "\<exists>exe options sub args. command = exe # options @ sub # args
    \<and> executable_name_lookup_key exe = Some (rs ''git'')
    \<and> sub \<in> {rs ''status'', rs ''log'', rs ''diff'', rs ''show'', rs ''branch''}
    \<and> (\<forall>g \<in> set options. starts_with g (rs ''-'') \<and> \<not> git_matches_option_pattern g UNSAFE_GIT_GLOBAL_OPTIONS)
    \<and> (\<forall>a \<in> set args. \<not> git_matches_option_pattern a UNSAFE_GIT_SUBCOMMAND_OPTIONS)
    \<and> (sub = rs ''branch'' \<longrightarrow>
        (\<forall>a \<in> set args. a \<in> set READ_ONLY_BRANCH_FLAGS \<or> starts_with a (rs ''--format='')))"
proof -
  let ?subs = "[rs ''status'', rs ''log'', rs ''diff'', rs ''show'', rs ''branch'']"
  from assms obtain i sub where f: "find_git_subcommand command ?subs = Some (i, sub)"
    by (auto simp: is_safe_git_command_def split: option.splits)
  then obtain exe rest where c: "command = exe # rest" "executable_name_lookup_key exe = Some (rs ''git'')"
      and scan: "scan_git_args ?subs False 1 rest = Some (i, sub)"
    by (auto simp: find_git_subcommand_def split: list.splits if_splits)
  from scan_git_args_Some [OF scan] have i: "1 \<le> i" "i - 1 < length rest" "rest ! (i - 1) = sub" "sub \<in> set ?subs"
    and dash: "\<not> list_ex is_git_global_option_with_value (take (i - 1) rest) \<longrightarrow>
      list_all (\<lambda>a. starts_with a (rs ''-'')) (take (i - 1) rest)"
    by auto
  then have split: "rest = take (i - 1) rest @ sub # drop i rest"
    using id_take_nth_drop [of "i - 1" rest] by simp
  have parts: "drop 1 (take i command) = take (i - 1) rest" "drop (i + 1) command = drop i rest"
    using i(1) by (cases i; simp add: c(1))+
  from assms have u: "\<not> git_has_unsafe_global_option (take (i - 1) rest)"
      "git_subcommand_args_are_read_only (drop i rest)"
      "sub = rs ''branch'' \<Longrightarrow> git_branch_is_read_only (drop i rest)"
    unfolding is_safe_git_command_def f parts [symmetric]
    by (auto simp: Let_def rs_def split: if_splits)
  have "\<forall>g \<in> set (take (i - 1) rest). starts_with g (rs ''-'') \<and> \<not> git_matches_option_pattern g UNSAFE_GIT_GLOBAL_OPTIONS"
    using dash u(1) value_options_unsafe by (auto simp: git_has_unsafe_global_option_def list_ex_iff list_all_iff)
  moreover have "\<forall>a \<in> set (drop i rest). \<not> git_matches_option_pattern a UNSAFE_GIT_SUBCOMMAND_OPTIONS"
    using u(2) by (auto simp: git_subcommand_args_are_read_only_def list_ex_iff)
  moreover have "sub = rs ''branch'' \<longrightarrow>
      (\<forall>a \<in> set (drop i rest). a \<in> set READ_ONLY_BRANCH_FLAGS \<or> starts_with a (rs ''--format=''))"
    using u(3) branch_args_read_only_all [of False "drop i rest"] by (auto simp: git_branch_is_read_only_def split: if_splits)
  moreover have "command = exe # take (i - 1) rest @ sub # drop i rest" using c(1) split by simp
  ultimately show ?thesis using c(2) i(4) by (intro exI conjI) auto
qed

theorem safe_git_command_shape_witness:
  "\<exists>exe options sub args. [rs ''/usr/bin/git'', rs ''--no-pager'', rs ''log'', rs ''-3''] = exe # options @ sub # args
    \<and> sub \<in> {rs ''status'', rs ''log'', rs ''diff'', rs ''show'', rs ''branch''}
    \<and> list_all (\<lambda>g. starts_with g (rs ''-'')) options"
proof -
  have "is_safe_git_command [rs ''/usr/bin/git'', rs ''--no-pager'', rs ''log'', rs ''-3'']" by code_simp
  from safe_git_command_shape [OF this] show ?thesis unfolding list_all_iff by blast
qed

section \<open>Safe is not dangerous\<close>

text \<open>The names a safe command can have.\<close>

definition safe_names :: "rstr list" where
  "safe_names = ALWAYS_SAFE @ map rs [''numfmt'', ''tac'', ''base64'', ''find'', ''rg'', ''git'', ''sed'']"

definition shell_names :: "rstr list" where
  "shell_names = map rs [''zsh'', ''sh'', ''cmd'', ''bash'', ''pwsh'', ''powershell'']"

lemma safe_exec_name:
  "is_safe_to_call_with_exec linux (cmd0 # args) \<Longrightarrow> \<exists>f \<in> set safe_names. unix_file_name cmd0 = Some f"
  by (auto simp: is_safe_to_call_with_exec_def executable_name_lookup_key_def safe_names_def
      split: option.splits if_splits)

lemma safe_names_plain:
  "f \<in> set safe_names \<Longrightarrow>
     unix_file_name f = Some f \<and> name_stem f = f \<and> f \<notin> set shell_names \<and> f \<noteq> rs ''rm'' \<and> f \<noteq> rs ''sudo''"
proof -
  have "list_all (\<lambda>f. unix_file_name f = Some f \<and> name_stem f = f \<and> f \<notin> set shell_names
      \<and> f \<noteq> rs ''rm'' \<and> f \<noteq> rs ''sudo'') safe_names"
    by code_simp
  then show "f \<in> set safe_names \<Longrightarrow> ?thesis" by (simp add: list_all_iff)
qed

lemma file_name_of_plain:
  "w \<in> set (rs ''rm'' # rs ''sudo'' # shell_names) \<Longrightarrow> unix_file_name w = Some w"
proof -
  have "list_all (\<lambda>w. unix_file_name w = Some w) (rs ''rm'' # rs ''sudo'' # shell_names)" by code_simp
  then show "w \<in> set (rs ''rm'' # rs ''sudo'' # shell_names) \<Longrightarrow> ?thesis" unfolding list_all_iff by blast
qed

lemma detect_not_named:
  assumes "p \<notin> set shell_names"
  shows "detect_shell_type p = (case unix_file_stem p of None \<Rightarrow> None
    | Some n \<Rightarrow> if unix_components n \<noteq> unix_components p then detect_shell_type n else None)"
  using assms by (subst detect_shell_type.simps) (simp add: shell_names_def)

lemma safe_name_is_no_shell:
  assumes "unix_file_name p = Some f" "f \<in> set safe_names"
  shows "detect_shell_type p = None"
proof -
  note f = safe_names_plain [OF assms(2)]
  have p: "p \<notin> set shell_names"
    using assms(1) f file_name_of_plain [of p] by auto
  have "detect_shell_type f = None"
    using f detect_not_named [of f] by (simp add: unix_file_stem_def)
  then show ?thesis using f detect_not_named [OF p] assms(1) by (simp add: unix_file_stem_def)
qed

lemma dangerous_first_word:
  "is_dangerous_to_call_with_exec cmd \<Longrightarrow> \<exists>args. cmd = rs ''rm'' # args \<or> cmd = rs ''sudo'' # args"
  by (cases cmd) (auto split: if_splits)

lemma safe_exec_not_dangerous:
  assumes "is_safe_to_call_with_exec linux cmd"
  shows "\<not> is_dangerous_to_call_with_exec cmd"
proof
  assume "is_dangerous_to_call_with_exec cmd"
  then obtain w args where w: "cmd = w # args" "w \<in> {rs ''rm'', rs ''sudo''}"
    by (auto dest: dangerous_first_word)
  from assms obtain f where f: "f \<in> set safe_names" "unix_file_name w = Some f"
    unfolding w(1) by (blast dest: safe_exec_name)
  with w(2) file_name_of_plain [of w] have "f \<in> {rs ''rm'', rs ''sudo''}" by auto
  with safe_names_plain [OF f(1)] show False by auto
qed

lemma no_shell_script:
  "detect_shell_type cmd0 = None \<Longrightarrow> parse_shell_lc_plain_commands parse (cmd0 # args) = None"
  by (cases "cmd0 # args" rule: extract_bash_command.cases) (auto simp: parse_shell_lc_plain_commands_def)

lemma danger_words_no_shell: "detect_shell_type (rs ''rm'') = None" "detect_shell_type (rs ''sudo'') = None"
  by (subst detect_shell_type.simps, code_simp)+

lemma zsh_as_bash_safe_head:
  assumes "is_safe_to_call_with_exec linux (zsh_as_bash command)"
  shows "\<exists>cmd0 args f. command = cmd0 # args \<and> unix_file_name cmd0 = Some f \<and> f \<in> set safe_names"
proof (cases command)
  case Nil
  with assms show ?thesis by (simp add: zsh_as_bash_def is_safe_to_call_with_exec_def)
next
  case (Cons cmd0 args)
  let ?w = "if cmd0 = rs ''zsh'' then rs ''bash'' else cmd0"
  from assms Cons obtain f where f: "f \<in> set safe_names" "unix_file_name ?w = Some f"
    by (auto simp: zsh_as_bash_def dest: safe_exec_name)
  moreover have "rs ''bash'' \<in> set shell_names" by (simp add: shell_names_def)
  ultimately have "cmd0 \<noteq> rs ''zsh''"
    using safe_names_plain [OF f(1)] file_name_of_plain [of "rs ''bash''"] by auto
  with f Cons show ?thesis by auto
qed

lemma script_of_zsh_not_dangerous:
  assumes "texts_from_source parse" "parse_shell_script_into_commands parse (rs ''zsh'') = Some commands"
  shows "\<not> list_ex is_dangerous_to_call_with_exec commands"
proof
  assume "list_ex is_dangerous_to_call_with_exec commands"
  then obtain cmd where c: "cmd \<in> set commands" "is_dangerous_to_call_with_exec cmd" by (auto simp: list_ex_iff)
  then obtain w args where w: "cmd = w # args" "w \<in> {rs ''rm'', rs ''sudo''}"
    by (auto dest: dangerous_first_word)
  have "set w \<subseteq> set (rs ''zsh'')"
    by (rule script_words_chars [OF assms c(1)]) (simp add: w(1))
  with w(2) show False by (auto simp: rs_def)
qed

lemma zsh_as_bash_script:
  assumes "extract_bash_command (zsh_as_bash command) = Some (shell', script')"
  shows "\<exists>shell flag script. command = [shell, flag, script]
    \<and> extract_bash_command command = Some (shell, script) \<and> (script \<noteq> rs ''zsh'' \<longrightarrow> script' = script)"
proof -
  from assms obtain shell flag script where c: "command = [shell, flag, script]"
    by (cases "zsh_as_bash command" rule: extract_bash_command.cases) (auto simp: zsh_as_bash_def split: if_splits)
  have lc: "rs ''bash'' \<noteq> rs ''-lc''" "rs ''bash'' \<noteq> rs ''-c''" by (simp_all add: rs_def)
  have "detect_shell_type (rs ''zsh'') = Some Zsh" by (subst detect_shell_type.simps) simp
  with assms c lc show ?thesis by (auto simp: zsh_as_bash_def split: if_splits)
qed

lemma known_safe_not_dangerous_aux:
  assumes "texts_from_source parse" "is_known_safe_command linux parse command"
  shows "\<not> command_might_be_dangerous parse command"
proof (cases "is_safe_to_call_with_exec linux (zsh_as_bash command)")
  case True
  then obtain cmd0 args f where c: "command = cmd0 # args" and f: "unix_file_name cmd0 = Some f" "f \<in> set safe_names"
    using zsh_as_bash_safe_head by blast
  have "\<not> is_dangerous_to_call_with_exec command"
  proof
    assume "is_dangerous_to_call_with_exec command"
    from dangerous_first_word [OF this] c have "cmd0 = rs ''rm'' \<or> cmd0 = rs ''sudo''" by auto
    with f safe_names_plain [OF f(2)] file_name_of_plain [of cmd0] show False by auto
  qed
  moreover have "parse_shell_lc_plain_commands parse command = None"
    unfolding c by (rule no_shell_script [OF safe_name_is_no_shell [OF f]])
  ultimately show ?thesis by (simp add: command_might_be_dangerous_def)
next
  case False
  with assms(2) obtain shell' script' commands' where
    e: "extract_bash_command (zsh_as_bash command) = Some (shell', script')"
    and p: "parse_shell_script_into_commands parse script' = Some commands'"
      "list_all (is_safe_to_call_with_exec linux) commands'"
    by (auto simp: is_known_safe_command_def parse_shell_lc_plain_commands_def Let_def
        split: option.splits Option.bind_splits)
  from zsh_as_bash_script [OF e] obtain shell flag script where c: "command = [shell, flag, script]"
    and x: "extract_bash_command command = Some (shell, script)" and s: "script \<noteq> rs ''zsh'' \<longrightarrow> script' = script"
    by blast
  have "\<not> is_dangerous_to_call_with_exec command"
  proof
    assume "is_dangerous_to_call_with_exec command"
    from dangerous_first_word [OF this] have "shell = rs ''rm'' \<or> shell = rs ''sudo''" by (auto simp: c)
    with x danger_words_no_shell show False by (auto simp: c split: if_splits)
  qed
  moreover have "\<not> list_ex is_dangerous_to_call_with_exec commands"
    if commands: "parse_shell_script_into_commands parse script = Some commands" for commands
  proof (cases "script = rs ''zsh''")
    case True
    with script_of_zsh_not_dangerous [OF assms(1)] commands show ?thesis by simp
  next
    case False
    with s p commands show ?thesis
      by (auto simp: list_ex_iff list_all_iff dest: safe_exec_not_dangerous)
  qed
  ultimately show ?thesis
    by (auto simp: command_might_be_dangerous_def parse_shell_lc_plain_commands_def x split: option.splits)
qed

text \<open>
  No command is at once known to be safe and possibly dangerous: whatever the parser
  returns for a script, as long as the words of a syntax tree come from the text
  it was parsed from, a command that the safe list approves, directly or word by
  word inside a \<^verbatim>\<open>bash -lc\<close> script, is not flagged by the danger check.
\<close>

theorem known_safe_not_dangerous:
  assumes "texts_from_source parse" "is_known_safe_command linux parse command"
  shows "\<not> command_might_be_dangerous parse command"
  by (rule known_safe_not_dangerous_aux [OF assms])

text \<open>A parser that knows one script.\<close>

definition sample_parser :: shell_parser where
  "sample_parser src = (if src = rs ''ls | wc'' then Some sample_pipeline else None)"

lemma sample_parser_texts: "texts_from_source sample_parser"
proof -
  have "list_all (\<lambda>n. case nd_text n of None \<Rightarrow> True | Some t \<Rightarrow> set t \<subseteq> set (rs ''ls | wc'')) (preorder sample_pipeline)"
    by code_simp
  then show ?thesis
    by (auto simp: texts_from_source_def sample_parser_def list_all_iff split: if_splits option.splits)
qed

theorem known_safe_not_dangerous_witness:
  "\<not> command_might_be_dangerous sample_parser [rs ''bash'', rs ''-lc'', rs ''ls | wc'']"
proof (rule known_safe_not_dangerous [OF sample_parser_texts])
  show "is_known_safe_command True sample_parser [rs ''bash'', rs ''-lc'', rs ''ls | wc'']" by code_simp
qed

end
