(* ===== verification/Policy_Check.thy ===== *)
theory Policy_Check
  imports Policy_Rules
begin

text \<open>
  The policy and its evaluation (\<^verbatim>\<open>execpolicy/src/policy.rs\<close>): rules indexed by
  program name, network rules, host executables, the overlay of two policies, and
  the decision for one or several commands.

  The multimap of the source is an association list from program names to rule
  lists. The order in which the source iterates over programs is unspecified;
  what is proved of the results does not depend on it. The locale \<open>multimap\<close>
  states the laws the policy relies on, and is interpreted on the association
  list.
\<close>

section \<open>Multimaps\<close>

locale multimap =
  fixes mm_nil :: 'm
    and mm_ins :: "'k \<Rightarrow> 'v \<Rightarrow> 'm \<Rightarrow> 'm"
    and mm_look :: "'m \<Rightarrow> 'k \<Rightarrow> 'v list"
  assumes look_nil: "mm_look mm_nil k = []"
    and look_ins: "mm_look (mm_ins k v m) k' = mm_look m k' @ (if k' = k then [v] else [])"
begin

lemma look_insert_all:
  "mm_look (fold (\<lambda>(k, v). mm_ins k v) kvs m) k' = mm_look m k' @ map snd (filter (\<lambda>(k, v). k = k') kvs)"
  by (induction kvs arbitrary: m) (auto simp: look_ins)

lemma look_from_list:
  "mm_look (fold (\<lambda>(k, v). mm_ins k v) kvs mm_nil) k' = map snd (filter (\<lambda>(k, v). k = k') kvs)"
  by (simp add: look_insert_all look_nil)

end

type_synonym rule_map = "(rstr \<times> prefix_rule list) list"

definition mm_get_vec :: "rule_map \<Rightarrow> rstr \<Rightarrow> prefix_rule list option" where
  "mm_get_vec m k = map_of m k"

fun mm_insert :: "rstr \<Rightarrow> prefix_rule \<Rightarrow> rule_map \<Rightarrow> rule_map" where
  "mm_insert k v [] = [(k, [v])]"
| "mm_insert k v ((k', vs) # m) =
     (if k = k' then (k', vs @ [v]) # m else (k', vs) # mm_insert k v m)"

definition mm_rules :: "rule_map \<Rightarrow> rstr \<Rightarrow> prefix_rule list" where
  "mm_rules m k = (case mm_get_vec m k of None \<Rightarrow> [] | Some vs \<Rightarrow> vs)"

lemma mm_rules_insert:
  "mm_rules (mm_insert k v m) k' = mm_rules m k' @ (if k' = k then [v] else [])"
  by (induction m) (auto simp: mm_rules_def mm_get_vec_def)

interpretation rule_mm: multimap "[]" mm_insert mm_rules
  by unfold_locales (auto simp: mm_rules_def mm_get_vec_def mm_rules_insert [unfolded mm_rules_def mm_get_vec_def])

section \<open>Policies\<close>

record match_options =
  resolve_host_executables :: bool

definition default_options :: match_options where
  "default_options = \<lparr>resolve_host_executables = False\<rparr>"

record 'p policy =
  rules_by_program :: rule_map
  network_rules :: "network_rule list"
  host_executables_by_name :: "rstr \<rightharpoonup> 'p list"

definition from_parts :: "rule_map \<Rightarrow> network_rule list \<Rightarrow> (rstr \<rightharpoonup> 'p list) \<Rightarrow> 'p policy" where
  "from_parts rules nets hosts =
     \<lparr>rules_by_program = rules, network_rules = nets, host_executables_by_name = hosts\<rparr>"

definition policy_new :: "rule_map \<Rightarrow> 'p policy" where
  "policy_new rules = from_parts rules [] Map.empty"

definition policy_empty :: "'p policy" where
  "policy_empty = policy_new []"

fun render_pattern_token :: "pattern_token \<Rightarrow> rstr" where
  "render_pattern_token (Single value) = value"
| "render_pattern_token (Alts alts) = rs ''['' @ join_str (rs ''|'') alts @ rs '']''"

definition rendered_prefix :: "prefix_rule \<Rightarrow> rstr list" where
  "rendered_prefix r =
     pat_first (rule_pattern r) # map render_pattern_token (pat_rest (rule_pattern r))"

definition get_allowed_prefixes :: "'p policy \<Rightarrow> rstr list list" where
  "get_allowed_prefixes p =
     remdups_adj (sort (concat (map (\<lambda>(program, rules).
       map rendered_prefix (filter (\<lambda>r. pr_decision r = Allow) rules)) (rules_by_program p))))"

definition single_rule :: "rstr \<Rightarrow> rstr list \<Rightarrow> decision \<Rightarrow> prefix_rule" where
  "single_rule first_token rest d =
     \<lparr>rule_pattern = \<lparr>pat_first = first_token, pat_rest = map Single rest\<rparr>,
      pr_decision = d, pr_justification = None\<rparr>"

fun add_prefix_rule :: "'p policy \<Rightarrow> rstr list \<Rightarrow> decision \<Rightarrow> ('se policy_error, 'p policy) result" where
  "add_prefix_rule p [] d = Err (InvalidPattern (rs ''prefix cannot be empty''))"
| "add_prefix_rule p (first_token # rest) d =
     Ok (p\<lparr>rules_by_program :=
            mm_insert first_token (single_rule first_token rest d) (rules_by_program p)\<rparr>)"

definition blank_justification :: "rstr option \<Rightarrow> bool" where
  "blank_justification j = (case j of None \<Rightarrow> False | Some raw \<Rightarrow> trim raw = [])"

definition add_network_rule ::
  "'p policy \<Rightarrow> rstr \<Rightarrow> network_rule_protocol \<Rightarrow> decision \<Rightarrow> rstr option
     \<Rightarrow> ('se policy_error, 'p policy) result" where
  "add_network_rule p host protocol d justification =
     bind_result (normalize_network_rule_host host) (\<lambda>host.
       if blank_justification justification
       then Err (InvalidRule (rs ''justification cannot be empty''))
       else Ok (p\<lparr>network_rules := network_rules p @
              [\<lparr>nr_host = host, nr_protocol = protocol, nr_decision = d,
                nr_justification = justification\<rparr>]\<rparr>))"

definition set_host_executable_paths :: "'p policy \<Rightarrow> rstr \<Rightarrow> 'p list \<Rightarrow> 'p policy" where
  "set_host_executable_paths p name paths =
     p\<lparr>host_executables_by_name := (host_executables_by_name p)(name \<mapsto> paths)\<rparr>"

definition iter_all_pairs :: "rule_map \<Rightarrow> (rstr \<times> prefix_rule) list" where
  "iter_all_pairs m = concat (map (\<lambda>(program, rules). map (\<lambda>r. (program, r)) rules) m)"

definition merge_overlay :: "'p policy \<Rightarrow> 'p policy \<Rightarrow> 'p policy" where
  "merge_overlay p overlay =
     from_parts
       (fold (\<lambda>(program, rule). mm_insert program rule)
          (iter_all_pairs (rules_by_program overlay)) (rules_by_program p))
       (network_rules p @ network_rules overlay)
       (host_executables_by_name p ++ host_executables_by_name overlay)"

definition upsert_domain :: "rstr list \<Rightarrow> rstr \<Rightarrow> rstr list" where
  "upsert_domain entries host = filter (\<lambda>entry. entry \<noteq> host) entries @ [host]"

fun compile_network_rule :: "network_rule \<Rightarrow> rstr list \<times> rstr list \<Rightarrow> rstr list \<times> rstr list" where
  "compile_network_rule rule (allowed, denied) =
     (case nr_decision rule of
        Allow \<Rightarrow> (upsert_domain allowed (nr_host rule), filter (\<lambda>e. e \<noteq> nr_host rule) denied)
      | Forbidden \<Rightarrow> (filter (\<lambda>e. e \<noteq> nr_host rule) allowed, upsert_domain denied (nr_host rule))
      | Prompt \<Rightarrow> (allowed, denied))"

definition compiled_network_domains :: "'p policy \<Rightarrow> rstr list \<times> rstr list" where
  "compiled_network_domains p = fold compile_network_rule (network_rules p) ([], [])"

section \<open>Evaluation\<close>

definition match_exact_rules :: "'p policy \<Rightarrow> rstr list \<Rightarrow> 'p rule_match list option" where
  "match_exact_rules p cmd =
     (case cmd of [] \<Rightarrow> None
      | first # _ \<Rightarrow>
          Some (case mm_get_vec (rules_by_program p) first of
                  None \<Rightarrow> []
                | Some rules \<Rightarrow> List.map_filter (\<lambda>r. rule_matches r cmd) rules))"

definition match_host_executable_rules ::
  "'p platform \<Rightarrow> 'p policy \<Rightarrow> rstr list \<Rightarrow> 'p rule_match list" where
  "match_host_executable_rules pf p cmd =
     (case cmd of [] \<Rightarrow> []
      | first # args \<Rightarrow>
     (case absolute_path_try_from pf first of Err _ \<Rightarrow> []
      | Ok program \<Rightarrow>
     (case executable_path_lookup_key pf program of None \<Rightarrow> []
      | Some basename \<Rightarrow>
     (case mm_get_vec (rules_by_program p) basename of None \<Rightarrow> []
      | Some rules \<Rightarrow>
      if (case host_executables_by_name p basename of
            Some paths \<Rightarrow> \<not> list_ex (\<lambda>path. path = program) paths
          | None \<Rightarrow> False)
      then []
      else map (\<lambda>m. with_resolved_program m program)
             (List.map_filter (\<lambda>r. rule_matches r (basename # args)) rules)))))"

text \<open>
  \<^verbatim>\<open>match_exact_rules(cmd).filter(non-empty).or_else(...).unwrap_or_default()\<close>, then
  the fallback when nothing matched.
\<close>

definition matches_for_command_with_options ::
  "'p platform \<Rightarrow> 'p policy \<Rightarrow> rstr list \<Rightarrow> (rstr list \<Rightarrow> decision) option \<Rightarrow> match_options
     \<Rightarrow> 'p rule_match list" where
  "matches_for_command_with_options pf p cmd heuristics_fallback options =
     (let exact = (case match_exact_rules p cmd of None \<Rightarrow> [] | Some ms \<Rightarrow> ms);
          matched_rules =
            (if exact \<noteq> [] then exact
             else if resolve_host_executables options then match_host_executable_rules pf p cmd
             else [])
      in case heuristics_fallback of
           Some fallback \<Rightarrow>
             if matched_rules = [] then [HeuristicsRuleMatch cmd (fallback cmd)] else matched_rules
         | None \<Rightarrow> matched_rules)"

definition matches_for_command ::
  "'p platform \<Rightarrow> 'p policy \<Rightarrow> rstr list \<Rightarrow> (rstr list \<Rightarrow> decision) option \<Rightarrow> 'p rule_match list" where
  "matches_for_command pf p cmd heuristics_fallback =
     matches_for_command_with_options pf p cmd heuristics_fallback default_options"

record 'p evaluation =
  ev_decision :: decision
  ev_matched_rules :: "'p rule_match list"

definition is_match :: "'p evaluation \<Rightarrow> bool" where
  "is_match ev = list_ex (\<lambda>m. \<not> is_heuristics m) (ev_matched_rules ev)"

text \<open>\<^verbatim>\<open>Iterator::max\<close>; equal decisions are the same value.\<close>

fun iter_max :: "'a::linorder list \<Rightarrow> 'a option" where
  "iter_max [] = None"
| "iter_max (x # xs) = Some (fold max xs x)"

text \<open>\<^verbatim>\<open>Evaluation::from_matches\<close>; \<^term>\<open>None\<close> is the panic of \<^verbatim>\<open>expect\<close>.\<close>

definition from_matches :: "'p rule_match list \<Rightarrow> 'p evaluation option" where
  "from_matches matched =
     map_option (\<lambda>d. \<lparr>ev_decision = d, ev_matched_rules = matched\<rparr>)
       (iter_max (map rule_decision matched))"

definition check_with_options ::
  "'p platform \<Rightarrow> 'p policy \<Rightarrow> rstr list \<Rightarrow> (rstr list \<Rightarrow> decision) \<Rightarrow> match_options
     \<Rightarrow> 'p evaluation option" where
  "check_with_options pf p cmd fallback options =
     from_matches (matches_for_command_with_options pf p cmd (Some fallback) options)"

definition check ::
  "'p platform \<Rightarrow> 'p policy \<Rightarrow> rstr list \<Rightarrow> (rstr list \<Rightarrow> decision) \<Rightarrow> 'p evaluation option" where
  "check pf p cmd fallback =
     from_matches (matches_for_command_with_options pf p cmd (Some fallback) default_options)"

definition check_multiple_with_options ::
  "'p platform \<Rightarrow> 'p policy \<Rightarrow> rstr list list \<Rightarrow> (rstr list \<Rightarrow> decision) \<Rightarrow> match_options
     \<Rightarrow> 'p evaluation option" where
  "check_multiple_with_options pf p commands fallback options =
     from_matches (concat (map (\<lambda>cmd.
       matches_for_command_with_options pf p cmd (Some fallback) options) commands))"

definition check_multiple ::
  "'p platform \<Rightarrow> 'p policy \<Rightarrow> rstr list list \<Rightarrow> (rstr list \<Rightarrow> decision) \<Rightarrow> 'p evaluation option" where
  "check_multiple pf p commands fallback =
     check_multiple_with_options pf p commands fallback default_options"

end
