(* ===== verification/Policy_Facts.thy ===== *)
theory Policy_Facts
  imports Policy_Check
begin

text \<open>
  Correctness of policy evaluation. The index by program name is only an
  optimisation: a command is governed by every rule of the policy whose pattern
  it starts with, and the strictest of these rules decides. The theorems relate
  the code to this reading, for single commands, for lists of commands, and after
  each operation that changes a policy.
\<close>

section \<open>The abstract reading of a policy\<close>

definition all_rules :: "'p policy \<Rightarrow> prefix_rule set" where
  "all_rules p = set (concat (map snd (rules_by_program p)))"

definition covers :: "prefix_rule \<Rightarrow> rstr list \<Rightarrow> bool" where
  "covers r cmd \<longleftrightarrow>
     (\<exists>pre. prefix pre cmd \<and> list_all2 (\<lambda>w ws. w \<in> set ws) pre (pattern_words (rule_pattern r)))"

definition governing :: "'p policy \<Rightarrow> rstr list \<Rightarrow> prefix_rule set" where
  "governing p cmd = {r \<in> all_rules p. covers r cmd}"

definition strictest :: "prefix_rule set \<Rightarrow> decision \<Rightarrow> decision" where
  "strictest R d = (if R = {} then d else Max (pr_decision ` R))"

definition rule_map_wf :: "rule_map \<Rightarrow> bool" where
  "rule_map_wf m \<longleftrightarrow> distinct (map fst m) \<and> (\<forall>(k, vs) \<in> set m. \<forall>r \<in> set vs. rule_program r = k)"

definition normal_host :: "rstr \<Rightarrow> bool" where
  "normal_host h \<longleftrightarrow> h \<noteq> [] \<and> to_ascii_lowercase h = h \<and> \<not> list_ex is_whitespace h
     \<and> set h \<inter> {42, 47, 63, 35} = {}"

text \<open>Well-formed policies: rules are filed under their program, hosts are normalised.\<close>

definition policy_wf :: "'p policy \<Rightarrow> bool" where
  "policy_wf p \<longleftrightarrow> rule_map_wf (rules_by_program p) \<and> (\<forall>n \<in> set (network_rules p). normal_host (nr_host n))"

text \<open>The command with its program replaced by the base name, when the policy lets that path stand for it.\<close>

definition host_command :: "'p platform \<Rightarrow> 'p policy \<Rightarrow> rstr list \<Rightarrow> rstr list option" where
  "host_command pf p cmd =
     (case cmd of [] \<Rightarrow> None
      | first # args \<Rightarrow>
          (case absolute_path_try_from pf first of Err _ \<Rightarrow> None
           | Ok program \<Rightarrow>
               (case executable_path_lookup_key pf program of None \<Rightarrow> None
                | Some basename \<Rightarrow>
                    if host_executables_by_name p basename = None
                      \<or> program \<in> set (the (host_executables_by_name p basename))
                    then Some (basename # args) else None)))"

definition policy_decision ::
  "'p platform \<Rightarrow> 'p policy \<Rightarrow> (rstr list \<Rightarrow> decision) \<Rightarrow> match_options \<Rightarrow> rstr list \<Rightarrow> decision" where
  "policy_decision pf p fallback options cmd =
     strictest (governing p cmd)
       (case (resolve_host_executables options, host_command pf p cmd) of
          (True, Some c) \<Rightarrow> strictest (governing p c) (fallback cmd)
        | _ \<Rightarrow> fallback cmd)"

section \<open>Library lemmas\<close>

lemma iter_max_Max: "iter_max xs = (if xs = [] then None else Some (Max (set xs)))"
  by (cases xs) (simp_all add: Max.set_eq_fold [symmetric])

lemma covers_matches: "covers r cmd \<longleftrightarrow> matches_prefix (rule_pattern r) cmd \<noteq> None"
  by (auto simp: covers_def matches_prefix_Some_iff [symmetric])

lemma rule_matches_covers: "rule_matches r cmd \<noteq> None \<longleftrightarrow> covers r cmd"
  by (simp add: rule_matches_def covers_matches)

lemma rule_matches_decision: "rule_matches r cmd = Some m \<Longrightarrow> rule_decision m = pr_decision r"
  by (auto simp: rule_matches_def)

lemma rule_matches_not_heuristics: "rule_matches r cmd = Some m \<Longrightarrow> \<not> is_heuristics m"
  by (auto simp: rule_matches_def)

lemma covers_program: "covers r cmd \<Longrightarrow> cmd \<noteq> [] \<and> hd cmd = rule_program r"
  by (cases cmd)
    (auto simp: covers_def pattern_words_def rule_program_def list_all2_Cons2)

lemma rule_map_wfD: "rule_map_wf m \<Longrightarrow> (k, vs) \<in> set m \<Longrightarrow> r \<in> set vs \<Longrightarrow> rule_program r = k"
  unfolding rule_map_wf_def by (drule conjunct2, drule (1) bspec) simp

lemma mm_rules_set:
  assumes "rule_map_wf m"
  shows "set (mm_rules m k) = {r \<in> set (concat (map snd m)). rule_program r = k}"
proof (intro set_eqI iffI)
  fix r assume "r \<in> set (mm_rules m k)"
  then obtain vs where "(k, vs) \<in> set m" "r \<in> set vs"
    by (auto simp: mm_rules_def mm_get_vec_def split: option.splits dest: map_of_SomeD [OF sym])
  moreover from this have "rule_program r = k" by (rule rule_map_wfD [OF assms])
  ultimately show "r \<in> {r \<in> set (concat (map snd m)). rule_program r = k}"
    by force
next
  fix r assume "r \<in> {r \<in> set (concat (map snd m)). rule_program r = k}"
  then obtain k' vs where v: "(k', vs) \<in> set m" "r \<in> set vs" "rule_program r = k" by auto
  with rule_map_wfD [OF assms v(1,2)] have "k' = k" by simp
  with v assms have "map_of m k = Some vs" by (auto simp: rule_map_wf_def)
  with v show "r \<in> set (mm_rules m k)" by (simp add: mm_rules_def mm_get_vec_def)
qed

lemma all_rules_mm_rules:
  "rule_map_wf (rules_by_program p) \<Longrightarrow> r \<in> all_rules p \<longleftrightarrow> r \<in> set (mm_rules (rules_by_program p) (rule_program r))"
  by (simp add: mm_rules_set all_rules_def)

text \<open>The rules filed under the first word of a command are all that can cover it.\<close>

lemma indexed_governing:
  assumes "policy_wf p"
  shows "{r \<in> set (mm_rules (rules_by_program p) (hd cmd)). covers r cmd} = governing p cmd"
  using assms by (auto simp: policy_wf_def mm_rules_set governing_def all_rules_def dest: covers_program)

lemma set_map_filter: "set (List.map_filter f xs) = {y. \<exists>x \<in> set xs. f x = Some y}"
  by (auto simp: List.map_filter_def intro: rev_image_eqI)

lemma decisions_map_filter:
  "rule_decision ` set (List.map_filter (\<lambda>r. rule_matches r cmd :: 'p rule_match option) rules)
     = pr_decision ` {r \<in> set rules. covers r cmd}" (is "?L = ?R")
proof (intro set_eqI iffI)
  fix d assume "d \<in> ?L"
  then obtain r and m :: "'p rule_match" where "r \<in> set rules" "rule_matches r cmd = Some m" "d = rule_decision m"
    by (auto simp: set_map_filter)
  then show "d \<in> ?R"
    using rule_matches_covers rule_matches_decision by fastforce
next
  fix d assume "d \<in> ?R"
  then obtain r where r: "r \<in> set rules" "covers r cmd" "d = pr_decision r" by auto
  then obtain m :: "'p rule_match" where "rule_matches r cmd = Some m"
    using rule_matches_covers by fastforce
  with r show "d \<in> ?L"
    by (auto simp: set_map_filter intro!: rev_image_eqI [of m] dest: rule_matches_decision)
qed

lemma governing_finite [simp]: "finite (governing p cmd)"
  by (simp add: governing_def all_rules_def)

abbreviation exact_matches :: "'p policy \<Rightarrow> rstr list \<Rightarrow> 'p rule_match list" where
  "exact_matches p cmd \<equiv> (case match_exact_rules p cmd of None \<Rightarrow> [] | Some ms \<Rightarrow> ms)"

lemma exact_matches_eq:
  "exact_matches p cmd =
     (if cmd = [] then [] else List.map_filter (\<lambda>r. rule_matches r cmd) (mm_rules (rules_by_program p) (hd cmd)))"
  by (cases cmd)
    (auto simp: match_exact_rules_def mm_rules_def List.map_filter_simps split: option.splits)

lemma exact_matches_decisions:
  assumes "policy_wf p"
  shows "rule_decision ` set (exact_matches p cmd) = pr_decision ` governing p cmd"
proof (cases "cmd = []")
  case True
  then have "governing p cmd = {}" by (auto simp: governing_def dest: covers_program)
  with True show ?thesis by (simp add: exact_matches_eq)
next
  case False
  then show ?thesis
    by (simp only: exact_matches_eq if_False decisions_map_filter indexed_governing [OF assms])
qed

lemma host_matches_decisions:
  assumes "policy_wf p"
  shows "rule_decision ` set (match_host_executable_rules pf p cmd)
    = (case host_command pf p cmd of None \<Rightarrow> {} | Some c \<Rightarrow> pr_decision ` governing p c)"
proof (cases "host_command pf p cmd")
  case None
  then have "match_host_executable_rules pf p cmd = []"
    by (auto simp: host_command_def match_host_executable_rules_def list_ex_iff
        split: list.splits result.splits option.splits if_splits)
  with None show ?thesis by simp
next
  case (Some c)
  then obtain first args program basename where c: "cmd = first # args"
      "absolute_path_try_from pf first = Ok program"
      "executable_path_lookup_key pf program = Some basename" "c = basename # args"
      "host_executables_by_name p basename = None
        \<or> program \<in> set (the (host_executables_by_name p basename))"
    by (auto simp: host_command_def split: list.splits result.splits option.splits if_splits)
  have "match_host_executable_rules pf p cmd = map (\<lambda>m. with_resolved_program m program)
      (List.map_filter (\<lambda>r. rule_matches r c) (mm_rules (rules_by_program p) (hd c)))"
    using c by (auto simp: match_host_executable_rules_def mm_rules_def list_ex_iff
        List.map_filter_simps split: option.splits)
  then have "rule_decision ` set (match_host_executable_rules pf p cmd)
      = rule_decision ` set (List.map_filter (\<lambda>r. rule_matches r c :: 'a rule_match option) (mm_rules (rules_by_program p) (hd c)))"
    by (simp add: image_image)
  with Some show ?thesis
    by (simp only: decisions_map_filter indexed_governing [OF assms] option.simps)
qed

lemma image_eq_empty_set: "f ` set xs = g ` A \<Longrightarrow> xs = [] \<longleftrightarrow> A = {}"
  by auto

text \<open>The decisions of the matches of a command, and their maximum.\<close>

lemma matches_decisions:
  assumes "policy_wf p"
  shows "matches_for_command_with_options pf p cmd (Some fb) options \<noteq> []
    \<and> Max (rule_decision ` set (matches_for_command_with_options pf p cmd (Some fb) options))
        = policy_decision pf p fb options cmd"
proof -
  let ?e = "exact_matches p cmd" and ?h = "match_host_executable_rules pf p cmd"
  note e = exact_matches_decisions [OF assms, of cmd]
  note h = host_matches_decisions [OF assms, of pf cmd]
  note e' = image_eq_empty_set [OF e]
  consider (exact) "?e \<noteq> []" | (host) "?e = []" "resolve_host_executables options" "?h \<noteq> []"
    | (none) "?e = []" "\<not> resolve_host_executables options \<or> ?h = []" by blast
  then show ?thesis
  proof cases
    case exact
    then have m: "matches_for_command_with_options pf p cmd (Some fb) options = ?e"
      by (simp add: matches_for_command_with_options_def Let_def)
    from exact e' have "governing p cmd \<noteq> {}" by blast
    then show ?thesis
      unfolding m e using exact by (simp add: policy_decision_def strictest_def)
  next
    case host
    then have m: "matches_for_command_with_options pf p cmd (Some fb) options = ?h"
      by (simp add: matches_for_command_with_options_def Let_def)
    from host h obtain c where c: "host_command pf p cmd = Some c" by (cases "host_command pf p cmd") auto
    with h host have g: "governing p c \<noteq> {}" by auto
    from host e' have "governing p cmd = {}" by blast
    then show ?thesis
      unfolding m h using host c g by (simp add: policy_decision_def strictest_def)
  next
    case none
    then have m: "matches_for_command_with_options pf p cmd (Some fb) options
        = [HeuristicsRuleMatch cmd (fb cmd)]"
      by (auto simp: matches_for_command_with_options_def Let_def)
    from none e' have g: "governing p cmd = {}" by blast
    have "policy_decision pf p fb options cmd = fb cmd"
    proof (cases "resolve_host_executables options \<and> host_command pf p cmd \<noteq> None")
      case True
      with none have "?h = []" by simp
      with True h show ?thesis by (auto simp: policy_decision_def strictest_def g)
    next
      case False
      then show ?thesis
        by (auto simp: policy_decision_def strictest_def g split: bool.splits option.splits)
    qed
    with m show ?thesis by simp
  qed
qed

lemma from_matches_Max:
  "map_option ev_decision (from_matches ms) =
     (if ms = [] then None else Some (Max (rule_decision ` set ms)))"
  by (simp add: from_matches_def iter_max_Max)

lemma check_with_options_decision_aux:
  assumes "policy_wf p"
  shows "map_option ev_decision (check_with_options pf p cmd fallback options)
    = Some (policy_decision pf p fallback options cmd)"
  using matches_decisions [OF assms] by (simp add: check_with_options_def from_matches_Max)

section \<open>Evaluation\<close>

text \<open>
  C6: a command is judged by the strictest rule whose pattern it starts with; when
  no rule covers it and host executables are resolved, by the strictest rule for
  its base name, provided the policy admits that path; otherwise by the fallback.
  The evaluation always has a decision (the \<^verbatim>\<open>expect\<close> on an empty list of matches
  cannot fail).
\<close>

theorem check_with_options_decision:
  assumes "policy_wf p"
  shows "map_option ev_decision (check_with_options pf p cmd fallback options)
    = Some (policy_decision pf p fallback options cmd)"
  by (rule check_with_options_decision_aux [OF assms])

text \<open>A policy for the examples: git may run, pushing is forbidden, curl asks.\<close>

definition sample_policy :: "rstr policy" where
  "sample_policy = from_parts
     [(rs ''git'', [single_rule (rs ''git'') [] Allow, single_rule (rs ''git'') [rs ''push''] Forbidden]),
      (rs ''curl'', [single_rule (rs ''curl'') [] Prompt])]
     [\<lparr>nr_host = rs ''a.com'', nr_protocol = Https, nr_decision = Allow, nr_justification = None\<rparr>,
      \<lparr>nr_host = rs ''b.com'', nr_protocol = Https, nr_decision = Forbidden, nr_justification = None\<rparr>,
      \<lparr>nr_host = rs ''a.com'', nr_protocol = Https, nr_decision = Forbidden, nr_justification = None\<rparr>]
     [rs ''git'' \<mapsto> [rs ''/usr/bin/git'']]"

lemma sample_policy_wf: "policy_wf sample_policy"
  unfolding policy_wf_def sample_policy_def rule_map_wf_def normal_host_def by code_simp

theorem check_with_options_decision_witness:
  "map_option ev_decision (check_with_options unix_platform sample_policy
       [rs ''/usr/bin/git'', rs ''push'', rs ''origin''] (\<lambda>_. Prompt) \<lparr>resolve_host_executables = True\<rparr>)
     = Some Forbidden
   \<and> policy_decision unix_platform sample_policy (\<lambda>_. Prompt) \<lparr>resolve_host_executables = True\<rparr>
       [rs ''/usr/bin/git'', rs ''push'', rs ''origin''] = Forbidden"
proof -
  have "map_option ev_decision (check_with_options unix_platform sample_policy
       [rs ''/usr/bin/git'', rs ''push'', rs ''origin''] (\<lambda>_. Prompt) \<lparr>resolve_host_executables = True\<rparr>)
     = Some Forbidden"
    unfolding sample_policy_def by code_simp
  then show ?thesis
    using check_with_options_decision [OF sample_policy_wf, of unix_platform
        "[rs ''/usr/bin/git'', rs ''push'', rs ''origin'']" "\<lambda>_. Prompt" "\<lparr>resolve_host_executables = True\<rparr>"]
    by simp
qed

lemma Max_UN:
  assumes "finite A" "A \<noteq> {}" "\<And>x. x \<in> A \<Longrightarrow> finite (f x) \<and> f x \<noteq> {}"
  shows "Max (\<Union>x \<in> A. f x) = Max ((\<lambda>x. Max (f x)) ` A)"
proof (rule Max_eqI)
  show "finite (\<Union>x \<in> A. f x)" using assms by auto
  fix y assume "y \<in> (\<Union>x \<in> A. f x)"
  then obtain x where x: "x \<in> A" "y \<in> f x" by auto
  then have "y \<le> Max (f x)" using assms by simp
  also have "\<dots> \<le> Max ((\<lambda>x. Max (f x)) ` A)" using x assms by simp
  finally show "y \<le> Max ((\<lambda>x. Max (f x)) ` A)" .
next
  have "Max ((\<lambda>x. Max (f x)) ` A) \<in> (\<lambda>x. Max (f x)) ` A" using assms by simp
  then obtain x where "x \<in> A" "Max ((\<lambda>x. Max (f x)) ` A) = Max (f x)" by auto
  then show "Max ((\<lambda>x. Max (f x)) ` A) \<in> (\<Union>x \<in> A. f x)"
    using assms(3) Max_in by fastforce
qed

lemma check_multiple_decision_aux:
  assumes "policy_wf p"
  shows "map_option ev_decision (check_multiple_with_options pf p cmds fallback options)
    = (if cmds = [] then None else Some (Max (policy_decision pf p fallback options ` set cmds)))"
proof (cases "cmds = []")
  case True
  then show ?thesis by (simp add: check_multiple_with_options_def from_matches_def)
next
  case False
  let ?m = "\<lambda>cmd. matches_for_command_with_options pf p cmd (Some fallback) options"
  have ne: "concat (map ?m cmds) \<noteq> []"
    using False matches_decisions [OF assms] by (cases cmds) auto
  have "Max (\<Union>cmd \<in> set cmds. rule_decision ` set (?m cmd))
      = Max ((\<lambda>cmd. Max (rule_decision ` set (?m cmd))) ` set cmds)"
    using False matches_decisions [OF assms]
    by (intro Max_UN) auto
  then show ?thesis
    using False ne matches_decisions [OF assms]
    by (simp add: check_multiple_with_options_def from_matches_Max image_UN)
qed

text \<open>
  A list of commands is judged by the strictest decision of its members, and
  only an empty list has no decision (the code panics on it).
\<close>

theorem check_multiple_decision:
  assumes "policy_wf p"
  shows "map_option ev_decision (check_multiple_with_options pf p cmds fallback options)
    = (if cmds = [] then None else Some (Max (policy_decision pf p fallback options ` set cmds)))"
  by (rule check_multiple_decision_aux [OF assms])

theorem check_multiple_decision_witness:
  "map_option ev_decision (check_multiple_with_options unix_platform sample_policy
       [[rs ''git'', rs ''status''], [rs ''curl'']] (\<lambda>_. Allow) default_options)
     = Some (Max (policy_decision unix_platform sample_policy (\<lambda>_. Allow) default_options
          ` set [[rs ''git'', rs ''status''], [rs ''curl'']]))"
  using check_multiple_decision [OF sample_policy_wf, of unix_platform
      "[[rs ''git'', rs ''status''], [rs ''curl'']]" "\<lambda>_. Allow" default_options]
  by (simp only: list.distinct if_False)

section \<open>Operations on policies\<close>

lemma mm_insert_keys: "fst ` set (mm_insert k v m) = insert k (fst ` set m)"
proof (induction m)
  case (Cons kv m)
  then show ?case by (cases kv) (simp add: insert_commute)
qed simp

lemma mm_insert_values: "set (concat (map snd (mm_insert k v m))) = insert v (set (concat (map snd m)))"
proof (induction m)
  case (Cons kv m)
  obtain k' vs where kv: "kv = (k', vs)" by (cases kv)
  show ?case
  proof (cases "k = k'")
    case False
    then have "set (concat (map snd (mm_insert k v (kv # m))))
        = set vs \<union> set (concat (map snd (mm_insert k v m)))" by (simp add: kv)
    also have "\<dots> = insert v (set (concat (map snd (kv # m))))" unfolding Cons by (simp add: kv)
    finally show ?thesis .
  qed (simp add: kv)
qed simp

lemma rule_map_wf_Cons:
  "rule_map_wf ((k, vs) # m) \<longleftrightarrow> k \<notin> fst ` set m \<and> (\<forall>r \<in> set vs. rule_program r = k) \<and> rule_map_wf m"
  by (auto simp: rule_map_wf_def)

lemma rule_map_wf_insert:
  "rule_map_wf m \<Longrightarrow> rule_program v = k \<Longrightarrow> rule_map_wf (mm_insert k v m)"
proof (induction m)
  case Nil
  then show ?case by (simp add: rule_map_wf_def)
next
  case (Cons kv m)
  then show ?case
    by (cases kv) (auto simp: rule_map_wf_Cons mm_insert_keys)
qed

lemma rule_map_wf_insert_all:
  "rule_map_wf m \<Longrightarrow> \<forall>(k, v) \<in> set kvs. rule_program v = k
     \<Longrightarrow> rule_map_wf (fold (\<lambda>(k, v). mm_insert k v) kvs m)"
  by (induction kvs arbitrary: m) (auto intro: rule_map_wf_insert)

lemma insert_all_values:
  "set (concat (map snd (fold (\<lambda>(k, v). mm_insert k v) kvs m))) = set (concat (map snd m)) \<union> snd ` set kvs"
proof (induction kvs arbitrary: m)
  case Nil
  then show ?case by simp
next
  case (Cons kv kvs)
  obtain k v where "kv = (k, v)" by (cases kv)
  with Cons show ?case by (simp only: fold_simps prod.case mm_insert_values) auto
qed

lemma iter_all_pairs_wf: "rule_map_wf m \<Longrightarrow> \<forall>(k, v) \<in> set (iter_all_pairs m). rule_program v = k"
  by (auto simp: iter_all_pairs_def dest: rule_map_wfD)

lemma iter_all_pairs_values: "snd ` set (iter_all_pairs m) = set (concat (map snd m))"
  by (force simp: iter_all_pairs_def)

lemma merge_overlay_rules: "all_rules (merge_overlay p q) = all_rules p \<union> all_rules q"
  by (simp only: all_rules_def merge_overlay_def from_parts_def policy.simps insert_all_values
      iter_all_pairs_values)

lemma merge_overlay_governing: "governing (merge_overlay p q) cmd = governing p cmd \<union> governing q cmd"
  by (auto simp: governing_def merge_overlay_rules)

lemma merge_overlay_wf: "policy_wf p \<Longrightarrow> policy_wf q \<Longrightarrow> policy_wf (merge_overlay p q)"
  by (auto simp: policy_wf_def merge_overlay_def from_parts_def
      intro!: rule_map_wf_insert_all iter_all_pairs_wf)

lemma single_rule_program [simp]: "rule_program (single_rule f rest d) = f"
  by (simp add: single_rule_def rule_program_def)

lemma list_all2_singletons: "list_all2 (\<lambda>w ws. w \<in> set ws) pre (map (\<lambda>w. [w]) xs) \<longleftrightarrow> pre = xs"
  by (induction xs arbitrary: pre) (auto simp: list_all2_Cons2)

lemma single_rule_covers [simp]: "covers (single_rule f rest d) cmd \<longleftrightarrow> prefix (f # rest) cmd"
proof -
  have "pattern_words (rule_pattern (single_rule f rest d)) = map (\<lambda>w. [w]) (f # rest)"
    by (simp add: pattern_words_def single_rule_def)
  then show ?thesis by (simp only: covers_def list_all2_singletons) auto
qed

lemma add_prefix_rule_Ok:
  "add_prefix_rule p pre d = Ok p' \<longleftrightarrow>
     (\<exists>f rest. pre = f # rest \<and>
        p' = p\<lparr>rules_by_program := mm_insert f (single_rule f rest d) (rules_by_program p)\<rparr>)"
  by (cases pre) auto

lemma add_prefix_rule_wf: "policy_wf p \<Longrightarrow> add_prefix_rule p pre d = Ok p' \<Longrightarrow> policy_wf p'"
  by (auto simp: policy_wf_def add_prefix_rule_Ok intro!: rule_map_wf_insert)

lemma add_prefix_rule_governing:
  assumes "add_prefix_rule p pre d = Ok p'"
  shows "governing p' cmd =
    (if prefix pre cmd then insert (single_rule (hd pre) (tl pre) d) (governing p cmd) else governing p cmd)"
proof -
  from assms obtain f rest where f: "pre = f # rest"
      "p' = p\<lparr>rules_by_program := mm_insert f (single_rule f rest d) (rules_by_program p)\<rparr>"
    by (auto simp: add_prefix_rule_Ok)
  then have "all_rules p' = insert (single_rule f rest d) (all_rules p)"
    using mm_insert_values [of f "single_rule f rest d" "rules_by_program p"] by (simp add: all_rules_def)
  with f show ?thesis by (auto simp: governing_def)
qed

lemma strictest_mono: "R \<noteq> {} \<Longrightarrow> R \<subseteq> S \<Longrightarrow> finite S \<Longrightarrow> strictest R d \<le> strictest S d'"
  by (auto simp: strictest_def intro!: Max_mono)

lemma check_decision:
  assumes "policy_wf p"
  shows "map_option ev_decision (check pf p cmd fallback) = Some (strictest (governing p cmd) (fallback cmd))"
proof -
  have "check pf p cmd fallback = check_with_options pf p cmd fallback default_options"
    by (simp add: check_def check_with_options_def)
  show ?thesis
    unfolding \<open>check pf p cmd fallback = _\<close> check_with_options_decision_aux [OF assms]
    by (simp add: policy_decision_def default_options_def)
qed



text \<open>
  Adding a prefix rule affects exactly the commands that start with the prefix:
  they become at least as strict as the new rule says (and exactly that strict when
  no rule covered them), all others keep their decision.
\<close>

theorem add_prefix_rule_effect:
  assumes "policy_wf p" "add_prefix_rule p pre d = Ok p'"
  shows "map_option ev_decision (check pf p' cmd fallback)
    = (if prefix pre cmd
       then Some (if governing p cmd = {} then d else max d (strictest (governing p cmd) d))
       else map_option ev_decision (check pf p cmd fallback))"
proof -
  have "strictest (insert (single_rule f rest d) R) x = (if R = {} then d else max d (strictest R d))"
    if "finite R" for f rest R x
    using that by (auto simp: strictest_def single_rule_def)
  then show ?thesis
    unfolding check_decision [OF assms(1)] check_decision [OF add_prefix_rule_wf [OF assms]]
      add_prefix_rule_governing [OF assms(2)]
    by simp
qed

theorem add_prefix_rule_effect_witness:
  "\<exists>p'. add_prefix_rule sample_policy [rs ''ls'', rs ''-l''] Allow = (Ok p' :: (unit policy_error, rstr policy) result)
    \<and> map_option ev_decision (check unix_platform p' [rs ''ls'', rs ''-l'', rs ''x''] (\<lambda>_. Prompt))
       = Some (if governing sample_policy [rs ''ls'', rs ''-l'', rs ''x''] = {} then Allow
               else max Allow (strictest (governing sample_policy [rs ''ls'', rs ''-l'', rs ''x'']) Allow))"
proof -
  obtain p' where p: "add_prefix_rule sample_policy [rs ''ls'', rs ''-l''] Allow
      = (Ok p' :: (unit policy_error, rstr policy) result)" by simp
  show ?thesis
    using p add_prefix_rule_effect [OF sample_policy_wf p, of unix_platform
        "[rs ''ls'', rs ''-l'', rs ''x'']" "\<lambda>_. Prompt"] by simp
qed

section \<open>Network rules and hosts\<close>

lemma to_ascii_lower_facts [simp]:
  "to_ascii_lower (to_ascii_lower c) = to_ascii_lower c"
  "is_whitespace (to_ascii_lower c) = is_whitespace c"
  by (auto simp: to_ascii_lower_def is_whitespace_def)

lemma to_ascii_lower_punct:
  "c < 65 \<Longrightarrow> to_ascii_lower d = c \<longleftrightarrow> d = c"
  by (auto simp: to_ascii_lower_def)

lemma set_trim: "set (trim s) \<subseteq> set s"
  by (auto simp: trim_def trim_end_def trim_start_def dest!: set_dropWhileD)

lemma set_trim_end_matches: "set (trim_end_matches c s) \<subseteq> set s"
  by (auto simp: trim_end_matches_def dest!: set_dropWhileD)

lemma strip_host_port_subset: "strip_host_port raw host = Ok h \<Longrightarrow> set h \<subseteq> set host"
  by (auto simp: strip_host_port_def Let_def strip_prefix_Some
      split: option.splits prod.splits if_splits
      dest!: split_once_Some rsplit_once_Some)

lemma normalize_host_normal:
  assumes "normalize_network_rule_host raw = (Ok h :: ('se policy_error, rstr) result)"
  shows "normal_host h"
proof -
  from assms obtain host where host: "strip_host_port raw (trim raw) = (Ok host :: ('se policy_error, rstr) result)"
      "h = to_ascii_lowercase (trim (trim_end_matches 46 host))" "h \<noteq> []" "42 \<notin> set h"
      "\<not> list_ex is_whitespace h" "47 \<notin> set (trim raw)" "63 \<notin> set (trim raw)" "35 \<notin> set (trim raw)"
    by (auto simp: normalize_network_rule_host_def Let_def bind_result_eq split: if_splits)
  have "set (trim (trim_end_matches 46 host)) \<subseteq> set (trim raw)"
    using strip_host_port_subset [OF host(1)] set_trim set_trim_end_matches by blast
  with host show ?thesis
    by (auto simp: normal_host_def to_ascii_lowercase_def to_ascii_lower_punct)
qed

lemma add_network_rule_wf: "policy_wf p \<Longrightarrow> add_network_rule p host proto d j = Ok p' \<Longrightarrow> policy_wf p'"
  by (auto simp: policy_wf_def add_network_rule_def bind_result_eq normalize_host_normal split: if_splits)

lemma set_host_executable_paths_wf: "policy_wf p \<Longrightarrow> policy_wf (set_host_executable_paths p name paths)"
  by (simp add: policy_wf_def set_host_executable_paths_def)

text \<open>The policies the operations can build.\<close>

inductive policy_built :: "'p policy \<Rightarrow> bool" where
  built_empty: "policy_built policy_empty"
| built_prefix: "policy_built p \<Longrightarrow> add_prefix_rule p pre d = (Ok p' :: (unit policy_error, 'p policy) result) \<Longrightarrow> policy_built p'"
| built_network: "policy_built p \<Longrightarrow>
    add_network_rule p host proto d j = (Ok p' :: (unit policy_error, 'p policy) result) \<Longrightarrow> policy_built p'"
| built_host: "policy_built p \<Longrightarrow> policy_built (set_host_executable_paths p name paths)"
| built_merge: "policy_built p \<Longrightarrow> policy_built q \<Longrightarrow> policy_built (merge_overlay p q)"

text \<open>
  Every policy built by the operations is well formed: rules are filed under
  their program and every network rule has a normalised host (not empty, lower
  case, without blanks, wildcards, path, query or fragment characters).
\<close>

theorem policy_built_wf: "policy_built p \<Longrightarrow> policy_wf p"
proof (induction rule: policy_built.induct)
  case built_empty
  show ?case by (simp add: policy_wf_def policy_empty_def policy_new_def from_parts_def rule_map_wf_def)
qed (blast intro: add_prefix_rule_wf add_network_rule_wf set_host_executable_paths_wf merge_overlay_wf)+

theorem policy_built_wf_witness:
  "\<exists>p :: rstr policy. add_network_rule policy_empty (rs ''API.github.com:443'') Https Allow None
      = (Ok p :: (unit policy_error, rstr policy) result)
    \<and> map nr_host (network_rules p) = [rs ''api.github.com''] \<and> policy_wf p"
proof -
  let ?n = "\<lparr>nr_host = rs ''api.github.com'', nr_protocol = Https, nr_decision = Allow, nr_justification = None\<rparr>"
  let ?p = "policy_empty\<lparr>network_rules := [?n]\<rparr> :: rstr policy"
  have n: "normalize_network_rule_host (rs ''API.github.com:443'')
      = (Ok (rs ''api.github.com'') :: (unit policy_error, rstr) result)" by code_simp
  have p: "add_network_rule policy_empty (rs ''API.github.com:443'') Https Allow None
      = (Ok ?p :: (unit policy_error, rstr policy) result)"
    by (simp add: add_network_rule_def n blank_justification_def policy_empty_def policy_new_def from_parts_def)
  from policy_built_wf [OF built_network [OF built_empty p]] p show ?thesis by simp
qed

lemma compile_step:
  assumes "compile_network_rule r (a, b) = (a', b')" "distinct a" "distinct b" "set a \<inter> set b = {}"
  shows "distinct a' \<and> distinct b' \<and> set a' \<inter> set b' = {}
    \<and> set a' = (case nr_decision r of Allow \<Rightarrow> insert (nr_host r) (set a)
        | Forbidden \<Rightarrow> set a - {nr_host r} | Prompt \<Rightarrow> set a)
    \<and> set b' = (case nr_decision r of Allow \<Rightarrow> set b - {nr_host r}
        | Forbidden \<Rightarrow> insert (nr_host r) (set b) | Prompt \<Rightarrow> set b)"
  using assms by (cases "nr_decision r") (auto simp: upsert_domain_def)

text \<open>The decision of the last rule for a host that is not a prompt.\<close>

fun last_decision :: "network_rule list \<Rightarrow> rstr \<Rightarrow> decision option" where
  "last_decision [] h = None"
| "last_decision (r # rules) h =
     (case last_decision rules h of
        Some d \<Rightarrow> Some d
      | None \<Rightarrow> if nr_host r = h \<and> nr_decision r \<noteq> Prompt then Some (nr_decision r) else None)"

lemma last_decision_not_Prompt: "last_decision rules h \<noteq> Some Prompt"
  by (induction rules) (auto split: option.splits)

lemma compile_all:
  assumes "fold compile_network_rule rules (a, b) = (a', b')" "distinct a" "distinct b" "set a \<inter> set b = {}"
  shows "distinct a' \<and> distinct b' \<and> set a' \<inter> set b' = {}
    \<and> (h \<in> set a' \<longleftrightarrow> (case last_decision rules h of None \<Rightarrow> h \<in> set a | Some d \<Rightarrow> d = Allow))
    \<and> (h \<in> set b' \<longleftrightarrow> (case last_decision rules h of None \<Rightarrow> h \<in> set b | Some d \<Rightarrow> d = Forbidden))"
  using assms
proof (induction rules arbitrary: a b)
  case Nil
  then show ?case by auto
next
  case (Cons r rules)
  obtain a1 b1 where s: "compile_network_rule r (a, b) = (a1, b1)" by (cases "compile_network_rule r (a, b)")
  note st = compile_step [OF s Cons.prems(2-4)]
  from Cons.prems(1) s have f: "fold compile_network_rule rules (a1, b1) = (a', b')" by simp
  from st have "distinct a1" "distinct b1" "set a1 \<inter> set b1 = {}" by blast+
  note IH = Cons.IH [OF f this]
  show ?case
  proof (cases "last_decision rules h")
    case None
    with IH st show ?thesis by (cases "nr_decision r") auto
  next
    case (Some d)
    with IH show ?thesis by simp
  qed
qed

text \<open>
  The compiled domain lists are free of duplicates, disjoint, and hold exactly the
  hosts whose last rule other than a prompt allows (respectively forbids) them.
\<close>

theorem compiled_network_domains_last:
  "distinct (fst (compiled_network_domains p)) \<and> distinct (snd (compiled_network_domains p))
   \<and> set (fst (compiled_network_domains p)) = {h. last_decision (network_rules p) h = Some Allow}
   \<and> set (snd (compiled_network_domains p)) = {h. last_decision (network_rules p) h = Some Forbidden}"
proof -
  obtain a b where c: "fold compile_network_rule (network_rules p) ([], []) = (a, b)"
    by (cases "fold compile_network_rule (network_rules p) ([], [])")
  from compile_all [OF c] show ?thesis
    by (auto simp: compiled_network_domains_def c split: option.splits)
qed

lemma distinct_remdups_adj: "sorted xs \<Longrightarrow> distinct (remdups_adj xs)" for xs :: "'a::linorder list"
proof (induction xs rule: remdups_adj.induct)
  case (3 x y xs)
  then show ?case by (auto simp: order.antisym)
qed auto

text \<open>
  The allowed prefixes are listed in order, without repetition, and are exactly the
  rendered patterns of the rules that allow.
\<close>

lemma get_allowed_prefixes_spec:
  "sorted (get_allowed_prefixes p) \<and> distinct (get_allowed_prefixes p)
   \<and> set (get_allowed_prefixes p) = rendered_prefix ` {r \<in> all_rules p. pr_decision r = Allow}"
proof -
  have "set (get_allowed_prefixes p) = rendered_prefix ` {r \<in> all_rules p. pr_decision r = Allow}"
    by (force simp: get_allowed_prefixes_def all_rules_def)
  then show ?thesis
    by (simp add: get_allowed_prefixes_def distinct_remdups_adj)
qed

end
