(* ===== verification/Policy_Parser.thy ===== *)
theory Policy_Parser
  imports Policy_Facts
begin

text \<open>
  Building a policy from a rules file (\<^verbatim>\<open>execpolicy/src/parser.rs\<close>, with the
  example checks of \<^verbatim>\<open>rule.rs\<close>).

  Rules files are Starlark programs that call \<^verbatim>\<open>prefix_rule\<close>, \<^verbatim>\<open>network_rule\<close> and
  \<^verbatim>\<open>host_executable\<close>. The Starlark parser and interpreter are parameters
  (\<open>ast_parse\<close>, \<open>eval_module\<close>), as are the views of a Starlark value (\<open>starlark_ops\<close>), the
  shell-word functions of the shlex crate, the derived debug output
  (\<open>render_ops\<close>). The interpreter can
  change the builder only through the three builtins: \<open>builder_steps\<close>.
\<close>

section \<open>Values and rendering supplied by other crates\<close>

record 'v starlark_ops =
  unpack_str :: "'v \<Rightarrow> rstr option"
  list_content :: "'v \<Rightarrow> 'v list option"
  get_type :: "'v \<Rightarrow> rstr"

record 'p render_ops =
  debug_rule :: "prefix_rule \<Rightarrow> rstr"
  debug_match :: "'p rule_match \<Rightarrow> rstr"
  try_join :: "rstr list \<Rightarrow> rstr option"
  shlex_split :: "rstr \<Rightarrow> rstr list option"

section \<open>Example validation\<close>

definition render_example :: "'p render_ops \<Rightarrow> rstr list \<Rightarrow> rstr" where
  "render_example ro example =
     (case try_join ro example of Some s \<Rightarrow> s | None \<Rightarrow> rs ''unable to render example'')"

definition validate_match_examples ::
  "'p platform \<Rightarrow> 'p render_ops \<Rightarrow> 'p policy \<Rightarrow> prefix_rule list \<Rightarrow> rstr list list
     \<Rightarrow> ('se policy_error, unit) result" where
  "validate_match_examples pf ro p rules examples =
     (let unmatched_examples =
            map (render_example ro)
              (filter (\<lambda>example. matches_for_command_with_options pf p example None
                         \<lparr>resolve_host_executables = True\<rparr> = []) examples)
      in if unmatched_examples = [] then Ok ()
         else Err (ExampleDidNotMatch (map (debug_rule ro) rules) unmatched_examples None))"

fun validate_not_match_examples ::
  "'p platform \<Rightarrow> 'p render_ops \<Rightarrow> 'p policy \<Rightarrow> prefix_rule list \<Rightarrow> rstr list list
     \<Rightarrow> ('se policy_error, unit) result" where
  "validate_not_match_examples pf ro p rules [] = Ok ()"
| "validate_not_match_examples pf ro p rules (example # examples) =
     (case matches_for_command_with_options pf p example None \<lparr>resolve_host_executables = True\<rparr> of
        m # _ \<Rightarrow> Err (ExampleDidMatch (debug_match ro m) (render_example ro example) None)
      | [] \<Rightarrow> validate_not_match_examples pf ro p rules examples)"

section \<open>The policy builder\<close>

record pending_example_validation =
  pv_rules :: "prefix_rule list"
  pv_matches :: "rstr list list"
  pv_not_matches :: "rstr list list"
  pv_location :: "error_location option"

record 'p policy_builder =
  b_rules_by_program :: rule_map
  b_network_rules :: "network_rule list"
  b_host_executables_by_name :: "rstr \<rightharpoonup> 'p list"
  pending_example_validations :: "pending_example_validation list"

definition builder_new :: "'p policy_builder" where
  "builder_new = \<lparr>b_rules_by_program = [], b_network_rules = [],
     b_host_executables_by_name = Map.empty, pending_example_validations = []\<rparr>"

definition builder_add_rule :: "prefix_rule \<Rightarrow> 'p policy_builder \<Rightarrow> 'p policy_builder" where
  "builder_add_rule r b =
     b\<lparr>b_rules_by_program := mm_insert (rule_program r) r (b_rules_by_program b)\<rparr>"

definition builder_add_network_rule :: "network_rule \<Rightarrow> 'p policy_builder \<Rightarrow> 'p policy_builder" where
  "builder_add_network_rule r b = b\<lparr>b_network_rules := b_network_rules b @ [r]\<rparr>"

definition builder_add_host_executable :: "rstr \<Rightarrow> 'p list \<Rightarrow> 'p policy_builder \<Rightarrow> 'p policy_builder" where
  "builder_add_host_executable name paths b =
     b\<lparr>b_host_executables_by_name := (b_host_executables_by_name b)(name \<mapsto> paths)\<rparr>"

definition add_pending_example_validation ::
  "prefix_rule list \<Rightarrow> rstr list list \<Rightarrow> rstr list list \<Rightarrow> error_location option
     \<Rightarrow> 'p policy_builder \<Rightarrow> 'p policy_builder" where
  "add_pending_example_validation rules matches not_matches location b =
     b\<lparr>pending_example_validations := pending_example_validations b @
        [\<lparr>pv_rules = rules, pv_matches = matches, pv_not_matches = not_matches,
          pv_location = location\<rparr>]\<rparr>"

definition attach_validation_location ::
  "'se policy_error \<Rightarrow> error_location option \<Rightarrow> 'se policy_error" where
  "attach_validation_location error location =
     (case location of Some loc \<Rightarrow> with_location error loc | None \<Rightarrow> error)"

definition validation_policy :: "(rstr \<rightharpoonup> 'p list) \<Rightarrow> prefix_rule list \<Rightarrow> 'p policy" where
  "validation_policy hosts rules =
     from_parts (fold (\<lambda>r. mm_insert (rule_program r) r) rules []) [] hosts"

fun validate_pending ::
  "'p platform \<Rightarrow> 'p render_ops \<Rightarrow> (rstr \<rightharpoonup> 'p list) \<Rightarrow> pending_example_validation list
     \<Rightarrow> ('se policy_error, unit) result" where
  "validate_pending pf ro hosts [] = Ok ()"
| "validate_pending pf ro hosts (v # vs) =
     (let p = validation_policy hosts (pv_rules v);
          attach = result_map_err (\<lambda>e. attach_validation_location e (pv_location v)) in
      bind_result (attach (validate_not_match_examples pf ro p (pv_rules v) (pv_not_matches v))) (\<lambda>_.
      bind_result (attach (validate_match_examples pf ro p (pv_rules v) (pv_matches v))) (\<lambda>_.
      validate_pending pf ro hosts vs)))"

text \<open>
  \<^verbatim>\<open>validate_pending_examples_from(start)\<close>; the caller passes a length the list had
  before, and the list only grows, so the slice is in range.
\<close>

definition validate_pending_examples_from ::
  "'p platform \<Rightarrow> 'p render_ops \<Rightarrow> 'p policy_builder \<Rightarrow> nat \<Rightarrow> ('se policy_error, unit) result" where
  "validate_pending_examples_from pf ro b start =
     validate_pending pf ro (b_host_executables_by_name b) (drop start (pending_example_validations b))"

definition build :: "'p policy_builder \<Rightarrow> 'p policy" where
  "build b = from_parts (b_rules_by_program b) (b_network_rules b) (b_host_executables_by_name b)"

section \<open>Parsing the arguments of the builtins\<close>

definition parse_pattern_token :: "'v starlark_ops \<Rightarrow> 'v \<Rightarrow> ('se policy_error, pattern_token) result" where
  "parse_pattern_token so v =
     (case unpack_str so v of
        Some s \<Rightarrow> Ok (Single s)
      | None \<Rightarrow>
     (case list_content so v of
        Some items \<Rightarrow>
          bind_result (collect_results (\<lambda>v. case unpack_str so v of
              Some s \<Rightarrow> Ok s
            | None \<Rightarrow> Err (InvalidPattern (rs ''pattern alternative must be a string (got '' @ get_type so v @ rs '')''))) items)
            (\<lambda>tokens. case tokens of
                [] \<Rightarrow> Err (InvalidPattern (rs ''pattern alternatives cannot be empty''))
              | [single] \<Rightarrow> Ok (Single single)
              | _ \<Rightarrow> Ok (Alts tokens))
      | None \<Rightarrow>
          Err (InvalidPattern (rs ''pattern element must be a string or list of strings (got '' @ get_type so v @ rs '')''))))"

definition parse_pattern :: "'v starlark_ops \<Rightarrow> 'v list \<Rightarrow> ('se policy_error, pattern_token list) result" where
  "parse_pattern so items =
     bind_result (collect_results (parse_pattern_token so) items) (\<lambda>tokens.
       if tokens = [] then Err (InvalidPattern (rs ''pattern cannot be empty'')) else Ok tokens)"

definition parse_string_example :: "'p render_ops \<Rightarrow> rstr \<Rightarrow> ('se policy_error, rstr list) result" where
  "parse_string_example ro raw =
     (case shlex_split ro raw of
        None \<Rightarrow> Err (InvalidExample (rs ''example string has invalid shell syntax''))
      | Some tokens \<Rightarrow>
          if tokens = [] then Err (InvalidExample (rs ''example cannot be an empty string'')) else Ok tokens)"

definition parse_list_example :: "'v starlark_ops \<Rightarrow> 'v list \<Rightarrow> ('se policy_error, rstr list) result" where
  "parse_list_example so items =
     bind_result (collect_results (\<lambda>v. case unpack_str so v of
         Some s \<Rightarrow> Ok s
       | None \<Rightarrow> Err (InvalidExample (rs ''example tokens must be strings (got '' @ get_type so v @ rs '')''))) items)
       (\<lambda>tokens. if tokens = [] then Err (InvalidExample (rs ''example cannot be an empty list'')) else Ok tokens)"

definition parse_example ::
  "'p render_ops \<Rightarrow> 'v starlark_ops \<Rightarrow> 'v \<Rightarrow> ('se policy_error, rstr list) result" where
  "parse_example ro so v =
     (case unpack_str so v of
        Some raw \<Rightarrow> parse_string_example ro raw
      | None \<Rightarrow>
     (case list_content so v of
        Some items \<Rightarrow> parse_list_example so items
      | None \<Rightarrow>
          Err (InvalidExample (rs ''example must be a string or list of strings (got '' @ get_type so v @ rs '')''))))"

definition parse_examples ::
  "'p render_ops \<Rightarrow> 'v starlark_ops \<Rightarrow> 'v list \<Rightarrow> ('se policy_error, rstr list list) result" where
  "parse_examples ro so items = collect_results (parse_example ro so) items"

text \<open>\<^verbatim>\<open>examples.map(parse_examples).transpose()?.unwrap_or_default()\<close>\<close>

definition parse_optional_examples ::
  "'p render_ops \<Rightarrow> 'v starlark_ops \<Rightarrow> 'v list option \<Rightarrow> ('se policy_error, rstr list list) result" where
  "parse_optional_examples ro so examples =
     (case examples of None \<Rightarrow> Ok [] | Some items \<Rightarrow> parse_examples ro so items)"

definition parse_literal_absolute_path :: "'p platform \<Rightarrow> rstr \<Rightarrow> ('se policy_error, 'p) result" where
  "parse_literal_absolute_path pf raw =
     (if \<not> path_is_absolute pf raw
      then Err (InvalidRule (rs ''host_executable paths must be absolute (got '' @ raw @ rs '')''))
      else result_map_err
        (\<lambda>error. InvalidRule (rs ''invalid absolute path `'' @ raw @ rs ''`: '' @ error))
        (absolute_path_try_from pf raw))"

definition validate_host_executable_name :: "'p platform \<Rightarrow> rstr \<Rightarrow> ('se policy_error, unit) result" where
  "validate_host_executable_name pf name =
     (if name = [] then Err (InvalidRule (rs ''host_executable name cannot be empty''))
      else if path_component_count pf name \<noteq> 1 \<or> path_file_name pf name \<noteq> Some name
      then Err (InvalidRule (rs ''host_executable name must be a bare executable name (got '' @ name @ rs '')''))
      else Ok ())"

definition parse_network_rule_decision :: "rstr \<Rightarrow> ('se policy_error, decision) result" where
  "parse_network_rule_decision raw =
     (if raw = rs ''deny'' then Ok Forbidden else decision_parse raw)"

text \<open>
  The location of the call, from the file name and the resolved zero-based
  positions of the interpreter.
\<close>

definition error_location_from_file_span ::
  "rstr \<Rightarrow> nat \<times> nat \<Rightarrow> nat \<times> nat \<Rightarrow> error_location" where
  "error_location_from_file_span filename span_begin span_end =
     \<lparr>loc_path = filename,
      loc_range = \<lparr>range_start = \<lparr>pos_line = fst span_begin + 1, pos_column = snd span_begin + 1\<rparr>,
                   range_end = \<lparr>pos_line = fst span_end + 1, pos_column = snd span_end + 1\<rparr>\<rparr>\<rparr>"

definition check_justification :: "rstr option \<Rightarrow> ('se policy_error, rstr option) result" where
  "check_justification justification =
     (if blank_justification justification
      then Err (InvalidRule (rs ''justification cannot be empty'')) else Ok justification)"

section \<open>The builtins\<close>

definition prefix_rule_builtin ::
  "'p render_ops \<Rightarrow> 'v starlark_ops \<Rightarrow> 'v list \<Rightarrow> rstr option \<Rightarrow> 'v list option \<Rightarrow> 'v list option
     \<Rightarrow> rstr option \<Rightarrow> error_location option \<Rightarrow> 'p policy_builder
     \<Rightarrow> ('se policy_error, 'p policy_builder) result" where
  "prefix_rule_builtin ro so pattern decision_arg match_arg not_match_arg justification_arg location b =
     bind_result (case decision_arg of Some raw \<Rightarrow> decision_parse raw | None \<Rightarrow> Ok Allow) (\<lambda>d.
     bind_result (check_justification justification_arg) (\<lambda>justification.
     bind_result (parse_pattern so pattern) (\<lambda>pattern_tokens.
     bind_result (parse_optional_examples ro so match_arg) (\<lambda>matches.
     bind_result (parse_optional_examples ro so not_match_arg) (\<lambda>not_matches.
     case pattern_tokens of
       [] \<Rightarrow> Err (InvalidPattern (rs ''pattern cannot be empty''))
     | first_token # rest \<Rightarrow>
         let rules = map (\<lambda>head. \<lparr>rule_pattern = \<lparr>pat_first = head, pat_rest = rest\<rparr>,
                                   pr_decision = d, pr_justification = justification\<rparr>)
                       (alternatives first_token)
         in Ok (fold builder_add_rule rules
                 (add_pending_example_validation rules matches not_matches location b)))))))"

definition network_rule_builtin ::
  "rstr \<Rightarrow> rstr \<Rightarrow> rstr \<Rightarrow> rstr option \<Rightarrow> 'p policy_builder
     \<Rightarrow> ('se policy_error, 'p policy_builder) result" where
  "network_rule_builtin host protocol_arg decision_arg justification_arg b =
     bind_result (protocol_parse protocol_arg) (\<lambda>protocol.
     bind_result (parse_network_rule_decision decision_arg) (\<lambda>d.
     bind_result (check_justification justification_arg) (\<lambda>justification.
     bind_result (normalize_network_rule_host host) (\<lambda>host.
       Ok (builder_add_network_rule
            \<lparr>nr_host = host, nr_protocol = protocol, nr_decision = d,
             nr_justification = justification\<rparr> b)))))"

fun parse_host_paths ::
  "'p platform \<Rightarrow> 'v starlark_ops \<Rightarrow> rstr \<Rightarrow> 'v list \<Rightarrow> 'p list \<Rightarrow> ('se policy_error, 'p list) result" where
  "parse_host_paths pf so name [] parsed_paths = Ok parsed_paths"
| "parse_host_paths pf so name (v # vs) parsed_paths =
     (case unpack_str so v of
        None \<Rightarrow> Err (InvalidRule (rs ''host_executable paths must be strings (got '' @ get_type so v @ rs '')''))
      | Some raw \<Rightarrow>
          bind_result (parse_literal_absolute_path pf raw) (\<lambda>path.
            if executable_path_lookup_key pf path \<noteq> Some (executable_lookup_key (is_windows pf) name)
            then Err (InvalidRule (rs ''host_executable path `'' @ raw @ rs ''` must have basename `'' @ name @ rs ''`''))
            else parse_host_paths pf so name vs
                   (if list_ex (\<lambda>existing. existing = path) parsed_paths
                    then parsed_paths else parsed_paths @ [path])))"

definition host_executable_builtin ::
  "'p platform \<Rightarrow> 'v starlark_ops \<Rightarrow> rstr \<Rightarrow> 'v list \<Rightarrow> 'p policy_builder
     \<Rightarrow> ('se policy_error, 'p policy_builder) result" where
  "host_executable_builtin pf so name paths b =
     bind_result (validate_host_executable_name pf name) (\<lambda>_.
     bind_result (parse_host_paths pf so name paths []) (\<lambda>parsed_paths.
       Ok (builder_add_host_executable (executable_lookup_key (is_windows pf) name) parsed_paths b)))"

section \<open>Parsing a rules file\<close>

definition policy_parse ::
  "'p platform \<Rightarrow> 'p render_ops \<Rightarrow> (rstr \<Rightarrow> rstr \<Rightarrow> ('se, 'ast) result)
     \<Rightarrow> ('ast \<Rightarrow> 'p policy_builder \<Rightarrow> 'p policy_builder \<times> ('se, unit) result)
     \<Rightarrow> rstr \<Rightarrow> rstr \<Rightarrow> 'p policy_builder \<Rightarrow> 'p policy_builder \<times> ('se policy_error, unit) result" where
  "policy_parse pf ro ast_parse eval_module policy_identifier policy_file_contents b =
     (let pending_validation_count = length (pending_example_validations b) in
      case ast_parse policy_identifier policy_file_contents of
        Err e \<Rightarrow> (b, Err (Starlark e))
      | Ok ast \<Rightarrow>
          (case eval_module ast b of
             (b', Err e) \<Rightarrow> (b', Err (Starlark e))
           | (b', Ok _) \<Rightarrow> (b', validate_pending_examples_from pf ro b' pending_validation_count)))"

section \<open>Reachable builders\<close>

inductive builder_step ::
  "'p platform \<Rightarrow> 'p render_ops \<Rightarrow> 'v starlark_ops \<Rightarrow> 'p policy_builder \<Rightarrow> 'p policy_builder \<Rightarrow> bool"
  for pf ro so where
  step_prefix: "prefix_rule_builtin ro so pat d ms nms j loc b = (Ok b' :: (unit policy_error, _) result)
     \<Longrightarrow> builder_step pf ro so b b'"
| step_network: "network_rule_builtin host proto d j b = (Ok b' :: (unit policy_error, _) result)
     \<Longrightarrow> builder_step pf ro so b b'"
| step_host: "host_executable_builtin pf so name paths b = (Ok b' :: (unit policy_error, _) result)
     \<Longrightarrow> builder_step pf ro so b b'"

inductive_cases builder_stepE: "builder_step pf ro so b b'"

abbreviation builder_steps ::
  "'p platform \<Rightarrow> 'p render_ops \<Rightarrow> 'v starlark_ops \<Rightarrow> 'p policy_builder \<Rightarrow> 'p policy_builder \<Rightarrow> bool" where
  "builder_steps pf ro so \<equiv> (builder_step pf ro so)\<^sup>*\<^sup>*"

definition builder_rules :: "'p policy_builder \<Rightarrow> prefix_rule set" where
  "builder_rules b = set (concat (map snd (b_rules_by_program b)))"

definition builder_inv :: "'p platform \<Rightarrow> 'p policy_builder \<Rightarrow> bool" where
  "builder_inv pf b \<longleftrightarrow> policy_wf (build b)
     \<and> (\<forall>v \<in> set (pending_example_validations b). set (pv_rules v) \<subseteq> builder_rules b)
     \<and> (\<forall>name paths. b_host_executables_by_name b name = Some paths \<longrightarrow>
          distinct paths \<and> (\<forall>path \<in> set paths. executable_path_lookup_key pf path = Some name))"

lemma builder_add_rule_simps [simp]:
  "b_network_rules (builder_add_rule r b) = b_network_rules b"
  "b_host_executables_by_name (builder_add_rule r b) = b_host_executables_by_name b"
  "pending_example_validations (builder_add_rule r b) = pending_example_validations b"
  "builder_rules (builder_add_rule r b) = insert r (builder_rules b)"
  using mm_insert_values [of "rule_program r" r "b_rules_by_program b"]
  by (simp_all add: builder_add_rule_def builder_rules_def)

lemma builder_add_rule_map_wf:
  "rule_map_wf (b_rules_by_program b) \<Longrightarrow> rule_map_wf (b_rules_by_program (builder_add_rule r b))"
  by (simp add: builder_add_rule_def rule_map_wf_insert)

lemma builder_add_rules [simp]:
  "b_network_rules (fold builder_add_rule rules b) = b_network_rules b"
  "b_host_executables_by_name (fold builder_add_rule rules b) = b_host_executables_by_name b"
  "pending_example_validations (fold builder_add_rule rules b) = pending_example_validations b"
  "builder_rules (fold builder_add_rule rules b) = set rules \<union> builder_rules b"
  by (induction rules arbitrary: b) auto

lemma builder_add_rules_map_wf:
  "rule_map_wf (b_rules_by_program b) \<Longrightarrow> rule_map_wf (b_rules_by_program (fold builder_add_rule rules b))"
  by (induction rules arbitrary: b) (auto intro: builder_add_rule_map_wf)

lemma build_wf:
  "policy_wf (build b) \<longleftrightarrow>
     rule_map_wf (b_rules_by_program b) \<and> (\<forall>n \<in> set (b_network_rules b). normal_host (nr_host n))"
  by (simp add: policy_wf_def build_def from_parts_def)

lemma prefix_builtin_inv:
  assumes "prefix_rule_builtin ro so pat d ms nms j loc b = (Ok b' :: ('se policy_error, _) result)"
    and "builder_inv pf b"
  shows "builder_inv pf b'"
proof -
  from assms(1) obtain rules ms' nms' where b':
      "b' = fold builder_add_rule rules (add_pending_example_validation rules ms' nms' loc b)"
    unfolding prefix_rule_builtin_def bind_result_eq Let_def
    by (elim exE conjE) (auto split: list.split_asm)
  let ?b = "add_pending_example_validation rules ms' nms' loc b"
  have same: "b_rules_by_program ?b = b_rules_by_program b" "b_network_rules ?b = b_network_rules b"
    "b_host_executables_by_name ?b = b_host_executables_by_name b" "builder_rules ?b = builder_rules b"
    by (simp_all add: add_pending_example_validation_def builder_rules_def)
  have "policy_wf (build b')"
    using assms(2) by (auto simp: b' builder_inv_def build_wf same intro!: builder_add_rules_map_wf)
  moreover have "\<forall>v \<in> set (pending_example_validations b'). set (pv_rules v) \<subseteq> builder_rules b'"
    using assms(2) by (auto simp: b' builder_inv_def same) (auto simp: add_pending_example_validation_def)
  ultimately show ?thesis
    using assms(2) by (simp add: builder_inv_def) (simp add: b' same)
qed

lemma network_builtin_inv:
  assumes "network_rule_builtin host proto d j b = (Ok b' :: ('se policy_error, _) result)"
    and "builder_inv pf b"
  shows "builder_inv pf b'"
proof -
  from assms(1) obtain n h where "b' = builder_add_network_rule n b" "nr_host n = h"
      "normalize_network_rule_host host = (Ok h :: ('se policy_error, _) result)"
    by (auto simp: network_rule_builtin_def bind_result_eq)
  with assms(2) normalize_host_normal show ?thesis
    by (auto simp: builder_inv_def build_wf builder_add_network_rule_def builder_rules_def)
qed

lemma parse_host_paths_named:
  "parse_host_paths pf so name vs acc = (Ok paths :: ('se policy_error, 'p list) result) \<Longrightarrow> distinct acc
   \<Longrightarrow> \<forall>p \<in> set acc. executable_path_lookup_key pf p = Some k \<Longrightarrow> k = executable_lookup_key (is_windows pf) name
   \<Longrightarrow> distinct paths \<and> (\<forall>p \<in> set paths. executable_path_lookup_key pf p = Some k)"
proof (induction vs arbitrary: acc)
  case Nil
  then show ?case by simp
next
  case (Cons v vs)
  from Cons.prems(1) obtain raw path where r: "unpack_str so v = Some raw"
      "parse_literal_absolute_path pf raw = (Ok path :: ('se policy_error, 'p) result)"
      "executable_path_lookup_key pf path = Some (executable_lookup_key (is_windows pf) name)"
      "parse_host_paths pf so name vs
        (if list_ex (\<lambda>existing. existing = path) acc then acc else acc @ [path]) = (Ok paths :: ('se policy_error, 'p list) result)"
    by (auto simp: bind_result_eq split: option.splits if_splits)
  show ?case
    by (rule Cons.IH [OF r(4)]) (use Cons.prems r(3) in \<open>auto simp: list_ex_iff\<close>)
qed

lemma host_builtin_inv:
  assumes "host_executable_builtin pf so name paths b = (Ok b' :: ('se policy_error, _) result)"
    and "builder_inv pf b"
  shows "builder_inv pf b'"
proof -
  from assms(1) obtain ps where ps: "parse_host_paths pf so name paths [] = (Ok ps :: ('se policy_error, _) result)"
      "b' = builder_add_host_executable (executable_lookup_key (is_windows pf) name) ps b"
    by (auto simp: host_executable_builtin_def bind_result_eq)
  from parse_host_paths_named [OF ps(1)]
  have "distinct ps \<and> (\<forall>p \<in> set ps. executable_path_lookup_key pf p = Some (executable_lookup_key (is_windows pf) name))"
    by simp
  with assms(2) ps(2) show ?thesis
    by (auto simp: builder_inv_def build_wf builder_add_host_executable_def builder_rules_def)
qed

lemma builder_step_inv: "builder_step pf ro so b b' \<Longrightarrow> builder_inv pf b \<Longrightarrow> builder_inv pf b'"
  by (erule builder_stepE) (blast intro: prefix_builtin_inv network_builtin_inv host_builtin_inv)+

lemma builder_steps_inv: "builder_steps pf ro so b b' \<Longrightarrow> builder_inv pf b \<Longrightarrow> builder_inv pf b'"
  by (induction rule: rtranclp_induct) (blast intro: builder_step_inv)+

lemma builder_new_inv: "builder_inv pf builder_new"
  by (simp add: builder_inv_def build_wf builder_new_def rule_map_wf_def)

text \<open>
  A policy read from rules files is well formed; a path listed for a host executable
  has that executable's name, no path is listed twice, and every rule whose
  examples were registered is part of the policy.
\<close>

theorem parsed_policy_wf: "builder_steps pf ro so builder_new b \<Longrightarrow> builder_inv pf b"
  by (erule builder_steps_inv) (rule builder_new_inv)

section \<open>Validated examples\<close>

lemma matches_nonempty_iff:
  assumes "policy_wf p"
  shows "matches_for_command_with_options pf p cmd None \<lparr>resolve_host_executables = True\<rparr> \<noteq> [] \<longleftrightarrow>
    governing p cmd \<noteq> {} \<or> (\<exists>c. host_command pf p cmd = Some c \<and> governing p c \<noteq> {})"
proof -
  have "exact_matches p cmd = [] \<longleftrightarrow> governing p cmd = {}"
    by (rule image_eq_empty_set [OF exact_matches_decisions [OF assms]])
  moreover have "match_host_executable_rules pf p cmd = [] \<longleftrightarrow>
      \<not> (\<exists>c. host_command pf p cmd = Some c \<and> governing p c \<noteq> {})"
    using host_matches_decisions [OF assms, of pf cmd] by (auto split: option.splits)
  ultimately show ?thesis by (auto simp: matches_for_command_with_options_def Let_def)
qed

lemma validation_policy_facts:
  "policy_wf (validation_policy hosts rules)" "all_rules (validation_policy hosts rules) = set rules"
  "host_command pf (validation_policy (host_executables_by_name p) rules) cmd = host_command pf p cmd"
proof -
  have fold_eq: "fold (\<lambda>r. mm_insert (rule_program r) r) rules m
      = fold (\<lambda>(k, v). mm_insert k v) (map (\<lambda>r. (rule_program r, r)) rules) m" for m
    by (induction rules arbitrary: m) auto
  show "policy_wf (validation_policy hosts rules)"
    by (auto simp: policy_wf_def validation_policy_def from_parts_def fold_eq rule_map_wf_def
        intro!: rule_map_wf_insert_all [unfolded rule_map_wf_def])
  show "all_rules (validation_policy hosts rules) = set rules"
    unfolding all_rules_def validation_policy_def from_parts_def policy.simps fold_eq insert_all_values
    by (simp add: image_image)
  show "host_command pf (validation_policy (host_executables_by_name p) rules) cmd = host_command pf p cmd"
    by (simp add: host_command_def validation_policy_def from_parts_def
        split: list.split result.split option.split)
qed

lemma validate_not_match_Ok:
  "validate_not_match_examples pf ro p rules exs = Ok () \<Longrightarrow> ex \<in> set exs
     \<Longrightarrow> matches_for_command_with_options pf p ex None \<lparr>resolve_host_executables = True\<rparr> = []"
  by (induction exs) (auto split: list.splits)

lemma validate_match_Ok:
  "validate_match_examples pf ro p rules exs = Ok () \<Longrightarrow> ex \<in> set exs
     \<Longrightarrow> matches_for_command_with_options pf p ex None \<lparr>resolve_host_executables = True\<rparr> \<noteq> []"
  by (auto simp: validate_match_examples_def Let_def filter_empty_conv split: if_splits)

lemma validate_pending_Ok:
  assumes "validate_pending pf ro hosts vs = (Ok () :: ('se policy_error, unit) result)" "v \<in> set vs"
  shows "validate_not_match_examples pf ro (validation_policy hosts (pv_rules v)) (pv_rules v) (pv_not_matches v)
      = (Ok () :: ('se policy_error, unit) result)
    \<and> validate_match_examples pf ro (validation_policy hosts (pv_rules v)) (pv_rules v) (pv_matches v)
      = (Ok () :: ('se policy_error, unit) result)"
  using assms by (induction vs) (auto simp: bind_result_eq Let_def result_map_err_Ok)

text \<open>
  A positive example that its own rules match is matched by every well-formed
  policy that has these rules and the same host executables.
\<close>

lemma matches_in_larger_policy:
  assumes "policy_wf p" "set rules \<subseteq> all_rules p"
    and "matches_for_command_with_options pf (validation_policy (host_executables_by_name p) rules) ex None
      \<lparr>resolve_host_executables = True\<rparr> \<noteq> []"
  shows "matches_for_command_with_options pf p ex None \<lparr>resolve_host_executables = True\<rparr> \<noteq> []"
  using assms by (auto simp: matches_nonempty_iff validation_policy_facts governing_def)

text \<open>
  When a rules file is accepted, every positive example of its rules is matched by the
  resulting policy, and no rule covers one of its own negative examples. The
  interpreter is only assumed to change the builder through the builtins.
\<close>

theorem policy_parse_examples_hold:
  assumes "builder_steps pf ro so builder_new b"
    and "\<And>ast. builder_steps pf ro so b (fst (eval_module ast b))"
    and "policy_parse pf ro ast_parse eval_module ident contents b = (b', Ok () :: ('se policy_error, unit) result)"
    and "v \<in> set (drop (length (pending_example_validations b)) (pending_example_validations b'))"
  shows "(\<forall>ex \<in> set (pv_matches v).
        matches_for_command_with_options pf (build b') ex None \<lparr>resolve_host_executables = True\<rparr> \<noteq> [])
    \<and> (\<forall>ex \<in> set (pv_not_matches v). \<forall>r \<in> set (pv_rules v). \<not> covers r ex)"
proof -
  let ?hosts = "b_host_executables_by_name b'" and ?q = "validation_policy (b_host_executables_by_name b') (pv_rules v)"
  from assms(3) obtain ast where ev: "eval_module ast b = (b', Ok ())"
      "validate_pending_examples_from pf ro b' (length (pending_example_validations b)) = (Ok () :: ('se policy_error, unit) result)"
    by (auto simp: policy_parse_def Let_def split: result.splits prod.splits)
  from assms(1) assms(2) [of ast] ev(1) have "builder_steps pf ro so builder_new b'" by (simp add: rtranclp_trans)
  then have "builder_inv pf b'" by (rule builder_steps_inv [OF _ builder_new_inv])
  then have wf: "policy_wf (build b')" and rules: "set (pv_rules v) \<subseteq> all_rules (build b')"
    using assms(4) by (auto simp: builder_inv_def builder_rules_def all_rules_def build_def from_parts_def
        dest!: in_set_dropD)
  have hosts: "host_executables_by_name (build b') = ?hosts" by (simp add: build_def from_parts_def)
  from ev(2) have "validate_pending pf ro ?hosts
      (drop (length (pending_example_validations b)) (pending_example_validations b')) = (Ok () :: ('se policy_error, unit) result)"
    by (simp add: validate_pending_examples_from_def)
  from validate_pending_Ok [OF this assms(4)] have
    nm: "validate_not_match_examples pf ro ?q (pv_rules v) (pv_not_matches v) = (Ok () :: ('se policy_error, unit) result)" and
    m: "validate_match_examples pf ro ?q (pv_rules v) (pv_matches v) = (Ok () :: ('se policy_error, unit) result)" by blast+
  have "matches_for_command_with_options pf (build b') ex None \<lparr>resolve_host_executables = True\<rparr> \<noteq> []"
    if "ex \<in> set (pv_matches v)" for ex
    using matches_in_larger_policy [OF wf rules, unfolded hosts] validate_match_Ok [OF m that] by blast
  moreover have "\<not> covers r ex" if "ex \<in> set (pv_not_matches v)" "r \<in> set (pv_rules v)" for ex r
    using validate_not_match_Ok [OF nm that(1)] matches_nonempty_iff [OF validation_policy_facts(1), of pf ?hosts "pv_rules v" ex]
      that(2) by (auto simp: governing_def validation_policy_facts(2))
  ultimately show ?thesis by blast
qed

text \<open>Concrete parameters: string values, words split at blanks, a file that registers one rule.\<close>

definition sample_values :: "rstr starlark_ops" where
  "sample_values = \<lparr>unpack_str = Some, list_content = (\<lambda>_. None), get_type = (\<lambda>_. rs ''string'')\<rparr>"

definition sample_render :: "rstr render_ops" where
  "sample_render = \<lparr>debug_rule = (\<lambda>_. []), debug_match = (\<lambda>_. []),
     try_join = (\<lambda>ws. Some (join_str [32] ws)), shlex_split = (\<lambda>s. Some (split_char 32 s))\<rparr>"

definition sample_builder :: "rstr policy_builder" where
  "sample_builder =
     builder_add_rule (single_rule (rs ''git'') [rs ''status''] Allow)
       (add_pending_example_validation [single_rule (rs ''git'') [rs ''status''] Allow]
          [[rs ''git'', rs ''status'', rs ''-s'']] [[rs ''git'', rs ''push'']] None builder_new)"

lemma sample_builtin:
  "prefix_rule_builtin sample_render sample_values [rs ''git'', rs ''status''] None
     (Some [rs ''git status -s'']) (Some [rs ''git push'']) None None builder_new
     = (Ok sample_builder :: (unit policy_error, _) result)"
  by (simp add: prefix_rule_builtin_def sample_render_def sample_values_def sample_builder_def
      check_justification_def blank_justification_def parse_pattern_def parse_pattern_token_def
      parse_optional_examples_def parse_examples_def parse_example_def parse_string_example_def
      single_rule_def rs_def)

lemma sample_steps: "builder_steps unix_platform sample_render sample_values builder_new sample_builder"
  by (rule r_into_rtranclp) (rule step_prefix [OF sample_builtin])

theorem parsed_policy_wf_witness: "builder_inv unix_platform sample_builder"
  by (rule parsed_policy_wf [OF sample_steps])

definition sample_eval :: "unit \<Rightarrow> rstr policy_builder \<Rightarrow> rstr policy_builder \<times> (unit, unit) result" where
  "sample_eval _ b =
     (case prefix_rule_builtin sample_render sample_values [rs ''git'', rs ''status''] None
        (Some [rs ''git status -s'']) (Some [rs ''git push'']) None None b :: (unit policy_error, _) result of
        Ok b' \<Rightarrow> (b', Ok ()) | Err _ \<Rightarrow> (b, Err ()))"

lemma sample_eval_new: "sample_eval ast builder_new = (sample_builder, Ok ())"
  by (simp only: sample_eval_def sample_builtin result.case)

lemma sample_parse:
  "policy_parse unix_platform sample_render (\<lambda>_ _. Ok ()) sample_eval [] [] builder_new
     = (sample_builder, Ok () :: (unit policy_error, unit) result)"
proof -
  have "validate_pending_examples_from unix_platform sample_render sample_builder 0
      = (Ok () :: (unit policy_error, unit) result)"
    by code_simp
  then show ?thesis by (simp add: policy_parse_def sample_eval_new) (simp add: builder_new_def)
qed

theorem policy_parse_examples_hold_witness:
  "\<exists>v. v \<in> set (pending_example_validations sample_builder)
    \<and> pv_matches v = [[rs ''git'', rs ''status'', rs ''-s'']]
    \<and> matches_for_command_with_options unix_platform (build sample_builder)
        [rs ''git'', rs ''status'', rs ''-s''] None \<lparr>resolve_host_executables = True\<rparr> \<noteq> []"
proof -
  let ?r = "single_rule (rs ''git'') [rs ''status''] Allow"
  let ?v = "\<lparr>pv_rules = [?r], pv_matches = [[rs ''git'', rs ''status'', rs ''-s'']],
      pv_not_matches = [[rs ''git'', rs ''push'']], pv_location = None\<rparr>"
  have v: "?v \<in> set (pending_example_validations sample_builder)"
    by (simp add: sample_builder_def add_pending_example_validation_def)
  have ev: "builder_steps unix_platform sample_render sample_values builder_new (fst (sample_eval ast builder_new))" for ast
    by (simp add: sample_eval_new sample_steps)
  have "\<forall>ex \<in> set (pv_matches ?v). matches_for_command_with_options unix_platform (build sample_builder)
        ex None \<lparr>resolve_host_executables = True\<rparr> \<noteq> []"
    using policy_parse_examples_hold [OF rtranclp.rtrancl_refl ev sample_parse, of ?v] v
    by (simp add: builder_new_def)
  with v show ?thesis by auto
qed

end
