(* ===== verification/Policy_Amend.thy ===== *)
theory Policy_Amend
  imports Policy_Parser
begin

text \<open>
  Appending rules to a rules file (\<^verbatim>\<open>execpolicy/src/amend.rs\<close>): the text of the rule, and
  the locked read-check-append of the file. JSON encoding and the file operations
  are parameters; \<open>append_file_laws\<close> states what an appending file does.
\<close>

section \<open>Operations\<close>

datatype ('f, 'io, 'je) amend_error =
    EmptyPrefix
  | InvalidNetworkRule rstr
  | MissingParent 'f
  | CreatePolicyDir 'f 'io
  | SerializePrefix 'je
  | SerializeNetworkRule 'je
  | OpenPolicyFile 'f 'io
  | WritePolicyFile 'f 'io
  | LockPolicyFile 'f 'io
  | SeekPolicyFile 'f 'io
  | ReadPolicyFile 'f 'io

text \<open>
  The operations of \<^verbatim>\<open>std::fs\<close> on the policy file: the state is the file system
  together with the open handle.
\<close>

record ('s, 'f, 'io) policy_file_ops =
  file_parent :: "'f \<Rightarrow> 'f option"
  create_dir :: "'f \<Rightarrow> 's \<Rightarrow> 's \<times> ('io, unit) result"
  is_already_exists :: "'io \<Rightarrow> bool"
  open_append :: "'f \<Rightarrow> 's \<Rightarrow> 's \<times> ('io, unit) result"
  lock_file :: "'s \<Rightarrow> 's \<times> ('io, unit) result"
  seek_start :: "'s \<Rightarrow> 's \<times> ('io, unit) result"
  read_to_string :: "'s \<Rightarrow> 's \<times> ('io, rstr) result"
  write_all :: "rstr \<Rightarrow> 's \<Rightarrow> 's \<times> ('io, unit) result"

text \<open>One file operation followed by the rest, with the error mapped.\<close>

definition try_io ::
  "('io \<Rightarrow> 'e) \<Rightarrow> ('s \<Rightarrow> 's \<times> ('io, 'a) result) \<Rightarrow> ('a \<Rightarrow> 's \<Rightarrow> 's \<times> ('e, 'b) result)
     \<Rightarrow> 's \<Rightarrow> 's \<times> ('e, 'b) result" where
  "try_io wrap action continue s =
     (case action s of (s', Err e) \<Rightarrow> (s', Err (wrap e)) | (s', Ok a) \<Rightarrow> continue a s')"

definition append_locked_line ::
  "('s, 'f, 'io) policy_file_ops \<Rightarrow> 'f \<Rightarrow> rstr \<Rightarrow> 's \<Rightarrow> 's \<times> (('f, 'io, 'je) amend_error, unit) result" where
  "append_locked_line ops policy_path line =
     try_io (OpenPolicyFile policy_path) (open_append ops policy_path) (\<lambda>_.
     try_io (LockPolicyFile policy_path) (lock_file ops) (\<lambda>_.
     try_io (SeekPolicyFile policy_path) (seek_start ops) (\<lambda>_.
     try_io (ReadPolicyFile policy_path) (read_to_string ops) (\<lambda>contents.
       if list_ex (\<lambda>existing. existing = line) (str_lines contents) then (\<lambda>s. (s, Ok ()))
       else
         (if contents \<noteq> [] \<and> \<not> ends_with contents [LF]
          then try_io (WritePolicyFile policy_path) (write_all ops [LF])
          else (\<lambda>continue. continue ()))
         (\<lambda>_. try_io (WritePolicyFile policy_path) (write_all ops (line @ [LF])) (\<lambda>_ s. (s, Ok ())))))))"

definition append_rule_line ::
  "('s, 'f, 'io) policy_file_ops \<Rightarrow> 'f \<Rightarrow> rstr \<Rightarrow> 's \<Rightarrow> 's \<times> (('f, 'io, 'je) amend_error, unit) result" where
  "append_rule_line ops policy_path rule s =
     (case file_parent ops policy_path of
        None \<Rightarrow> (s, Err (MissingParent policy_path))
      | Some dir \<Rightarrow>
          (case create_dir ops dir s of
             (s', Err source) \<Rightarrow>
               if is_already_exists ops source then append_locked_line ops policy_path rule s'
               else (s', Err (CreatePolicyDir dir source))
           | (s', Ok _) \<Rightarrow> append_locked_line ops policy_path rule s'))"

definition prefix_rule_line :: "rstr list \<Rightarrow> rstr" where
  "prefix_rule_line tokens =
     rs ''prefix_rule(pattern='' @ (rs ''['' @ join_str (rs '', '') tokens @ rs '']'')
       @ rs '', decision='' @ [34] @ rs ''allow'' @ [34] @ rs '')''"

definition blocking_append_allow_prefix_rule ::
  "('s, 'f, 'io) policy_file_ops \<Rightarrow> (rstr \<Rightarrow> ('je, rstr) result) \<Rightarrow> 'f \<Rightarrow> rstr list \<Rightarrow> 's
     \<Rightarrow> 's \<times> (('f, 'io, 'je) amend_error, unit) result" where
  "blocking_append_allow_prefix_rule ops json policy_path pre s =
     (if pre = [] then (s, Err EmptyPrefix)
      else case collect_results json pre of
        Err e \<Rightarrow> (s, Err (SerializePrefix e))
      | Ok tokens \<Rightarrow> append_rule_line ops policy_path (prefix_rule_line tokens) s)"

fun amend_decision_string :: "decision \<Rightarrow> rstr" where
  "amend_decision_string Allow = rs ''allow''"
| "amend_decision_string Prompt = rs ''prompt''"
| "amend_decision_string Forbidden = rs ''deny''"

text \<open>
  The \<^verbatim>\<open>Display\<close> of an error; the debug output of a list of strings and the text of a
  Starlark error come from outside.
\<close>

fun policy_error_display :: "(rstr list \<Rightarrow> rstr) \<Rightarrow> ('se \<Rightarrow> rstr) \<Rightarrow> 'se policy_error \<Rightarrow> rstr" where
  "policy_error_display dbg sed (InvalidDecision m) = rs ''invalid decision: '' @ m"
| "policy_error_display dbg sed (InvalidPattern m) = rs ''invalid pattern element: '' @ m"
| "policy_error_display dbg sed (InvalidExample m) = rs ''invalid example: '' @ m"
| "policy_error_display dbg sed (InvalidRule m) = rs ''invalid rule: '' @ m"
| "policy_error_display dbg sed (ExampleDidNotMatch rules examples _) =
     rs ''expected every example to match at least one rule. rules: '' @ dbg rules
       @ rs ''; unmatched examples: '' @ dbg examples"
| "policy_error_display dbg sed (ExampleDidMatch rule example _) =
     rs ''expected example to not match rule `'' @ rule @ rs ''`: '' @ example"
| "policy_error_display dbg sed (Starlark e) = rs ''starlark error: '' @ sed e"

definition network_rule_args ::
  "(rstr \<Rightarrow> ('je, rstr) result) \<Rightarrow> rstr \<Rightarrow> network_rule_protocol \<Rightarrow> decision \<Rightarrow> rstr option
     \<Rightarrow> ('je, rstr list) result" where
  "network_rule_args json host protocol d justification =
     bind_result (json host) (\<lambda>host.
     bind_result (json (as_policy_string protocol)) (\<lambda>protocol.
     bind_result (json (amend_decision_string d)) (\<lambda>d.
       let args = [rs ''host='' @ host, rs ''protocol='' @ protocol, rs ''decision='' @ d] in
       case justification of
         None \<Rightarrow> Ok args
       | Some j \<Rightarrow> bind_result (json j) (\<lambda>j. Ok (args @ [rs ''justification='' @ j])))))"

definition blocking_append_network_rule ::
  "('s, 'f, 'io) policy_file_ops \<Rightarrow> (rstr \<Rightarrow> ('je, rstr) result) \<Rightarrow> ('se policy_error \<Rightarrow> rstr) \<Rightarrow> 'f \<Rightarrow> rstr
     \<Rightarrow> network_rule_protocol \<Rightarrow> decision \<Rightarrow> rstr option \<Rightarrow> 's
     \<Rightarrow> 's \<times> (('f, 'io, 'je) amend_error, unit) result" where
  "blocking_append_network_rule ops json display policy_path host protocol d justification s =
     (case normalize_network_rule_host host of
        Err e \<Rightarrow> (s, Err (InvalidNetworkRule (display e)))
      | Ok host \<Rightarrow>
          if blank_justification justification
          then (s, Err (InvalidNetworkRule (rs ''justification cannot be empty'')))
          else (case network_rule_args json host protocol d justification of
            Err e \<Rightarrow> (s, Err (SerializeNetworkRule e))
          | Ok args \<Rightarrow>
              append_rule_line ops policy_path (rs ''network_rule('' @ join_str (rs '', '') args @ rs '')'') s))"

section \<open>Files opened for appending\<close>

definition keeps_text :: "('s \<Rightarrow> rstr) \<Rightarrow> ('s \<Rightarrow> 's \<times> 'r) \<Rightarrow> bool" where
  "keeps_text txt f \<longleftrightarrow> (\<forall>s. txt (fst (f s)) = txt s)"

text \<open>
  The text of the policy file is kept by every operation but a write; reading
  after seeking to the start gives all of it, and a completed write appends.
\<close>

definition append_file_laws :: "('s, 'f, 'io) policy_file_ops \<Rightarrow> ('s \<Rightarrow> rstr) \<Rightarrow> bool" where
  "append_file_laws ops txt \<longleftrightarrow>
     (\<forall>d. keeps_text txt (create_dir ops d)) \<and> (\<forall>f. keeps_text txt (open_append ops f))
     \<and> keeps_text txt (lock_file ops) \<and> keeps_text txt (seek_start ops) \<and> keeps_text txt (read_to_string ops)
     \<and> (\<forall>s s' c. read_to_string ops s = (s', Ok c) \<longrightarrow> c = txt s)
     \<and> (\<forall>s s' t. write_all ops t s = (s', Ok ()) \<longrightarrow> txt s' = txt s @ t)"

lemma try_io_Ok:
  "try_io wrap action continue s = (s'', Ok x) \<longleftrightarrow>
     (\<exists>s' a. action s = (s', Ok a) \<and> continue a s' = (s'', Ok x))"
  by (auto simp: try_io_def split: prod.splits result.splits)

lemma keeps_textD: "keeps_text txt f \<Longrightarrow> f s = (s', r) \<Longrightarrow> txt s' = txt s"
  by (metis fst_conv keeps_text_def)

text \<open>What a successful append leaves in the file.\<close>

definition appended :: "rstr \<Rightarrow> rstr \<Rightarrow> rstr" where
  "appended contents line =
     (if line \<in> set (str_lines contents) then contents
      else contents @ (if contents \<noteq> [] \<and> \<not> ends_with contents [LF] then [LF] else []) @ line @ [LF])"

lemma append_locked_line_text:
  assumes "append_file_laws ops txt" "append_locked_line ops path line s = (s', Ok ())"
  shows "txt s' = appended (txt s) line"
proof -
  let ?sep = "\<lambda>c. if c \<noteq> [] \<and> \<not> ends_with c [LF] then [LF] else []"
  from assms(2) obtain s1 s2 s3 s4 c where
      o: "open_append ops path s = (s1, Ok ())" and l: "lock_file ops s1 = (s2, Ok ())" and
      k: "seek_start ops s2 = (s3, Ok ())" and r: "read_to_string ops s3 = (s4, Ok c)" and
      w: "if line \<in> set (str_lines c) then s' = s4
          else \<exists>s5. (if ?sep c = [] then s5 = s4 else write_all ops [LF] s4 = (s5, Ok ()))
             \<and> write_all ops (line @ [LF]) s5 = (s', Ok ())"
    unfolding append_locked_line_def try_io_Ok
    by (elim exE conjE) (auto simp: try_io_Ok list_ex_iff split: if_splits)
  have keeps: "keeps_text txt (open_append ops path)" "keeps_text txt (lock_file ops)"
    "keeps_text txt (seek_start ops)" "keeps_text txt (read_to_string ops)"
    using assms(1) by (simp_all add: append_file_laws_def)
  have same: "txt s1 = txt s" "txt s2 = txt s1" "txt s3 = txt s2" "txt s4 = txt s3"
    by (rule keeps_textD [OF keeps(1) o] keeps_textD [OF keeps(2) l] keeps_textD [OF keeps(3) k]
        keeps_textD [OF keeps(4) r])+
  have "c = txt s3" using assms(1) r by (auto simp: append_file_laws_def)
  with same have t: "txt s4 = txt s" "c = txt s" by simp_all
  show ?thesis
  proof (cases "line \<in> set (str_lines c)")
    case True
    with w t show ?thesis by (simp add: appended_def)
  next
    case False
    with w obtain s5 where "if ?sep c = [] then s5 = s4 else write_all ops [LF] s4 = (s5, Ok ())"
      "write_all ops (line @ [LF]) s5 = (s', Ok ())" by auto
    with assms(1) have "txt s' = txt s4 @ ?sep c @ line @ [LF]"
      by (auto simp: append_file_laws_def split: if_splits)
    with False t show ?thesis by (simp add: appended_def)
  qed
qed

lemma append_rule_line_text:
  assumes "append_file_laws ops txt" "append_rule_line ops path line s = (s', Ok () :: (('f, 'io, 'je) amend_error, unit) result)"
  shows "txt s' = appended (txt s) line"
proof -
  from assms(2) obtain dir s1 r where d: "create_dir ops dir s = (s1, r)"
      "append_locked_line ops path line s1 = (s', Ok () :: (('f, 'io, 'je) amend_error, unit) result)"
    by (auto simp: append_rule_line_def split: option.splits prod.splits result.splits if_splits)
  have "keeps_text txt (create_dir ops dir)" using assms(1) by (simp add: append_file_laws_def)
  from keeps_textD [OF this d(1)] append_locked_line_text [OF assms(1) d(2)] show ?thesis by simp
qed

lemma appended_contains:
  assumes "LF \<notin> set line" "strip_cr line = line"
  shows "line \<in> set (str_lines (appended contents line))"
proof (cases "line \<in> set (str_lines contents)")
  case False
  let ?a = "contents @ (if contents \<noteq> [] \<and> \<not> ends_with contents [LF] then [LF] else [])"
  have "?a = [] \<or> last ?a = LF" by (auto simp: ends_with_iff)
  from str_lines_terminated [OF this assms(1)] False assms(2) show ?thesis by (simp add: appended_def)
qed (simp add: appended_def)

lemma join_str_no_char: "c \<notin> set sep \<Longrightarrow> \<forall>w \<in> set ws. c \<notin> set w \<Longrightarrow> c \<notin> set (join_str sep ws)"
  by (induction sep ws rule: join_str.induct) auto

lemma prefix_rule_line_single:
  assumes "\<forall>t \<in> set tokens. LF \<notin> set t"
  shows "LF \<notin> set (prefix_rule_line tokens)" "strip_cr (prefix_rule_line tokens) = prefix_rule_line tokens"
  using join_str_no_char [of LF "rs '', ''" tokens] assms
  by (auto simp: prefix_rule_line_def strip_cr_def rs_def)

text \<open>
  A completed approval is in the file exactly as one line, whatever the file held:
  nothing that was there is lost, the text ends up containing the rule as a line of
  its own, and approving the same prefix again changes nothing. JSON encoding is
  assumed to escape line feeds, as its grammar demands.
\<close>

theorem append_allow_prefix_rule_once:
  assumes "append_file_laws ops txt"
    and "\<And>t u. json t = Ok u \<Longrightarrow> LF \<notin> set u"
    and "blocking_append_allow_prefix_rule ops json path pre s = (s1, Ok () :: (('f, 'io, 'je) amend_error, unit) result)"
  shows "\<exists>tokens. collect_results json pre = Ok tokens
    \<and> prefix_rule_line tokens \<in> set (str_lines (txt s1))
    \<and> prefix (txt s) (txt s1)
    \<and> (\<forall>s2. blocking_append_allow_prefix_rule ops json path pre s1
          = (s2, Ok () :: (('f, 'io, 'je) amend_error, unit) result) \<longrightarrow> txt s2 = txt s1)"
proof -
  from assms(3) obtain tokens where t: "pre \<noteq> []" "collect_results json pre = Ok tokens"
      "append_rule_line ops path (prefix_rule_line tokens) s = (s1, Ok () :: (('f, 'io, 'je) amend_error, unit) result)"
    by (auto simp: blocking_append_allow_prefix_rule_def split: if_splits result.splits)
  from t(2) have "list_all2 (\<lambda>x y. json x = Ok y) pre tokens" by (simp add: collect_results_Ok)
  then have "\<forall>t \<in> set tokens. LF \<notin> set t"
    by (induction rule: list_all2_induct) (auto dest: assms(2))
  note line = prefix_rule_line_single [OF this]
  have s1_text: "txt s1 = appended (txt s) (prefix_rule_line tokens)"
    by (rule append_rule_line_text [OF assms(1) t(3)])
  have mem: "prefix_rule_line tokens \<in> set (str_lines (txt s1))"
    unfolding s1_text by (rule appended_contains [OF line])
  have "txt s2 = txt s1" if "blocking_append_allow_prefix_rule ops json path pre s1
      = (s2, Ok () :: (('f, 'io, 'je) amend_error, unit) result)" for s2
  proof -
    from that t have "append_rule_line ops path (prefix_rule_line tokens) s1 = (s2, Ok () :: (('f, 'io, 'je) amend_error, unit) result)"
      by (simp add: blocking_append_allow_prefix_rule_def)
    from append_rule_line_text [OF assms(1) this] mem show ?thesis by (simp add: appended_def)
  qed
  with t(2) mem show ?thesis by (auto simp: s1_text appended_def)
qed

text \<open>A file that is its text, for the example.\<close>

definition text_file :: "(rstr, unit, unit) policy_file_ops" where
  "text_file = \<lparr>file_parent = Some, create_dir = (\<lambda>_ s. (s, Err ())), is_already_exists = (\<lambda>_. True),
     open_append = (\<lambda>_ s. (s, Ok ())), lock_file = (\<lambda>s. (s, Ok ())), seek_start = (\<lambda>s. (s, Ok ())),
     read_to_string = (\<lambda>s. (s, Ok s)), write_all = (\<lambda>t s. (s @ t, Ok ()))\<rparr>"

lemma text_file_laws: "append_file_laws text_file (\<lambda>s. s)"
  by (simp add: append_file_laws_def text_file_def keeps_text_def)

definition quoting :: "rstr \<Rightarrow> (unit, rstr) result" where
  "quoting s = (if LF \<in> set s then Err () else Ok ([34] @ s @ [34]))"

theorem append_allow_prefix_rule_once_witness:
  "\<exists>s1. blocking_append_allow_prefix_rule text_file quoting () [rs ''ls'', rs ''-l''] (rs ''# rules'')
      = (s1, Ok () :: ((unit, unit, unit) amend_error, unit) result)
    \<and> prefix (rs ''# rules'') s1
    \<and> prefix_rule_line [[34] @ rs ''ls'' @ [34], [34] @ rs ''-l'' @ [34]] \<in> set (str_lines s1)"
proof -
  let ?line = "prefix_rule_line [[34] @ rs ''ls'' @ [34], [34] @ rs ''-l'' @ [34]]"
  have run: "blocking_append_allow_prefix_rule text_file quoting () [rs ''ls'', rs ''-l''] (rs ''# rules'')
      = (rs ''# rules'' @ [LF] @ ?line @ [LF], Ok () :: ((unit, unit, unit) amend_error, unit) result)"
    by code_simp
  have json: "quoting t = Ok u \<Longrightarrow> LF \<notin> set u" for t u
    by (auto simp: quoting_def split: if_splits)
  have tokens: "collect_results quoting [rs ''ls'', rs ''-l'']
      = Ok [[34] @ rs ''ls'' @ [34], [34] @ rs ''-l'' @ [34]]" by code_simp
  from append_allow_prefix_rule_once [OF text_file_laws json run] run tokens show ?thesis by auto
qed

text \<open>
  What the amend functions write for a protocol and a decision is read back by the
  parser as the same protocol and decision, although a forbidden host is written
  as \<^verbatim>\<open>deny\<close> and the parser accepts several spellings.
\<close>

lemma amend_fields_read_back:
  "protocol_parse (as_policy_string protocol) = Ok protocol
   \<and> parse_network_rule_decision (amend_decision_string d) = Ok d"
  by (cases protocol; cases d)
    (simp_all add: protocol_parse_def parse_network_rule_decision_def decision_parse_def rs_def)

end
