(* ===== verification/Exec_Approval.thy ===== *)
theory Exec_Approval
  imports Command_Safety Policy_Amend
begin

text \<open>
  Whether a command may run (\<^verbatim>\<open>core/src/exec_policy.rs\<close>, with the types of
  \<^verbatim>\<open>core/src/tools/sandboxing.rs\<close> and \<^verbatim>\<open>protocol\<close>), on a Unix build: the command is split
  into the commands of its script, each is judged by the rules of the policy or,
  when no rule covers it, by its danger and the approval settings, and the
  strictest judgement decides. Rules that a user agrees to are appended to the rules
  file and added to the policy in memory.

  Outside the repository: the script parser, the shell quoting used in messages,
  and the executor of blocking tasks.
\<close>

section \<open>Settings\<close>

record granular_approval_config =
  ga_sandbox_approval :: bool
  ga_rules :: bool
  ga_skill_approval :: bool
  ga_request_permissions :: bool
  ga_mcp_elicitations :: bool

datatype ask_for_approval =
    UnlessTrusted
  | OnRequest
  | Granular granular_approval_config
  | Never

datatype sandbox_permissions = UseDefault | RequireEscalated | WithAdditionalPermissions

definition requires_escalated_permissions :: "sandbox_permissions \<Rightarrow> bool" where
  "requires_escalated_permissions sp \<longleftrightarrow> sp = RequireEscalated"

definition requests_sandbox_override :: "sandbox_permissions \<Rightarrow> bool" where
  "requests_sandbox_override sp \<longleftrightarrow> sp \<noteq> UseDefault"

datatype file_system_access_mode = ReadAccess | WriteAccess | DenyAccess

datatype file_system_sandbox_kind = RestrictedKind | UnrestrictedKind | ExternalSandboxKind

record 'q file_system_sandbox_policy =
  fs_kind :: file_system_sandbox_kind
  fs_glob_scan_max_depth :: "nat option"
  fs_entries :: "('q \<times> file_system_access_mode) list"

definition fs_unrestricted :: "'q file_system_sandbox_policy" where
  "fs_unrestricted = \<lparr>fs_kind = UnrestrictedKind, fs_glob_scan_max_depth = None, fs_entries = []\<rparr>"

definition fs_external_sandbox :: "'q file_system_sandbox_policy" where
  "fs_external_sandbox = \<lparr>fs_kind = ExternalSandboxKind, fs_glob_scan_max_depth = None, fs_entries = []\<rparr>"

definition has_denied_read_restrictions :: "'q file_system_sandbox_policy \<Rightarrow> bool" where
  "has_denied_read_restrictions fs \<longleftrightarrow>
     fs_kind fs = RestrictedKind \<and> list_ex (\<lambda>(path, access). access = DenyAccess) (fs_entries fs)"

datatype 'q managed_file_system_permissions =
    ManagedRestricted "('q \<times> file_system_access_mode) list" "nat option"
  | ManagedUnrestricted

fun to_sandbox_policy :: "'q managed_file_system_permissions \<Rightarrow> 'q file_system_sandbox_policy" where
  "to_sandbox_policy (ManagedRestricted entries depth) =
     \<lparr>fs_kind = RestrictedKind, fs_glob_scan_max_depth = depth, fs_entries = entries\<rparr>"
| "to_sandbox_policy ManagedUnrestricted = fs_unrestricted"

datatype network_sandbox_policy = NetworkRestricted | NetworkEnabled

datatype 'q permission_profile =
    Managed "'q managed_file_system_permissions" network_sandbox_policy
  | Disabled
  | External network_sandbox_policy

fun profile_file_system_policy :: "'q permission_profile \<Rightarrow> 'q file_system_sandbox_policy" where
  "profile_file_system_policy (Managed file_system _) = to_sandbox_policy file_system"
| "profile_file_system_policy Disabled = fs_unrestricted"
| "profile_file_system_policy (External _) = fs_external_sandbox"

section \<open>Unmatched commands\<close>

record 'q unmatched_command_context =
  uc_approval_policy :: ask_for_approval
  uc_permission_profile :: "'q permission_profile"
  uc_sandbox_permissions :: sandbox_permissions
  uc_used_complex_parsing :: bool

definition profile_is_unsandboxed :: "'q permission_profile \<Rightarrow> bool" where
  "profile_is_unsandboxed profile = (case profile of Managed _ _ \<Rightarrow> False | Disabled \<Rightarrow> True | External _ \<Rightarrow> True)"

definition render_decision_for_unmatched_command ::
  "bool \<Rightarrow> shell_parser \<Rightarrow> rstr list \<Rightarrow> 'q unmatched_command_context \<Rightarrow> decision" where
  "render_decision_for_unmatched_command linux parse command context =
     (let fs = profile_file_system_policy (uc_permission_profile context) in
      if is_known_safe_command linux parse command \<and> \<not> uc_used_complex_parsing context
         \<and> uc_approval_policy context = UnlessTrusted
      then Allow
      else if command_might_be_dangerous parse command then
        (case uc_approval_policy context of
           Never \<Rightarrow> if profile_is_unsandboxed (uc_permission_profile context) then Allow else Forbidden
         | OnRequest \<Rightarrow> Prompt
         | UnlessTrusted \<Rightarrow> Prompt
         | Granular _ \<Rightarrow> Prompt)
      else
        (case uc_approval_policy context of
           Never \<Rightarrow> Allow
         | UnlessTrusted \<Rightarrow> Prompt
         | OnRequest \<Rightarrow>
             (case fs_kind fs of
                UnrestrictedKind \<Rightarrow> Allow
              | ExternalSandboxKind \<Rightarrow> Allow
              | RestrictedKind \<Rightarrow>
                  if requests_sandbox_override (uc_sandbox_permissions context) then Prompt else Allow)
         | Granular _ \<Rightarrow>
             (case fs_kind fs of
                UnrestrictedKind \<Rightarrow> Allow
              | ExternalSandboxKind \<Rightarrow> Allow
              | RestrictedKind \<Rightarrow>
                  if requests_sandbox_override (uc_sandbox_permissions context) then Prompt else Allow)))"

record exec_policy_commands =
  pc_commands :: "rstr list list"
  pc_used_complex_parsing :: bool

definition commands_for_exec_policy :: "shell_parser \<Rightarrow> rstr list \<Rightarrow> exec_policy_commands" where
  "commands_for_exec_policy parse command =
     (let single =
        (case parse_shell_lc_single_command_prefix parse command of
           Some single_command \<Rightarrow> \<lparr>pc_commands = [single_command], pc_used_complex_parsing = True\<rparr>
         | None \<Rightarrow> \<lparr>pc_commands = [command], pc_used_complex_parsing = False\<rparr>)
      in case parse_shell_lc_plain_commands parse command of
           Some commands \<Rightarrow>
             if commands \<noteq> [] then \<lparr>pc_commands = commands, pc_used_complex_parsing = False\<rparr> else single
         | None \<Rightarrow> single)"

section \<open>Requirements\<close>

type_synonym exec_policy_amendment = "rstr list"

datatype exec_approval_requirement =
    Skip bool "exec_policy_amendment option"
  | NeedsApproval "rstr option" "exec_policy_amendment option"
  | RequirementForbidden rstr

definition PROMPT_CONFLICT_REASON :: rstr where
  "PROMPT_CONFLICT_REASON = rs ''approval required by policy, but AskForApproval is set to Never''"

definition REJECT_SANDBOX_APPROVAL_REASON :: rstr where
  "REJECT_SANDBOX_APPROVAL_REASON =
     rs ''approval required by policy, but AskForApproval::Granular.sandbox_approval is false''"

definition REJECT_RULES_APPROVAL_REASON :: rstr where
  "REJECT_RULES_APPROVAL_REASON =
     rs ''approval required by policy rule, but AskForApproval::Granular.rules is false''"

fun prompt_is_rejected_by_policy :: "ask_for_approval \<Rightarrow> bool \<Rightarrow> rstr option" where
  "prompt_is_rejected_by_policy Never prompt_is_rule = Some PROMPT_CONFLICT_REASON"
| "prompt_is_rejected_by_policy OnRequest prompt_is_rule = None"
| "prompt_is_rejected_by_policy UnlessTrusted prompt_is_rule = None"
| "prompt_is_rejected_by_policy (Granular config) prompt_is_rule =
     (if prompt_is_rule then
        if \<not> ga_rules config then Some REJECT_RULES_APPROVAL_REASON else None
      else if \<not> ga_sandbox_approval config then Some REJECT_SANDBOX_APPROVAL_REASON
      else None)"

definition BANNED_PREFIX_SUGGESTIONS :: "rstr list list" where
  "BANNED_PREFIX_SUGGESTIONS = map (map rs)
     [[''python3''], [''python3'', ''-''], [''python3'', ''-c''], [''python''], [''python'', ''-''],
      [''python'', ''-c''], [''py''], [''py'', ''-3''], [''pythonw''], [''pyw''], [''pypy''], [''pypy3''],
      [''git''], [''bash''], [''bash'', ''-lc''], [''sh''], [''sh'', ''-c''], [''sh'', ''-lc''], [''zsh''],
      [''zsh'', ''-lc''], [''/bin/zsh''], [''/bin/zsh'', ''-lc''], [''/bin/bash''], [''/bin/bash'', ''-lc''],
      [''pwsh''], [''pwsh'', ''-Command''], [''pwsh'', ''-c''], [''powershell''],
      [''powershell'', ''-Command''], [''powershell'', ''-c''], [''powershell.exe''],
      [''powershell.exe'', ''-Command''], [''powershell.exe'', ''-c''], [''env''], [''sudo''], [''node''],
      [''node'', ''-e''], [''perl''], [''perl'', ''-e''], [''ruby''], [''ruby'', ''-e''], [''php''],
      [''php'', ''-r''], [''lua''], [''lua'', ''-e''], [''osascript'']]"

fun is_policy_match :: "'p rule_match \<Rightarrow> bool" where
  "is_policy_match (PrefixRuleMatch _ _ _ _) = True"
| "is_policy_match (HeuristicsRuleMatch _ _) = False"

fun find_map :: "('a \<Rightarrow> 'b option) \<Rightarrow> 'a list \<Rightarrow> 'b option" where
  "find_map f [] = None"
| "find_map f (x # xs) = (case f x of Some y \<Rightarrow> Some y | None \<Rightarrow> find_map f xs)"

fun heuristics_with :: "decision \<Rightarrow> 'p rule_match \<Rightarrow> exec_policy_amendment option" where
  "heuristics_with d (HeuristicsRuleMatch command d') = (if d' = d then Some command else None)"
| "heuristics_with d (PrefixRuleMatch _ _ _ _) = None"

definition try_derive_execpolicy_amendment_for_prompt_rules ::
  "'p rule_match list \<Rightarrow> exec_policy_amendment option" where
  "try_derive_execpolicy_amendment_for_prompt_rules matched_rules =
     (if list_ex (\<lambda>m. is_policy_match m \<and> rule_decision m = Prompt) matched_rules then None
      else find_map (heuristics_with Prompt) matched_rules)"

definition try_derive_execpolicy_amendment_for_allow_rules ::
  "'p rule_match list \<Rightarrow> exec_policy_amendment option" where
  "try_derive_execpolicy_amendment_for_allow_rules matched_rules =
     (if list_ex is_policy_match matched_rules then None
      else find_map (heuristics_with Allow) matched_rules)"

definition prefix_rule_would_approve_all_commands ::
  "'p platform \<Rightarrow> 'p policy \<Rightarrow> rstr list \<Rightarrow> rstr list list \<Rightarrow> (rstr list \<Rightarrow> decision) \<Rightarrow> match_options
     \<Rightarrow> bool" where
  "prefix_rule_would_approve_all_commands pf exec_policy prefix_rule commands fallback options =
     (case (add_prefix_rule exec_policy prefix_rule Allow :: (unit policy_error, 'p policy) result) of
        Err _ \<Rightarrow> False
      | Ok policy_with_prefix_rule \<Rightarrow>
          list_all (\<lambda>command. map_option ev_decision
            (check_with_options pf policy_with_prefix_rule command fallback options) = Some Allow) commands)"

definition derive_requested_execpolicy_amendment_from_prefix_rule ::
  "'p platform \<Rightarrow> rstr list option \<Rightarrow> 'p rule_match list \<Rightarrow> 'p policy \<Rightarrow> rstr list list
     \<Rightarrow> (rstr list \<Rightarrow> decision) \<Rightarrow> match_options \<Rightarrow> exec_policy_amendment option" where
  "derive_requested_execpolicy_amendment_from_prefix_rule pf prefix_rule matched_rules exec_policy commands fallback options =
     (case prefix_rule of
        None \<Rightarrow> None
      | Some prefix_rule \<Rightarrow>
          if prefix_rule = [] then None
          else if prefix_rule \<in> set BANNED_PREFIX_SUGGESTIONS then None
          else if list_ex is_policy_match matched_rules then None
          else if prefix_rule_would_approve_all_commands pf exec_policy prefix_rule commands fallback options
          then Some prefix_rule else None)"

text \<open>\<^verbatim>\<open>Iterator::max_by_key\<close>: the last of the elements with the largest key.\<close>

fun max_by_key :: "('a \<Rightarrow> 'k::linorder) \<Rightarrow> 'a list \<Rightarrow> 'a option" where
  "max_by_key key [] = None"
| "max_by_key key (x # xs) = Some (fold (\<lambda>y best. if key best \<le> key y then y else best) xs x)"

fun prefix_match_with :: "decision \<Rightarrow> 'p rule_match \<Rightarrow> (rstr list \<times> rstr option) option" where
  "prefix_match_with d (PrefixRuleMatch pre d' _ j) = (if d' = d then Some (pre, j) else None)"
| "prefix_match_with d (HeuristicsRuleMatch _ _) = None"

definition render_shlex_command :: "(rstr list \<Rightarrow> rstr option) \<Rightarrow> rstr list \<Rightarrow> rstr" where
  "render_shlex_command shlex args = (case shlex args of Some s \<Rightarrow> s | None \<Rightarrow> join_str (rs '' '') args)"

definition derive_prompt_reason :: "(rstr list \<Rightarrow> rstr option) \<Rightarrow> rstr list \<Rightarrow> 'p evaluation \<Rightarrow> rstr option" where
  "derive_prompt_reason shlex command_args evaluation =
     (let command = render_shlex_command shlex command_args in
      case max_by_key (\<lambda>(pre, _). length pre) (List.map_filter (prefix_match_with Prompt) (ev_matched_rules evaluation)) of
        Some (_, Some justification) \<Rightarrow> Some (rs ''`'' @ command @ rs ''` requires approval: '' @ justification)
      | Some (_, None) \<Rightarrow> Some (rs ''`'' @ command @ rs ''` requires approval by policy'')
      | None \<Rightarrow> None)"

definition derive_forbidden_reason :: "(rstr list \<Rightarrow> rstr option) \<Rightarrow> rstr list \<Rightarrow> 'p evaluation \<Rightarrow> rstr" where
  "derive_forbidden_reason shlex command_args evaluation =
     (let command = render_shlex_command shlex command_args in
      case max_by_key (\<lambda>(pre, _). length pre) (List.map_filter (prefix_match_with Forbidden) (ev_matched_rules evaluation)) of
        Some (_, Some justification) \<Rightarrow> rs ''`'' @ command @ rs ''` rejected: '' @ justification
      | Some (pre, None) \<Rightarrow>
          rs ''`'' @ command @ rs ''` rejected: policy forbids commands starting with `''
            @ render_shlex_command shlex pre @ rs ''`''
      | None \<Rightarrow> rs ''`'' @ command @ rs ''` rejected: blocked by policy'')"

record 'q exec_approval_request =
  rq_command :: "rstr list"
  rq_approval_policy :: ask_for_approval
  rq_permission_profile :: "'q permission_profile"
  rq_sandbox_permissions :: sandbox_permissions
  rq_prefix_rule :: "rstr list option"

record 'p exec_env =
  ee_platform :: "'p platform"
  ee_linux :: bool
  ee_parse :: shell_parser
  ee_shlex :: "rstr list \<Rightarrow> rstr option"

definition exec_policy_fallback :: "'p exec_env \<Rightarrow> 'q exec_approval_request \<Rightarrow> rstr list \<Rightarrow> decision" where
  "exec_policy_fallback env req cmd =
     render_decision_for_unmatched_command (ee_linux env) (ee_parse env) cmd
       \<lparr>uc_approval_policy = rq_approval_policy req, uc_permission_profile = rq_permission_profile req,
        uc_sandbox_permissions = rq_sandbox_permissions req,
        uc_used_complex_parsing = pc_used_complex_parsing (commands_for_exec_policy (ee_parse env) (rq_command req))\<rparr>"

abbreviation host_options :: match_options where
  "host_options \<equiv> \<lparr>resolve_host_executables = True\<rparr>"

definition commands_bypass_sandbox :: "'p platform \<Rightarrow> 'p policy \<Rightarrow> rstr list list \<Rightarrow> bool" where
  "commands_bypass_sandbox pf exec_policy commands =
     list_all (\<lambda>command. list_ex (\<lambda>m. is_policy_match m \<and> rule_decision m = Allow)
       (matches_for_command_with_options pf exec_policy command None host_options)) commands"

text \<open>\<^term>\<open>None\<close> is the panic of an evaluation without matches.\<close>

definition create_exec_approval_requirement_for_command ::
  "'p exec_env \<Rightarrow> 'p policy \<Rightarrow> 'q exec_approval_request \<Rightarrow> exec_approval_requirement option" where
  "create_exec_approval_requirement_for_command env exec_policy req =
     (let pf = ee_platform env;
          command = rq_command req;
          parsed = commands_for_exec_policy (ee_parse env) command;
          commands = pc_commands parsed;
          auto_amendment_allowed = (\<not> pc_used_complex_parsing parsed);
          fallback = exec_policy_fallback env req
      in map_option (\<lambda>evaluation.
        let requested_amendment =
              (if auto_amendment_allowed
               then derive_requested_execpolicy_amendment_from_prefix_rule pf (rq_prefix_rule req)
                      (ev_matched_rules evaluation) exec_policy commands fallback host_options
               else None)
        in case ev_decision evaluation of
             Forbidden \<Rightarrow> RequirementForbidden (derive_forbidden_reason (ee_shlex env) command evaluation)
           | Prompt \<Rightarrow>
               let prompt_is_rule = list_ex (\<lambda>m. is_policy_match m \<and> rule_decision m = Prompt) (ev_matched_rules evaluation)
               in (case prompt_is_rejected_by_policy (rq_approval_policy req) prompt_is_rule of
                     Some reason \<Rightarrow> RequirementForbidden reason
                   | None \<Rightarrow>
                       NeedsApproval (derive_prompt_reason (ee_shlex env) command evaluation)
                         (case requested_amendment of
                            Some a \<Rightarrow> Some a
                          | None \<Rightarrow>
                              if auto_amendment_allowed
                              then try_derive_execpolicy_amendment_for_prompt_rules (ev_matched_rules evaluation)
                              else None))
           | Allow \<Rightarrow>
               Skip (commands_bypass_sandbox pf exec_policy commands)
                 (if auto_amendment_allowed
                  then try_derive_execpolicy_amendment_for_allow_rules (ev_matched_rules evaluation) else None))
        (check_multiple_with_options pf exec_policy commands fallback host_options))"

section \<open>The sandbox of the first attempt\<close>

definition unsandboxed_execution_allowed :: "'q file_system_sandbox_policy \<Rightarrow> bool" where
  "unsandboxed_execution_allowed fs \<longleftrightarrow> \<not> has_denied_read_restrictions fs"

datatype sandbox_override = NoOverride | BypassSandboxFirstAttempt

definition sandbox_override_for_first_attempt ::
  "sandbox_permissions \<Rightarrow> exec_approval_requirement \<Rightarrow> 'q file_system_sandbox_policy \<Rightarrow> sandbox_override" where
  "sandbox_override_for_first_attempt sandbox_permissions requirement fs =
     (if \<not> unsandboxed_execution_allowed fs then NoOverride
      else if (case requirement of Skip bypass_sandbox _ \<Rightarrow> bypass_sandbox | _ \<Rightarrow> False)
      then BypassSandboxFirstAttempt
      else if requires_escalated_permissions sandbox_permissions then BypassSandboxFirstAttempt
      else NoOverride)"

definition sandbox_permissions_preserving_denied_reads ::
  "sandbox_permissions \<Rightarrow> 'q file_system_sandbox_policy \<Rightarrow> sandbox_permissions" where
  "sandbox_permissions_preserving_denied_reads sandbox_permissions fs =
     (if requires_escalated_permissions sandbox_permissions \<and> \<not> unsandboxed_execution_allowed fs
      then UseDefault else sandbox_permissions)"

definition default_exec_approval_requirement ::
  "ask_for_approval \<Rightarrow> 'q file_system_sandbox_policy \<Rightarrow> exec_approval_requirement" where
  "default_exec_approval_requirement policy fs =
     (let needs_approval =
        (case policy of
           Never \<Rightarrow> False
         | OnRequest \<Rightarrow> fs_kind fs = RestrictedKind
         | Granular _ \<Rightarrow> fs_kind fs = RestrictedKind
         | UnlessTrusted \<Rightarrow> True)
      in if needs_approval \<and> (case policy of Granular config \<Rightarrow> \<not> ga_sandbox_approval config | _ \<Rightarrow> False)
         then RequirementForbidden (rs ''approval policy disallowed sandbox approval prompt'')
         else if needs_approval then NeedsApproval None None
         else Skip False None)"

section \<open>Updates\<close>

datatype ('f, 'io, 'je, 'j, 'se) exec_policy_update_error =
    AppendRule 'f "('f, 'io, 'je) amend_error"
  | JoinBlockingTask 'j
  | AddRule "'se policy_error"

record 'p exec_policy_manager =
  mgr_policy :: "'p policy"
  mgr_update_lock_open :: bool

definition exec_policy_manager_new :: "'p policy \<Rightarrow> 'p exec_policy_manager" where
  "exec_policy_manager_new p = \<lparr>mgr_policy = p, mgr_update_lock_open = True\<rparr>"

definition already_allowed :: "'p platform \<Rightarrow> 'p policy \<Rightarrow> rstr list \<Rightarrow> bool" where
  "already_allowed pf p command =
     (case check_multiple_with_options pf p [command] (\<lambda>_. Forbidden) host_options of
        None \<Rightarrow> False
      | Some evaluation \<Rightarrow>
          ev_decision evaluation = Allow
          \<and> list_ex (\<lambda>m. is_policy_match m \<and> rule_decision m = Allow) (ev_matched_rules evaluation))"

text \<open>
  The update lock is held for the whole call, so updates happen one after the
  other. \<open>spawn_blocking\<close> runs the file operation and may fail to join it.
\<close>

definition append_amendment_and_update ::
  "'p platform \<Rightarrow> ('s, 'f, 'io) policy_file_ops \<Rightarrow> (rstr \<Rightarrow> ('je, rstr) result)
     \<Rightarrow> (('s \<Rightarrow> 's \<times> (('f, 'io, 'je) amend_error, unit) result)
          \<Rightarrow> 's \<Rightarrow> 's \<times> ('j, (('f, 'io, 'je) amend_error, unit) result) result)
     \<Rightarrow> 'f \<Rightarrow> exec_policy_amendment \<Rightarrow> 'p exec_policy_manager \<Rightarrow> 's
     \<Rightarrow> 's \<times> 'p exec_policy_manager \<times> (('f, 'io, 'je, 'j, 'se) exec_policy_update_error, unit) result" where
  "append_amendment_and_update pf ops json spawn_blocking policy_path amendment mgr s =
     (if \<not> mgr_update_lock_open mgr
      then (s, mgr, Err (AddRule (InvalidRule (rs ''exec policy update semaphore closed''))))
      else case spawn_blocking (blocking_append_allow_prefix_rule ops json policy_path amendment) s of
          (s', Err source) \<Rightarrow> (s', mgr, Err (JoinBlockingTask source))
        | (s', Ok (Err source)) \<Rightarrow> (s', mgr, Err (AppendRule policy_path source))
        | (s', Ok (Ok ())) \<Rightarrow>
            if already_allowed pf (mgr_policy mgr) amendment then (s', mgr, Ok ())
            else (case add_prefix_rule (mgr_policy mgr) amendment Allow of
                    Err e \<Rightarrow> (s', mgr, Err (AddRule e))
                  | Ok updated_policy \<Rightarrow> (s', mgr\<lparr>mgr_policy := updated_policy\<rparr>, Ok ())))"

definition append_network_rule_and_update ::
  "('s, 'f, 'io) policy_file_ops \<Rightarrow> (rstr \<Rightarrow> ('je, rstr) result) \<Rightarrow> ('se policy_error \<Rightarrow> rstr)
     \<Rightarrow> (('s \<Rightarrow> 's \<times> (('f, 'io, 'je) amend_error, unit) result)
          \<Rightarrow> 's \<Rightarrow> 's \<times> ('j, (('f, 'io, 'je) amend_error, unit) result) result)
     \<Rightarrow> 'f \<Rightarrow> rstr \<Rightarrow> network_rule_protocol \<Rightarrow> decision \<Rightarrow> rstr option \<Rightarrow> 'p exec_policy_manager \<Rightarrow> 's
     \<Rightarrow> 's \<times> 'p exec_policy_manager \<times> (('f, 'io, 'je, 'j, 'se) exec_policy_update_error, unit) result" where
  "append_network_rule_and_update ops json display spawn_blocking policy_path host protocol d justification mgr s =
     (if \<not> mgr_update_lock_open mgr
      then (s, mgr, Err (AddRule (InvalidRule (rs ''exec policy update semaphore closed''))))
      else case spawn_blocking
             (blocking_append_network_rule ops json display policy_path host protocol d justification) s of
          (s', Err source) \<Rightarrow> (s', mgr, Err (JoinBlockingTask source))
        | (s', Ok (Err source)) \<Rightarrow> (s', mgr, Err (AppendRule policy_path source))
        | (s', Ok (Ok ())) \<Rightarrow>
            (case add_network_rule (mgr_policy mgr) host protocol d justification of
               Err e \<Rightarrow> (s', mgr, Err (AddRule e))
             | Ok updated_policy \<Rightarrow> (s', mgr\<lparr>mgr_policy := updated_policy\<rparr>, Ok ())))"

end
