(* ===== verification/Exec_Approval_Facts.thy ===== *)
theory Exec_Approval_Facts
  imports Exec_Approval
begin

text \<open>
  What the approval of commands guarantees: the strictest judgement of all parts of
  a command decides, only rules lift the sandbox, a dangerous command that no rule
  covers does not start without a question, and an accepted amendment takes effect.
\<close>

section \<open>The rules that judge a command\<close>

text \<open>The rules for the command as it is written or, when there are none, for its base name.\<close>

definition rules_for :: "'p platform \<Rightarrow> 'p policy \<Rightarrow> rstr list \<Rightarrow> prefix_rule set" where
  "rules_for pf p cmd =
     (if governing p cmd \<noteq> {} then governing p cmd
      else case host_command pf p cmd of None \<Rightarrow> {} | Some c \<Rightarrow> governing p c)"

lemma rules_for_finite [simp]: "finite (rules_for pf p cmd)"
  by (simp add: rules_for_def split: option.split)

lemma policy_decision_rules_for:
  "policy_decision pf p fb host_options cmd = strictest (rules_for pf p cmd) (fb cmd)"
  by (simp add: policy_decision_def rules_for_def strictest_def split: option.split)

lemma exact_matches_policy: "m \<in> set (exact_matches p cmd) \<Longrightarrow> is_policy_match m"
  by (auto simp: exact_matches_eq set_map_filter rule_matches_def split: if_splits)

lemma host_matches_policy: "m \<in> set (match_host_executable_rules pf p cmd) \<Longrightarrow> is_policy_match m"
  by (auto simp: match_host_executable_rules_def set_map_filter rule_matches_def
      split: list.splits result.splits option.splits if_splits)

lemma policy_matches_rules_for:
  assumes "policy_wf p"
  shows "(\<exists>m \<in> set (matches_for_command_with_options pf p cmd fb host_options).
      is_policy_match m \<and> rule_decision m = d) \<longleftrightarrow> d \<in> pr_decision ` rules_for pf p cmd"
proof -
  let ?e = "exact_matches p cmd" and ?h = "match_host_executable_rules pf p cmd"
  let ?m = "if ?e \<noteq> [] then ?e else ?h"
  note e = exact_matches_decisions [OF assms, of cmd]
  note h = host_matches_decisions [OF assms, of pf cmd]
  have pm: "\<forall>m \<in> set ?m. is_policy_match m"
  proof (cases "?e = []")
    case True
    then show ?thesis using host_matches_policy [of _ pf p cmd] by simp
  next
    case False
    then show ?thesis using exact_matches_policy [of _ p cmd] by simp
  qed
  have "(\<exists>m \<in> set (matches_for_command_with_options pf p cmd fb host_options).
      is_policy_match m \<and> rule_decision m = d) \<longleftrightarrow> (\<exists>m \<in> set ?m. is_policy_match m \<and> rule_decision m = d)"
    by (auto simp: matches_for_command_with_options_def Let_def split: option.split)
  also have "\<dots> \<longleftrightarrow> d \<in> rule_decision ` set ?m"
    using pm by (auto simp only: image_iff)
  also have "rule_decision ` set ?m = pr_decision ` rules_for pf p cmd"
    using image_eq_empty_set [OF e] e h by (simp add: rules_for_def split: option.split)
  finally show ?thesis .
qed

abbreviation request_commands :: "'p exec_env \<Rightarrow> 'q exec_approval_request \<Rightarrow> rstr list list" where
  "request_commands env req \<equiv> pc_commands (commands_for_exec_policy (ee_parse env) (rq_command req))"

lemma request_commands_nonempty: "request_commands env req \<noteq> []"
  by (auto simp: commands_for_exec_policy_def Let_def split: option.splits)

definition judgement :: "'p exec_env \<Rightarrow> 'p policy \<Rightarrow> 'q exec_approval_request \<Rightarrow> rstr list \<Rightarrow> decision" where
  "judgement env p req cmd = strictest (rules_for (ee_platform env) p cmd) (exec_policy_fallback env req cmd)"

lemma evaluation_of_request:
  assumes "policy_wf p"
  shows "\<exists>ev. check_multiple_with_options (ee_platform env) p (request_commands env req)
        (exec_policy_fallback env req) host_options = Some ev
    \<and> ev_decision ev = Max (judgement env p req ` set (request_commands env req))
    \<and> (list_ex (\<lambda>m. is_policy_match m \<and> rule_decision m = d) (ev_matched_rules ev)
        \<longleftrightarrow> (\<exists>c \<in> set (request_commands env req). \<exists>r \<in> rules_for (ee_platform env) p c. pr_decision r = d))"
proof -
  let ?fb = "exec_policy_fallback env req" and ?pf = "ee_platform env" and ?cs = "request_commands env req"
  have "policy_decision ?pf p ?fb host_options = judgement env p req"
    by (rule ext) (simp add: policy_decision_rules_for judgement_def)
  with check_multiple_decision_aux [OF assms, of ?pf ?cs ?fb host_options] request_commands_nonempty [of env req]
  have "map_option ev_decision (check_multiple_with_options ?pf p ?cs ?fb host_options)
      = Some (Max (judgement env p req ` set ?cs))" by simp
  then obtain ev where ev: "check_multiple_with_options ?pf p ?cs ?fb host_options = Some ev"
      "ev_decision ev = Max (judgement env p req ` set ?cs)"
    by auto
  then have "ev_matched_rules ev = concat (map (\<lambda>c. matches_for_command_with_options ?pf p c (Some ?fb) host_options) ?cs)"
    by (auto simp: check_multiple_with_options_def from_matches_def)
  then have "list_ex (\<lambda>m. is_policy_match m \<and> rule_decision m = d) (ev_matched_rules ev)
      \<longleftrightarrow> (\<exists>c \<in> set ?cs. d \<in> pr_decision ` rules_for ?pf p c)"
    using policy_matches_rules_for [OF assms, of ?pf _ "Some ?fb" d] by (simp add: list_ex_iff)
  with ev show ?thesis by (auto simp: image_iff)
qed

text \<open>
  C8: a command is judged by its strictest part. Each command of the script is judged by
  the strictest rule that covers it, or by the fallback when no rule does. Only when
  all parts are allowed does it run without a question; a forbidden part forbids it;
  otherwise it is put to the user, unless the approval settings rule such a question
  out, in which case it is forbidden. The evaluation never panics.
\<close>

theorem exec_approval_strictest:
  assumes "policy_wf p"
  shows "\<exists>rq. create_exec_approval_requirement_for_command env p req = Some rq \<and>
    (case Max (judgement env p req ` set (request_commands env req)) of
       Allow \<Rightarrow> \<exists>b a. rq = Skip b a
     | Forbidden \<Rightarrow> \<exists>reason. rq = RequirementForbidden reason
     | Prompt \<Rightarrow>
         (case prompt_is_rejected_by_policy (rq_approval_policy req)
                 (\<exists>c \<in> set (request_commands env req). \<exists>r \<in> rules_for (ee_platform env) p c. pr_decision r = Prompt) of
            Some reason \<Rightarrow> rq = RequirementForbidden reason
          | None \<Rightarrow> \<exists>reason a. rq = NeedsApproval reason a))"
proof -
  obtain ev where ev: "check_multiple_with_options (ee_platform env) p (request_commands env req)
        (exec_policy_fallback env req) host_options = Some ev"
      "ev_decision ev = Max (judgement env p req ` set (request_commands env req))"
      "list_ex (\<lambda>m. is_policy_match m \<and> rule_decision m = Prompt) (ev_matched_rules ev)
        \<longleftrightarrow> (\<exists>c \<in> set (request_commands env req). \<exists>r \<in> rules_for (ee_platform env) p c. pr_decision r = Prompt)"
    using evaluation_of_request [OF assms, of env req Prompt] by blast
  show ?thesis
    unfolding create_exec_approval_requirement_for_command_def Let_def ev(1) option.map ev(3) ev(2) [symmetric]
    by (cases "ev_decision ev") (simp_all split: option.split)
qed


text \<open>A policy and a request for the examples: \<^verbatim>\<open>git status\<close> inside a script.\<close>

definition sample_env :: "rstr exec_env" where
  "sample_env = \<lparr>ee_platform = unix_platform, ee_linux = True, ee_parse = sample_parser, ee_shlex = (\<lambda>_. None)\<rparr>"

definition sample_request :: "rstr list \<Rightarrow> ask_for_approval \<Rightarrow> rstr exec_approval_request" where
  "sample_request command approval =
     \<lparr>rq_command = command, rq_approval_policy = approval,
      rq_permission_profile = Managed (ManagedRestricted [(rs ''/'', ReadAccess)] None) NetworkRestricted,
      rq_sandbox_permissions = UseDefault, rq_prefix_rule = None\<rparr>"

theorem exec_approval_strictest_witness:
  "\<exists>rq. create_exec_approval_requirement_for_command sample_env sample_policy
      (sample_request [rs ''git'', rs ''push''] OnRequest) = Some rq \<and>
    (case Max (judgement sample_env sample_policy (sample_request [rs ''git'', rs ''push''] OnRequest)
          ` set (request_commands sample_env (sample_request [rs ''git'', rs ''push''] OnRequest))) of
       Allow \<Rightarrow> \<exists>b a. rq = Skip b a
     | Forbidden \<Rightarrow> \<exists>reason. rq = RequirementForbidden reason
     | Prompt \<Rightarrow> True)"
  using exec_approval_strictest [OF sample_policy_wf, of sample_env "sample_request [rs ''git'', rs ''push''] OnRequest"]
  by (elim ex_forward) (auto split: decision.splits)

lemma skip_evaluation:
  assumes "policy_wf p" "create_exec_approval_requirement_for_command env p req = Some (Skip b a)"
  shows "Max (judgement env p req ` set (request_commands env req)) = Allow
    \<and> b = commands_bypass_sandbox (ee_platform env) p (request_commands env req)"
proof -
  obtain ev where ev: "check_multiple_with_options (ee_platform env) p (request_commands env req)
        (exec_policy_fallback env req) host_options = Some ev"
      "ev_decision ev = Max (judgement env p req ` set (request_commands env req))"
    using evaluation_of_request [OF assms(1), of env req] by blast
  show ?thesis
    using assms(2) unfolding create_exec_approval_requirement_for_command_def Let_def ev(1) option.map ev(2) [symmetric]
    by (cases "ev_decision ev") (simp_all split: option.splits)
qed

lemma skip_judgements:
  assumes "policy_wf p" "create_exec_approval_requirement_for_command env p req = Some (Skip b a)"
    and "c \<in> set (request_commands env req)"
  shows "judgement env p req c = Allow"
proof -
  have "judgement env p req c \<le> Max (judgement env p req ` set (request_commands env req))"
    using assms(3) by (intro Max_ge) simp_all
  with skip_evaluation [OF assms(1,2)] show ?thesis by simp
qed

lemma strictest_Allow:
  assumes "strictest R d = Allow" "finite R" "r \<in> R"
  shows "pr_decision r = Allow"
proof -
  have "pr_decision r \<le> Max (pr_decision ` R)" using assms(2,3) by (intro Max_ge) simp_all
  moreover have "Max (pr_decision ` R) = Allow" using assms(1,3) by (auto simp: strictest_def split: if_splits)
  ultimately show ?thesis by simp
qed

text \<open>
  C10: only rules or an approved escalation lift the sandbox. If the first attempt runs
  outside the sandbox, then no read is denied by the active profile, and either the
  request asked for escalation or every command of the script is covered by a rule
  and every rule that covers it allows it.
\<close>

theorem sandbox_bypass_needs_rules:
  assumes "policy_wf p" "create_exec_approval_requirement_for_command env p req = Some rq"
    and "sandbox_override_for_first_attempt (rq_sandbox_permissions req) rq fs = BypassSandboxFirstAttempt"
  shows "\<not> has_denied_read_restrictions fs \<and>
    (rq_sandbox_permissions req = RequireEscalated \<or>
     (\<forall>c \<in> set (request_commands env req). rules_for (ee_platform env) p c \<noteq> {}
        \<and> (\<forall>r \<in> rules_for (ee_platform env) p c. pr_decision r = Allow)))"
proof (cases "rq_sandbox_permissions req = RequireEscalated")
  case True
  with assms(3) show ?thesis
    by (simp add: sandbox_override_for_first_attempt_def unsandboxed_execution_allowed_def split: if_splits)
next
  case False
  with assms(3) obtain a where rq: "rq = Skip True a" and fs: "\<not> has_denied_read_restrictions fs"
    by (auto simp: sandbox_override_for_first_attempt_def unsandboxed_execution_allowed_def
        requires_escalated_permissions_def split: if_splits exec_approval_requirement.splits)
  from assms(2) have b: "commands_bypass_sandbox (ee_platform env) p (request_commands env req)"
    using skip_evaluation [OF assms(1)] by (auto simp: rq)
  have "rules_for (ee_platform env) p c \<noteq> {} \<and> (\<forall>r \<in> rules_for (ee_platform env) p c. pr_decision r = Allow)"
    if c: "c \<in> set (request_commands env req)" for c
  proof -
    from b c have "\<exists>m \<in> set (matches_for_command_with_options (ee_platform env) p c None host_options).
        is_policy_match m \<and> rule_decision m = Allow"
      by (auto simp: commands_bypass_sandbox_def list_all_iff list_ex_iff)
    then have "rules_for (ee_platform env) p c \<noteq> {}"
      unfolding policy_matches_rules_for [OF assms(1)] by auto
    with skip_judgements [OF assms(1) assms(2) [unfolded rq] c] show ?thesis
      by (auto simp: judgement_def intro: strictest_Allow)
  qed
  with fs show ?thesis by blast
qed

theorem sandbox_bypass_needs_rules_witness:
  "rules_for (ee_platform sample_env) sample_policy [rs ''git'', rs ''status''] \<noteq> {}"
proof -
  let ?req = "sample_request [rs ''git'', rs ''status''] OnRequest"
  have c: "create_exec_approval_requirement_for_command sample_env sample_policy ?req = Some (Skip True None)"
    unfolding sample_policy_def by code_simp
  have o: "sandbox_override_for_first_attempt (rq_sandbox_permissions ?req) (Skip True None)
      (fs_unrestricted :: rstr file_system_sandbox_policy) = BypassSandboxFirstAttempt"
    by code_simp
  have "rq_sandbox_permissions ?req \<noteq> RequireEscalated" by (simp add: sample_request_def)
  moreover have "[rs ''git'', rs ''status''] \<in> set (request_commands sample_env ?req)" by code_simp
  ultimately show ?thesis using sandbox_bypass_needs_rules [OF sample_policy_wf c o] by blast
qed

text \<open>
  C9: a command that no rule covers does not start silently when it is dangerous: if the
  whole command needs no approval, then each of its parts without a rule is either not
  flagged as dangerous, or the user has turned off both questions and the sandbox. When
  only trusted commands may start unasked, such a part is on the safe list; and a part
  that asks for more than the sandbox of a restricted profile is not started unasked
  when questions are allowed.
\<close>

theorem unmatched_command_gate:
  assumes "policy_wf p" "texts_from_source (ee_parse env)"
    and "create_exec_approval_requirement_for_command env p req = Some (Skip b a)"
    and "c \<in> set (request_commands env req)" "rules_for (ee_platform env) p c = {}"
  shows "(command_might_be_dangerous (ee_parse env) c \<longrightarrow>
        rq_approval_policy req = Never \<and> profile_is_unsandboxed (rq_permission_profile req))
    \<and> (rq_approval_policy req = UnlessTrusted \<longrightarrow> is_known_safe_command (ee_linux env) (ee_parse env) c)
    \<and> (fs_kind (profile_file_system_policy (rq_permission_profile req)) = RestrictedKind \<longrightarrow>
        requests_sandbox_override (rq_sandbox_permissions req) \<longrightarrow>
        rq_approval_policy req \<in> {Never, UnlessTrusted})"
proof -
  have "exec_policy_fallback env req c = Allow"
    using skip_judgements [OF assms(1,3,4)] assms(5) by (simp add: judgement_def strictest_def)
  then show ?thesis
    using known_safe_not_dangerous_aux [OF assms(2), of "ee_linux env" c]
    by (auto simp: exec_policy_fallback_def render_decision_for_unmatched_command_def Let_def
        split: if_splits ask_for_approval.splits)
qed


theorem unmatched_command_gate_witness:
  "\<not> command_might_be_dangerous (ee_parse sample_env) [rs ''ls'']"
proof -
  let ?req = "sample_request [rs ''ls''] OnRequest"
  have c: "create_exec_approval_requirement_for_command sample_env sample_policy ?req = Some (Skip False (Some [rs ''ls'']))"
    unfolding sample_policy_def by code_simp
  have m: "[rs ''ls''] \<in> set (request_commands sample_env ?req)" by code_simp
  have "host_command (ee_platform sample_env) sample_policy [rs ''ls''] = None"
    unfolding sample_policy_def by code_simp
  then have r: "rules_for (ee_platform sample_env) sample_policy [rs ''ls''] = {}"
    by (auto simp: rules_for_def governing_def all_rules_def sample_policy_def from_parts_def rs_def)
  have "texts_from_source (ee_parse sample_env)" by (simp add: sample_env_def sample_parser_texts)
  from unmatched_command_gate [OF sample_policy_wf this c m r] show ?thesis
    by (auto simp: sample_request_def)
qed

section \<open>Amendments\<close>

lemma covers_extension: "covers r cmd \<Longrightarrow> prefix cmd cmd' \<Longrightarrow> covers r cmd'"
  unfolding covers_def using prefix_order.trans by blast

lemma governing_extension: "prefix cmd cmd' \<Longrightarrow> governing p cmd \<subseteq> governing p cmd'"
  by (auto simp: governing_def intro: covers_extension)

lemma host_command_extension:
  assumes "host_command pf p cmd = Some c" "prefix cmd cmd'"
  shows "\<exists>c'. host_command pf p cmd' = Some c' \<and> prefix c c'"
proof -
  from assms(1) obtain first args basename where "cmd = first # args" "c = basename # args"
    by (auto simp: host_command_def split: list.splits result.splits option.splits if_splits)
  moreover from this assms(2) obtain rest where "cmd' = first # args @ rest" by (auto simp: prefix_def)
  ultimately show ?thesis using assms(1)
    by (auto simp: host_command_def split: result.splits option.splits if_splits)
qed

lemma rules_for_extension:
  assumes "prefix cmd cmd'" "rules_for pf p cmd \<noteq> {}"
  shows "rules_for pf p cmd' \<noteq> {}"
proof (cases "governing p cmd = {}")
  case True
  with assms(2) obtain c where c: "host_command pf p cmd = Some c" "governing p c \<noteq> {}"
    by (auto simp: rules_for_def split: option.splits)
  from host_command_extension [OF c(1) assms(1)] obtain c' where "host_command pf p cmd' = Some c'" "prefix c c'"
    by blast
  with c(2) governing_extension [of c c' p] show ?thesis by (auto simp: rules_for_def)
next
  case False
  with governing_extension [OF assms(1), of p] show ?thesis by (auto simp: rules_for_def)
qed

lemma strictest_all_Allow: "R \<noteq> {} \<Longrightarrow> \<forall>r \<in> R. pr_decision r = Allow \<Longrightarrow> strictest R d = Allow"
  by (simp add: strictest_def image_constant_conv)

lemma already_allowed_rules:
  assumes "policy_wf p" "already_allowed pf p cmd"
  shows "rules_for pf p cmd \<noteq> {}"
proof -
  from assms(2) have "\<exists>m \<in> set (matches_for_command_with_options pf p cmd (Some (\<lambda>_. Forbidden)) host_options).
      is_policy_match m \<and> rule_decision m = Allow"
    by (auto simp: already_allowed_def check_multiple_with_options_def from_matches_def list_ex_iff split: option.splits)
  then show ?thesis unfolding policy_matches_rules_for [OF assms(1)] by auto
qed

lemma added_rule_allows:
  assumes "policy_wf p" "(add_prefix_rule p am Allow :: ('se policy_error, 'p policy) result) = Ok p'"
    and "prefix am cmd" "\<forall>r \<in> rules_for pf p cmd. pr_decision r = Allow"
  shows "rules_for pf p' cmd \<noteq> {} \<and> (\<forall>r \<in> rules_for pf p' cmd. pr_decision r = Allow)"
proof -
  from assms(2,3) have g: "governing p' cmd = insert (single_rule (hd am) (tl am) Allow) (governing p cmd)"
    by (simp add: add_prefix_rule_governing)
  moreover from assms(4) have "\<forall>r \<in> governing p cmd. pr_decision r = Allow"
    by (auto simp: rules_for_def split: if_splits)
  ultimately show ?thesis by (auto simp: rules_for_def single_rule_def)
qed

lemma append_amendment_cases:
  fixes result :: "(('f, 'io, 'je, 'j, 'se) exec_policy_update_error, unit) result"
  assumes run: "append_amendment_and_update pf ops json spawn_blocking path am mgr s = (s', mgr', result)"
  shows "mgr' = mgr \<and> \<not> is_ok result
    \<or> mgr' = mgr \<and> already_allowed pf (mgr_policy mgr) am
    \<or> (\<exists>p'. (add_prefix_rule (mgr_policy mgr) am Allow :: ('se policy_error, 'p policy) result) = Ok p'
        \<and> mgr' = mgr\<lparr>mgr_policy := p'\<rparr> \<and> is_ok result)"
proof -
  let ?add = "add_prefix_rule (mgr_policy mgr) am Allow :: ('se policy_error, 'p policy) result"
  obtain s1 r where sp: "spawn_blocking (blocking_append_allow_prefix_rule ops json path am) s = (s1, r)"
    by (cases "spawn_blocking (blocking_append_allow_prefix_rule ops json path am) s")
  note def = run [unfolded append_amendment_and_update_def sp]
  show ?thesis
  proof (cases "mgr_update_lock_open mgr")
    case unlocked: True
    show ?thesis
    proof (cases r)
      case (Err e)
      with def unlocked show ?thesis by auto
    next
      case (Ok r2)
      show ?thesis
      proof (cases r2)
        case (Err e)
        with Ok def unlocked show ?thesis by auto
      next
        case inner: (Ok u)
        show ?thesis
        proof (cases "already_allowed pf (mgr_policy mgr) am")
          case True
          with Ok inner def unlocked show ?thesis by (simp split: unit.splits)
        next
          case False
          with Ok inner def unlocked show ?thesis by (cases ?add) (auto split: unit.splits)
        qed
      qed
    qed
  qed (use def in auto)
qed

text \<open>
  C11: an amendment that is reported as saved takes effect at once: afterwards every
  command that starts with the amended prefix is allowed, unless a rule that was
  there before is stricter about it. Whether the call succeeds or fails, the policy
  in memory stays well formed, and a failed call leaves it as it was.
\<close>

theorem amendment_takes_effect:
  assumes wf: "policy_wf (mgr_policy mgr)"
    and run: "append_amendment_and_update pf ops json spawn_blocking path am mgr s
      = (s', mgr', (result :: (('f, 'io, 'je, 'j, 'se) exec_policy_update_error, unit) result))"
  shows "policy_wf (mgr_policy mgr')
    \<and> (\<not> is_ok result \<longrightarrow> mgr' = mgr)
    \<and> (is_ok result \<longrightarrow> prefix am cmd \<longrightarrow> (\<forall>r \<in> rules_for pf (mgr_policy mgr) cmd. pr_decision r = Allow) \<longrightarrow>
        map_option ev_decision (check_with_options pf (mgr_policy mgr') cmd fallback host_options) = Some Allow)"
proof -
  let ?p = "mgr_policy mgr"
  consider (failed) "mgr' = mgr" "\<not> is_ok result"
    | (same) "mgr' = mgr" "already_allowed pf ?p am"
    | (added) p' where "(add_prefix_rule ?p am Allow :: ('se policy_error, 'a policy) result) = Ok p'"
        "mgr' = mgr\<lparr>mgr_policy := p'\<rparr>" "is_ok result"
    using append_amendment_cases [OF run] by blast
  then have "policy_wf (mgr_policy mgr') \<and> (\<not> is_ok result \<longrightarrow> mgr' = mgr)
    \<and> (is_ok result \<longrightarrow> prefix am cmd \<longrightarrow> (\<forall>r \<in> rules_for pf ?p cmd. pr_decision r = Allow) \<longrightarrow>
        rules_for pf (mgr_policy mgr') cmd \<noteq> {} \<and> (\<forall>r \<in> rules_for pf (mgr_policy mgr') cmd. pr_decision r = Allow))"
  proof cases
    case failed
    with wf show ?thesis by simp
  next
    case same
    with wf show ?thesis using rules_for_extension [OF _ already_allowed_rules [OF wf]] by auto
  next
    case added
    with wf show ?thesis using added_rule_allows [OF wf added(1)] add_prefix_rule_wf [OF wf added(1)] by auto
  qed
  then show ?thesis
    by (auto simp: check_with_options_decision_aux policy_decision_rules_for strictest_all_Allow)
qed


definition run_blocking :: "('s \<Rightarrow> 's \<times> 'r) \<Rightarrow> 's \<Rightarrow> 's \<times> (unit, 'r) result" where
  "run_blocking f s = (case f s of (s', r) \<Rightarrow> (s', Ok r))"

theorem amendment_takes_effect_witness:
  "\<exists>s' mgr'. append_amendment_and_update unix_platform text_file quoting run_blocking ()
      [rs ''cargo'', rs ''test''] (exec_policy_manager_new sample_policy) []
        = (s', mgr', (Ok () :: ((unit, unit, unit, unit, unit) exec_policy_update_error, unit) result))
    \<and> map_option ev_decision (check_with_options unix_platform (mgr_policy mgr')
        [rs ''cargo'', rs ''test'', rs ''--all''] (\<lambda>_. Prompt) host_options) = Some Allow"
proof -
  let ?m = "exec_policy_manager_new sample_policy" and ?am = "[rs ''cargo'', rs ''test'']"
    and ?cmd = "[rs ''cargo'', rs ''test'', rs ''--all'']"
  obtain s' mgr' and result :: "((unit, unit, unit, unit, unit) exec_policy_update_error, unit) result" where
    run: "append_amendment_and_update unix_platform text_file quoting run_blocking () ?am ?m [] = (s', mgr', result)"
    by (cases "append_amendment_and_update unix_platform text_file quoting run_blocking () ?am ?m []
        :: rstr \<times> rstr exec_policy_manager \<times> ((unit, unit, unit, unit, unit) exec_policy_update_error, unit) result")
  have "is_ok (snd (snd (append_amendment_and_update unix_platform text_file quoting run_blocking () ?am ?m []
      :: rstr \<times> rstr exec_policy_manager \<times> ((unit, unit, unit, unit, unit) exec_policy_update_error, unit) result)))"
    unfolding sample_policy_def by code_simp
  with run have ok: "is_ok result" by simp
  then have "result = Ok ()" by (cases result) auto
  have wf: "policy_wf (mgr_policy ?m)" by (simp add: exec_policy_manager_new_def sample_policy_wf)
  have h: "host_command unix_platform sample_policy ?cmd = None" unfolding sample_policy_def by code_simp
  have "rules_for unix_platform (mgr_policy ?m) ?cmd = {}"
    using h by (auto simp: exec_policy_manager_new_def rules_for_def governing_def all_rules_def sample_policy_def
        from_parts_def rs_def)
  with amendment_takes_effect [OF wf run, of ?cmd "\<lambda>_. Prompt"] ok run \<open>result = Ok ()\<close> show ?thesis by auto
qed

end
