(* ===== verification/Head_Tail_Buffer.thy ===== *)
theory Head_Tail_Buffer
  imports Rust_Prelude
begin

text \<open>
  The capped output buffer of unified exec
  (\<^verbatim>\<open>core/src/unified_exec/head_tail_buffer.rs\<close>): chunks of bytes go to a head until
  its budget is used, the rest to a tail whose oldest bytes are dropped. The model
  keeps the two queues of chunks and the cached byte counts; the specification is
  the list of all bytes pushed, of which the buffer shows the first and the last
  ones.
\<close>

section \<open>The buffer\<close>

type_synonym byte = "8 word"

record head_tail_buffer =
  max_bytes :: nat
  head_budget :: nat
  tail_budget :: nat
  head :: "byte list list"
  tail :: "byte list list"
  head_bytes :: nat
  tail_bytes :: nat
  omitted_bytes :: nat

definition UNIFIED_EXEC_OUTPUT_MAX_BYTES :: nat where
  "UNIFIED_EXEC_OUTPUT_MAX_BYTES = 1024 * 1024"

definition buffer_new :: "nat \<Rightarrow> head_tail_buffer" where
  "buffer_new mx =
     (let hb = mx div 2 in
      \<lparr>max_bytes = mx, head_budget = hb, tail_budget = mx - hb, head = [], tail = [],
       head_bytes = 0, tail_bytes = 0, omitted_bytes = 0\<rparr>)"

definition buffer_default :: head_tail_buffer where
  "buffer_default = buffer_new UNIFIED_EXEC_OUTPUT_MAX_BYTES"

definition retained_bytes :: "head_tail_buffer \<Rightarrow> nat" where
  "retained_bytes b = saturating_add (head_bytes b) (tail_bytes b)"

text \<open>The loop of \<^verbatim>\<open>trim_tail_to_budget\<close> on the tail queue, its byte count and the omitted count.\<close>

fun trim_loop :: "nat \<Rightarrow> byte list list \<Rightarrow> nat \<Rightarrow> nat \<Rightarrow> byte list list \<times> nat \<times> nat" where
  "trim_loop excess [] tb om = ([], tb, om)"
| "trim_loop excess (front # rest) tb om =
     (if excess = 0 then (front # rest, tb, om)
      else if excess \<ge> length front
      then trim_loop (excess - length front) rest (tb - length front) (saturating_add om (length front))
      else (drop excess front # rest, tb - excess, saturating_add om excess))"

definition trim_tail_to_budget :: "head_tail_buffer \<Rightarrow> head_tail_buffer" where
  "trim_tail_to_budget b =
     (let excess = tail_bytes b - tail_budget b;
          (tl', tb', om') = trim_loop excess (tail b) (tail_bytes b) (omitted_bytes b)
      in b\<lparr>tail := tl', tail_bytes := tb', omitted_bytes := om'\<rparr>)"

definition push_to_tail :: "head_tail_buffer \<Rightarrow> byte list \<Rightarrow> head_tail_buffer" where
  "push_to_tail b chunk =
     (if tail_budget b = 0 then b\<lparr>omitted_bytes := saturating_add (omitted_bytes b) (length chunk)\<rparr>
      else if length chunk \<ge> tail_budget b then
        let start = length chunk - tail_budget b;
            kept = drop start chunk;
            dropped = length chunk - length kept
        in b\<lparr>omitted_bytes := saturating_add (saturating_add (omitted_bytes b) (tail_bytes b)) dropped,
             tail := [kept], tail_bytes := length kept\<rparr>
      else trim_tail_to_budget
        (b\<lparr>tail_bytes := saturating_add (tail_bytes b) (length chunk), tail := tail b @ [chunk]\<rparr>))"

definition push_chunk :: "head_tail_buffer \<Rightarrow> byte list \<Rightarrow> head_tail_buffer" where
  "push_chunk b chunk =
     (if max_bytes b = 0 then b\<lparr>omitted_bytes := saturating_add (omitted_bytes b) (length chunk)\<rparr>
      else if head_bytes b < head_budget b then
        let remaining_head = head_budget b - head_bytes b in
        if length chunk \<le> remaining_head then
          b\<lparr>head_bytes := saturating_add (head_bytes b) (length chunk), head := head b @ [chunk]\<rparr>
        else
          let head_part = take remaining_head chunk; tail_part = drop remaining_head chunk;
              b' = (if head_part \<noteq> [] then
                      b\<lparr>head_bytes := saturating_add (head_bytes b) (length head_part),
                        head := head b @ [head_part]\<rparr>
                    else b)
          in push_to_tail b' tail_part
      else push_to_tail b chunk)"

definition snapshot_chunks :: "head_tail_buffer \<Rightarrow> byte list list" where
  "snapshot_chunks b = head b @ tail b"

definition to_bytes :: "head_tail_buffer \<Rightarrow> byte list" where
  "to_bytes b = concat (head b) @ concat (tail b)"

definition drain_chunks :: "head_tail_buffer \<Rightarrow> head_tail_buffer \<times> byte list list" where
  "drain_chunks b =
     (b\<lparr>head := [], tail := [], head_bytes := 0, tail_bytes := 0, omitted_bytes := 0\<rparr>, head b @ tail b)"

section \<open>Specification: the first and the last bytes\<close>

definition last_bytes :: "nat \<Rightarrow> 'a list \<Rightarrow> 'a list" where
  "last_bytes n xs = drop (length xs - n) xs"

definition head_tail_view :: "nat \<Rightarrow> 'a list \<Rightarrow> 'a list" where
  "head_tail_view mx xs = take (mx div 2) xs @ last_bytes (mx - mx div 2) (drop (mx div 2) xs)"

text \<open>The buffer holds the view of the bytes pushed so far, and its counters say so.\<close>

definition buffer_holds :: "nat \<Rightarrow> byte list \<Rightarrow> head_tail_buffer \<Rightarrow> bool" where
  "buffer_holds mx xs b \<longleftrightarrow>
     max_bytes b = mx \<and> head_budget b = mx div 2 \<and> tail_budget b = mx - mx div 2
     \<and> concat (head b) = take (head_budget b) xs
     \<and> concat (tail b) = last_bytes (tail_budget b) (drop (head_budget b) xs)
     \<and> head_bytes b = length (concat (head b)) \<and> tail_bytes b = length (concat (tail b))
     \<and> omitted_bytes b = min usize_max (length xs - (head_bytes b + tail_bytes b))"

lemma length_last_bytes [simp]: "length (last_bytes n xs) = min n (length xs)"
  by (simp add: last_bytes_def)

lemma last_bytes_append:
  "last_bytes n (xs @ ys) = (if n \<le> length ys then last_bytes n ys else last_bytes (n - length ys) xs @ ys)"
  by (auto simp: last_bytes_def)

lemma last_bytes_last_bytes: "m \<le> n \<Longrightarrow> last_bytes m (last_bytes n xs) = last_bytes m xs"
proof -
  assume "m \<le> n"
  then have "length xs - (length xs - n + m) + (length xs - n) = length xs - m"
    if "length xs - n + m \<le> length xs \<or> n < length xs" using that by linarith
  with \<open>m \<le> n\<close> show ?thesis by (cases "n < length xs") (simp_all add: last_bytes_def)
qed

lemma trim_loop_spec:
  assumes "excess \<le> length (concat t)" "tb = length (concat t)" "om \<le> usize_max"
  shows "\<exists>t'. trim_loop excess t tb om = (t', tb - excess, saturating_add om excess)
    \<and> concat t' = drop excess (concat t)"
  using assms
proof (induction excess t tb om rule: trim_loop.induct)
  case (1 excess tb om)
  then show ?case by simp
next
  case (2 excess front rest tb om)
  show ?case
  proof (cases "excess = 0 \<or> excess < length front")
    case True
    with 2 show ?thesis by auto
  next
    case False
    have om: "saturating_add om (length front) \<le> usize_max" by (simp add: saturating_add_def)
    have "\<exists>t'. trim_loop (excess - length front) rest (tb - length front) (saturating_add om (length front))
        = (t', tb - length front - (excess - length front),
           saturating_add (saturating_add om (length front)) (excess - length front))
      \<and> concat t' = drop (excess - length front) (concat rest)"
      using False 2(2-4) om by (intro 2(1)) auto
    then show ?thesis using False 2(2-4) by (auto simp: saturating_add_assoc)
  qed
qed

lemma buffer_holds_parts:
  assumes "buffer_holds mx xs b"
  shows "max_bytes b = mx" "head_budget b = mx div 2" "tail_budget b = mx - mx div 2"
    "concat (head b) = take (head_budget b) xs"
    "concat (tail b) = last_bytes (tail_budget b) (drop (head_budget b) xs)"
    "head_bytes b = length (concat (head b))" "tail_bytes b = length (concat (tail b))"
    "omitted_bytes b = min usize_max (length xs - (head_bytes b + tail_bytes b))"
  using assms unfolding buffer_holds_def by blast+

lemma buffer_holdsI:
  assumes "max_bytes b = mx" "head_budget b = mx div 2" "tail_budget b = mx - mx div 2"
    "concat (head b) = take (mx div 2) xs"
    "concat (tail b) = last_bytes (mx - mx div 2) (drop (mx div 2) xs)"
    "head_bytes b = min (mx div 2) (length xs)"
    "tail_bytes b = min (mx - mx div 2) (length xs - mx div 2)"
    "omitted_bytes b = min usize_max (length xs - (head_bytes b + tail_bytes b))"
  shows "buffer_holds mx xs b"
  unfolding buffer_holds_def using assms by (metis length_drop length_last_bytes length_take min.commute)

lemma buffer_holdsD:
  assumes "buffer_holds mx xs b"
  shows "head_bytes b = min (head_budget b) (length xs)"
    "tail_bytes b = min (tail_budget b) (length xs - head_budget b)"
    "head_bytes b + tail_bytes b \<le> length xs"
    "omitted_bytes b \<le> usize_max" "head_budget b + tail_budget b = mx"
  using assms by (auto simp: buffer_holds_def)

lemma push_to_tail_holds:
  assumes b: "buffer_holds mx xs b" and full: "head_budget b \<le> length xs" and mx: "mx \<le> usize_max"
  shows "buffer_holds mx (xs @ chunk) (push_to_tail b chunk)"
proof -
  let ?hb = "head_budget b" and ?tb = "tail_budget b" and ?d = "drop (head_budget b) xs"
  note D = buffer_holdsD [OF b]
  have om: "omitted_bytes b = min usize_max (length xs - (?hb + tail_bytes b))" and H: "head_bytes b = ?hb"
    using full D(1) buffer_holds_parts(8) [OF b] by simp_all
  have keep: "max_bytes b = mx" "?hb = mx div 2" "?tb = mx - mx div 2" "concat (head b) = take ?hb xs"
    by (rule buffer_holds_parts [OF b])+
  have view: "take ?hb (xs @ chunk) = take ?hb xs" "drop ?hb (xs @ chunk) = ?d @ chunk"
    using full by simp_all
  have finish: "buffer_holds mx (xs @ chunk) b'"
    if "max_bytes b' = mx" "head_budget b' = ?hb" "tail_budget b' = ?tb" "head b' = head b" "head_bytes b' = ?hb"
      "concat (tail b') = last_bytes ?tb (?d @ chunk)"
      "tail_bytes b' = min ?tb (length xs - ?hb + length chunk)"
      "omitted_bytes b' = min usize_max (length xs + length chunk - (?hb + tail_bytes b'))" for b'
  proof (rule buffer_holdsI)
    show "concat (head b') = take (mx div 2) (xs @ chunk)" using that(4) keep(2,4) view(1) by metis
    show "concat (tail b') = last_bytes (mx - mx div 2) (drop (mx div 2) (xs @ chunk))"
      using that(6) keep(2,3) view(2) by metis
    show "head_bytes b' = min (mx div 2) (length (xs @ chunk))" using that(5) keep(2) full by simp
    show "tail_bytes b' = min (mx - mx div 2) (length (xs @ chunk) - mx div 2)"
      using that(7) keep(2,3) full by simp
    show "omitted_bytes b' = min usize_max (length (xs @ chunk) - (head_bytes b' + tail_bytes b'))"
      using that(5,8) by simp
  qed (use that(1-3) keep(2,3) in simp_all)
  consider (zero) "?tb = 0" | (big) "?tb \<noteq> 0" "?tb \<le> length chunk" | (small) "length chunk < ?tb" by linarith
  then show ?thesis
  proof cases
    case zero
    then have "tail_bytes b = 0" "concat (tail b) = []"
      using D(2) buffer_holds_parts(5) [OF b] by (simp_all add: last_bytes_def)
    with zero om full keep(1) H show ?thesis
      by (intro finish) (simp_all add: push_to_tail_def saturating_add_min last_bytes_def)
  next
    case big
    have "last_bytes ?tb (?d @ chunk) = last_bytes ?tb chunk" using big by (simp add: last_bytes_append)
    moreover have "saturating_add (saturating_add (omitted_bytes b) (tail_bytes b)) (length chunk - ?tb)
        = min usize_max (length xs + length chunk - (?hb + ?tb))"
      using big D(3) H full by (simp add: om saturating_add_assoc saturating_add_min)
    ultimately show ?thesis
      using big keep(1) H by (intro finish) (simp_all add: push_to_tail_def Let_def last_bytes_def)
  next
    case small
    let ?t = "tail b @ [chunk]" and ?n = "tail_bytes b + length chunk"
    have tail_b: "concat (tail b) = last_bytes ?tb ?d" "length (concat (tail b)) = tail_bytes b"
      by (rule buffer_holds_parts(5) [OF b], rule buffer_holds_parts(7) [OF b, symmetric])
    have "?n \<le> usize_max" using D(2,5) small keep mx by linarith
    then have n: "saturating_add (tail_bytes b) (length chunk) = ?n" by (rule saturating_add_exact)
    have len: "length (concat ?t) = ?n" using tail_b by simp
    obtain t' where t': "trim_loop (?n - ?tb) ?t ?n (omitted_bytes b)
        = (t', ?n - (?n - ?tb), saturating_add (omitted_bytes b) (?n - ?tb))"
        "concat t' = drop (?n - ?tb) (concat ?t)"
      using trim_loop_spec [of "?n - ?tb" ?t ?n "omitted_bytes b"] len D(4) by auto
    have "drop (?n - ?tb) (concat ?t) = last_bytes ?tb (concat ?t)" using len by (simp add: last_bytes_def)
    also have "\<dots> = last_bytes ?tb (?d @ chunk)"
      using small by (simp add: tail_b(1) last_bytes_append last_bytes_last_bytes)
    finally have tail: "concat t' = last_bytes ?tb (?d @ chunk)" using t'(2) by simp
    have om': "saturating_add (omitted_bytes b) (?n - ?tb)
        = min usize_max (length xs + length chunk - (?hb + (?n - (?n - ?tb))))"
      using D(2,3) H by (simp add: om saturating_add_min)
    let ?b = "b\<lparr>tail_bytes := ?n - (?n - ?tb), tail := t',
        omitted_bytes := saturating_add (omitted_bytes b) (?n - ?tb)\<rparr>"
    have count: "?n - (?n - ?tb) = min ?tb (length xs - ?hb + length chunk)"
      using D(2) small by (auto simp: min_def)
    have "buffer_holds mx (xs @ chunk) ?b"
    proof (rule finish)
      show "tail_bytes ?b = min ?tb (length xs - ?hb + length chunk)" using count by simp
      show "omitted_bytes ?b = min usize_max (length xs + length chunk - (?hb + tail_bytes ?b))" using om' by simp
    qed (simp_all add: keep(1) H tail)
    moreover have "push_to_tail b chunk = ?b"
      using small t'(1) by (simp add: push_to_tail_def trim_tail_to_budget_def n)
    ultimately show ?thesis by simp
  qed
qed

lemma head_extend_holds:
  assumes b: "buffer_holds mx xs b" and fits: "length xs + length chunk \<le> head_budget b"
    and mx: "mx \<le> usize_max"
  shows "buffer_holds mx (xs @ chunk)
    (b\<lparr>head_bytes := saturating_add (head_bytes b) (length chunk), head := head b @ [chunk]\<rparr>)"
proof -
  note D = buffer_holdsD [OF b] and P = buffer_holds_parts [OF b]
  have hb: "length xs + length chunk \<le> mx div 2" using fits P(2) by simp
  have "head_bytes b = length xs" using D(1) fits by simp
  then have bytes: "saturating_add (head_bytes b) (length chunk) = length xs + length chunk"
    using fits D(5) mx by (simp add: saturating_add_exact)
  have head: "concat (head b) = xs" using P(4) fits by simp
  have tail: "concat (tail b) = []" "tail_bytes b = 0" using D(2) P(5) fits by (simp_all add: last_bytes_def)
  have om: "omitted_bytes b = 0" using P(8) D(1) fits by simp
  show ?thesis
    unfolding bytes by (rule buffer_holdsI; insert hb head tail om P(1-3); simp add: last_bytes_def)
qed

lemma push_chunk_holds:
  assumes b: "buffer_holds mx xs b" and mx: "mx \<le> usize_max"
  shows "buffer_holds mx (xs @ chunk) (push_chunk b chunk)"
proof -
  let ?r = "head_budget b - head_bytes b"
  note D = buffer_holdsD [OF b]
  consider (zero) "max_bytes b = 0" | (fits) "max_bytes b \<noteq> 0" "head_bytes b < head_budget b" "length chunk \<le> ?r"
    | (split) "max_bytes b \<noteq> 0" "head_bytes b < head_budget b" "?r < length chunk"
    | (full) "max_bytes b \<noteq> 0" "head_budget b \<le> head_bytes b" by linarith
  then show ?thesis
  proof cases
    case zero
    then have "mx = 0" "head_bytes b = 0" "tail_bytes b = 0"
      using D(1,2) buffer_holds_parts(1-3) [OF b] by simp_all
    with zero buffer_holds_parts [OF b] show ?thesis
      by (intro buffer_holdsI) (simp_all add: push_chunk_def saturating_add_min last_bytes_def)
  next
    case fits
    then have "head_bytes b = length xs" using D(1) by linarith
    with fits have "length xs + length chunk \<le> head_budget b" by linarith
    from head_extend_holds [OF b this mx] fits show ?thesis by (simp add: push_chunk_def Let_def)
  next
    case split
    let ?h = "take ?r chunk" and ?t = "drop ?r chunk"
    let ?b = "b\<lparr>head_bytes := saturating_add (head_bytes b) (length ?h), head := head b @ [?h]\<rparr>"
    have xs: "head_bytes b = length xs" using D(1) split by linarith
    have "length xs + length ?h \<le> head_budget b" using split xs by simp
    from head_extend_holds [OF b this mx] have "buffer_holds mx (xs @ ?h) ?b" .
    from push_to_tail_holds [OF this _ mx, of ?t]
    have "buffer_holds mx ((xs @ ?h) @ ?t) (push_to_tail ?b ?t)" using split xs by simp
    moreover have "?h \<noteq> []" using split by auto
    ultimately show ?thesis using split by (simp add: push_chunk_def Let_def)
  next
    case full
    with D(1) have "head_budget b \<le> length xs" by simp
    from push_to_tail_holds [OF b this mx] full show ?thesis by (simp add: push_chunk_def)
  qed
qed

lemma buffer_new_holds: "buffer_holds mx [] (buffer_new mx)"
  by (simp add: buffer_holds_def buffer_new_def Let_def last_bytes_def)

lemma push_chunks_holds:
  "buffer_holds mx xs b \<Longrightarrow> mx \<le> usize_max \<Longrightarrow> buffer_holds mx (xs @ concat cs) (foldl push_chunk b cs)"
proof (induction cs arbitrary: xs b)
  case (Cons c cs)
  from Cons.IH [OF push_chunk_holds [OF Cons.prems(1,2)] Cons.prems(2)] show ?case by simp
qed simp

text \<open>
  C38: however the output arrives in chunks, the buffer shows the first half of its
  capacity of the stream followed by the last half, counts exactly the bytes it
  retains and the bytes it dropped (up to the maximum of the counter), and never
  retains more than its capacity.
\<close>

theorem buffer_shows_head_and_tail:
  fixes mx :: nat and chunks :: "byte list list"
  assumes "mx \<le> usize_max"
  defines "b \<equiv> foldl push_chunk (buffer_new mx) chunks"
  shows "to_bytes b = head_tail_view mx (concat chunks)
    \<and> retained_bytes b = length (to_bytes b) \<and> length (to_bytes b) \<le> mx
    \<and> omitted_bytes b = min usize_max (length (concat chunks) - length (to_bytes b))"
proof -
  have h: "buffer_holds mx (concat chunks) b"
    using push_chunks_holds [OF buffer_new_holds assms(1), of chunks] by (simp add: b_def)
  note D = buffer_holdsD [OF h]
  note P = buffer_holds_parts [OF h]
  have len: "length (to_bytes b) = head_bytes b + tail_bytes b"
    unfolding to_bytes_def length_append P(6) P(7) ..
  have cap: "head_bytes b + tail_bytes b \<le> mx" using D(1,2,5) by linarith
  then have "retained_bytes b = length (to_bytes b)"
    unfolding len retained_bytes_def using assms(1) by (intro saturating_add_exact) simp
  moreover have "to_bytes b = head_tail_view mx (concat chunks)"
    unfolding to_bytes_def head_tail_view_def P(4,5) P(2,3) ..
  ultimately show ?thesis using len cap P(8) by simp
qed

theorem buffer_shows_head_and_tail_witness:
  "to_bytes (foldl push_chunk (buffer_new 5) [[1, 2, 3], [], [4, 5, 6], [7]]) = [1, 2, 5, 6, 7]
   \<and> omitted_bytes (foldl push_chunk (buffer_new 5) [[1, 2, 3], [], [4, 5, 6], [7]]) = min usize_max 2"
  using buffer_shows_head_and_tail [of 5 "[[1, 2, 3], [], [4, 5, 6], [7]]"]
  by (simp add: usize_max_def head_tail_view_def last_bytes_def)

text \<open>
  While the stream fits the capacity nothing is lost: the bytes come back unchanged,
  and draining returns them and leaves a buffer that behaves like a new one.
\<close>

theorem buffer_lossless_within_capacity:
  fixes mx :: nat and chunks :: "byte list list"
  assumes "mx \<le> usize_max" "length (concat chunks) \<le> mx"
  defines "b \<equiv> foldl push_chunk (buffer_new mx) chunks"
  shows "to_bytes b = concat chunks \<and> omitted_bytes b = 0
    \<and> concat (snd (drain_chunks b)) = concat chunks \<and> fst (drain_chunks b) = buffer_new mx"
proof -
  have h: "buffer_holds mx (concat chunks) b"
    using push_chunks_holds [OF buffer_new_holds assms(1), of chunks] by (simp add: b_def)
  note D = buffer_holdsD [OF h] and P = buffer_holds_parts [OF h]
  have "last_bytes (tail_budget b) (drop (head_budget b) (concat chunks)) = drop (head_budget b) (concat chunks)"
    using assms(2) D(5) by (simp add: last_bytes_def)
  then have bytes: "to_bytes b = concat chunks" unfolding to_bytes_def P(4,5) by simp
  have "head_bytes b + tail_bytes b = length (to_bytes b)"
    unfolding to_bytes_def length_append P(6) P(7) ..
  then have "omitted_bytes b = 0" using P(8) bytes by simp
  moreover have "fst (drain_chunks b) = buffer_new mx"
    using P(1-3) by (simp add: drain_chunks_def buffer_new_def Let_def)
  ultimately show ?thesis using bytes by (simp add: drain_chunks_def to_bytes_def)
qed

theorem buffer_lossless_within_capacity_witness:
  "to_bytes (foldl push_chunk (buffer_new 8) [[1, 2, 3], [4, 5, 6]]) = [1, 2, 3, 4, 5, 6]"
  using buffer_lossless_within_capacity [of 8 "[[1, 2, 3], [4, 5, 6]]"] by (simp add: usize_max_def)

end
