(* ===== verification/Stream_Text.thy ===== *)
theory Stream_Text
  imports Rust_Prelude "HOL-Library.Monad_Syntax"
begin

text \<open>
  The interface of the streaming text parsers
  (\<^verbatim>\<open>utils/stream-parser/src/stream_text.rs\<close>): text is fed in chunks of any size and
  every chunk yields visible text and extracted payloads.

  The promise of the interface is that the chunking does not matter. The locale
  \<open>stream_parser\<close> states it as the law of one concatenation and derives it for any
  list of chunks; the concrete parsers interpret it.
\<close>

record 'x stream_text_chunk =
  visible_text :: rstr
  extracted :: "'x list"

definition chunk_default :: "'x stream_text_chunk" where
  "chunk_default = \<lparr>visible_text = [], extracted = []\<rparr>"

definition stream_chunk_is_empty :: "'x stream_text_chunk \<Rightarrow> bool" where
  "stream_chunk_is_empty c \<longleftrightarrow> visible_text c = [] \<and> extracted c = []"

text \<open>Appending the output of one call to that of an earlier one, as the callers do.\<close>

definition chunk_append :: "'x stream_text_chunk \<Rightarrow> 'x stream_text_chunk \<Rightarrow> 'x stream_text_chunk" where
  "chunk_append a b = \<lparr>visible_text = visible_text a @ visible_text b, extracted = extracted a @ extracted b\<rparr>"

lemma chunk_append_simps [simp]:
  "chunk_append chunk_default c = c" "chunk_append c chunk_default = c"
  "chunk_append (chunk_append a b) c = chunk_append a (chunk_append b c)"
  "visible_text (chunk_append a b) = visible_text a @ visible_text b"
  "extracted (chunk_append a b) = extracted a @ extracted b"
  by (simp_all add: chunk_append_def chunk_default_def)

locale stream_parser =
  fixes parser_ok :: "'p \<Rightarrow> bool"
    and push :: "'p \<Rightarrow> 'c list \<Rightarrow> 'p \<times> 'o"
    and none :: 'o
    and emit :: "'o \<Rightarrow> 'o \<Rightarrow> 'o"
  assumes push_ok: "parser_ok p \<Longrightarrow> parser_ok (fst (push p s))"
    and push_nothing: "parser_ok p \<Longrightarrow> push p [] = (p, none)"
    and push_append: "parser_ok p \<Longrightarrow>
      push p (s @ t) = (let (p1, o1) = push p s; (p2, o2) = push p1 t in (p2, emit o1 o2))"
begin

fun push_all :: "'p \<Rightarrow> 'c list list \<Rightarrow> 'p \<times> 'o" where
  "push_all p [] = (p, none)"
| "push_all p (c # cs) =
     (let (p1, o1) = push p c; (p2, o2) = push_all p1 cs in (p2, emit o1 o2))"

lemma push_all_concat: "parser_ok p \<Longrightarrow> push_all p cs = push p (concat cs)"
proof (induction cs arbitrary: p)
  case Nil
  then show ?case by (simp add: push_nothing)
next
  case (Cons c cs)
  obtain p1 o1 where c: "push p c = (p1, o1)" by (cases "push p c")
  with push_ok [OF Cons.prems, of c] have "parser_ok p1" by simp
  with Cons c show ?case by (simp add: push_append)
qed

lemma push_all_chunking:
  "parser_ok p \<Longrightarrow> concat cs = concat ds \<Longrightarrow> push_all p cs = push_all p ds"
  by (simp add: push_all_concat)

end

end
