(* ===== verification/Inline_Tags.thy ===== *)
theory Inline_Tags
  imports Stream_Text
begin

text \<open>
  The parser that hides inline tags and extracts their contents
  (\<^verbatim>\<open>utils/stream-parser/src/inline_hidden_tag.rs\<close>) and its use for memory citations
  (\<^verbatim>\<open>citation.rs\<close>).

  Positions and lengths are counted in characters, where the source counts bytes;
  every position is a character boundary, and only the tie-break between two tags
  that open at the same place compares byte lengths. The main loop of
  \<^verbatim>\<open>push_str\<close> is a \<open>partial_function\<close>: not returning would be \<^term>\<open>None\<close>. It returns for every
  list of tags the constructor accepts.
\<close>

section \<open>The parser\<close>

record 't extracted_inline_tag =
  et_tag :: 't
  et_content :: rstr

record 't inline_tag_spec =
  spec_tag :: 't
  spec_open :: rstr
  spec_close :: rstr

record 't active_tag =
  at_tag :: 't
  at_close :: rstr
  at_content :: rstr

record 't inline_hidden_tag_parser =
  specs :: "'t inline_tag_spec list"
  pending :: rstr
  active :: "'t active_tag option"

text \<open>The constructor; \<^term>\<open>None\<close> is a failed assertion.\<close>

definition specs_ok :: "'t inline_tag_spec list \<Rightarrow> bool" where
  "specs_ok ss \<longleftrightarrow> ss \<noteq> [] \<and> list_all (\<lambda>s. spec_open s \<noteq> [] \<and> spec_close s \<noteq> []) ss"

definition inline_new :: "'t inline_tag_spec list \<Rightarrow> 't inline_hidden_tag_parser option" where
  "inline_new ss =
     (if specs_ok ss then Some \<lparr>specs = ss, pending = [], active = None\<rparr> else None)"

definition longest_suffix_prefix_len :: "rstr \<Rightarrow> rstr \<Rightarrow> nat" where
  "longest_suffix_prefix_len s needle =
     (let mx = min (length s) (length needle - 1) in
      case find (\<lambda>k. ends_with s (take k needle)) (rev [1..<Suc mx]) of
        Some k \<Rightarrow> k
      | None \<Rightarrow> 0)"

text \<open>\<^verbatim>\<open>Iterator::min_by\<close> with the comparison given as \<open>less\<close>: the first minimum.\<close>

fun min_by :: "('a \<Rightarrow> 'a \<Rightarrow> bool) \<Rightarrow> 'a list \<Rightarrow> 'a option" where
  "min_by lt [] = None"
| "min_by lt (x # xs) = Some (foldl (\<lambda>a b. if lt b a then b else a) x xs)"

fun open_before :: "nat \<times> nat \<times> nat \<Rightarrow> nat \<times> nat \<times> nat \<Rightarrow> bool" where
  "open_before (pos_a, len_a, idx_a) (pos_b, len_b, idx_b) \<longleftrightarrow>
     pos_a < pos_b \<or> (pos_a = pos_b \<and> (len_b < len_a \<or> (len_a = len_b \<and> idx_a < idx_b)))"

definition open_candidates :: "'t inline_tag_spec list \<Rightarrow> rstr \<Rightarrow> (nat \<times> nat \<times> nat) list" where
  "open_candidates ss pend =
     List.map_filter (\<lambda>(idx, spec).
       map_option (\<lambda>pos. (pos, str_len (spec_open spec), idx)) (find_str (spec_open spec) pend))
       (List.enumerate 0 ss)"

definition find_next_open :: "'t inline_tag_spec list \<Rightarrow> rstr \<Rightarrow> (nat \<times> nat) option" where
  "find_next_open ss pend =
     map_option (\<lambda>(pos, len, idx). (pos, idx)) (min_by open_before (open_candidates ss pend))"

definition max_open_prefix_suffix_len :: "'t inline_tag_spec list \<Rightarrow> rstr \<Rightarrow> nat" where
  "max_open_prefix_suffix_len ss pend =
     fold max (map (\<lambda>spec. longest_suffix_prefix_len pend (spec_open spec)) ss) 0"

type_synonym 't tag_chunk = "'t extracted_inline_tag stream_text_chunk"

definition out_visible :: "rstr \<Rightarrow> 't tag_chunk \<Rightarrow> 't tag_chunk" where
  "out_visible s out = out\<lparr>visible_text := visible_text out @ s\<rparr>"

definition out_tag :: "'t \<Rightarrow> rstr \<Rightarrow> 't tag_chunk \<Rightarrow> 't tag_chunk" where
  "out_tag t content out = out\<lparr>extracted := extracted out @ [\<lparr>et_tag = t, et_content = content\<rparr>]\<rparr>"

text \<open>\<^verbatim>\<open>drain_visible_to_suffix_match\<close>: what stays pending and the output.\<close>

definition drain_visible_to_suffix_match :: "rstr \<Rightarrow> nat \<Rightarrow> 't tag_chunk \<Rightarrow> rstr \<times> 't tag_chunk" where
  "drain_visible_to_suffix_match pend keep_suffix_len out =
     (let n = length pend - keep_suffix_len in
      if n = 0 then (pend, out) else (drop n pend, out_visible (take n pend) out))"

text \<open>The loop of \<^verbatim>\<open>push_str\<close> on the pending text, the active tag and the output.\<close>

partial_function (option) push_loop ::
  "'t inline_tag_spec list \<Rightarrow> rstr \<Rightarrow> 't active_tag option \<Rightarrow> 't tag_chunk
     \<Rightarrow> (rstr \<times> 't active_tag option \<times> 't tag_chunk) option" where
  "push_loop ss pend act out =
     (case act of
        Some a \<Rightarrow>
          (case find_str (at_close a) pend of
             Some close_idx \<Rightarrow>
               push_loop ss (drop (close_idx + length (at_close a)) pend) None
                 (out_tag (at_tag a) (at_content a @ take close_idx pend) out)
           | None \<Rightarrow>
               let keep = longest_suffix_prefix_len pend (at_close a);
                   n = length pend - keep
               in Some (drop n pend, Some (a\<lparr>at_content := at_content a @ take n pend\<rparr>), out))
      | None \<Rightarrow>
          (case find_next_open ss pend of
             Some (open_idx, spec_idx) \<Rightarrow>
               let spec = ss ! spec_idx in
               push_loop ss (drop (open_idx + length (spec_open spec)) pend)
                 (Some \<lparr>at_tag = spec_tag spec, at_close = spec_close spec, at_content = []\<rparr>)
                 (out_visible (take open_idx pend) out)
           | None \<Rightarrow>
               let keep = max_open_prefix_suffix_len ss pend;
                   (pend', out') = drain_visible_to_suffix_match pend keep out
               in Some (pend', None, out')))"

definition inline_push_str ::
  "'t inline_hidden_tag_parser \<Rightarrow> rstr \<Rightarrow> ('t inline_hidden_tag_parser \<times> 't tag_chunk) option" where
  "inline_push_str p chunk =
     map_option (\<lambda>(pend, act, out). (p\<lparr>pending := pend, active := act\<rparr>, out))
       (push_loop (specs p) (pending p @ chunk) (active p) chunk_default)"

definition inline_finish :: "'t inline_hidden_tag_parser \<Rightarrow> 't inline_hidden_tag_parser \<times> 't tag_chunk" where
  "inline_finish p =
     (case active p of
        Some a \<Rightarrow>
          (p\<lparr>active := None, pending := []\<rparr>,
           out_tag (at_tag a) (at_content a @ pending p) chunk_default)
      | None \<Rightarrow>
          if pending p \<noteq> [] then (p\<lparr>pending := []\<rparr>, out_visible (pending p) chunk_default)
          else (p, chunk_default))"

section \<open>Partial matches at the end of the text\<close>

lemma find_rev_upt:
  assumes "find P (rev [1..<Suc n]) = Some k"
  shows "P k \<and> 1 \<le> k \<and> k \<le> n \<and> (\<forall>j. k < j \<longrightarrow> j \<le> n \<longrightarrow> \<not> P j)"
proof -
  from assms obtain i where i: "i < n" "P (rev [1..<Suc n] ! i)" "k = rev [1..<Suc n] ! i"
      "\<forall>j<i. \<not> P (rev [1..<Suc n] ! j)"
    by (auto simp: find_Some_iff simp del: upt_Suc)
  have nth: "j < n \<Longrightarrow> rev [1..<Suc n] ! j = n - j" for j
    by (simp add: rev_nth del: upt_Suc)
  have "\<not> P j" if "k < j" "j \<le> n" for j
  proof -
    have "n - j < i" "n - j < n" using that i(1,3) nth [of i] by simp_all
    with i(4) nth [of "n - j"] that show ?thesis by fastforce
  qed
  with i nth [of i] show ?thesis by simp
qed

lemma find_rev_upt_None:
  "find P (rev [1..<Suc n]) = None \<longleftrightarrow> (\<forall>j. 1 \<le> j \<longrightarrow> j \<le> n \<longrightarrow> \<not> P j)"
  by (auto simp: find_None_iff simp del: upt_Suc)

text \<open>The longest proper prefix of the needle that ends the text.\<close>

lemma longest_suffix_prefix_len:
  fixes s needle
  defines "k \<equiv> longest_suffix_prefix_len s needle"
  shows "k \<le> length s \<and> k \<le> length needle - 1 \<and> ends_with s (take k needle)
    \<and> (\<forall>j. j \<le> length s \<longrightarrow> j < length needle \<longrightarrow> ends_with s (take j needle) \<longrightarrow> j \<le> k)"
proof (cases "find (\<lambda>k. ends_with s (take k needle)) (rev [1..<Suc (min (length s) (length needle - 1))])")
  case None
  then have "k = 0" by (simp add: k_def longest_suffix_prefix_len_def del: upt_Suc)
  moreover have "j \<le> 0" if "j \<le> length s" "j < length needle" "ends_with s (take j needle)" for j
    using None [unfolded find_rev_upt_None] that by (metis One_nat_def Suc_leI Suc_pred' gr_zeroI le_less_trans
        less_Suc_eq_le min.boundedI not_less zero_order(1))
  ultimately show ?thesis by (auto simp: ends_with_def)
next
  case (Some i)
  then have k: "k = i" by (simp add: k_def longest_suffix_prefix_len_def del: upt_Suc)
  from find_rev_upt [OF Some] show ?thesis unfolding k by (auto simp: not_less)
qed

lemma lsp_facts:
  "longest_suffix_prefix_len s needle \<le> length s"
  "needle \<noteq> [] \<Longrightarrow> longest_suffix_prefix_len s needle < length needle"
  "ends_with s (take (longest_suffix_prefix_len s needle) needle)"
  "j \<le> length s \<Longrightarrow> j < length needle \<Longrightarrow> ends_with s (take j needle) \<Longrightarrow> j \<le> longest_suffix_prefix_len s needle"
  using longest_suffix_prefix_len [of s needle] by (auto simp: Suc_le_eq intro: le_less_trans)

lemma lsp_Nil [simp]: "longest_suffix_prefix_len s [] = 0"
  using longest_suffix_prefix_len [of s "[]"] by simp

text \<open>
  Text that ends before position \<open>n\<close> of a match stays: with \<open>k\<close> characters kept, no
  occurrence of the needle in a longer text starts before the kept part.
\<close>

lemma ends_with_drop: "i \<le> length s \<Longrightarrow> ends_with s (drop i s)"
  by (simp add: ends_with_def)

lemma match_at_overlap:
  assumes "starts_with (drop i (s @ t)) needle" "i \<le> length s" "length s < i + length needle"
  shows "drop i s = take (length s - i) needle"
proof -
  from assms(1,2) obtain u where "drop i s @ t = needle @ u" by (auto simp: starts_with_iff)
  then have "take (length s - i) (drop i s @ t) = take (length s - i) (needle @ u)" by simp
  with assms(2,3) show ?thesis by simp
qed

lemma occurrence_after_kept:
  assumes "find_str needle s = None" "find_str needle (s @ t) = Some i"
  shows "length s - longest_suffix_prefix_len s needle \<le> i"
proof (cases "i \<le> length s")
  case True
  from find_str_Some_decomp [OF assms(2)] find_str_Some_bound [OF assms(2)]
  have m: "starts_with (drop i (s @ t)) needle"
    by (metis add_leD1 append_eq_conv_conj length_take min.absorb2 starts_with_iff)
  have "length s < i + length needle"
  proof (rule ccontr)
    assume "\<not> length s < i + length needle"
    with m have "starts_with (drop i s) needle" by (simp add: starts_with_def)
    with assms(1) True show False by (simp add: find_str_None)
  qed
  from match_at_overlap [OF m True this] have "ends_with s (take (length s - i) needle)"
    using ends_with_drop [OF True] by simp
  with longest_suffix_prefix_len [of s needle] \<open>length s < i + length needle\<close>
  have "length s - i \<le> longest_suffix_prefix_len s needle"
    by (metis diff_le_self less_diff_conv2 True add.commute)
  then show ?thesis by linarith
qed simp

lemma find_str_drop:
  assumes "find_str needle s = Some i" "n \<le> i"
  shows "find_str needle (drop n s) = Some (i - n)"
proof (rule find_str_eqI)
  have b: "i + length needle \<le> length s" by (rule find_str_Some_bound [OF assms(1)])
  from find_str_Some_decomp [OF assms(1)] b show "starts_with (drop (i - n) (drop n s)) needle"
    using assms(2) by (metis add_leD1 append_eq_conv_conj drop_drop le_add_diff_inverse2 length_take
        min.absorb2 starts_with_iff)
  show "i - n \<le> length (drop n s)" using b by simp
  show "\<not> starts_with (drop m (drop n s)) needle" if "m < i - n" for m
    using find_str_least [OF assms(1), of "m + n"] that by simp
qed

lemma find_str_drop_None: "find_str needle s = None \<Longrightarrow> n \<le> length s \<Longrightarrow> find_str needle (drop n s) = None"
  by (simp add: find_str_None)

lemma find_str_append:
  assumes "find_str needle s = Some i"
  shows "find_str needle (s @ t) = Some i"
proof (rule find_str_eqI)
  have b: "i + length needle \<le> length s" by (rule find_str_Some_bound [OF assms])
  from find_str_Some_decomp [OF assms] b show "starts_with (drop i (s @ t)) needle"
    by (metis (no_types, lifting) add_leD1 append_eq_conv_conj append_assoc length_take min.absorb2 starts_with_iff)
  show "i \<le> length (s @ t)" using b by simp
  show "\<not> starts_with (drop m (s @ t)) needle" if "m < i" for m
    using find_str_least [OF assms that] b that by (simp add: starts_with_def)
qed

text \<open>Dropping what cannot matter does not change the partial match at the end.\<close>

lemma kept_suffix_after_drop:
  assumes "n \<le> length s - longest_suffix_prefix_len s needle"
  shows "longest_suffix_prefix_len (drop n s @ t) needle = longest_suffix_prefix_len (s @ t) needle"
proof -
  let ?a = "longest_suffix_prefix_len (s @ t) needle" and ?b = "longest_suffix_prefix_len (drop n s @ t) needle"
  let ?k = "longest_suffix_prefix_len s needle"
  note A = longest_suffix_prefix_len [of "s @ t" needle]
  note B = longest_suffix_prefix_len [of "drop n s @ t" needle]
  note K = longest_suffix_prefix_len [of s needle]
  have n: "n \<le> length s" "?k \<le> length s - n" using assms K by auto
  have suf: "ends_with (s @ t) w \<longleftrightarrow> ends_with (drop n s @ t) w" if "length w \<le> length (drop n s @ t)" for w
    using that n(1) by (auto simp: ends_with_def)
  have "?a \<le> length (drop n s @ t)"
  proof (cases "needle = [] \<or> ?a \<le> length t")
    case False
    then have lt: "length t < ?a" "?a < length needle" using A by (auto simp: Suc_le_eq)
    from A obtain v where v: "s @ t = v @ take ?a needle" by (auto simp: ends_with_iff)
    let ?j = "?a - length t"
    have len: "length v + ?a = length s + length t" using arg_cong [OF v, of length] lt by simp
    have "take (length s) (s @ t) = take (length s) (v @ take ?a needle)" using v by simp
    moreover have "length s - length v = ?j" "length v \<le> length s" "?j \<le> ?a" using len lt by auto
    ultimately have "s = v @ take ?j needle" by (simp add: min_absorb1)
    then have "ends_with s (take ?j needle)" by (auto simp: ends_with_iff)
    moreover have "?j \<le> length s" "?j < length needle" using len lt by auto
    ultimately have "?j \<le> ?k" using K by blast
    with n(2) show ?thesis by simp
  qed (use A in auto)
  note a = this
  show ?thesis
  proof (cases "needle = []")
    case False
    have "ends_with (drop n s @ t) (take ?a needle)" using lsp_facts(3) suf [of "take ?a needle"] a by simp
    with a False have "?a \<le> ?b" by (intro lsp_facts(4) lsp_facts(2))
    moreover have "ends_with (s @ t) (take ?b needle)"
      using lsp_facts(3) [of "drop n s @ t" needle] suf [of "take ?b needle"] lsp_facts(1) [of "drop n s @ t" needle]
      by simp
    then have "?b \<le> ?a"
      using lsp_facts(1) [of "drop n s @ t" needle] False by (intro lsp_facts(4) lsp_facts(2)) simp_all
    ultimately show ?thesis by simp
  qed simp
qed

section \<open>The next opening tag\<close>

lemma min_by_Some:
  assumes trans: "\<And>x y z. lt x y \<Longrightarrow> lt y z \<Longrightarrow> lt x z" and total: "\<And>x y. x \<noteq> y \<Longrightarrow> lt x y \<or> lt y x"
    and "min_by lt xs = Some m"
  shows "m \<in> set xs \<and> (\<forall>x \<in> set xs. x = m \<or> lt m x)"
proof -
  let ?f = "\<lambda>a b. if lt b a then b else a"
  have "foldl ?f a ys \<in> insert a (set ys) \<and> (\<forall>x \<in> insert a (set ys). x = foldl ?f a ys \<or> lt (foldl ?f a ys) x)" for a ys
  proof (induction ys arbitrary: a)
    case (Cons y ys)
    let ?m = "foldl ?f (?f a y) ys"
    have IH: "?m \<in> insert (?f a y) (set ys)" "\<forall>x \<in> insert (?f a y) (set ys). x = ?m \<or> lt ?m x"
      using Cons [of "?f a y"] by blast+
    have "z = ?m \<or> lt ?m z" if "z \<in> {a, y}" for z
    proof -
      have "z = ?f a y \<or> lt (?f a y) z" using that total [of a y] by auto
      moreover have "?f a y = ?m \<or> lt ?m (?f a y)" using IH(2) by blast
      ultimately show ?thesis using trans [of ?m "?f a y" z] by (elim disjE) (simp_all only: simp_thms)
    qed
    moreover have "?m \<in> insert a (set (y # ys))" using IH(1) by (auto split: if_splits)
    ultimately have "\<forall>x \<in> insert a (set (y # ys)). x = ?m \<or> lt ?m x" using IH(2) by simp
    with \<open>?m \<in> insert a (set (y # ys))\<close> show ?case unfolding foldl.simps ..
  qed simp
  with assms(3) show ?thesis by (cases xs) auto
qed

lemma min_by_None [simp]: "min_by lt xs = None \<longleftrightarrow> xs = []"
  by (cases xs) auto

lemma open_before_order:
  "open_before x y \<Longrightarrow> open_before y z \<Longrightarrow> open_before x z"
  "x \<noteq> y \<Longrightarrow> open_before x y \<or> open_before y x"
  "\<not> (open_before x y \<and> open_before y x)" "\<not> open_before x x"
  by (cases x; cases y; cases z; auto)+

lemma min_open_before:
  assumes "min_by open_before xs = Some m"
  shows "m \<in> set xs \<and> (\<forall>x \<in> set xs. x = m \<or> open_before m x)"
proof (rule min_by_Some [OF _ _ assms])
  show "open_before x y \<Longrightarrow> open_before y z \<Longrightarrow> open_before x z" for x y z by (rule open_before_order(1))
  show "x \<noteq> y \<Longrightarrow> open_before x y \<or> open_before y x" for x y by (rule open_before_order(2))
qed

lemma open_candidates_set:
  "(pos, len, idx) \<in> set (open_candidates ss pend) \<longleftrightarrow>
     idx < length ss \<and> find_str (spec_open (ss ! idx)) pend = Some pos \<and> len = str_len (spec_open (ss ! idx))"
  by (auto simp: open_candidates_def List.map_filter_def in_set_enumerate_eq image_iff)

text \<open>\<open>is_next ss pend pos idx\<close>: tag \<open>idx\<close> opens at \<open>pos\<close>, before every other tag.\<close>

definition is_next :: "'t inline_tag_spec list \<Rightarrow> rstr \<Rightarrow> nat \<Rightarrow> nat \<Rightarrow> bool" where
  "is_next ss pend pos idx \<longleftrightarrow> idx < length ss \<and> find_str (spec_open (ss ! idx)) pend = Some pos
     \<and> (\<forall>j q. j < length ss \<longrightarrow> j \<noteq> idx \<longrightarrow> find_str (spec_open (ss ! j)) pend = Some q \<longrightarrow>
          open_before (pos, str_len (spec_open (ss ! idx)), idx) (q, str_len (spec_open (ss ! j)), j))"

lemma find_next_open_Some: "find_next_open ss pend = Some (pos, idx) \<longleftrightarrow> is_next ss pend pos idx"
proof
  assume "find_next_open ss pend = Some (pos, idx)"
  then obtain len where m: "min_by open_before (open_candidates ss pend) = Some (pos, len, idx)"
    by (auto simp: find_next_open_def)
  note M = min_open_before [OF m]
  from M have p: "idx < length ss" "find_str (spec_open (ss ! idx)) pend = Some pos"
    "len = str_len (spec_open (ss ! idx))" by (auto simp: open_candidates_set)
  have "open_before (pos, len, idx) (q, str_len (spec_open (ss ! j)), j)"
    if "j < length ss" "j \<noteq> idx" "find_str (spec_open (ss ! j)) pend = Some q" for j q
  proof -
    have "(q, str_len (spec_open (ss ! j)), j) \<in> set (open_candidates ss pend)"
      using that by (simp add: open_candidates_set)
    with M that(2) show ?thesis by blast
  qed
  with p show "is_next ss pend pos idx" by (simp add: is_next_def)
next
  assume n: "is_next ss pend pos idx"
  let ?m = "(pos, str_len (spec_open (ss ! idx)), idx)"
  have mem: "?m \<in> set (open_candidates ss pend)" using n by (simp add: is_next_def open_candidates_set)
  then obtain m where m: "min_by open_before (open_candidates ss pend) = Some m"
    by (cases "min_by open_before (open_candidates ss pend)") auto
  have "m = ?m"
  proof (rule ccontr)
    assume ne: "m \<noteq> ?m"
    note M = min_open_before [OF m]
    obtain q l j where q: "m = (q, l, j)" by (cases m)
    from bspec [OF conjunct2 [OF M] mem] ne have "open_before m ?m" by blast
    moreover from M q have "j < length ss" "find_str (spec_open (ss ! j)) pend = Some q"
      "l = str_len (spec_open (ss ! j))" by (auto simp: open_candidates_set)
    moreover from this ne q n have "j \<noteq> idx" by (auto simp: is_next_def)
    ultimately have "open_before ?m m" "open_before m ?m" using n unfolding is_next_def q by blast+
    then show False using open_before_order(3) by blast
  qed
  with m show "find_next_open ss pend = Some (pos, idx)" by (simp add: find_next_open_def)
qed

lemma find_next_open_None:
  "find_next_open ss pend = None \<longleftrightarrow> (\<forall>spec \<in> set ss. find_str (spec_open spec) pend = None)"
proof -
  have "find_next_open ss pend = None \<longleftrightarrow> open_candidates ss pend = []" by (simp add: find_next_open_def)
  also have "\<dots> \<longleftrightarrow> (\<forall>c. c \<notin> set (open_candidates ss pend))" by auto
  also have "\<dots> \<longleftrightarrow> (\<forall>spec \<in> set ss. find_str (spec_open spec) pend = None)"
  proof
    assume h: "\<forall>c. c \<notin> set (open_candidates ss pend)"
    show "\<forall>spec \<in> set ss. find_str (spec_open spec) pend = None"
    proof
      fix spec assume "spec \<in> set ss"
      then obtain i where i: "i < length ss" "spec = ss ! i" by (auto simp: in_set_conv_nth)
      with h have "(p, str_len (spec_open spec), i) \<notin> set (open_candidates ss pend)" for p by blast
      with i show "find_str (spec_open spec) pend = None"
        by (cases "find_str (spec_open spec) pend") (auto simp: open_candidates_set)
    qed
  next
    assume "\<forall>spec \<in> set ss. find_str (spec_open spec) pend = None"
    then show "\<forall>c. c \<notin> set (open_candidates ss pend)"
      unfolding split_paired_All open_candidates_set by auto
  qed
  finally show ?thesis .
qed

text \<open>
  No opening tag occurs inside a different one. Without this a longer tag could
  complete after a shorter one inside it has already been taken.
\<close>

definition opens_separate :: "'t inline_tag_spec list \<Rightarrow> bool" where
  "opens_separate ss \<longleftrightarrow>
     (\<forall>a \<in> set ss. \<forall>b \<in> set ss. spec_open a \<noteq> spec_open b \<longrightarrow> \<not> contains_str (spec_open b) (spec_open a))"

lemma is_next_append:
  assumes sep: "opens_separate ss" and n: "is_next ss pend pos idx"
  shows "is_next ss (pend @ t) pos idx"
  unfolding is_next_def
proof (intro conjI allI impI)
  let ?a = "spec_open (ss ! idx)"
  have a: "idx < length ss" "find_str ?a pend = Some pos" using n by (simp_all add: is_next_def)
  then show "idx < length ss" "find_str ?a (pend @ t) = Some pos" by (simp_all add: find_str_append)
  fix j q assume j: "j < length ss" "j \<noteq> idx" "find_str (spec_open (ss ! j)) (pend @ t) = Some q"
  let ?b = "spec_open (ss ! j)"
  show "open_before (pos, str_len ?a, idx) (q, str_len ?b, j)"
  proof (cases "find_str ?b pend")
    case (Some q')
    with j(3) have "q' = q" using find_str_append [OF Some, of t] by simp
    with Some j n show ?thesis by (simp add: is_next_def)
  next
    case None
    have bound: "pos + length ?a \<le> length pend" by (rule find_str_Some_bound [OF a(2)])
    have mb: "starts_with (drop q (pend @ t)) ?b"
      using find_str_Some_decomp [OF j(3)] find_str_Some_bound [OF j(3)]
      by (metis add_leD1 append_eq_conv_conj length_take min.absorb2 starts_with_iff)
    have ma: "starts_with (drop pos pend) ?a"
      using find_str_Some_decomp [OF a(2)] bound
      by (metis add_leD1 append_eq_conv_conj length_take min.absorb2 starts_with_iff)
    have "pos < q"
    proof (rule ccontr)
      assume "\<not> pos < q"
      then have q: "q \<le> pos" by simp
      have over: "length pend < q + length ?b"
      proof (rule ccontr)
        assume "\<not> length pend < q + length ?b"
        with mb have "starts_with (drop q pend) ?b" by (simp add: starts_with_def)
        with None q bound show False by (simp add: find_str_None)
      qed
      from mb obtain u where u: "drop q (pend @ t) = ?b @ u" by (auto simp: starts_with_iff)
      from ma obtain v where v: "drop pos pend = ?a @ v" by (auto simp: starts_with_iff)
      have "drop (pos - q) (drop q (pend @ t)) = drop pos (pend @ t)" using q by (simp only: drop_drop le_add_diff_inverse2)
      then have "drop (pos - q) (?b @ u) = drop pos (pend @ t)" by (simp only: u)
      also have "\<dots> = ?a @ v @ t" using v bound by simp
      finally have "take (length ?a) (drop (pos - q) (?b @ u)) = ?a" by simp
      then have "take (length ?a) (drop (pos - q) ?b) = ?a" using over bound q by simp
      then have "starts_with (drop (pos - q) ?b) ?a" by (simp add: starts_with_def)
      moreover have "pos - q \<le> length ?b" using over bound q by linarith
      ultimately have "contains_str ?b ?a" by (auto simp: contains_str_def find_str_None)
      moreover have "?a \<noteq> ?b" using over bound q by auto
      ultimately show False using sep a(1) j(1) by (auto simp: opens_separate_def)
    qed
    then show ?thesis by simp
  qed
qed

lemma is_next_drop:
  assumes "is_next ss s pos idx" "\<And>spec i. spec \<in> set ss \<Longrightarrow> find_str (spec_open spec) s = Some i \<Longrightarrow> n \<le> i"
    "n \<le> length s"
  shows "is_next ss (drop n s) (pos - n) idx"
proof -
  have f: "find_str (spec_open (ss ! j)) (drop n s) = Some q \<Longrightarrow>
      find_str (spec_open (ss ! j)) s = Some (q + n)" if "j < length ss" for j q
  proof (cases "find_str (spec_open (ss ! j)) s")
    case None
    with find_str_drop_None [OF None assms(3)] show "find_str (spec_open (ss ! j)) (drop n s) = Some q \<Longrightarrow> ?thesis"
      by simp
  next
    case (Some i)
    with assms(2) [of "ss ! j" i] that have "n \<le> i" by simp
    with find_str_drop [OF Some this] Some
    show "find_str (spec_open (ss ! j)) (drop n s) = Some q \<Longrightarrow> ?thesis" by simp
  qed
  have pos: "n \<le> pos" using assms(1) assms(2) [of "ss ! idx" pos] by (simp add: is_next_def)
  show ?thesis
    unfolding is_next_def
  proof (intro conjI allI impI)
    show "idx < length ss" using assms(1) by (simp add: is_next_def)
    show "find_str (spec_open (ss ! idx)) (drop n s) = Some (pos - n)"
      using assms(1) pos by (auto simp: is_next_def intro: find_str_drop)
    fix j q assume j: "j < length ss" "j \<noteq> idx" "find_str (spec_open (ss ! j)) (drop n s) = Some q"
    have "open_before (pos, str_len (spec_open (ss ! idx)), idx) (q + n, str_len (spec_open (ss ! j)), j)"
      using assms(1) j(1,2) f [OF j(1,3)] unfolding is_next_def by blast
    with pos show "open_before (pos - n, str_len (spec_open (ss ! idx)), idx) (q, str_len (spec_open (ss ! j)), j)"
      by auto
  qed
qed

section \<open>Totality and chunking\<close>

lemma fold_max_0: "fold max xs (0::nat) = Max (insert 0 (set xs))"
  using Max.set_eq_fold [of 0 xs] by simp

lemma max_open_prefix_suffix_len_facts:
  "max_open_prefix_suffix_len ss pend \<le> length pend"
  "spec \<in> set ss \<Longrightarrow> longest_suffix_prefix_len pend (spec_open spec) \<le> max_open_prefix_suffix_len ss pend"
  by (auto simp: max_open_prefix_suffix_len_def fold_max_0 lsp_facts(1))

lemma max_open_prefix_suffix_len_cong:
  "(\<And>spec. spec \<in> set ss \<Longrightarrow> longest_suffix_prefix_len s (spec_open spec) = longest_suffix_prefix_len t (spec_open spec))
     \<Longrightarrow> max_open_prefix_suffix_len ss s = max_open_prefix_suffix_len ss t"
  by (simp add: max_open_prefix_suffix_len_def cong: map_cong)

lemma drain_visible_eq:
  "drain_visible_to_suffix_match pend k out = (drop (length pend - k) pend, out_visible (take (length pend - k) pend) out)"
  by (simp add: drain_visible_to_suffix_match_def out_visible_def Let_def)

definition act_ok :: "'t active_tag option \<Rightarrow> bool" where
  "act_ok act \<longleftrightarrow> (case act of None \<Rightarrow> True | Some a \<Rightarrow> at_close a \<noteq> [])"

lemma act_ok_simps [simp]: "act_ok None" "act_ok (Some a) \<longleftrightarrow> at_close a \<noteq> []"
  by (simp_all add: act_ok_def)

text \<open>One step of the loop: it ends, or goes on with less pending text.\<close>

datatype 't loop_step = Done rstr "'t active_tag option" "'t tag_chunk" | More rstr "'t active_tag option" "'t tag_chunk"

definition loop_step :: "'t inline_tag_spec list \<Rightarrow> rstr \<Rightarrow> 't active_tag option \<Rightarrow> 't tag_chunk \<Rightarrow> 't loop_step" where
  "loop_step ss pend act out =
     (case act of
        Some a \<Rightarrow>
          (case find_str (at_close a) pend of
             Some i \<Rightarrow> More (drop (i + length (at_close a)) pend) None
                         (out_tag (at_tag a) (at_content a @ take i pend) out)
           | None \<Rightarrow> let n = length pend - longest_suffix_prefix_len pend (at_close a)
                     in Done (drop n pend) (Some (a\<lparr>at_content := at_content a @ take n pend\<rparr>)) out)
      | None \<Rightarrow>
          (case find_next_open ss pend of
             Some (i, idx) \<Rightarrow>
               More (drop (i + length (spec_open (ss ! idx))) pend)
                 (Some \<lparr>at_tag = spec_tag (ss ! idx), at_close = spec_close (ss ! idx), at_content = []\<rparr>)
                 (out_visible (take i pend) out)
           | None \<Rightarrow> let n = length pend - max_open_prefix_suffix_len ss pend
                     in Done (drop n pend) None (out_visible (take n pend) out)))"

lemma push_loop_step:
  "push_loop ss pend act out =
     (case loop_step ss pend act out of
        Done pend' act' out' \<Rightarrow> Some (pend', act', out')
      | More pend' act' out' \<Rightarrow> push_loop ss pend' act' out')"
  by (subst push_loop.simps)
    (auto simp: loop_step_def Let_def drain_visible_eq split: option.splits prod.splits)

lemma loop_step_More:
  assumes "loop_step ss pend act out = More pend' act' out'" "specs_ok ss" "act_ok act"
  shows "length pend' < length pend \<and> act_ok act'"
proof (cases act)
  case (Some a)
  with assms obtain i where "find_str (at_close a) pend = Some i" "pend' = drop (i + length (at_close a)) pend" "act' = None"
    by (auto simp: loop_step_def Let_def split: option.splits)
  with Some assms(3) find_str_Some_bound [of "at_close a" pend i] show ?thesis by (cases "at_close a") auto
next
  case None
  with assms(1) obtain i idx where i: "find_next_open ss pend = Some (i, idx)"
      "pend' = drop (i + length (spec_open (ss ! idx))) pend"
      "act' = Some \<lparr>at_tag = spec_tag (ss ! idx), at_close = spec_close (ss ! idx), at_content = []\<rparr>"
    by (auto simp: loop_step_def Let_def split: option.splits)
  then have n: "is_next ss pend i idx" by (simp add: find_next_open_Some)
  with assms(2) have "spec_open (ss ! idx) \<noteq> []" "spec_close (ss ! idx) \<noteq> []"
    by (auto simp: specs_ok_def list_all_length is_next_def)
  with i n find_str_Some_bound [of "spec_open (ss ! idx)" pend i] show ?thesis
    by (cases "spec_open (ss ! idx)") (auto simp: is_next_def)
qed

lemma loop_step_Done: "loop_step ss pend act out = Done pend' act' out' \<Longrightarrow> act_ok act \<Longrightarrow> act_ok act'"
  by (auto simp: loop_step_def Let_def split: option.splits prod.splits)

text \<open>The loop returns, whatever the pending text.\<close>

lemma push_loop_total:
  assumes "specs_ok ss" "act_ok act"
  shows "\<exists>pend' act' out'. push_loop ss pend act out = Some (pend', act', out') \<and> act_ok act'"
  using assms(2)
proof (induction pend arbitrary: act out rule: length_induct)
  case (1 pend)
  show ?case
  proof (cases "loop_step ss pend act out")
    case (Done pend' act' out')
    with 1(2) loop_step_Done show ?thesis by (subst push_loop_step) fastforce
  next
    case (More pend' act' out')
    from loop_step_More [OF More assms(1) 1(2)] 1(1) More show ?thesis by (subst push_loop_step) simp
  qed
qed

lemma out_append [simp]:
  "out_visible s (chunk_append c out) = chunk_append c (out_visible s out)"
  "out_tag t s (chunk_append c out) = chunk_append c (out_tag t s out)"
  "out_visible s (out_visible r out) = out_visible (r @ s) out"
  by (simp_all add: out_visible_def out_tag_def chunk_append_def)

text \<open>The part of a step that has been completed is the same when more text follows.\<close>

lemma loop_step_More_append:
  assumes "opens_separate ss" "loop_step ss pend act out = More pend' act' out'"
  shows "loop_step ss (pend @ t) act out = More (pend' @ t) act' out'"
proof (cases act)
  case (Some a)
  with assms(2) obtain i where i: "find_str (at_close a) pend = Some i" "pend' = drop (i + length (at_close a)) pend"
      "act' = None" "out' = out_tag (at_tag a) (at_content a @ take i pend) out"
    by (auto simp: loop_step_def Let_def split: option.splits)
  with Some find_str_Some_bound [OF i(1)] find_str_append [OF i(1), of t] show ?thesis
    by (simp add: loop_step_def)
next
  case None
  with assms(2) obtain i idx where i: "find_next_open ss pend = Some (i, idx)"
      "pend' = drop (i + length (spec_open (ss ! idx))) pend"
      "act' = Some \<lparr>at_tag = spec_tag (ss ! idx), at_close = spec_close (ss ! idx), at_content = []\<rparr>"
      "out' = out_visible (take i pend) out"
    by (auto simp: loop_step_def Let_def split: option.splits)
  then have n: "is_next ss pend i idx" by (simp add: find_next_open_Some)
  with is_next_append [OF assms(1)] have "find_next_open ss (pend @ t) = Some (i, idx)"
    by (simp add: find_next_open_Some)
  moreover have "i + length (spec_open (ss ! idx)) \<le> length pend"
    using n find_str_Some_bound by (auto simp: is_next_def)
  ultimately show ?thesis using None i by (simp add: loop_step_def)
qed

lemma drop_append_le: "n \<le> length s \<Longrightarrow> drop n s @ t = drop n (s @ t)"
  by simp

lemma drop_take_shift:
  "drop m (drop n s) = drop (n + m) s"
  "n \<le> length p \<Longrightarrow> take n p @ take m (drop n (p @ t)) = take (n + m) (p @ t)"
proof -
  show "drop m (drop n s) = drop (n + m) s" by (simp add: add.commute)
  assume "n \<le> length p"
  then have "take n p = take n (p @ t)" by simp
  then show "take n p @ take m (drop n (p @ t)) = take (n + m) (p @ t)" by (simp only: take_add)
qed

lemma loop_step_Done_append_active:
  assumes "find_str (at_close a) pend = None"
  defines "n \<equiv> length pend - longest_suffix_prefix_len pend (at_close a)"
  shows "loop_step ss (pend @ t) (Some a) out
    = loop_step ss (drop n pend @ t) (Some (a\<lparr>at_content := at_content a @ take n pend\<rparr>)) out"
proof -
  let ?c = "at_close a" and ?x = "pend @ t"
  have n: "n \<le> length pend" by (simp add: n_def)
  have kept: "longest_suffix_prefix_len (drop n pend @ t) ?c = longest_suffix_prefix_len ?x ?c"
    by (rule kept_suffix_after_drop) (simp add: n_def)
  have X: "drop n pend @ t = drop n ?x" using n by simp
  show ?thesis
  proof (cases "find_str ?c ?x")
    case None
    moreover have "find_str ?c (drop n ?x) = None" using n by (intro find_str_drop_None [OF None]) simp
    moreover have "longest_suffix_prefix_len ?x ?c \<le> length (drop n ?x)"
      using lsp_facts(1) [of "drop n pend @ t" ?c] kept X by simp
    then have m: "n + (length (drop n ?x) - longest_suffix_prefix_len ?x ?c)
        = length ?x - longest_suffix_prefix_len ?x ?c" using n by simp
    ultimately show ?thesis
      unfolding X loop_step_def
      by (simp add: kept [unfolded X] Let_def drop_take_shift(1) drop_take_shift(2) [OF n] m
          del: take_append drop_append length_append length_drop drop_drop)
  next
    case (Some i)
    have "n \<le> i" using occurrence_after_kept [OF assms(1) Some] by (simp add: n_def)
    then obtain m where i: "i = n + m" using le_Suc_ex by blast
    from find_str_drop [OF Some \<open>n \<le> i\<close>] have "find_str ?c (drop n ?x) = Some m" by (simp add: i)
    then show ?thesis
      unfolding X loop_step_def using Some
      by (simp add: drop_take_shift(1) drop_take_shift(2) [OF n] i add.assoc
          del: take_append drop_append length_append length_drop drop_drop)
  qed
qed

lemma loop_step_Done_append_none:
  assumes "find_next_open ss pend = None"
  defines "n \<equiv> length pend - max_open_prefix_suffix_len ss pend"
  shows "loop_step ss (pend @ t) None out
    = loop_step ss (drop n pend @ t) None (out_visible (take n pend) out)"
proof -
  let ?x = "pend @ t"
  have n: "n \<le> length pend" by (simp add: n_def)
  have X: "drop n pend @ t = drop n ?x" using n by simp
  have each: "n \<le> length pend - longest_suffix_prefix_len pend (spec_open spec)" if "spec \<in> set ss" for spec
    using max_open_prefix_suffix_len_facts(2) [OF that, of pend] unfolding n_def by simp
  have kept: "max_open_prefix_suffix_len ss (drop n ?x) = max_open_prefix_suffix_len ss ?x"
    unfolding X [symmetric] by (rule max_open_prefix_suffix_len_cong) (rule kept_suffix_after_drop [OF each])
  have late: "n \<le> i" if "spec \<in> set ss" "find_str (spec_open spec) ?x = Some i" for spec i
    using occurrence_after_kept [OF _ that(2)] each [OF that(1)] assms(1) that(1)
    by (fastforce simp: find_next_open_None)
  show ?thesis
  proof (cases "find_next_open ss ?x")
    case None
    moreover have "find_next_open ss (drop n ?x) = None"
      using None n by (auto simp: find_next_open_None intro!: find_str_drop_None simp del: drop_append)
    moreover have "max_open_prefix_suffix_len ss ?x \<le> length (drop n ?x)"
      using max_open_prefix_suffix_len_facts(1) [of ss "drop n ?x"] kept by simp
    then have m: "n + (length (drop n ?x) - max_open_prefix_suffix_len ss ?x)
        = length ?x - max_open_prefix_suffix_len ss ?x" using n by simp
    ultimately show ?thesis
      unfolding X loop_step_def
      by (simp add: kept Let_def drop_take_shift(1) drop_take_shift(2) [OF n] m
          del: take_append drop_append length_append length_drop drop_drop)
  next
    case (Some r)
    then obtain i idx where r: "find_next_open ss ?x = Some (i, idx)" by (cases r) auto
    then have nx: "is_next ss ?x i idx" by (simp add: find_next_open_Some)
    have "is_next ss (drop n ?x) (i - n) idx"
      by (rule is_next_drop [OF nx]) (use late n in auto)
    then have r': "find_next_open ss (drop n ?x) = Some (i - n, idx)" by (simp add: find_next_open_Some)
    have "n \<le> i" using nx late [of "ss ! idx" i] by (simp add: is_next_def)
    then obtain m where i: "i = n + m" using le_Suc_ex by blast
    from r' have "find_next_open ss (drop n ?x) = Some (m, idx)" by (simp add: i)
    then show ?thesis
      unfolding X loop_step_def using r
      by (simp add: drop_take_shift(1) drop_take_shift(2) [OF n] i add.assoc
          del: take_append drop_append length_append length_drop drop_drop)
  qed
qed

lemma loop_step_Done_append:
  assumes "loop_step ss pend act out = Done pend' act' out'"
  shows "loop_step ss (pend @ t) act out = loop_step ss (pend' @ t) act' out'"
proof (cases act)
  case (Some a)
  with assms show ?thesis
    using loop_step_Done_append_active [of a pend ss t out]
    by (auto simp: loop_step_def Let_def split: option.splits)
next
  case None
  with assms show ?thesis
    using loop_step_Done_append_none [of ss pend t out]
    by (auto simp: loop_step_def Let_def split: option.splits)
qed

lemma push_loop_append:
  assumes "specs_ok ss" "opens_separate ss" "act_ok act" "push_loop ss pend act out = Some (pend', act', out')"
  shows "push_loop ss (pend @ t) act out = push_loop ss (pend' @ t) act' out'"
  using assms(3,4)
proof (induction pend arbitrary: act out rule: length_induct)
  case (1 pend)
  show ?case
  proof (cases "loop_step ss pend act out")
    case (Done p a c)
    with 1(3) have "p = pend'" "a = act'" "c = out'" by (simp_all add: push_loop_step [of ss pend act out])
    with loop_step_Done_append [OF Done, of t] show ?thesis
      by (simp add: push_loop_step [of ss "pend @ t"] push_loop_step [of ss "pend' @ t"])
  next
    case (More p a c)
    from loop_step_More [OF More assms(1) 1(2)] have "length p < length pend" "act_ok a" by simp_all
    moreover from More 1(3) have "push_loop ss p a c = Some (pend', act', out')"
      by (simp add: push_loop_step [of ss pend act out])
    ultimately have "push_loop ss (p @ t) a c = push_loop ss (pend' @ t) act' out'" using 1(1) by blast
    with loop_step_More_append [OF assms(2) More, of t] show ?thesis
      by (simp add: push_loop_step [of ss "pend @ t" act out])
  qed
qed

fun step_prepend :: "'t tag_chunk \<Rightarrow> 't loop_step \<Rightarrow> 't loop_step" where
  "step_prepend c (Done p a out) = Done p a (chunk_append c out)"
| "step_prepend c (More p a out) = More p a (chunk_append c out)"

lemma loop_step_prepend: "loop_step ss pend act (chunk_append c out) = step_prepend c (loop_step ss pend act out)"
  by (auto simp: loop_step_def Let_def split: option.splits prod.splits)

lemma push_loop_prepend:
  assumes "specs_ok ss" "act_ok act"
  shows "push_loop ss pend act (chunk_append c out)
    = map_option (\<lambda>(p, a, o'). (p, a, chunk_append c o')) (push_loop ss pend act out)"
  using assms(2)
proof (induction pend arbitrary: act out rule: length_induct)
  case (1 pend)
  show ?case
  proof (cases "loop_step ss pend act out")
    case (Done p a o')
    then show ?thesis
      by (simp add: push_loop_step [of ss pend act out] push_loop_step [of ss pend act "chunk_append c out"]
          loop_step_prepend)
  next
    case (More p a o')
    with loop_step_More [OF More assms(1) 1(2)] 1(1) show ?thesis
      by (simp add: push_loop_step [of ss pend act out] push_loop_step [of ss pend act "chunk_append c out"]
          loop_step_prepend)
  qed
qed

text \<open>
  A parser the constructor and the operations produce: tags that do not contain
  each other, and nothing left to do for the pending text.
\<close>

definition inline_parser_ok :: "'t inline_hidden_tag_parser \<Rightarrow> bool" where
  "inline_parser_ok p \<longleftrightarrow> specs_ok (specs p) \<and> opens_separate (specs p) \<and> act_ok (active p)
     \<and> push_loop (specs p) (pending p) (active p) chunk_default = Some (pending p, active p, chunk_default)"

definition inline_push :: "'t inline_hidden_tag_parser \<Rightarrow> rstr \<Rightarrow> 't inline_hidden_tag_parser \<times> 't tag_chunk" where
  "inline_push p s = the (inline_push_str p s)"

lemma inline_push_str_Some:
  assumes "specs_ok (specs p)" "act_ok (active p)"
  shows "inline_push_str p s = Some (inline_push p s)"
  using push_loop_total [OF assms, of "pending p @ s" chunk_default]
  by (auto simp: inline_push_def inline_push_str_def)

lemma push_loop_result_settled:
  assumes "specs_ok ss" "opens_separate ss" "act_ok act" "push_loop ss pend act out = Some (pend', act', out')"
  shows "act_ok act' \<and> push_loop ss pend' act' chunk_default = Some (pend', act', chunk_default)"
proof -
  from push_loop_total [OF assms(1,3), of pend out] assms(4) have ok: "act_ok act'" by auto
  from push_loop_append [OF assms, of "[]"] assms(4)
  have "push_loop ss pend' act' (chunk_append out' chunk_default) = Some (pend', act', out')" by simp
  then obtain c where "push_loop ss pend' act' chunk_default = Some (pend', act', c)" "chunk_append out' c = out'"
    unfolding push_loop_prepend [OF assms(1) ok] by auto
  moreover from this(2) have "c = chunk_default"
    by (cases c; cases out') (simp add: chunk_append_def chunk_default_def)
  ultimately show ?thesis using ok by simp
qed

lemma inline_push_ok:
  assumes "inline_parser_ok p"
  shows "inline_parser_ok (fst (inline_push p s))"
proof -
  from assms have ok: "specs_ok (specs p)" "opens_separate (specs p)" "act_ok (active p)"
    by (simp_all add: inline_parser_ok_def)
  from push_loop_total [OF ok(1,3), of "pending p @ s" chunk_default] obtain pend act out where
    l: "push_loop (specs p) (pending p @ s) (active p) chunk_default = Some (pend, act, out)" by auto
  from push_loop_result_settled [OF ok l] l ok show ?thesis
    by (simp add: inline_push_def inline_push_str_def inline_parser_ok_def)
qed

lemma inline_push_nothing: "inline_parser_ok p \<Longrightarrow> inline_push p [] = (p, chunk_default)"
  by (simp add: inline_parser_ok_def inline_push_def inline_push_str_def)

lemma inline_push_append:
  assumes "inline_parser_ok p"
  shows "inline_push p (s @ t) = (let (p1, o1) = inline_push p s; (p2, o2) = inline_push p1 t in (p2, chunk_append o1 o2))"
proof -
  from assms have ok: "specs_ok (specs p)" "opens_separate (specs p)" "act_ok (active p)"
    by (simp_all add: inline_parser_ok_def)
  from push_loop_total [OF ok(1,3), of "pending p @ s" chunk_default] obtain pend act out where
    l: "push_loop (specs p) (pending p @ s) (active p) chunk_default = Some (pend, act, out)" "act_ok act" by auto
  from push_loop_append [OF ok l(1), of t] push_loop_prepend [OF ok(1) l(2), of "pend @ t" out chunk_default]
  have "push_loop (specs p) (pending p @ s @ t) (active p) chunk_default
      = map_option (\<lambda>(p, a, o'). (p, a, chunk_append out o')) (push_loop (specs p) (pend @ t) act chunk_default)" by simp
  moreover obtain r where "push_loop (specs p) (pend @ t) act chunk_default = Some r"
    using push_loop_total [OF ok(1) l(2), of "pend @ t" chunk_default] by auto
  ultimately show ?thesis using l by (cases r) (simp add: inline_push_def inline_push_str_def)
qed

interpretation inline: stream_parser inline_parser_ok inline_push chunk_default chunk_append
  by unfold_locales (rule inline_push_ok inline_push_nothing inline_push_append; assumption)+

lemma inline_new_ok:
  assumes "inline_new ss = Some p" "opens_separate ss"
  shows "inline_parser_ok p"
proof -
  from assms(1) have ss: "specs_ok ss" and p: "p = \<lparr>specs = ss, pending = [], active = None\<rparr>"
    by (auto simp: inline_new_def split: if_splits)
  have "find_str (spec_open spec) [] = None" if "spec \<in> set ss" for spec
    using ss that by (auto simp: specs_ok_def list_all_iff)
  then have "find_next_open ss [] = None" by (simp add: find_next_open_None)
  then have "push_loop ss [] None chunk_default = Some ([], None, chunk_default)"
    by (subst push_loop_step) (simp add: loop_step_def out_visible_def)
  with ss assms(2) show ?thesis by (simp add: p inline_parser_ok_def)
qed

fun inline_push_seq :: "'t inline_hidden_tag_parser \<Rightarrow> rstr list \<Rightarrow> ('t inline_hidden_tag_parser \<times> 't tag_chunk) option" where
  "inline_push_seq p [] = Some (p, chunk_default)"
| "inline_push_seq p (c # cs) =
     (case inline_push_str p c of None \<Rightarrow> None
      | Some (p', o') \<Rightarrow> map_option (\<lambda>(p'', os). (p'', chunk_append o' os)) (inline_push_seq p' cs))"

lemma inline_push_keeps:
  "specs_ok (specs p) \<Longrightarrow> act_ok (active p) \<Longrightarrow> inline_push_str p c = Some (p', o')
     \<Longrightarrow> specs p' = specs p \<and> act_ok (active p')"
  using push_loop_total [of "specs p" "active p" "pending p @ c" chunk_default]
  by (auto simp: inline_push_str_def)

lemma inline_push_seq_all:
  "inline_parser_ok p \<Longrightarrow> inline_push_seq p cs = Some (inline.push_all p cs)"
proof (induction cs arbitrary: p)
  case (Cons c cs)
  from Cons.prems have "inline_push_str p c = Some (inline_push p c)"
    by (intro inline_push_str_Some) (simp_all add: inline_parser_ok_def)
  moreover obtain p1 o1 where "inline_push p c = (p1, o1)" by (cases "inline_push p c")
  moreover from this inline_push_ok [OF Cons.prems, of c] have "inline_parser_ok p1" by simp
  ultimately show ?case using Cons.IH [of p1] by (simp split: prod.splits)
qed simp

lemma inline_push_seq_total:
  "specs_ok (specs p) \<Longrightarrow> act_ok (active p) \<Longrightarrow> inline_push_seq p cs \<noteq> None"
proof (induction cs arbitrary: p)
  case (Cons c cs)
  note s = inline_push_str_Some [OF Cons.prems, of c]
  obtain p1 o1 where p: "inline_push p c = (p1, o1)" by (cases "inline_push p c")
  from inline_push_keeps [OF Cons.prems s [unfolded p]] Cons.prems Cons.IH [of p1] show ?case by (simp add: s p)
qed simp

text \<open>
  The hidden-tag parser always returns: for the tags its constructor accepts and any
  sequence of chunks, no call of \<^verbatim>\<open>push_str\<close> loops for ever.
\<close>

theorem inline_push_returns:
  assumes "inline_new ss = Some p"
  shows "\<exists>p' out. inline_push_seq p cs = Some (p', out)"
proof -
  from assms have "specs_ok (specs p)" "act_ok (active p)" by (auto simp: inline_new_def split: if_splits)
  from inline_push_seq_total [OF this, of cs] show ?thesis by (cases "inline_push_seq p cs") auto
qed

text \<open>
  How the text is cut into chunks does not matter to the hidden-tag parser: pushing
  the chunks one by one gives, in total, the output and the final state of pushing
  the whole text, provided no opening tag contains a different one.
\<close>

theorem inline_push_chunking:
  assumes "inline_new ss = Some p" "opens_separate ss"
  shows "inline_push_seq p cs = inline_push_str p (concat cs)"
proof -
  have ok: "inline_parser_ok p" by (rule inline_new_ok [OF assms])
  then have "inline_push_str p (concat cs) = Some (inline_push p (concat cs))"
    by (intro inline_push_str_Some) (simp_all add: inline_parser_ok_def)
  then show ?thesis by (simp only: inline_push_seq_all [OF ok] inline.push_all_concat [OF ok])
qed

section \<open>Citations\<close>

datatype citation_tag = Citation

definition CITATION_OPEN :: rstr where "CITATION_OPEN = rs ''<oai-mem-citation>''"
definition CITATION_CLOSE :: rstr where "CITATION_CLOSE = rs ''</oai-mem-citation>''"

type_synonym citation_stream_parser = "citation_tag inline_hidden_tag_parser"

definition citation_specs :: "citation_tag inline_tag_spec list" where
  "citation_specs = [\<lparr>spec_tag = Citation, spec_open = CITATION_OPEN, spec_close = CITATION_CLOSE\<rparr>]"

definition citation_new :: "citation_stream_parser option" where
  "citation_new = inline_new citation_specs"

definition citation_chunk :: "citation_tag tag_chunk \<Rightarrow> rstr stream_text_chunk" where
  "citation_chunk c = \<lparr>visible_text = visible_text c, extracted = map et_content (extracted c)\<rparr>"

definition citation_push_str ::
  "citation_stream_parser \<Rightarrow> rstr \<Rightarrow> (citation_stream_parser \<times> rstr stream_text_chunk) option" where
  "citation_push_str p chunk = map_option (\<lambda>(p', c). (p', citation_chunk c)) (inline_push_str p chunk)"

definition citation_finish :: "citation_stream_parser \<Rightarrow> citation_stream_parser \<times> rstr stream_text_chunk" where
  "citation_finish p = (let (p', c) = inline_finish p in (p', citation_chunk c))"

text \<open>\<^verbatim>\<open>strip_citations\<close>; \<^term>\<open>None\<close> is a failed assertion or a loop without end.\<close>

definition strip_citations :: "rstr \<Rightarrow> (rstr \<times> rstr list) option" where
  "strip_citations text =
     Option.bind citation_new (\<lambda>parser.
     Option.bind (citation_push_str parser text) (\<lambda>(parser', out).
       let (_, tail) = citation_finish parser' in
       Some (visible_text out @ visible_text tail, extracted out @ extracted tail)))"

definition citation_parser :: citation_stream_parser where
  "citation_parser = \<lparr>specs = citation_specs, pending = [], active = None\<rparr>"

lemma citation_new_Some: "citation_new = Some citation_parser"
  by (simp add: citation_new_def inline_new_def specs_ok_def citation_specs_def CITATION_OPEN_def
      CITATION_CLOSE_def citation_parser_def rs_def)

lemma citation_specs_ok: "specs_ok citation_specs" "opens_separate citation_specs"
  by (simp_all add: specs_ok_def citation_specs_def CITATION_OPEN_def CITATION_CLOSE_def rs_def opens_separate_def)

lemma citation_parser_ok: "inline_parser_ok citation_parser"
  using inline_new_ok citation_new_Some citation_specs_ok(2) by (simp add: citation_new_def)

theorem inline_push_returns_witness:
  "\<exists>p' out. inline_push_seq citation_parser [rs ''a<oai-mem-'', rs ''citation>x''] = Some (p', out)"
  by (rule inline_push_returns [OF citation_new_Some [unfolded citation_new_def]])

theorem inline_push_chunking_witness:
  "inline_push_seq citation_parser [rs ''a<oai-mem-'', rs ''citation>x'']
     = inline_push_str citation_parser (rs ''a<oai-mem-citation>x'')"
  using inline_push_chunking [OF citation_new_Some [unfolded citation_new_def] citation_specs_ok(2),
      of "[rs ''a<oai-mem-'', rs ''citation>x'']"] by (simp add: rs_def)

subsection \<open>What the citation parser extracts\<close>

text \<open>A text with its citations written out: each visible piece is followed by a citation.\<close>

fun with_citations :: "(rstr \<times> rstr) list \<Rightarrow> rstr \<Rightarrow> rstr" where
  "with_citations [] rest = rest"
| "with_citations ((v, c) # cs) rest = v @ CITATION_OPEN @ c @ CITATION_CLOSE @ with_citations cs rest"

text \<open>The tags are where they were put: none occurs earlier.\<close>

definition cites_ok :: "(rstr \<times> rstr) list \<Rightarrow> bool" where
  "cites_ok cs \<longleftrightarrow> (\<forall>(v, c) \<in> set cs.
     find_str CITATION_OPEN (v @ CITATION_OPEN) = Some (length v)
     \<and> find_str CITATION_CLOSE (c @ CITATION_CLOSE) = Some (length c))"

lemma find_next_open_citation:
  "find_next_open citation_specs pend = map_option (\<lambda>i. (i, 0)) (find_str CITATION_OPEN pend)"
  by (cases "find_str CITATION_OPEN pend")
    (auto simp: find_next_open_None find_next_open_Some is_next_def citation_specs_def)

lemma push_loop_citation_open:
  assumes "find_str CITATION_OPEN (v @ CITATION_OPEN) = Some (length v)"
  shows "push_loop citation_specs (v @ CITATION_OPEN @ t) None out
    = push_loop citation_specs t (Some \<lparr>at_tag = Citation, at_close = CITATION_CLOSE, at_content = []\<rparr>) (out_visible v out)"
  using find_str_append [OF assms, of t]
  by (subst push_loop_step) (simp add: loop_step_def find_next_open_citation, simp add: citation_specs_def)

lemma push_loop_citation_close:
  assumes "find_str CITATION_CLOSE (c @ CITATION_CLOSE) = Some (length c)"
  shows "push_loop citation_specs (c @ CITATION_CLOSE @ t)
      (Some \<lparr>at_tag = Citation, at_close = CITATION_CLOSE, at_content = []\<rparr>) out
    = push_loop citation_specs t None (out_tag Citation c out)"
  using find_str_append [OF assms, of t] by (subst push_loop_step) (simp add: loop_step_def)

definition out_cites :: "(rstr \<times> rstr) list \<Rightarrow> citation_tag tag_chunk \<Rightarrow> citation_tag tag_chunk" where
  "out_cites cs out = fold (\<lambda>(v, c) o'. out_tag Citation c (out_visible v o')) cs out"

lemma out_cites_fields:
  "visible_text (out_cites cs out) = visible_text out @ concat (map fst cs)"
  "map et_content (extracted (out_cites cs out)) = map et_content (extracted out) @ map snd cs"
  unfolding out_cites_def by (induction cs arbitrary: out) (auto simp: out_tag_def out_visible_def)

lemma push_loop_citations:
  "cites_ok cs \<Longrightarrow> push_loop citation_specs (with_citations cs rest) None out
     = push_loop citation_specs rest None (out_cites cs out)"
proof (induction cs arbitrary: out)
  case Nil
  then show ?case by (simp add: out_cites_def)
next
  case (Cons vc cs)
  obtain v c where vc: "vc = (v, c)" by (cases vc)
  with Cons.prems have ok: "find_str CITATION_OPEN (v @ CITATION_OPEN) = Some (length v)"
      "find_str CITATION_CLOSE (c @ CITATION_CLOSE) = Some (length c)" "cites_ok cs"
    by (auto simp: cites_ok_def)
  with Cons.IH show ?case
    by (simp add: vc out_cites_def push_loop_citation_open push_loop_citation_close)
qed

lemma push_loop_citation_rest:
  assumes "find_str CITATION_OPEN rest = None"
  shows "\<exists>n. push_loop citation_specs rest None out = Some (drop n rest, None, out_visible (take n rest) out)"
  using assms by (subst push_loop_step) (auto simp: loop_step_def find_next_open_citation Let_def)

text \<open>
  Stripping citations inverts writing them: the visible text is the text without the
  citations, the citations come back in order, and a text without tags is
  returned as it is. An unfinished last citation is closed at the end.
\<close>

theorem strip_citations_inverts:
  assumes "cites_ok cs" "find_str CITATION_OPEN rest = None"
  shows "strip_citations (with_citations cs rest) = Some (concat (map fst cs) @ rest, map snd cs)
    \<and> (find_str CITATION_OPEN (v @ CITATION_OPEN) = Some (length v) \<longrightarrow> find_str CITATION_CLOSE c = None \<longrightarrow>
        strip_citations (with_citations cs (v @ CITATION_OPEN @ c))
          = Some (concat (map fst cs) @ v, map snd cs @ [c]))"
proof (intro conjI impI)
  obtain n where "push_loop citation_specs (with_citations cs rest) None chunk_default
      = Some (drop n rest, None, out_visible (take n rest) (out_cites cs chunk_default))"
    using push_loop_citation_rest [OF assms(2)] push_loop_citations [OF assms(1)] by metis
  then show "strip_citations (with_citations cs rest) = Some (concat (map fst cs) @ rest, map snd cs)"
    using out_cites_fields [of cs chunk_default]
    by (auto simp: strip_citations_def citation_new_Some citation_parser_def citation_push_str_def
        inline_push_str_def citation_finish_def inline_finish_def citation_chunk_def out_visible_def
        chunk_default_def Let_def)
next
  assume v: "find_str CITATION_OPEN (v @ CITATION_OPEN) = Some (length v)" and c: "find_str CITATION_CLOSE c = None"
  let ?n = "length c - longest_suffix_prefix_len c CITATION_CLOSE"
  have "push_loop citation_specs (with_citations cs (v @ CITATION_OPEN @ c)) None chunk_default
      = Some (drop ?n c, Some \<lparr>at_tag = Citation, at_close = CITATION_CLOSE, at_content = take ?n c\<rparr>,
          out_visible v (out_cites cs chunk_default))"
    unfolding push_loop_citations [OF assms(1)] push_loop_citation_open [OF v]
    using c by (subst push_loop_step) (simp add: loop_step_def Let_def)
  then show "strip_citations (with_citations cs (v @ CITATION_OPEN @ c)) = Some (concat (map fst cs) @ v, map snd cs @ [c])"
    using out_cites_fields [of cs chunk_default]
    by (simp add: strip_citations_def citation_new_Some citation_parser_def citation_push_str_def
        inline_push_str_def citation_finish_def inline_finish_def citation_chunk_def out_visible_def
        out_tag_def chunk_default_def Let_def)
qed

theorem strip_citations_inverts_witness:
  "strip_citations (rs ''hi <oai-mem-citation>a<b</oai-mem-citation> there'') = Some (rs ''hi  there'', [rs ''a<b''])"
proof -
  have c: "cites_ok [(rs ''hi '', rs ''a<b'')]" unfolding cites_ok_def by code_simp
  have r: "find_str CITATION_OPEN (rs '' there'') = None" by code_simp
  from strip_citations_inverts [OF c r, of "[]" "[]"] show ?thesis
    by (simp add: CITATION_OPEN_def CITATION_CLOSE_def rs_def)
qed

end
