(* ===== verification/Tagged_Lines.thy ===== *)
theory Tagged_Lines
  imports Stream_Text
begin

text \<open>
  The parser for tags that stand alone on a line
  (\<^verbatim>\<open>utils/stream-parser/src/tagged_line_parser.rs\<close>). It works character by character and
  lets text through as soon as the line can no longer be a tag. The main theorem
  compares it with a definition that looks at whole lines.
\<close>

section \<open>The parser\<close>

record 't tag_spec =
  ts_open :: rstr
  ts_close :: rstr
  ts_tag :: 't

datatype 't tagged_line_segment =
    Normal rstr
  | TagStart 't
  | TagDelta 't rstr
  | TagEnd 't

record 't tagged_line_parser =
  tl_specs :: "'t tag_spec list"
  tl_active_tag :: "'t option"
  tl_detect_tag :: bool
  tl_line_buffer :: rstr

definition tagged_new :: "'t tag_spec list \<Rightarrow> 't tagged_line_parser" where
  "tagged_new ss = \<lparr>tl_specs = ss, tl_active_tag = None, tl_detect_tag = True, tl_line_buffer = []\<rparr>"

definition last_segment :: "'t tagged_line_segment list \<Rightarrow> 't tagged_line_segment option" where
  "last_segment segments = (if segments = [] then None else Some (last segments))"

fun push_segment :: "'t tagged_line_segment list \<Rightarrow> 't tagged_line_segment \<Rightarrow> 't tagged_line_segment list" where
  "push_segment segments (Normal delta) =
     (if delta = [] then segments
      else case last_segment segments of
        Some (Normal existing) \<Rightarrow> butlast segments @ [Normal (existing @ delta)]
      | _ \<Rightarrow> segments @ [Normal delta])"
| "push_segment segments (TagDelta t delta) =
     (if delta = [] then segments
      else case last_segment segments of
        Some (TagDelta existing_tag existing) \<Rightarrow>
          if existing_tag = t then butlast segments @ [TagDelta existing_tag (existing @ delta)]
          else segments @ [TagDelta t delta]
      | _ \<Rightarrow> segments @ [TagDelta t delta])"
| "push_segment segments (TagStart t) = segments @ [TagStart t]"
| "push_segment segments (TagEnd t) = segments @ [TagEnd t]"

definition text_segment :: "'t option \<Rightarrow> rstr \<Rightarrow> 't tagged_line_segment" where
  "text_segment act text = (case act of Some t \<Rightarrow> TagDelta t text | None \<Rightarrow> Normal text)"

definition push_text ::
  "'t tagged_line_parser \<Rightarrow> rstr \<Rightarrow> 't tagged_line_segment list \<Rightarrow> 't tagged_line_segment list" where
  "push_text p text segments = push_segment segments (text_segment (tl_active_tag p) text)"

definition is_tag_prefix :: "'t tag_spec list \<Rightarrow> rstr \<Rightarrow> bool" where
  "is_tag_prefix ss slug =
     (let slug = trim_end slug in
      list_ex (\<lambda>spec. starts_with (ts_open spec) slug \<or> starts_with (ts_close spec) slug) ss)"

definition match_open :: "'t tag_spec list \<Rightarrow> rstr \<Rightarrow> 't option" where
  "match_open ss slug = map_option ts_tag (find (\<lambda>spec. ts_open spec = slug) ss)"

definition match_close :: "'t tag_spec list \<Rightarrow> rstr \<Rightarrow> 't option" where
  "match_close ss slug = map_option ts_tag (find (\<lambda>spec. ts_close spec = slug) ss)"

definition without_newline :: "rstr \<Rightarrow> rstr" where
  "without_newline line = (case strip_suffix [LF] line of Some l \<Rightarrow> l | None \<Rightarrow> line)"

text \<open>
  What a complete line is, given the open tag: the tag state afterwards and the
  segment. Both \<^verbatim>\<open>finish_line\<close> and \<^verbatim>\<open>finish\<close> decide this way.
\<close>

definition classify_line ::
  "'t tag_spec list \<Rightarrow> 't option \<Rightarrow> rstr \<Rightarrow> 't option \<times> 't tagged_line_segment" where
  "classify_line ss act line =
     (let slug = trim (without_newline line) in
      case (match_open ss slug, act) of
        (Some t, None) \<Rightarrow> (Some t, TagStart t)
      | _ \<Rightarrow>
        (case match_close ss slug of
           Some t \<Rightarrow> if act = Some t then (None, TagEnd t) else (act, text_segment act line)
         | None \<Rightarrow> (act, text_segment act line)))"

definition finish_line ::
  "'t tagged_line_parser \<Rightarrow> 't tagged_line_segment list \<Rightarrow> 't tagged_line_parser \<times> 't tagged_line_segment list" where
  "finish_line p segments =
     (let (act, segment) = classify_line (tl_specs p) (tl_active_tag p) (tl_line_buffer p) in
      (p\<lparr>tl_line_buffer := [], tl_active_tag := act, tl_detect_tag := True\<rparr>, push_segment segments segment))"

text \<open>The loop of \<^verbatim>\<open>parse\<close>: \<open>run\<close> collects text of a line that is known not to be a tag.\<close>

fun parse_chars ::
  "'t tagged_line_parser \<Rightarrow> rstr \<Rightarrow> 't tagged_line_segment list \<Rightarrow> rstr
     \<Rightarrow> 't tagged_line_parser \<times> 't tagged_line_segment list" where
  "parse_chars p run segments [] =
     (p, if run \<noteq> [] then push_text p run segments else segments)"
| "parse_chars p run segments (ch # delta) =
     (if tl_detect_tag p then
        let segments = (if run \<noteq> [] then push_text p run segments else segments);
            p = p\<lparr>tl_line_buffer := tl_line_buffer p @ [ch]\<rparr> in
        if ch = LF then
          let (p, segments) = finish_line p segments in parse_chars p [] segments delta
        else
          let slug = trim_start (tl_line_buffer p) in
          if slug = [] \<or> is_tag_prefix (tl_specs p) slug then parse_chars p [] segments delta
          else
            let buffered = tl_line_buffer p;
                p = p\<lparr>tl_line_buffer := [], tl_detect_tag := False\<rparr> in
            parse_chars p [] (push_text p buffered segments) delta
      else
        let run = run @ [ch] in
        if ch = LF then
          parse_chars (p\<lparr>tl_detect_tag := True\<rparr>) [] (push_text p run segments) delta
        else parse_chars p run segments delta)"

definition tagged_parse ::
  "'t tagged_line_parser \<Rightarrow> rstr \<Rightarrow> 't tagged_line_parser \<times> 't tagged_line_segment list" where
  "tagged_parse p delta = parse_chars p [] [] delta"

definition tagged_finish ::
  "'t tagged_line_parser \<Rightarrow> 't tagged_line_parser \<times> 't tagged_line_segment list" where
  "tagged_finish p =
     (let (act, segments) =
            (if tl_line_buffer p \<noteq> [] then
               let (act, segment) = classify_line (tl_specs p) (tl_active_tag p) (tl_line_buffer p)
               in (act, push_segment [] segment)
             else (tl_active_tag p, []));
          segments = (case act of Some t \<Rightarrow> push_segment segments (TagEnd t) | None \<Rightarrow> segments)
      in (p\<lparr>tl_line_buffer := [], tl_active_tag := None, tl_detect_tag := True\<rparr>, segments))"

section \<open>Merging segments\<close>

definition merge_segments ::
  "'t tagged_line_segment list \<Rightarrow> 't tagged_line_segment list \<Rightarrow> 't tagged_line_segment list" where
  "merge_segments xs ys = foldl push_segment xs ys"

lemma merge_segments_simps [simp]:
  "merge_segments xs [] = xs"
  "merge_segments xs (y # ys) = merge_segments (push_segment xs y) ys"
  "merge_segments xs (ys @ zs) = merge_segments (merge_segments xs ys) zs"
  by (simp_all add: merge_segments_def)

lemma last_segment_snoc [simp]: "last_segment [] = None" "last_segment [x] = Some x" "last_segment (x # y # ys) = last_segment (y # ys)"
  "last_segment (xs @ y # ys) = last_segment (y # ys)"
  by (simp_all add: last_segment_def)

lemma push_segment_empty:
  "push_segment xs (Normal []) = xs" "push_segment xs (TagDelta a []) = xs"
  by simp_all

text \<open>Pushing a text in two pieces is pushing it at once.\<close>

lemma push_Normal_append:
  "push_segment (push_segment xs (Normal s)) (Normal t) = push_segment xs (Normal (s @ t))"
proof (cases xs rule: rev_cases)
  case (snoc ys y)
  then show ?thesis by (cases y) (simp_all add: butlast_append)
qed simp

lemma push_TagDelta_append:
  "push_segment (push_segment xs (TagDelta a s)) (TagDelta a t) = push_segment xs (TagDelta a (s @ t))"
proof (cases xs rule: rev_cases)
  case (snoc ys y)
  then show ?thesis by (cases y) (simp_all add: butlast_append)
qed simp

lemma push_segment_text_append:
  "push_segment (push_segment xs (text_segment act s)) (text_segment act t)
     = push_segment xs (text_segment act (s @ t))"
  by (cases act) (simp_all only: text_segment_def option.case push_Normal_append push_TagDelta_append)

lemma merge_push_snoc:
  "merge_segments xs (push_segment (ws @ [y]) z) = push_segment (push_segment (merge_segments xs ws) y) z"
proof (cases z)
  case (Normal b)
  then show ?thesis
    using push_Normal_append [of "merge_segments xs ws" _ b]
    by (cases y) (simp_all del: push_segment.simps add: push_segment.simps [of "ws @ [_]"] push_segment_empty)
next
  case (TagDelta t b)
  then show ?thesis
    using push_TagDelta_append [of "merge_segments xs ws" t _ b]
    by (cases y) (simp_all del: push_segment.simps add: push_segment.simps [of "ws @ [_]"] push_segment_empty)
qed simp_all

lemma merge_push_segment:
  "merge_segments xs (push_segment ys z) = push_segment (merge_segments xs ys) z"
proof (cases ys rule: rev_cases)
  case Nil
  then show ?thesis by (cases z) (simp_all add: merge_segments_def)
next
  case (snoc ws y)
  then show ?thesis by (simp add: merge_push_snoc)
qed

lemma merge_segments_assoc: "merge_segments xs (merge_segments ys zs) = merge_segments (merge_segments xs ys) zs"
  by (induction zs arbitrary: ys) (simp_all add: merge_push_segment)

lemma merge_from_nothing: "merge_segments xs (merge_segments [] ys) = merge_segments xs ys"
  by (simp add: merge_segments_assoc)

section \<open>Chunking\<close>

text \<open>One character, with its text pushed at once.\<close>

definition char_step ::
  "'t tagged_line_parser \<Rightarrow> uchar \<Rightarrow> 't tagged_line_parser \<times> 't tagged_line_segment list" where
  "char_step p ch =
     (if tl_detect_tag p then
        let line = tl_line_buffer p @ [ch] in
        if ch = LF then finish_line (p\<lparr>tl_line_buffer := line\<rparr>) []
        else if trim_start line = [] \<or> is_tag_prefix (tl_specs p) (trim_start line)
        then (p\<lparr>tl_line_buffer := line\<rparr>, [])
        else (p\<lparr>tl_line_buffer := [], tl_detect_tag := False\<rparr>, [text_segment (tl_active_tag p) line])
      else (p\<lparr>tl_detect_tag := (ch = LF)\<rparr>, [text_segment (tl_active_tag p) [ch]]))"

fun char_steps ::
  "'t tagged_line_parser \<Rightarrow> rstr \<Rightarrow> 't tagged_line_parser \<times> 't tagged_line_segment list" where
  "char_steps p [] = (p, [])"
| "char_steps p (ch # delta) =
     (let (p1, o1) = char_step p ch; (p2, o2) = char_steps p1 delta in (p2, o1 @ o2))"

lemma char_steps_append:
  "char_steps p (s @ t) = (let (p1, o1) = char_steps p s; (p2, o2) = char_steps p1 t in (p2, o1 @ o2))"
  by (induction s arbitrary: p) (auto split: prod.splits)

lemma push_text_Nil [simp]: "push_text p [] segments = segments"
  by (cases "tl_active_tag p") (simp_all add: push_text_def text_segment_def)

lemma finish_line_segments:
  "finish_line p segments = (let (p', o') = finish_line p [] in (p', merge_segments segments o'))"
  by (simp add: finish_line_def split: prod.splits) (metis merge_push_segment merge_segments_simps(1))

lemma parse_chars_steps:
  "parse_chars p run segments cs =
     (let (p', o') = char_steps p cs in (p', merge_segments (push_text p run segments) o'))"
proof (induction cs arbitrary: p run segments)
  case Nil
  then show ?case by simp
next
  case (Cons ch delta)
  let ?s = "push_text p run segments" and ?p = "p\<lparr>tl_line_buffer := tl_line_buffer p @ [ch]\<rparr>"
  have s: "(if run \<noteq> [] then push_text p run segments else segments) = ?s" by simp
  show ?case
  proof (cases "tl_detect_tag p")
    case False
    have run: "push_text p (run @ [ch]) segments = push_segment ?s (text_segment (tl_active_tag p) [ch])"
      by (simp add: push_text_def push_segment_text_append)
    have p: "p\<lparr>tl_detect_tag := False\<rparr> = p" using False by simp
    have flush: "parse_chars (p\<lparr>tl_detect_tag := True\<rparr>) [] (push_text p (run @ [ch]) segments) delta
        = (let (p', o') = char_steps (p\<lparr>tl_detect_tag := True\<rparr>) delta
           in (p', merge_segments (push_text p (run @ [ch]) segments) o'))"
      by (simp add: Cons.IH)
    show ?thesis
    proof (cases "ch = LF")
      case True
      with False flush run show ?thesis by (simp add: Let_def char_step_def split: prod.split)
    next
      case neq: False
      with False run show ?thesis
        by (simp add: Let_def Cons.IH [of p "run @ [ch]"] char_step_def p split: prod.split)
    qed
  next
    case True
    show ?thesis
    proof (cases "ch = LF")
      case lf: True
      obtain q o' where q: "finish_line ?p [] = (q, o')" by (cases "finish_line ?p []")
      then have f: "finish_line ?p ?s = (q, merge_segments ?s o')" by (simp add: finish_line_segments [of ?p ?s])
      from True show ?thesis
        using q f unfolding lf by (simp add: Cons.IH char_step_def s split: prod.splits)
    next
      case False
      with True show ?thesis
        by (simp add: Cons.IH char_step_def s Let_def split: prod.split)
          (simp add: push_text_def)
    qed
  qed
qed

lemma tagged_parse_steps: "tagged_parse p s = (let (p', o') = char_steps p s in (p', merge_segments [] o'))"
  by (simp add: tagged_parse_def parse_chars_steps)

lemma tagged_parse_append:
  "tagged_parse p (s @ t) = (let (p1, o1) = tagged_parse p s; (p2, o2) = tagged_parse p1 t in (p2, merge_segments o1 o2))"
  by (simp add: tagged_parse_steps char_steps_append merge_from_nothing split: prod.splits)

interpretation tagged: stream_parser "\<lambda>_. True" tagged_parse "[]" merge_segments
proof
  show "tagged_parse p [] = (p, [])" for p :: "'a tagged_line_parser" by (simp add: tagged_parse_def)
  show "tagged_parse p (s @ t) = (let (p1, o1) = tagged_parse p s; (p2, o2) = tagged_parse p1 t
      in (p2, merge_segments o1 o2))" for p :: "'a tagged_line_parser" and s t
    by (rule tagged_parse_append)
qed simp

section \<open>Comparison with whole lines\<close>

text \<open>The reference: split the text after every line feed and classify each line.\<close>

fun lines_inclusive :: "rstr \<Rightarrow> rstr list" where
  "lines_inclusive [] = []"
| "lines_inclusive (c # s) =
     (if c = LF then [LF] # lines_inclusive s
      else case lines_inclusive s of [] \<Rightarrow> [[c]] | l # ls \<Rightarrow> (c # l) # ls)"

fun classify_lines ::
  "'t tag_spec list \<Rightarrow> 't option \<Rightarrow> rstr list \<Rightarrow> 't option \<times> 't tagged_line_segment list" where
  "classify_lines ss act [] = (act, [])"
| "classify_lines ss act (l # ls) =
     (let (act1, seg) = classify_line ss act l; (act2, segs) = classify_lines ss act1 ls
      in (act2, seg # segs))"

definition segments_of_lines :: "'t tag_spec list \<Rightarrow> rstr \<Rightarrow> 't tagged_line_segment list" where
  "segments_of_lines ss text =
     (let (act, segs) = classify_lines ss None (lines_inclusive text)
      in merge_segments [] (segs @ (case act of Some t \<Rightarrow> [TagEnd t] | None \<Rightarrow> [])))"

text \<open>A line whose beginning is no beginning of a tag is not a tag.\<close>

definition refuted :: "'t tag_spec list \<Rightarrow> rstr \<Rightarrow> bool" where
  "refuted ss x \<longleftrightarrow> trim_start x \<noteq> [] \<and> \<not> is_tag_prefix ss (trim_start x)"

lemma trim_start_append: "trim_start x \<noteq> [] \<Longrightarrow> trim_start (x @ z) = trim_start x @ z"
  unfolding trim_start_def by (induction x) auto

lemma trim_end_prefix_mono: "prefix (trim_end s) (trim_end (s @ z))"
proof (induction z rule: rev_induct)
  case (snoc c z)
  obtain w where "s = trim_end s @ w" using trim_end_decomp [of s] by blast
  then have "s @ z = trim_end s @ (w @ z)" by (metis append_assoc)
  then have "prefix (trim_end s) (s @ z)" by (rule prefixI)
  then have "prefix (trim_end s) ((s @ z) @ [c])" by (rule prefix_order.trans) simp
  with snoc show ?case by (simp add: trim_end_snoc flip: append_assoc)
qed simp

lemma refuted_not_tag:
  assumes "refuted ss x" "spec \<in> set ss"
  shows "trim (x @ z) \<noteq> ts_open spec \<and> trim (x @ z) \<noteq> ts_close spec"
proof -
  have t: "trim (x @ z) = trim_end (trim_start x @ z)"
    using assms(1) by (simp add: refuted_def trim_def trim_start_append)
  have "starts_with (trim (x @ z)) (trim_end (trim_start x))"
    unfolding t starts_with_prefix by (rule trim_end_prefix_mono)
  with assms show ?thesis by (auto simp: refuted_def is_tag_prefix_def list_ex_iff Let_def)
qed

lemma refuted_no_match:
  assumes "refuted ss x"
  shows "match_open ss (trim (x @ z)) = None" "match_close ss (trim (x @ z)) = None"
  using refuted_not_tag [OF assms] by (force simp: match_open_def match_close_def find_None_iff)+

lemma without_newline_simps [simp]:
  "without_newline (w @ [LF]) = w" "LF \<notin> set w \<Longrightarrow> without_newline w = w"
  by (auto simp: without_newline_def strip_suffix_def ends_with_iff split: option.splits)

lemma refuted_classify:
  assumes "refuted ss x" "LF \<notin> set (x @ z)"
  shows "classify_line ss act (x @ z) = (act, text_segment act (x @ z))"
    "classify_line ss act (x @ z @ [LF]) = (act, text_segment act (x @ z @ [LF]))"
  using without_newline_simps(1) [of "x @ z"] refuted_no_match [OF assms(1), of z] assms(2)
  by (simp_all add: classify_line_def split: option.splits)

text \<open>
  Part of a line, read from its beginning: it is still buffered, or it has been
  refuted and let through.
\<close>

lemma char_steps_partial_line:
  assumes "tl_detect_tag p" "tl_line_buffer p = []" "LF \<notin> set w"
  shows "char_steps p w = (p\<lparr>tl_line_buffer := w\<rparr>, [])
    \<or> (\<exists>x z segs. w = x @ z \<and> refuted (tl_specs p) x
        \<and> char_steps p w = (p\<lparr>tl_line_buffer := [], tl_detect_tag := False\<rparr>, segs)
        \<and> (\<forall>xs. merge_segments xs segs = push_segment xs (text_segment (tl_active_tag p) w)))"
  using assms(3)
proof (induction w rule: rev_induct)
  case Nil
  have "p\<lparr>tl_line_buffer := []\<rparr> = p" using assms(2) by simp
  then show ?case by simp
next
  case (snoc c w)
  then have c: "c \<noteq> LF" "LF \<notin> set w" by auto
  from snoc.IH [OF c(2)] show ?case
  proof
    assume b: "char_steps p w = (p\<lparr>tl_line_buffer := w\<rparr>, [])"
    show ?case
    proof (cases "refuted (tl_specs p) (w @ [c])")
      case True
      then have "char_steps p (w @ [c]) = (p\<lparr>tl_line_buffer := [], tl_detect_tag := False\<rparr>,
          [text_segment (tl_active_tag p) (w @ [c])])"
        using c(1) assms(1) by (simp add: char_steps_append b char_step_def refuted_def)
      with True show ?thesis
        by (intro disjI2 exI [of _ "w @ [c]"] exI [of _ "[]"] exI [of _ "[text_segment (tl_active_tag p) (w @ [c])]"]) simp
    next
      case False
      then have "char_steps p (w @ [c]) = (p\<lparr>tl_line_buffer := w @ [c]\<rparr>, [])"
        using c(1) assms(1) by (simp add: char_steps_append b char_step_def refuted_def)
      then show ?thesis by simp
    qed
  next
    assume "\<exists>x z segs. w = x @ z \<and> refuted (tl_specs p) x
        \<and> char_steps p w = (p\<lparr>tl_line_buffer := [], tl_detect_tag := False\<rparr>, segs)
        \<and> (\<forall>xs. merge_segments xs segs = push_segment xs (text_segment (tl_active_tag p) w))"
    then obtain x z segs where h: "w = x @ z" "refuted (tl_specs p) x"
        "char_steps p w = (p\<lparr>tl_line_buffer := [], tl_detect_tag := False\<rparr>, segs)"
        "\<forall>xs. merge_segments xs segs = push_segment xs (text_segment (tl_active_tag p) w)" by blast
    have "char_steps p (w @ [c]) = (p\<lparr>tl_line_buffer := [], tl_detect_tag := False\<rparr>,
        segs @ [text_segment (tl_active_tag p) [c]])"
      using c(1) by (simp add: char_steps_append h(3) char_step_def)
    moreover have "merge_segments xs (segs @ [text_segment (tl_active_tag p) [c]])
        = push_segment xs (text_segment (tl_active_tag p) (w @ [c]))" for xs
      by (simp add: h(4) push_segment_text_append)
    ultimately show ?case using h(1,2)
      by (intro disjI2 exI [of _ x] exI [of _ "z @ [c]"] exI [of _ "segs @ [text_segment (tl_active_tag p) [c]]"]) simp
  qed
qed

lemma char_steps_full_line:
  assumes "tl_detect_tag p" "tl_line_buffer p = []" "LF \<notin> set w"
    and c: "classify_line (tl_specs p) (tl_active_tag p) (w @ [LF]) = (act, seg)"
  shows "\<exists>segs. char_steps p (w @ [LF]) = (p\<lparr>tl_active_tag := act\<rparr>, segs)
    \<and> (\<forall>xs. merge_segments xs segs = push_segment xs seg)"
proof -
  have p: "p\<lparr>tl_line_buffer := [], tl_active_tag := a, tl_detect_tag := True\<rparr> = p\<lparr>tl_active_tag := a\<rparr>" for a
    using assms(1,2) by simp
  from char_steps_partial_line [OF assms(1-3)] show ?thesis
  proof
    assume b: "char_steps p w = (p\<lparr>tl_line_buffer := w\<rparr>, [])"
    have "char_step (p\<lparr>tl_line_buffer := w\<rparr>) LF = (p\<lparr>tl_active_tag := act\<rparr>, push_segment [] seg)"
      using assms(1) c p [of act] by (simp add: char_step_def finish_line_def)
    moreover have "merge_segments xs (push_segment [] seg) = push_segment xs seg" for xs
      by (simp add: merge_push_segment)
    ultimately show ?thesis by (simp add: char_steps_append b)
  next
    assume "\<exists>x z segs. w = x @ z \<and> refuted (tl_specs p) x
        \<and> char_steps p w = (p\<lparr>tl_line_buffer := [], tl_detect_tag := False\<rparr>, segs)
        \<and> (\<forall>xs. merge_segments xs segs = push_segment xs (text_segment (tl_active_tag p) w))"
    then obtain x z segs where h: "w = x @ z" "refuted (tl_specs p) x"
        "char_steps p w = (p\<lparr>tl_line_buffer := [], tl_detect_tag := False\<rparr>, segs)"
        "\<forall>xs. merge_segments xs segs = push_segment xs (text_segment (tl_active_tag p) w)" by blast
    have "act = tl_active_tag p" "seg = text_segment (tl_active_tag p) (w @ [LF])"
      using refuted_classify(2) [OF h(2), of z "tl_active_tag p"] assms(3) c h(1) by auto
    moreover have "p\<lparr>tl_line_buffer := [], tl_detect_tag := False, tl_detect_tag := True\<rparr>
        = p\<lparr>tl_active_tag := tl_active_tag p\<rparr>" using assms(1,2) by simp
    ultimately show ?thesis
      by (simp add: char_steps_append h(3,4) char_step_def push_segment_text_append)
  qed
qed

lemma lines_inclusive_line: "LF \<notin> set w \<Longrightarrow> lines_inclusive (w @ LF # s) = (w @ [LF]) # lines_inclusive s"
  by (induction w) auto

lemma lines_inclusive_rest: "LF \<notin> set w \<Longrightarrow> w \<noteq> [] \<Longrightarrow> lines_inclusive w = [w]"
proof (induction w)
  case (Cons c w)
  then show ?case by (cases w) auto
qed simp

lemma split_first_line: "LF \<in> set s \<Longrightarrow> \<exists>w t. s = w @ LF # t \<and> LF \<notin> set w"
  by (metis split_list_first)

text \<open>The whole text, from the beginning of a line to the end of the stream.\<close>

lemma parse_and_finish_lines:
  assumes "tl_detect_tag p" "tl_line_buffer p = []"
    and "classify_lines (tl_specs p) (tl_active_tag p) (lines_inclusive s) = (act, segs)"
    and "char_steps p s = (p', out)"
  shows "merge_segments xs (out @ snd (tagged_finish p'))
    = merge_segments xs (segs @ (case act of Some t \<Rightarrow> [TagEnd t] | None \<Rightarrow> []))"
  using assms
proof (induction s arbitrary: p xs segs out rule: length_induct)
  case (1 s)
  let ?ss = "tl_specs p" and ?last = "case act of Some t \<Rightarrow> [TagEnd t] | None \<Rightarrow> []"
  show ?case
  proof (cases "LF \<in> set s")
    case True
    then obtain w t where s: "s = w @ LF # t" "LF \<notin> set w" using split_first_line by blast
    obtain a1 seg where c: "classify_line ?ss (tl_active_tag p) (w @ [LF]) = (a1, seg)"
      by (cases "classify_line ?ss (tl_active_tag p) (w @ [LF])")
    obtain segs2 where rest: "classify_lines ?ss a1 (lines_inclusive t) = (act, segs2)" "segs = seg # segs2"
      using 1(4) c by (auto simp: s(1) lines_inclusive_line [OF s(2)] split: prod.splits)
    obtain o1 where o1: "char_steps p (w @ [LF]) = (p\<lparr>tl_active_tag := a1\<rparr>, o1)"
        "\<forall>xs. merge_segments xs o1 = push_segment xs seg"
      using char_steps_full_line [OF 1(2,3) s(2) c] by blast
    obtain o2 where o2: "char_steps (p\<lparr>tl_active_tag := a1\<rparr>) t = (p', o2)" "out = o1 @ o2"
      using 1(5) o1(1) char_steps_append [of p "w @ [LF]" t] by (auto simp: s(1) split: prod.splits)
    have "merge_segments (push_segment xs seg) (o2 @ snd (tagged_finish p'))
        = merge_segments (push_segment xs seg) (segs2 @ ?last)"
      using 1(1) [rule_format, of t "p\<lparr>tl_active_tag := a1\<rparr>" segs2 o2] 1(2,3) rest(1) o2(1) by (simp add: s(1))
    with o1(2) show ?thesis by (simp add: o2(2) rest(2))
  next
    case False
    note part = char_steps_partial_line [OF 1(2,3) False]
    show ?thesis
    proof (cases "s = []")
      case True
      with 1(3-5) show ?thesis by (auto simp: tagged_finish_def split: option.splits)
    next
      case nonempty: False
      obtain seg where c: "classify_line ?ss (tl_active_tag p) s = (act, seg)" "segs = [seg]"
        using 1(4) by (auto simp: lines_inclusive_rest [OF False nonempty] split: prod.splits)
      from part show ?thesis
      proof
        assume b: "char_steps p s = (p\<lparr>tl_line_buffer := s\<rparr>, [])"
        with 1(5) have "p' = p\<lparr>tl_line_buffer := s\<rparr>" "out = []" by auto
        with c nonempty show ?thesis
          by (cases act) (simp_all add: tagged_finish_def merge_push_segment)
      next
        assume "\<exists>x z segs. s = x @ z \<and> refuted (tl_specs p) x
            \<and> char_steps p s = (p\<lparr>tl_line_buffer := [], tl_detect_tag := False\<rparr>, segs)
            \<and> (\<forall>xs. merge_segments xs segs = push_segment xs (text_segment (tl_active_tag p) s))"
        then obtain x z where h: "s = x @ z" "refuted ?ss x"
            "p' = p\<lparr>tl_line_buffer := [], tl_detect_tag := False\<rparr>"
            "\<forall>xs. merge_segments xs out = push_segment xs (text_segment (tl_active_tag p) s)"
          using 1(5) by auto
        have "act = tl_active_tag p" "seg = text_segment (tl_active_tag p) s"
          using refuted_classify(1) [OF h(2), of z "tl_active_tag p"] False c(1) h(1) by auto
        with h(3,4) c(2) show ?thesis
          by (cases "tl_active_tag p") (simp_all add: tagged_finish_def)
      qed
    qed
  qed
qed

lemma tagged_lines_whole:
  "(let (p, out) = tagged.push_all (tagged_new ss) chunks
    in merge_segments out (snd (tagged_finish p))) = segments_of_lines ss (concat chunks)"
proof -
  obtain p out where run: "char_steps (tagged_new ss) (concat chunks) = (p, out)"
    by (cases "char_steps (tagged_new ss) (concat chunks)")
  obtain act segs where c: "classify_lines ss None (lines_inclusive (concat chunks)) = (act, segs)"
    by (cases "classify_lines ss None (lines_inclusive (concat chunks))")
  have "merge_segments [] (out @ snd (tagged_finish p))
      = merge_segments [] (segs @ (case act of Some t \<Rightarrow> [TagEnd t] | None \<Rightarrow> []))"
    by (rule parse_and_finish_lines [OF _ _ _ run]) (simp_all add: tagged_new_def c)
  then show ?thesis
    by (simp add: tagged.push_all_concat tagged_parse_steps run segments_of_lines_def c)
qed

text \<open>
  The character-by-character line parser agrees with looking at whole lines: for any
  text, cut into chunks in any way, its segments (joined across calls as it joins
  them within one) are those of classifying each line, with a block left open at
  the end closed.
\<close>

theorem tagged_parser_lines:
  "(let (p, out) = tagged.push_all (tagged_new ss) chunks
    in merge_segments out (snd (tagged_finish p))) = segments_of_lines ss (concat chunks)"
  by (rule tagged_lines_whole)

end
