(* ===== verification/Assistant_Text.thy ===== *)
theory Assistant_Text
  imports Inline_Tags Tagged_Lines
begin

text \<open>
  Proposed-plan blocks (\<^verbatim>\<open>utils/stream-parser/src/proposed_plan.rs\<close>) and the assistant text
  parser that removes citations first and plan blocks second
  (\<^verbatim>\<open>assistant_text.rs\<close>). The calls return an option because the citation parser's loop
  does; it is never \<^term>\<open>None\<close>.
\<close>

section \<open>Proposed plans\<close>

definition OPEN_TAG :: rstr where "OPEN_TAG = rs ''<proposed_plan>''"
definition CLOSE_TAG :: rstr where "CLOSE_TAG = rs ''</proposed_plan>''"

datatype plan_tag = ProposedPlan

datatype proposed_plan_segment =
    PlanNormal rstr
  | ProposedPlanStart
  | ProposedPlanDelta rstr
  | ProposedPlanEnd

type_synonym proposed_plan_parser = "plan_tag tagged_line_parser"

definition plan_specs :: "plan_tag tag_spec list" where
  "plan_specs = [\<lparr>ts_open = OPEN_TAG, ts_close = CLOSE_TAG, ts_tag = ProposedPlan\<rparr>]"

definition plan_new :: proposed_plan_parser where
  "plan_new = tagged_new plan_specs"

fun map_segment :: "plan_tag tagged_line_segment \<Rightarrow> proposed_plan_segment" where
  "map_segment (Normal text) = PlanNormal text"
| "map_segment (TagStart ProposedPlan) = ProposedPlanStart"
| "map_segment (TagDelta ProposedPlan text) = ProposedPlanDelta text"
| "map_segment (TagEnd ProposedPlan) = ProposedPlanEnd"

fun map_segments_onto ::
  "proposed_plan_segment stream_text_chunk \<Rightarrow> plan_tag tagged_line_segment list
     \<Rightarrow> proposed_plan_segment stream_text_chunk" where
  "map_segments_onto out [] = out"
| "map_segments_onto out (segment # segments) =
     (let mapped = map_segment segment;
          out = (case mapped of PlanNormal text \<Rightarrow> out\<lparr>visible_text := visible_text out @ text\<rparr> | _ \<Rightarrow> out)
      in map_segments_onto (out\<lparr>extracted := extracted out @ [mapped]\<rparr>) segments)"

definition map_segments :: "plan_tag tagged_line_segment list \<Rightarrow> proposed_plan_segment stream_text_chunk" where
  "map_segments segments = map_segments_onto chunk_default segments"

definition plan_push_str ::
  "proposed_plan_parser \<Rightarrow> rstr \<Rightarrow> proposed_plan_parser \<times> proposed_plan_segment stream_text_chunk" where
  "plan_push_str p chunk = (let (p', segments) = tagged_parse p chunk in (p', map_segments segments))"

definition plan_finish ::
  "proposed_plan_parser \<Rightarrow> proposed_plan_parser \<times> proposed_plan_segment stream_text_chunk" where
  "plan_finish p = (let (p', segments) = tagged_finish p in (p', map_segments segments))"

definition strip_proposed_plan_blocks :: "rstr \<Rightarrow> rstr" where
  "strip_proposed_plan_blocks text =
     (let (p, out) = plan_push_str plan_new text
      in visible_text out @ visible_text (snd (plan_finish p)))"

fun collect_plan :: "bool \<times> rstr \<Rightarrow> proposed_plan_segment \<Rightarrow> bool \<times> rstr" where
  "collect_plan (saw_plan_block, plan_text) ProposedPlanStart = (True, [])"
| "collect_plan (saw_plan_block, plan_text) (ProposedPlanDelta delta) = (saw_plan_block, plan_text @ delta)"
| "collect_plan acc ProposedPlanEnd = acc"
| "collect_plan acc (PlanNormal _) = acc"

definition extract_proposed_plan_text :: "rstr \<Rightarrow> rstr option" where
  "extract_proposed_plan_text text =
     (let (p, out) = plan_push_str plan_new text;
          (saw_plan_block, plan_text) =
            foldl collect_plan (False, []) (extracted out @ extracted (snd (plan_finish p)))
      in if saw_plan_block then Some plan_text else None)"

section \<open>Assistant text\<close>

record assistant_text_chunk =
  ac_visible_text :: rstr
  ac_citations :: "rstr list"
  ac_plan_segments :: "proposed_plan_segment list"

definition assistant_chunk_default :: assistant_text_chunk where
  "assistant_chunk_default = \<lparr>ac_visible_text = [], ac_citations = [], ac_plan_segments = []\<rparr>"

definition assistant_chunk_is_empty :: "assistant_text_chunk \<Rightarrow> bool" where
  "assistant_chunk_is_empty c \<longleftrightarrow> ac_visible_text c = [] \<and> ac_citations c = [] \<and> ac_plan_segments c = []"

record assistant_text_stream_parser =
  as_plan_mode :: bool
  as_citations :: citation_stream_parser
  as_plan :: proposed_plan_parser

definition assistant_new :: "bool \<Rightarrow> assistant_text_stream_parser option" where
  "assistant_new plan_mode =
     map_option (\<lambda>c. \<lparr>as_plan_mode = plan_mode, as_citations = c, as_plan = plan_new\<rparr>) citation_new"

definition parse_visible_text ::
  "assistant_text_stream_parser \<Rightarrow> rstr \<Rightarrow> assistant_text_stream_parser \<times> assistant_text_chunk" where
  "parse_visible_text p text =
     (if \<not> as_plan_mode p then (p, assistant_chunk_default\<lparr>ac_visible_text := text\<rparr>)
      else let (plan', plan_chunk) = plan_push_str (as_plan p) text
           in (p\<lparr>as_plan := plan'\<rparr>,
               assistant_chunk_default\<lparr>ac_visible_text := visible_text plan_chunk,
                                       ac_plan_segments := extracted plan_chunk\<rparr>))"

definition assistant_push_str ::
  "assistant_text_stream_parser \<Rightarrow> rstr \<Rightarrow> (assistant_text_stream_parser \<times> assistant_text_chunk) option" where
  "assistant_push_str p chunk =
     map_option (\<lambda>(c', citation_chunk).
       let (p', out) = parse_visible_text (p\<lparr>as_citations := c'\<rparr>) (visible_text citation_chunk)
       in (p', out\<lparr>ac_citations := extracted citation_chunk\<rparr>))
       (citation_push_str (as_citations p) chunk)"

definition assistant_finish ::
  "assistant_text_stream_parser \<Rightarrow> assistant_text_stream_parser \<times> assistant_text_chunk" where
  "assistant_finish p =
     (let (c', citation_chunk) = citation_finish (as_citations p);
          (p', out) = parse_visible_text (p\<lparr>as_citations := c'\<rparr>) (visible_text citation_chunk);
          (p'', out') =
            (if as_plan_mode p' then
               let (plan', tail) = plan_finish (as_plan p')
               in (p'\<lparr>as_plan := plan'\<rparr>,
                   if \<not> stream_chunk_is_empty tail
                   then out\<lparr>ac_visible_text := ac_visible_text out @ visible_text tail,
                            ac_plan_segments := ac_plan_segments out @ extracted tail\<rparr>
                   else out)
             else (p', out))
      in (p'', out'\<lparr>ac_citations := extracted citation_chunk\<rparr>))"

section \<open>Visible text\<close>

fun seg_visible :: "'t tagged_line_segment list \<Rightarrow> rstr" where
  "seg_visible [] = []"
| "seg_visible (Normal t # segs) = t @ seg_visible segs"
| "seg_visible (_ # segs) = seg_visible segs"

lemma seg_visible_append [simp]: "seg_visible (xs @ ys) = seg_visible xs @ seg_visible ys"
  by (induction xs rule: seg_visible.induct) auto

lemma seg_visible_push: "seg_visible (push_segment xs y) = seg_visible xs @ seg_visible [y]"
proof (cases xs rule: rev_cases)
  case Nil
  then show ?thesis by (cases y) auto
next
  case (snoc ws w)
  then show ?thesis by (cases y; cases w) auto
qed

lemma seg_visible_merge [simp]: "seg_visible (merge_segments xs ys) = seg_visible xs @ seg_visible ys"
proof (induction ys arbitrary: xs)
  case (Cons y ys)
  then show ?case by (cases y) (simp_all add: seg_visible_push del: push_segment.simps)
qed simp

lemma map_segments_onto_fields:
  "visible_text (map_segments_onto out segs) = visible_text out @ seg_visible segs"
  "extracted (map_segments_onto out segs) = extracted out @ map map_segment segs"
proof (induction segs arbitrary: out)
  case (Cons s segs)
  {
    case 1
    show ?case using Cons(1) by (cases s rule: map_segment.cases) simp_all
  next
    case 2
    show ?case using Cons(2) by (cases s rule: map_segment.cases) simp_all
  }
qed simp_all

lemma map_segments_fields [simp]:
  "visible_text (map_segments segs) = seg_visible segs" "extracted (map_segments segs) = map map_segment segs"
  by (simp_all add: map_segments_def map_segments_onto_fields chunk_default_def)

text \<open>The lines outside plan blocks, as they are written.\<close>

fun lines_outside_plan :: "bool \<Rightarrow> rstr list \<Rightarrow> rstr list" where
  "lines_outside_plan inside [] = []"
| "lines_outside_plan inside (l # ls) =
     (let slug = trim (without_newline l) in
      if \<not> inside \<and> slug = OPEN_TAG then lines_outside_plan True ls
      else if inside \<and> slug = CLOSE_TAG then lines_outside_plan False ls
      else (if inside then [] else [l]) @ lines_outside_plan inside ls)"

lemma plan_tags_differ: "OPEN_TAG \<noteq> CLOSE_TAG" "CLOSE_TAG \<noteq> OPEN_TAG"
  by (simp_all add: OPEN_TAG_def CLOSE_TAG_def rs_def)

lemma plan_tag_all: "(a :: plan_tag) = ProposedPlan"
  by (cases a) simp

lemma classify_plan_line:
  "classify_line plan_specs None l =
     (if trim (without_newline l) = OPEN_TAG then (Some ProposedPlan, TagStart ProposedPlan) else (None, Normal l))"
  "classify_line plan_specs (Some ProposedPlan) l =
     (if trim (without_newline l) = CLOSE_TAG then (None, TagEnd ProposedPlan)
      else (Some ProposedPlan, TagDelta ProposedPlan l))"
  by (auto simp: classify_line_def plan_specs_def match_open_def match_close_def text_segment_def Let_def plan_tags_differ)

lemma seg_visible_lines:
  "seg_visible (snd (classify_lines plan_specs act ls)) = concat (lines_outside_plan (act \<noteq> None) ls)"
proof (induction ls arbitrary: act)
  case (Cons l ls)
  show ?case
  proof (cases act)
    case None
    then show ?thesis using Cons [of None] Cons [of "Some ProposedPlan"]
      by (simp add: classify_plan_line Let_def case_prod_beta)
  next
    case (Some a)
    then have "act = Some ProposedPlan" by (simp add: plan_tag_all [of a])
    then show ?thesis using Cons [of None] Cons [of "Some ProposedPlan"]
      by (simp add: classify_plan_line Let_def case_prod_beta)
  qed
qed simp

lemma visible_segments_of_lines:
  "seg_visible (segments_of_lines plan_specs text) = concat (lines_outside_plan False (lines_inclusive text))"
proof -
  obtain act segs where "classify_lines plan_specs None (lines_inclusive text) = (act, segs)"
    by (cases "classify_lines plan_specs None (lines_inclusive text)")
  with seg_visible_lines [of None "lines_inclusive text"] show ?thesis
    by (simp add: segments_of_lines_def split: option.split)
qed

text \<open>
  Stripping plan blocks keeps exactly the lines outside them: every line that is not a
  plan tag at its place and not inside a block comes through unchanged, with its
  line ending, in order.
\<close>

lemma strip_proposed_plan_blocks_lines:
  "strip_proposed_plan_blocks text = concat (lines_outside_plan False (lines_inclusive text))"
proof -
  obtain p segs where p: "tagged_parse plan_new text = (p, segs)" by (cases "tagged_parse plan_new text")
  have "tagged.push_all plan_new [text] = (p, segs)"
    using p by (simp add: tagged.push_all_concat)
  then have "merge_segments segs (snd (tagged_finish p)) = segments_of_lines plan_specs text"
    using tagged_lines_whole [of plan_specs "[text]"] by (simp add: plan_new_def)
  then have "seg_visible segs @ seg_visible (snd (tagged_finish p)) = seg_visible (segments_of_lines plan_specs text)"
    by (metis seg_visible_merge)
  then show ?thesis
    by (simp add: strip_proposed_plan_blocks_def plan_push_str_def plan_finish_def p visible_segments_of_lines
        case_prod_beta)
qed

section \<open>Plan text\<close>

abbreviation collect_segments :: "bool \<times> rstr \<Rightarrow> plan_tag tagged_line_segment list \<Rightarrow> bool \<times> rstr" where
  "collect_segments acc segs \<equiv> foldl collect_plan acc (map map_segment segs)"

lemma collect_push:
  "collect_segments acc (push_segment xs y) = collect_plan (collect_segments acc xs) (map_segment y)"
proof (cases xs rule: rev_cases)
  case Nil
  then show ?thesis by (cases acc; cases y rule: map_segment.cases) auto
next
  case (snoc ws w)
  then show ?thesis
    by (cases "collect_segments acc ws"; cases y rule: map_segment.cases; cases w rule: map_segment.cases) auto
qed

lemma collect_merge: "collect_segments acc (merge_segments xs ys) = collect_segments acc (xs @ ys)"
proof (induction ys arbitrary: xs)
  case (Cons y ys)
  then show ?case by (simp add: collect_push del: push_segment.simps)
qed simp

text \<open>The text of the last plan block that the lines hold, if there is one.\<close>

fun plan_of_lines :: "bool \<Rightarrow> rstr option \<Rightarrow> rstr list \<Rightarrow> rstr option" where
  "plan_of_lines inside plan [] = plan"
| "plan_of_lines inside plan (l # ls) =
     (let slug = trim (without_newline l) in
      if \<not> inside \<and> slug = OPEN_TAG then plan_of_lines True (Some []) ls
      else if inside \<and> slug = CLOSE_TAG then plan_of_lines False plan ls
      else plan_of_lines inside (if inside then map_option (\<lambda>t. t @ l) plan else plan) ls)"

definition plan_result :: "bool \<times> rstr \<Rightarrow> rstr option" where
  "plan_result acc = (if fst acc then Some (snd acc) else None)"

lemma plan_result_simps [simp]: "plan_result (True, t) = Some t" "plan_result (False, t) = None"
  by (simp_all add: plan_result_def)

lemma collect_lines:
  "(act \<noteq> None \<longrightarrow> saw) \<Longrightarrow>
   plan_result (collect_segments (saw, t) (snd (classify_lines plan_specs act ls)))
     = plan_of_lines (act \<noteq> None) (plan_result (saw, t)) ls"
proof (induction ls arbitrary: act saw t)
  case (Cons l ls)
  show ?case
  proof (cases act)
    case None
    then show ?thesis using Cons.IH [of None saw t] Cons.IH [of "Some ProposedPlan" True "[]"]
      by (simp add: classify_plan_line Let_def case_prod_beta)
  next
    case (Some a)
    then have "act = Some ProposedPlan" by (simp add: plan_tag_all [of a])
    moreover from this Cons.prems have saw by simp
    ultimately show ?thesis
      using Cons.IH [of None saw t] Cons.IH [of "Some ProposedPlan" True "t @ l"]
      by (simp add: classify_plan_line Let_def case_prod_beta)
  qed
qed simp

lemma collect_segments_of_lines:
  "plan_result (collect_segments (False, []) (segments_of_lines plan_specs text))
     = plan_of_lines False None (lines_inclusive text)"
proof -
  obtain act segs where "classify_lines plan_specs None (lines_inclusive text) = (act, segs)"
    by (cases "classify_lines plan_specs None (lines_inclusive text)")
  moreover have "collect_plan acc (map_segment (TagEnd a)) = acc" for acc a by (cases a) simp
  ultimately show ?thesis using collect_lines [of None False "[]" "lines_inclusive text"]
    by (simp add: segments_of_lines_def collect_merge split: option.split)
qed

lemma extract_proposed_plan_text_steps:
  "extract_proposed_plan_text text =
     (let (p, segs) = char_steps plan_new text
      in plan_result (collect_segments (False, []) (segs @ snd (tagged_finish p))))"
  by (simp add: extract_proposed_plan_text_def plan_push_str_def plan_finish_def tagged_parse_steps
      case_prod_beta plan_result_def Let_def collect_merge)

text \<open>
  The extracted plan is the text of the last plan block: the lines between its tags
  with their line endings, to the end of the text when the block is not closed,
  and nothing when no line opens a block.
\<close>

theorem extract_proposed_plan_text_lines:
  "extract_proposed_plan_text text = plan_of_lines False None (lines_inclusive text)"
proof -
  obtain p segs where p: "char_steps plan_new text = (p, segs)" by (cases "char_steps plan_new text")
  have "tagged.push_all plan_new [text] = (p, merge_segments [] segs)"
    using p by (simp add: tagged.push_all_concat tagged_parse_steps)
  then have "merge_segments (merge_segments [] segs) (snd (tagged_finish p)) = segments_of_lines plan_specs text"
    using tagged_lines_whole [of plan_specs "[text]"] by (simp add: plan_new_def)
  then have "collect_segments (False, []) (segs @ snd (tagged_finish p))
      = collect_segments (False, []) (segments_of_lines plan_specs text)"
    by (metis collect_merge merge_segments_simps(3) append_Nil)
  then show ?thesis
    by (simp only: extract_proposed_plan_text_steps p Let_def case_prod_conv collect_segments_of_lines)
qed

section \<open>The two parsers together\<close>

text \<open>A whole stream: the chunks, then the end, with the outputs of all calls joined.\<close>

definition assistant_append :: "assistant_text_chunk \<Rightarrow> assistant_text_chunk \<Rightarrow> assistant_text_chunk" where
  "assistant_append a b = \<lparr>ac_visible_text = ac_visible_text a @ ac_visible_text b,
     ac_citations = ac_citations a @ ac_citations b, ac_plan_segments = ac_plan_segments a @ ac_plan_segments b\<rparr>"

fun assistant_run :: "assistant_text_stream_parser \<Rightarrow> rstr list \<Rightarrow> assistant_text_chunk option" where
  "assistant_run p [] = Some (snd (assistant_finish p))"
| "assistant_run p (c # cs) =
     Option.bind (assistant_push_str p c) (\<lambda>(p', out). map_option (assistant_append out) (assistant_run p' cs))"

definition assistant_stream :: "bool \<Rightarrow> rstr list \<Rightarrow> assistant_text_chunk option" where
  "assistant_stream plan_mode chunks = Option.bind (assistant_new plan_mode) (\<lambda>p. assistant_run p chunks)"

lemma plan_push_str_steps:
  "plan_push_str p s = (let (p', segs) = char_steps p s in (p', map_segments (merge_segments [] segs)))"
  by (simp add: plan_push_str_def tagged_parse_steps case_prod_beta Let_def)

lemma citation_push_str_ok:
  "inline_parser_ok p \<Longrightarrow>
   citation_push_str p s = Some (let (p', c) = inline_push p s in (p', citation_chunk c))"
  by (simp add: citation_push_str_def inline_push_str_Some inline_parser_ok_def case_prod_beta Let_def)

text \<open>
  What the rest of the stream puts out from a given state, when the citation
  parser is fed the rest at once and the plan parser its visible text at once.
\<close>

definition rest_visible :: "citation_stream_parser \<Rightarrow> rstr \<Rightarrow> rstr \<times> rstr list" where
  "rest_visible c s =
     (let (c', o1) = inline_push c s; (_, o2) = inline_finish c'
      in (visible_text o1 @ visible_text o2, map et_content (extracted o1 @ extracted o2)))"

definition rest_plan :: "proposed_plan_parser \<Rightarrow> rstr \<Rightarrow> plan_tag tagged_line_segment list" where
  "rest_plan p v = (let (p', segs) = char_steps p v in segs @ snd (tagged_finish p'))"

definition rest_matches :: "assistant_text_stream_parser \<Rightarrow> rstr \<Rightarrow> assistant_text_chunk \<Rightarrow> bool" where
  "rest_matches p s out \<longleftrightarrow>
     ac_citations out = snd (rest_visible (as_citations p) s) \<and>
     (if as_plan_mode p then
        ac_visible_text out = seg_visible (rest_plan (as_plan p) (fst (rest_visible (as_citations p) s))) \<and>
        (\<forall>acc. foldl collect_plan acc (ac_plan_segments out)
           = collect_segments acc (rest_plan (as_plan p) (fst (rest_visible (as_citations p) s))))
      else ac_visible_text out = fst (rest_visible (as_citations p) s) \<and> ac_plan_segments out = [])"

lemma finish_matches:
  assumes "inline_parser_ok (as_citations p)"
  shows "rest_matches p [] (snd (assistant_finish p))"
proof -
  have e: "(if \<not> stream_chunk_is_empty tl then out\<lparr>ac_visible_text := ac_visible_text out @ visible_text tl,
      ac_plan_segments := ac_plan_segments out @ extracted tl\<rparr> else out)
    = out\<lparr>ac_visible_text := ac_visible_text out @ visible_text tl, ac_plan_segments := ac_plan_segments out @ extracted tl\<rparr>"
    for tl :: "proposed_plan_segment stream_text_chunk" and out
    by (cases out) (simp add: stream_chunk_is_empty_def)
  show ?thesis using assms
    by (simp add: rest_matches_def assistant_finish_def e rest_visible_def rest_plan_def inline_push_nothing
        citation_finish_def citation_chunk_def parse_visible_text_def plan_push_str_steps plan_finish_def
        assistant_chunk_default_def collect_merge chunk_default_def case_prod_beta Let_def)
qed

lemma push_matches:
  assumes ok: "inline_parser_ok (as_citations p)" and "assistant_push_str p c = Some (p', out)"
    and "rest_matches p' s rest"
  shows "rest_matches p (c @ s) (assistant_append out rest)"
proof -
  obtain c1 o1 where c1: "inline_push (as_citations p) c = (c1, o1)" by (cases "inline_push (as_citations p) c")
  obtain pl segs where pl: "char_steps (as_plan p) (visible_text o1) = (pl, segs)"
    by (cases "char_steps (as_plan p) (visible_text o1)")
  have v: "rest_visible (as_citations p) (c @ s)
      = (visible_text o1 @ fst (rest_visible c1 s), map et_content (extracted o1) @ snd (rest_visible c1 s))"
    by (simp add: rest_visible_def inline_push_append [OF ok] c1 case_prod_beta Let_def)
  have r: "rest_plan (as_plan p) (visible_text o1 @ w) = segs @ rest_plan pl w" for w
    by (simp add: rest_plan_def char_steps_append pl case_prod_beta Let_def)
  show ?thesis using assms(2,3)
    by (auto simp: rest_matches_def assistant_push_str_def citation_push_str_ok [OF ok] c1 v r pl
        parse_visible_text_def plan_push_str_steps assistant_append_def assistant_chunk_default_def
        citation_chunk_def collect_merge simp del: split_paired_All split: if_splits)
qed

lemma assistant_push_str_ok:
  assumes "inline_parser_ok (as_citations p)"
  shows "\<exists>p' out. assistant_push_str p c = Some (p', out) \<and> inline_parser_ok (as_citations p')"
  using inline_push_ok [OF assms, of c]
  by (auto simp: assistant_push_str_def citation_push_str_ok [OF assms] parse_visible_text_def case_prod_beta Let_def)

lemma assistant_run_matches:
  "inline_parser_ok (as_citations p) \<Longrightarrow>
   \<exists>out. assistant_run p cs = Some out \<and> rest_matches p (concat cs) out"
proof (induction cs arbitrary: p)
  case Nil
  then show ?case by (simp add: finish_matches)
next
  case (Cons c cs)
  from assistant_push_str_ok [OF Cons.prems] obtain p' out where
    p': "assistant_push_str p c = Some (p', out)" "inline_parser_ok (as_citations p')" by blast
  from Cons.IH [OF this(2)] obtain rest where "assistant_run p' cs = Some rest" "rest_matches p' (concat cs) rest" by blast
  with push_matches [OF Cons.prems p'(1)] p'(1) show ?case by auto
qed

lemma strip_citations_rest: "strip_citations text = Some (rest_visible citation_parser text)"
  by (simp add: strip_citations_def citation_new_Some citation_push_str_ok [OF citation_parser_ok] rest_visible_def
      citation_finish_def citation_chunk_def case_prod_beta Let_def)

lemma strip_plan_rest: "strip_proposed_plan_blocks v = seg_visible (rest_plan plan_new v)"
  by (simp add: strip_proposed_plan_blocks_def plan_push_str_steps plan_finish_def rest_plan_def case_prod_beta Let_def)

lemma extract_plan_rest:
  "extract_proposed_plan_text v = plan_result (collect_segments (False, []) (rest_plan plan_new v))"
  by (simp add: extract_proposed_plan_text_steps rest_plan_def case_prod_beta Let_def)

text \<open>
  C39: the assistant text parser is the composition of its two stages, however the stream
  is cut into chunks: it always returns; the citations are those of
  \<^verbatim>\<open>strip_citations\<close> on the whole text; outside plan mode the visible text is what that
  leaves; in plan mode it is what \<^verbatim>\<open>strip_proposed_plan_blocks\<close> leaves of it, and the plan
  segments spell out the plan that \<^verbatim>\<open>extract_proposed_plan_text\<close> finds in it.
\<close>

theorem assistant_stream_stages:
  "\<exists>v out. strip_citations (concat chunks) = Some (v, ac_citations out)
     \<and> assistant_stream plan_mode chunks = Some out
     \<and> ac_visible_text out = (if plan_mode then strip_proposed_plan_blocks v else v)
     \<and> plan_result (foldl collect_plan (False, []) (ac_plan_segments out))
         = (if plan_mode then extract_proposed_plan_text v else None)"
proof -
  let ?p = "\<lparr>as_plan_mode = plan_mode, as_citations = citation_parser, as_plan = plan_new\<rparr>"
  obtain out where out: "assistant_run ?p chunks = Some out" "rest_matches ?p (concat chunks) out"
    using assistant_run_matches [of ?p chunks] citation_parser_ok by auto
  then show ?thesis
    by (intro exI [of _ "fst (rest_visible citation_parser (concat chunks))"] exI [of _ out])
      (auto simp: rest_matches_def assistant_stream_def assistant_new_def citation_new_Some
        strip_citations_rest strip_plan_rest extract_plan_rest)
qed

end
