(* ===== verification/Utf8_Stream.thy ===== *)
theory Utf8_Stream
  imports Inline_Tags
begin

text \<open>
  Text parsers fed with bytes (\<^verbatim>\<open>utils/stream-parser/src/utf8_stream.rs\<close>): an incomplete code
  point at the end of a chunk waits for the next chunk, and a chunk with invalid
  bytes is rolled back as a whole. The standard library's \<^verbatim>\<open>str::from_utf8\<close> is modelled
  with the error it reports: how many bytes are valid, and the length of the
  invalid sequence unless the input just ends too early.
\<close>

section \<open>Decoding\<close>

type_synonym byte = "8 word"

datatype utf8_step = Decoded uchar nat | Invalid nat | Incomplete

definition is_cont :: "nat \<Rightarrow> bool" where
  "is_cont b \<longleftrightarrow> 0x80 \<le> b \<and> b \<le> 0xBF"

text \<open>The second bytes allowed after a first byte of a three- or four-byte sequence.\<close>

definition second_ok :: "nat \<Rightarrow> nat \<Rightarrow> bool" where
  "second_ok a b \<longleftrightarrow>
     (if a = 0xE0 then 0xA0 \<le> b \<and> b \<le> 0xBF
      else if a = 0xED then 0x80 \<le> b \<and> b \<le> 0x9F
      else if a = 0xF0 then 0x90 \<le> b \<and> b \<le> 0xBF
      else if a = 0xF4 then 0x80 \<le> b \<and> b \<le> 0x8F
      else is_cont b)"

text \<open>The first character of the bytes.\<close>

fun utf8_next :: "nat list \<Rightarrow> utf8_step" where
  "utf8_next [] = Incomplete"
| "utf8_next (a # bs) =
     (if a < 0x80 then Decoded (int a) 1
      else if 0xC2 \<le> a \<and> a \<le> 0xDF then
        (case bs of [] \<Rightarrow> Incomplete
         | b # _ \<Rightarrow> if \<not> is_cont b then Invalid 1 else Decoded (int ((a - 0xC0) * 64 + (b - 0x80))) 2)
      else if 0xE0 \<le> a \<and> a \<le> 0xEF then
        (case bs of [] \<Rightarrow> Incomplete
         | b # bs \<Rightarrow> if \<not> second_ok a b then Invalid 1
             else (case bs of [] \<Rightarrow> Incomplete
              | c # _ \<Rightarrow> if \<not> is_cont c then Invalid 2
                  else Decoded (int ((a - 0xE0) * 4096 + (b - 0x80) * 64 + (c - 0x80))) 3))
      else if 0xF0 \<le> a \<and> a \<le> 0xF4 then
        (case bs of [] \<Rightarrow> Incomplete
         | b # bs \<Rightarrow> if \<not> second_ok a b then Invalid 1
             else (case bs of [] \<Rightarrow> Incomplete
              | c # bs \<Rightarrow> if \<not> is_cont c then Invalid 2
                  else (case bs of [] \<Rightarrow> Incomplete
                   | d # _ \<Rightarrow> if \<not> is_cont d then Invalid 3
                       else Decoded (int ((a - 0xF0) * 262144 + (b - 0x80) * 4096 + (c - 0x80) * 64 + (d - 0x80))) 4)))
      else Invalid 1)"

lemma utf8_next_bounds:
  "utf8_next bs = Decoded c w \<Longrightarrow> 0 < w \<and> w \<le> length bs"
  "utf8_next bs = Invalid n \<Longrightarrow> 0 < n \<and> n \<le> length bs"
  by (cases bs; auto split: if_splits list.splits)+

lemma utf8_next_append:
  "utf8_next bs = Decoded c w \<Longrightarrow> utf8_next (bs @ bs') = Decoded c w"
  "utf8_next bs = Invalid n \<Longrightarrow> utf8_next (bs @ bs') = Invalid n"
  by (cases bs; auto split: if_splits list.splits)+

lemma utf8_next_take:
  "utf8_next bs = Decoded c w \<Longrightarrow> w \<le> n \<Longrightarrow> utf8_next (take n bs) = Decoded c w"
  by (cases bs; cases n) (auto simp: take_Cons split: if_splits list.splits nat.splits)

record utf8_error =
  valid_up_to :: nat
  error_len :: "nat option"

function from_utf8_at :: "nat \<Rightarrow> byte list \<Rightarrow> (utf8_error, rstr) result" where
  "from_utf8_at i bs =
     (if bs = [] then Ok []
      else case utf8_next (map unat bs) of
          Decoded c w \<Rightarrow> result_map (\<lambda>s. c # s) (from_utf8_at (i + w) (drop w bs))
        | Invalid n \<Rightarrow> Err \<lparr>valid_up_to = i, error_len = Some n\<rparr>
        | Incomplete \<Rightarrow> Err \<lparr>valid_up_to = i, error_len = None\<rparr>)"
  by pat_completeness auto

termination
proof (relation "measure (\<lambda>(i, bs). length bs)")
  fix i :: nat and bs :: "byte list" and c w
  assume "bs \<noteq> []" "utf8_next (map unat bs) = Decoded c w"
  then show "((i + w, drop w bs), i, bs) \<in> measure (\<lambda>(i, bs). length bs)"
    using utf8_next_bounds(1) [of "map unat bs" c w] by simp
qed simp

declare from_utf8_at.simps [simp del]

definition from_utf8 :: "byte list \<Rightarrow> (utf8_error, rstr) result" where
  "from_utf8 bs = from_utf8_at 0 bs"

section \<open>The parser\<close>

datatype utf8_stream_parser_error =
    InvalidUtf8 nat nat
  | IncompleteUtf8AtEof

record 'p utf8_stream_parser =
  u8_inner :: 'p
  u8_pending :: "byte list"

definition utf8_new :: "'p \<Rightarrow> 'p utf8_stream_parser" where
  "utf8_new inner = \<lparr>u8_inner = inner, u8_pending = []\<rparr>"

text \<open>\<open>push\<close> and \<open>fin\<close> are \<^verbatim>\<open>push_str\<close> and \<^verbatim>\<open>finish\<close> of the wrapped parser.\<close>

definition push_bytes ::
  "('p \<Rightarrow> rstr \<Rightarrow> 'p \<times> 'x stream_text_chunk) \<Rightarrow> 'p utf8_stream_parser \<Rightarrow> byte list
     \<Rightarrow> 'p utf8_stream_parser \<times> (utf8_stream_parser_error, 'x stream_text_chunk) result" where
  "push_bytes push p chunk =
     (let old_len = length (u8_pending p);
          pend = u8_pending p @ chunk;
          p = p\<lparr>u8_pending := pend\<rparr> in
      case from_utf8 pend of
        Ok text \<Rightarrow>
          (let (inner, out) = push (u8_inner p) text in (\<lparr>u8_inner = inner, u8_pending = []\<rparr>, Ok out))
      | Err err \<Rightarrow>
          (case error_len err of
             Some n \<Rightarrow> (p\<lparr>u8_pending := take old_len pend\<rparr>, Err (InvalidUtf8 (valid_up_to err) n))
           | None \<Rightarrow>
               if valid_up_to err = 0 then (p, Ok chunk_default)
               else (case from_utf8 (take (valid_up_to err) pend) of
                   Err prefix_err \<Rightarrow>
                     (p\<lparr>u8_pending := take old_len pend\<rparr>,
                      Err (InvalidUtf8 (valid_up_to prefix_err) (case error_len prefix_err of Some n \<Rightarrow> n | None \<Rightarrow> 0)))
                 | Ok text \<Rightarrow>
                     (let (inner, out) = push (u8_inner p) text
                      in (\<lparr>u8_inner = inner, u8_pending = drop (valid_up_to err) pend\<rparr>, Ok out)))))"

definition utf8_finish ::
  "('p \<Rightarrow> rstr \<Rightarrow> 'p \<times> 'x stream_text_chunk) \<Rightarrow> ('p \<Rightarrow> 'p \<times> 'x stream_text_chunk) \<Rightarrow> 'p utf8_stream_parser
     \<Rightarrow> 'p utf8_stream_parser \<times> (utf8_stream_parser_error, 'x stream_text_chunk) result" where
  "utf8_finish push fin p =
     (let flush = (\<lambda>p out.
            let (inner, tail) = fin (u8_inner p)
            in (p\<lparr>u8_inner := inner\<rparr>,
                Ok (out\<lparr>visible_text := visible_text out @ visible_text tail,
                        extracted := extracted out @ extracted tail\<rparr>))) in
      if u8_pending p = [] then flush p chunk_default
      else case from_utf8 (u8_pending p) of
          Err err \<Rightarrow>
            (p, Err (case error_len err of Some n \<Rightarrow> InvalidUtf8 (valid_up_to err) n | None \<Rightarrow> IncompleteUtf8AtEof))
        | Ok text \<Rightarrow>
            (let (inner, out) = push (u8_inner p) text in flush \<lparr>u8_inner = inner, u8_pending = []\<rparr> out))"

definition into_inner :: "'p utf8_stream_parser \<Rightarrow> (utf8_stream_parser_error, 'p) result" where
  "into_inner p =
     (if u8_pending p = [] then Ok (u8_inner p)
      else case from_utf8 (u8_pending p) of
          Ok _ \<Rightarrow> Ok (u8_inner p)
        | Err err \<Rightarrow>
            (case error_len err of
               Some n \<Rightarrow> Err (InvalidUtf8 (valid_up_to err) n)
             | None \<Rightarrow> Err IncompleteUtf8AtEof))"

definition into_inner_lossy :: "'p utf8_stream_parser \<Rightarrow> 'p" where
  "into_inner_lossy p = u8_inner p"

section \<open>Decoding in pieces\<close>

lemma from_utf8_at_Nil [simp]: "from_utf8_at i [] = Ok []"
  by (simp add: from_utf8_at.simps)

lemma from_utf8_at_step:
  "utf8_next (map unat bs) = Decoded c w \<Longrightarrow>
     from_utf8_at i bs = result_map (\<lambda>s. c # s) (from_utf8_at (i + w) (drop w bs))"
  using utf8_next_bounds(1) [of "map unat bs" c w] by (subst from_utf8_at.simps) auto

lemma from_utf8_at_Invalid:
  "utf8_next (map unat bs) = Invalid n \<Longrightarrow> from_utf8_at i bs = Err \<lparr>valid_up_to = i, error_len = Some n\<rparr>"
  using utf8_next_bounds(2) [of "map unat bs" n] by (subst from_utf8_at.simps) auto

lemma result_map_compose [simp]: "result_map f (result_map g r) = result_map (\<lambda>x. f (g x)) r"
  by (cases r) simp_all

text \<open>
  What is known after part of the bytes: they are valid, or valid up to a position
  from which they may still become valid, or invalid whatever follows.
\<close>

lemma from_utf8_at_Ok_append:
  "from_utf8_at i bs = Ok s \<Longrightarrow>
     from_utf8_at i (bs @ bs') = result_map (\<lambda>t. s @ t) (from_utf8_at (i + length bs) bs')"
proof (induction i bs arbitrary: s rule: from_utf8_at.induct)
  case (1 i bs)
  show ?case
  proof (cases "bs = []")
    case True
    with 1(2) have "s = []" by simp
    with True show ?thesis by (cases "from_utf8_at i bs'") simp_all
  next
    case False
    show ?thesis
    proof (cases "utf8_next (map unat bs)")
      case (Decoded c w)
      from 1(2) obtain t where t: "from_utf8_at (i + w) (drop w bs) = Ok t" "s = c # t"
        unfolding from_utf8_at_step [OF Decoded] by (auto simp: result_map_eq)
      from utf8_next_bounds(1) [OF Decoded] have w: "w \<le> length bs" by simp
      have "utf8_next (map unat (bs @ bs')) = Decoded c w" using utf8_next_append(1) [OF Decoded] by simp
      with 1(1) [OF False Decoded t(1)] w t(2) show ?thesis by (simp add: from_utf8_at_step)
    qed (use 1(2) False in \<open>simp_all add: from_utf8_at.simps [of i bs]\<close>)
  qed
qed

lemma from_utf8_at_short:
  "from_utf8_at i bs = Err \<lparr>valid_up_to = n, error_len = None\<rparr> \<Longrightarrow>
     i \<le> n \<and> n < i + length bs \<and>
     (\<exists>s. from_utf8_at i (take (n - i) bs) = Ok s
       \<and> (\<forall>bs'. from_utf8_at i (bs @ bs') = result_map (\<lambda>t. s @ t) (from_utf8_at n (drop (n - i) bs @ bs'))))"
proof (induction i bs rule: from_utf8_at.induct)
  case (1 i bs)
  then have ne: "bs \<noteq> []" by auto
  show ?case
  proof (cases "utf8_next (map unat bs)")
    case (Decoded c w)
    from utf8_next_bounds(1) [OF Decoded] have w: "0 < w" "w \<le> length bs" by simp_all
    from 1(2) have "from_utf8_at (i + w) (drop w bs) = Err \<lparr>valid_up_to = n, error_len = None\<rparr>"
      unfolding from_utf8_at_step [OF Decoded] by (simp add: result_map_eq)
    from 1(1) [OF ne Decoded this] obtain s where n: "i + w \<le> n" "n < i + length bs"
      and s: "from_utf8_at (i + w) (take (n - (i + w)) (drop w bs)) = Ok s"
        "\<And>bs'. from_utf8_at (i + w) (drop w bs @ bs')
            = result_map (\<lambda>t. s @ t) (from_utf8_at n (drop (n - (i + w)) (drop w bs) @ bs'))"
      using w by auto
    have step: "utf8_next (map unat (bs @ bs')) = Decoded c w" for bs'
      using utf8_next_append(1) [OF Decoded] by simp
    have tk: "utf8_next (map unat (take (n - i) bs)) = Decoded c w"
      using utf8_next_take [OF Decoded, of "n - i"] n(1) by (simp add: take_map)
    have valid: "from_utf8_at i (take (n - i) bs) = Ok (c # s)"
      unfolding from_utf8_at_step [OF tk] using s(1) n(1) by (simp add: drop_take)
    have rest: "\<forall>bs'. from_utf8_at i (bs @ bs') = result_map (\<lambda>t. (c # s) @ t) (from_utf8_at n (drop (n - i) bs @ bs'))"
      unfolding from_utf8_at_step [OF step] using s(2) n(1) w by simp
    have "i \<le> n" using n(1) by simp
    then show ?thesis by (intro conjI exI [of _ "c # s"] n(2) valid rest)
  next
    case Incomplete
    with 1(2) ne have n: "n = i" by (simp add: from_utf8_at.simps [of i bs])
    have "result_map ((@) []) r = r" for r :: "(utf8_error, rstr) result" by (cases r) simp_all
    with n ne show ?thesis by (auto intro: exI [of _ "[]"])
  qed (use 1(2) ne in \<open>simp_all add: from_utf8_at.simps [of i bs]\<close>)
qed

lemma from_utf8_at_invalid:
  "from_utf8_at i bs = Err \<lparr>valid_up_to = n, error_len = Some e\<rparr> \<Longrightarrow>
     n + e \<le> i + length bs \<and> from_utf8_at i (bs @ bs') = Err \<lparr>valid_up_to = n, error_len = Some e\<rparr>"
proof (induction i bs rule: from_utf8_at.induct)
  case (1 i bs)
  then have ne: "bs \<noteq> []" by auto
  show ?case
  proof (cases "utf8_next (map unat bs)")
    case (Decoded c w)
    from utf8_next_bounds(1) [OF Decoded] have w: "0 < w" "w \<le> length bs" by simp_all
    from 1(2) have "from_utf8_at (i + w) (drop w bs) = Err \<lparr>valid_up_to = n, error_len = Some e\<rparr>"
      unfolding from_utf8_at_step [OF Decoded] by (simp add: result_map_eq)
    moreover have "utf8_next (map unat (bs @ bs')) = Decoded c w" using utf8_next_append(1) [OF Decoded] by simp
    ultimately show ?thesis using 1(1) [OF ne Decoded] w by (simp add: from_utf8_at_step)
  next
    case (Invalid k)
    with 1(2) have "n = i" "e = k" by (simp_all add: from_utf8_at_Invalid)
    moreover have "utf8_next (map unat (bs @ bs')) = Invalid k" using utf8_next_append(2) [OF Invalid] by simp
    ultimately show ?thesis using utf8_next_bounds(2) [OF Invalid] by (simp add: from_utf8_at_Invalid)
  qed (use 1(2) ne in \<open>simp_all add: from_utf8_at.simps [of i bs]\<close>)
qed


lemma from_utf8_at_invalid_pos:
  "from_utf8_at i bs = Err \<lparr>valid_up_to = n, error_len = Some e\<rparr> \<Longrightarrow> 0 < e"
proof (induction i bs rule: from_utf8_at.induct)
  case (1 i bs)
  then have ne: "bs \<noteq> []" by auto
  show ?case
  proof (cases "utf8_next (map unat bs)")
    case (Decoded c w)
    with 1 ne show ?thesis unfolding from_utf8_at_step [OF Decoded] by (auto simp: result_map_eq)
  next
    case (Invalid k)
    with 1(2) utf8_next_bounds(2) [OF Invalid] show ?thesis by (simp add: from_utf8_at_Invalid)
  qed (use 1(2) ne in \<open>simp_all add: from_utf8_at.simps [of i bs]\<close>)
qed

lemma from_utf8_at_shift:
  "from_utf8_at (i + k) bs = result_map_err (\<lambda>e. e\<lparr>valid_up_to := valid_up_to e + k\<rparr>) (from_utf8_at i bs)"
proof (induction i bs rule: from_utf8_at.induct)
  case (1 i bs)
  show ?case
  proof (cases "bs = []")
    case False
    show ?thesis
    proof (cases "utf8_next (map unat bs)")
      case (Decoded c w)
      have shift: "i + k + w = i + w + k" by simp
      show ?thesis
        unfolding from_utf8_at_step [OF Decoded] shift 1 [OF False Decoded]
        by (cases "from_utf8_at (i + w) (drop w bs)") simp_all
    qed (use False in \<open>simp_all add: from_utf8_at.simps [of _ bs]\<close>)
  qed simp
qed

text \<open>Undecoded bytes: nothing, or the beginning of one code point.\<close>

definition undecoded :: "byte list \<Rightarrow> bool" where
  "undecoded d \<longleftrightarrow> d = [] \<or> from_utf8 d = Err \<lparr>valid_up_to = 0, error_len = None\<rparr>"

lemma from_utf8_split:
  assumes "from_utf8 bs = Err \<lparr>valid_up_to = n, error_len = None\<rparr>"
  shows "\<exists>s. from_utf8 (take n bs) = Ok s \<and> undecoded (drop n bs)
    \<and> (\<forall>bs'. from_utf8 (bs @ bs') = result_map (\<lambda>t. s @ t) (from_utf8_at n (drop n bs @ bs')))"
proof -
  from from_utf8_at_short [OF assms [unfolded from_utf8_def]] obtain s where s: "from_utf8 (take n bs) = Ok s"
      "\<forall>bs'. from_utf8 (bs @ bs') = result_map (\<lambda>t. s @ t) (from_utf8_at n (drop n bs @ bs'))"
    unfolding from_utf8_def by auto
  from s(2) [rule_format, of "[]"] assms have "from_utf8_at n (drop n bs) = Err \<lparr>valid_up_to = n, error_len = None\<rparr>"
    by (cases "from_utf8_at n (drop n bs)") simp_all
  then have "result_map_err (\<lambda>e. e\<lparr>valid_up_to := valid_up_to e + n\<rparr>) (from_utf8 (drop n bs))
      = Err \<lparr>valid_up_to = n, error_len = None\<rparr>"
    using from_utf8_at_shift [of 0 n "drop n bs"] by (simp add: from_utf8_def)
  then obtain e where e: "from_utf8 (drop n bs) = Err e" "e\<lparr>valid_up_to := valid_up_to e + n\<rparr> = \<lparr>valid_up_to = n, error_len = None\<rparr>"
    by (cases "from_utf8 (drop n bs)") simp_all
  from e(2) have "e = \<lparr>valid_up_to = 0, error_len = None\<rparr>" by (cases e) simp
  with e(1) have "undecoded (drop n bs)" by (simp add: undecoded_def)
  with s show ?thesis by blast
qed

section \<open>Errors\<close>

text \<open>
  A chunk with invalid bytes is rolled back: when pushing a chunk fails, the parser is
  exactly as before, the wrapped parser has seen nothing of the chunk, and the error
  names a non-empty range inside the bytes that were being decoded.
\<close>

theorem push_bytes_error_rolls_back:
  assumes "push_bytes push p chunk = (p', Err e)"
  shows "p' = p \<and> (\<exists>n k. e = InvalidUtf8 n k \<and> 0 < k \<and> n + k \<le> length (u8_pending p @ chunk))"
proof -
  let ?b = "u8_pending p @ chunk"
  obtain err where err: "from_utf8 ?b = Err err"
    using assms by (cases "from_utf8 ?b") (auto simp: push_bytes_def Let_def split: prod.splits)
  obtain n l where nl: "err = \<lparr>valid_up_to = n, error_len = l\<rparr>" by (cases err)
  show ?thesis
  proof (cases l)
    case None
    with err nl obtain s where "from_utf8 (take n ?b) = Ok s" using from_utf8_split by blast
    with assms err nl None show ?thesis
      by (auto simp: push_bytes_def Let_def split: if_splits prod.splits)
  next
    case (Some k)
    with err nl have f: "from_utf8_at 0 ?b = Err \<lparr>valid_up_to = n, error_len = Some k\<rparr>" by (simp add: from_utf8_def)
    from assms err nl Some have "p' = p" "e = InvalidUtf8 n k" by (auto simp: push_bytes_def Let_def)
    with from_utf8_at_invalid [OF f, of "[]"] from_utf8_at_invalid_pos [OF f] show ?thesis by auto
  qed
qed


theorem push_bytes_error_rolls_back_witness:
  "\<exists>n k. InvalidUtf8 1 1 = InvalidUtf8 n k \<and> 0 < k \<and> n + k \<le> length ([] @ [0x61, 0xFF, 0x62 :: byte])"
proof -
  have "from_utf8 [0x61, 0xFF, 0x62] = Err \<lparr>valid_up_to = 1, error_len = Some 1\<rparr>" by code_simp
  then have "push_bytes inline_push (utf8_new citation_parser) [0x61, 0xFF, 0x62]
      = (utf8_new citation_parser, Err (InvalidUtf8 1 1))"
    by (simp add: push_bytes_def utf8_new_def)
  from push_bytes_error_rolls_back [OF this] show ?thesis by (simp add: utf8_new_def)
qed

section \<open>Chunks of bytes\<close>

text \<open>Pushing chunks until one fails, with the outputs joined.\<close>

fun push_all_bytes ::
  "('p \<Rightarrow> rstr \<Rightarrow> 'p \<times> 'x stream_text_chunk) \<Rightarrow> 'p utf8_stream_parser \<Rightarrow> byte list list
     \<Rightarrow> 'p utf8_stream_parser \<times> (utf8_stream_parser_error, 'x stream_text_chunk) result" where
  "push_all_bytes push p [] = (p, Ok chunk_default)"
| "push_all_bytes push p (c # cs) =
     (case push_bytes push p c of
        (p', Err e) \<Rightarrow> (p', Err e)
      | (p', Ok out) \<Rightarrow> (case push_all_bytes push p' cs of (p'', r) \<Rightarrow> (p'', result_map (chunk_append out) r)))"

text \<open>
  The outcome for the bytes \<open>bs\<close> that a parser with the wrapped parser \<open>inner\<close> has not
  decoded yet or still gets: all text that can be decoded is pushed, the beginning of
  a code point stays, and invalid bytes are an error.
\<close>

definition utf8_outcome ::
  "('p \<Rightarrow> rstr \<Rightarrow> 'p \<times> 'x stream_text_chunk) \<Rightarrow> 'p \<Rightarrow> byte list
     \<Rightarrow> 'p utf8_stream_parser \<times> (utf8_stream_parser_error, 'x stream_text_chunk) result \<Rightarrow> bool" where
  "utf8_outcome push inner bs res \<longleftrightarrow>
     (case from_utf8 bs of
        Ok text \<Rightarrow> res = (\<lparr>u8_inner = fst (push inner text), u8_pending = []\<rparr>, Ok (snd (push inner text)))
      | Err err \<Rightarrow>
          (case error_len err of
             None \<Rightarrow> (\<exists>text. from_utf8 (take (valid_up_to err) bs) = Ok text
               \<and> res = (\<lparr>u8_inner = fst (push inner text), u8_pending = drop (valid_up_to err) bs\<rparr>, Ok (snd (push inner text))))
           | Some _ \<Rightarrow> (\<exists>p n k. res = (p, Err (InvalidUtf8 n k)))))"

locale text_stream = stream_parser parser_ok push chunk_default chunk_append
  for parser_ok :: "'p \<Rightarrow> bool" and push :: "'p \<Rightarrow> rstr \<Rightarrow> 'p \<times> 'x stream_text_chunk"
begin

lemma push_bytes_outcome:
  assumes "parser_ok inner"
  shows "utf8_outcome push inner (d @ c) (push_bytes push \<lparr>u8_inner = inner, u8_pending = d\<rparr> c)"
proof (cases "from_utf8 (d @ c)")
  case (Ok t0)
  then show ?thesis by (simp add: utf8_outcome_def push_bytes_def case_prod_beta Let_def)
next
  case (Err err)
  obtain n l where nl: "err = \<lparr>valid_up_to = n, error_len = l\<rparr>" by (cases err)
  show ?thesis
  proof (cases l)
    case None
    with Err nl obtain s where s: "from_utf8 (take n (d @ c)) = Ok s" using from_utf8_split by blast
    have "s = []" if "n = 0" using s that by (simp add: from_utf8_def)
    with s Err nl None push_nothing [OF assms] show ?thesis
      by (auto simp: utf8_outcome_def push_bytes_def case_prod_beta Let_def)
  next
    case (Some k)
    with Err nl show ?thesis by (simp add: utf8_outcome_def push_bytes_def Let_def)
  qed
qed

lemma push_in_two:
  "parser_ok inner \<Longrightarrow> push inner (s @ t) = (fst (push (fst (push inner s)) t),
     chunk_append (snd (push inner s)) (snd (push (fst (push inner s)) t)))"
  by (simp add: push_append case_prod_beta Let_def)

lemma outcome_extend:
  assumes "parser_ok inner" "from_utf8 bs = Ok s" "utf8_outcome push (fst (push inner s)) rest (p', r)"
  shows "utf8_outcome push inner (bs @ rest) (p', result_map (chunk_append (snd (push inner s))) r)"
proof -
  have total: "from_utf8 (bs @ x) = result_map (\<lambda>t. s @ t)
      (result_map_err (\<lambda>e. e\<lparr>valid_up_to := valid_up_to e + length bs\<rparr>) (from_utf8 x))" for x
    using from_utf8_at_Ok_append [of 0 bs s x] assms(2) from_utf8_at_shift [of 0 "length bs" x]
    by (simp add: from_utf8_def)
  note two = push_in_two [OF assms(1)]
  show ?thesis
  proof (cases "from_utf8 rest")
    case (Ok t)
    with assms(3) show ?thesis by (simp add: utf8_outcome_def total two)
  next
    case (Err err)
    obtain n l where nl: "err = \<lparr>valid_up_to = n, error_len = l\<rparr>" by (cases err)
    show ?thesis
    proof (cases l)
      case None
      with assms(3) Err nl obtain t where t: "from_utf8 (take n rest) = Ok t"
          "p' = \<lparr>u8_inner = fst (push (fst (push inner s)) t), u8_pending = drop n rest\<rparr>"
          "r = Ok (snd (push (fst (push inner s)) t))"
        by (auto simp: utf8_outcome_def)
      from t(1) have "from_utf8 (take (n + length bs) (bs @ rest)) = Ok (s @ t)" by (simp add: total)
      with Err nl None t(2,3) show ?thesis by (auto simp: utf8_outcome_def total two)
    next
      case (Some k)
      with assms(3) Err nl show ?thesis by (auto simp: utf8_outcome_def total)
    qed
  qed
qed

lemma push_all_bytes_outcome:
  assumes "parser_ok inner" "undecoded d"
  shows "utf8_outcome push inner (d @ concat cs) (push_all_bytes push \<lparr>u8_inner = inner, u8_pending = d\<rparr> cs)"
  using assms
proof (induction cs arbitrary: inner d)
  case Nil
  then show ?case
    by (cases "d = []") (auto simp: utf8_outcome_def undecoded_def push_nothing from_utf8_def)
next
  case (Cons c cs)
  let ?p = "\<lparr>u8_inner = inner, u8_pending = d\<rparr>"
  note one = push_bytes_outcome [OF Cons.prems(1), of d c]
  have continue: ?case if "from_utf8 bs = Ok s" "d @ c = bs @ d'" "undecoded d'"
    "push_bytes push ?p c = (\<lparr>u8_inner = fst (push inner s), u8_pending = d'\<rparr>, Ok (snd (push inner s)))" for bs s d'
  proof -
    obtain p' r where run: "push_all_bytes push \<lparr>u8_inner = fst (push inner s), u8_pending = d'\<rparr> cs = (p', r)"
      by (cases "push_all_bytes push \<lparr>u8_inner = fst (push inner s), u8_pending = d'\<rparr> cs")
    have "utf8_outcome push (fst (push inner s)) (d' @ concat cs) (p', r)"
      using Cons.IH [OF push_ok [OF Cons.prems(1)] that(3), of s] run by simp
    note ext = outcome_extend [OF Cons.prems(1) that(1) this]
    have run': "push_all_bytes push ?p (c # cs) = (p', result_map (chunk_append (snd (push inner s))) r)"
      using run that(4) by simp
    have bytes: "d @ concat (c # cs) = bs @ d' @ concat cs" using that(2) by (metis append_assoc concat.simps(2))
    show ?thesis unfolding run' bytes by (rule ext)
  qed
  show ?case
  proof (cases "from_utf8 (d @ c)")
    case (Ok s)
    with one show ?thesis by (intro continue [of "d @ c" s "[]"]) (simp_all add: utf8_outcome_def undecoded_def)
  next
    case (Err err)
    obtain n l where nl: "err = \<lparr>valid_up_to = n, error_len = l\<rparr>" by (cases err)
    show ?thesis
    proof (cases l)
      case None
      with Err nl one obtain s where "from_utf8 (take n (d @ c)) = Ok s"
          "push_bytes push ?p c = (\<lparr>u8_inner = fst (push inner s), u8_pending = drop n (d @ c)\<rparr>, Ok (snd (push inner s)))"
        by (auto simp: utf8_outcome_def simp del: take_append drop_append)
      moreover have "undecoded (drop n (d @ c))" using from_utf8_split Err nl None by blast
      ultimately show ?thesis by (intro continue [of "take n (d @ c)" s "drop n (d @ c)"]) (simp_all del: take_append drop_append)
    next
      case (Some k)
      with Err nl have f: "from_utf8_at 0 (d @ c) = Err \<lparr>valid_up_to = n, error_len = Some k\<rparr>" by (simp add: from_utf8_def)
      from one Some Err nl obtain p' i j where "push_bytes push ?p c = (p', Err (InvalidUtf8 i j))"
        by (auto simp: utf8_outcome_def)
      with from_utf8_at_invalid [OF f, of "concat cs"] show ?thesis by (simp add: utf8_outcome_def from_utf8_def)
    qed
  qed
qed

end

interpretation inline_text: text_stream inline_parser_ok inline_push
  by unfold_locales

text \<open>
  C40: how the bytes of a text are cut into chunks does not matter, even inside a code
  point: feeding the hidden-tag parser through the byte parser gives, in total, the
  output and the state of pushing the decoded text at once; the beginning of a code
  point at the end is kept, and then finishing reports it; bytes that cannot be
  decoded are reported as invalid.
\<close>

theorem utf8_chunks:
  assumes "inline_new ss = Some inner" "opens_separate ss"
  shows "utf8_outcome inline_push inner (concat chunks) (push_all_bytes inline_push (utf8_new inner) chunks)
    \<and> (\<forall>p out. push_all_bytes inline_push (utf8_new inner) chunks = (p, Ok out) \<longrightarrow> u8_pending p \<noteq> [] \<longrightarrow>
        utf8_finish inline_push inline_finish p = (p, Err IncompleteUtf8AtEof))"
proof -
  have ok: "inline_parser_ok inner" by (rule inline_new_ok [OF assms])
  have o: "utf8_outcome inline_push inner (concat chunks) (push_all_bytes inline_push (utf8_new inner) chunks)"
    using inline_text.push_all_bytes_outcome [OF ok, of "[]" chunks] by (simp add: undecoded_def utf8_new_def)
  have "utf8_finish inline_push inline_finish p = (p, Err IncompleteUtf8AtEof)"
    if r: "push_all_bytes inline_push (utf8_new inner) chunks = (p, Ok out)" and ne: "u8_pending p \<noteq> []" for p out
  proof -
    obtain e where e: "from_utf8 (concat chunks) = Err e" "error_len e = None"
        "u8_pending p = drop (valid_up_to e) (concat chunks)"
      using o ne unfolding utf8_outcome_def r
      by (cases "from_utf8 (concat chunks)") (auto split: option.splits)
    then have "e = \<lparr>valid_up_to = valid_up_to e, error_len = None\<rparr>" by (cases e) simp
    with e(1) have "from_utf8 (concat chunks) = Err \<lparr>valid_up_to = valid_up_to e, error_len = None\<rparr>" by simp
    from from_utf8_split [OF this] e(3) have "undecoded (u8_pending p)" by auto
    with ne show ?thesis by (simp add: undecoded_def utf8_finish_def)
  qed
  with o show ?thesis by blast
qed

theorem utf8_chunks_witness:
  "utf8_outcome inline_push citation_parser [0xC3, 0xA9] (push_all_bytes inline_push (utf8_new citation_parser) [[0xC3], [0xA9]])
   \<and> from_utf8 [0xC3, 0xA9] = Ok [0xE9]"
proof
  show "utf8_outcome inline_push citation_parser [0xC3, 0xA9] (push_all_bytes inline_push (utf8_new citation_parser) [[0xC3], [0xA9]])"
    using utf8_chunks [OF citation_new_Some [unfolded citation_new_def] citation_specs_ok(2), of "[[0xC3], [0xA9]]"]
    by simp
  show "from_utf8 [0xC3, 0xA9] = Ok [0xE9]" by code_simp
qed

end
