(* ===== verification/History_Items.thy ===== *)
theory History_Items
  imports Rust_Prelude
begin

text \<open>
  The history of a conversation and its normalisation before a request
  (\<^verbatim>\<open>core/src/context_manager/normalize.rs\<close>, the operations of \<^verbatim>\<open>history.rs\<close> that use it, and
  the item types of \<^verbatim>\<open>protocol/src/models.rs\<close>): every tool call has an output and every
  output a call, and images are left out for models that do not take them.

  Values the code does not look into (JSON, metadata, statuses) are of the type
  \<open>'v\<close>. A build with debug assertions panics where a release build logs an error and
  goes on; the argument \<open>debug\<close> selects the build and \<^term>\<open>None\<close> is the panic.
\<close>

section \<open>Items\<close>

datatype 'v content_item =
    InputText rstr
  | InputImage rstr "'v option"
  | OutputText rstr

datatype 'v output_content_item =
    OutputInputText rstr
  | OutputInputImage rstr "'v option"
  | OutputEncryptedContent rstr

datatype 'v output_body =
    TextBody rstr
  | ContentItems "'v output_content_item list"

record 'v output_payload =
  op_body :: "'v output_body"
  op_success :: "bool option"

definition payload_from_text :: "rstr \<Rightarrow> 'v output_payload" where
  "payload_from_text content = \<lparr>op_body = TextBody content, op_success = None\<rparr>"

text \<open>
  The fields are in the order of the source: \<^verbatim>\<open>id\<close> first, the metadata last; call
  identifiers are \<^verbatim>\<open>call_id\<close>.
\<close>

datatype 'v response_item =
    AdditionalTools "rstr option" rstr "'v list"
  | Message "rstr option" rstr "'v content_item list" "'v option" "'v option"
  | AgentMessage "rstr option" rstr rstr "'v list" "'v option"
  | Reasoning "rstr option" "'v list" "'v list option" "rstr option" "'v option"
  | LocalShellCall "rstr option" "rstr option" 'v 'v "'v option"
  | FunctionCall "rstr option" rstr "rstr option" rstr rstr "'v option"
  | ToolSearchCall "rstr option" "rstr option" "rstr option" rstr 'v "'v option"
  | FunctionCallOutput "rstr option" rstr "'v output_payload" "'v option"
  | CustomToolCall "rstr option" "rstr option" rstr rstr rstr "'v option"
  | CustomToolCallOutput "rstr option" rstr "rstr option" "'v output_payload" "'v option"
  | ToolSearchOutput "rstr option" "rstr option" rstr rstr "'v list" "'v option"
  | WebSearchCall "rstr option" "rstr option" "'v option" "'v option"
  | ImageGenerationCall "rstr option" rstr "rstr option" rstr "'v option"
  | Compaction "rstr option" rstr "'v option"
  | CompactionTrigger
  | ContextCompaction "rstr option" "rstr option" "'v option"
  | OtherItem

section \<open>Outputs for calls\<close>

fun function_output_id :: "'v response_item \<Rightarrow> rstr option" where
  "function_output_id (FunctionCallOutput _ call_id _ _) = Some call_id"
| "function_output_id _ = None"

fun tool_search_output_id :: "'v response_item \<Rightarrow> rstr option" where
  "tool_search_output_id (ToolSearchOutput _ call_id _ _ _ _) = call_id"
| "tool_search_output_id _ = None"

fun custom_tool_output_id :: "'v response_item \<Rightarrow> rstr option" where
  "custom_tool_output_id (CustomToolCallOutput _ call_id _ _ _) = Some call_id"
| "custom_tool_output_id _ = None"

definition aborted_output :: "rstr \<Rightarrow> 'v response_item" where
  "aborted_output call_id = FunctionCallOutput None call_id (payload_from_text (rs ''aborted'')) None"

text \<open>The synthetic output for a call, given the identifiers that have an output.\<close>

fun missing_output :: "rstr set \<Rightarrow> rstr set \<Rightarrow> rstr set \<Rightarrow> 'v response_item \<Rightarrow> 'v response_item option" where
  "missing_output fun_ids search_ids custom_ids (FunctionCall _ _ _ _ call_id _) =
     (if call_id \<notin> fun_ids then Some (aborted_output call_id) else None)"
| "missing_output fun_ids search_ids custom_ids (ToolSearchCall _ (Some call_id) _ _ _ _) =
     (if call_id \<notin> search_ids
      then Some (ToolSearchOutput None (Some call_id) (rs ''completed'') (rs ''client'') [] None) else None)"
| "missing_output fun_ids search_ids custom_ids (CustomToolCall _ _ call_id _ _ _) =
     (if call_id \<notin> custom_ids
      then Some (CustomToolCallOutput None call_id None (payload_from_text (rs ''aborted'')) None) else None)"
| "missing_output fun_ids search_ids custom_ids (LocalShellCall _ (Some call_id) _ _ _) =
     (if call_id \<notin> fun_ids then Some (aborted_output call_id) else None)"
| "missing_output fun_ids search_ids custom_ids _ = None"

text \<open>The calls whose missing output is reported as an error.\<close>

fun missing_is_error :: "'v response_item \<Rightarrow> bool" where
  "missing_is_error (CustomToolCall _ _ _ _ _ _) = True"
| "missing_is_error (LocalShellCall _ (Some _) _ _ _) = True"
| "missing_is_error _ = False"

definition missing_output_in :: "'v response_item list \<Rightarrow> 'v response_item \<Rightarrow> 'v response_item option" where
  "missing_output_in items =
     missing_output (set (List.map_filter function_output_id items))
       (set (List.map_filter tool_search_output_id items)) (set (List.map_filter custom_tool_output_id items))"

definition missing_outputs_to_insert :: "'v response_item list \<Rightarrow> (nat \<times> 'v response_item) list" where
  "missing_outputs_to_insert items =
     List.map_filter (\<lambda>(idx, item). map_option (\<lambda>out. (idx, out)) (missing_output_in items item)) (enumerate 0 items)"

text \<open>\<^verbatim>\<open>Vec::insert\<close>.\<close>

definition vec_insert :: "nat \<Rightarrow> 'a \<Rightarrow> 'a list \<Rightarrow> 'a list" where
  "vec_insert i x xs = take i xs @ x # drop i xs"

definition ensure_call_outputs_present :: "bool \<Rightarrow> 'v response_item list \<Rightarrow> 'v response_item list option" where
  "ensure_call_outputs_present debug items =
     (if debug \<and> list_ex (\<lambda>item. missing_is_error item \<and> missing_output_in items item \<noteq> None) items then None
      else Some (fold (\<lambda>(idx, output_item) items. vec_insert (idx + 1) output_item items)
        (rev (missing_outputs_to_insert items)) items))"

section \<open>Calls for outputs\<close>

fun function_call_id :: "'v response_item \<Rightarrow> rstr option" where
  "function_call_id (FunctionCall _ _ _ _ call_id _) = Some call_id"
| "function_call_id _ = None"

fun tool_search_call_id :: "'v response_item \<Rightarrow> rstr option" where
  "tool_search_call_id (ToolSearchCall _ call_id _ _ _ _) = call_id"
| "tool_search_call_id _ = None"

fun local_shell_call_id :: "'v response_item \<Rightarrow> rstr option" where
  "local_shell_call_id (LocalShellCall _ call_id _ _ _) = call_id"
| "local_shell_call_id _ = None"

fun custom_tool_call_id :: "'v response_item \<Rightarrow> rstr option" where
  "custom_tool_call_id (CustomToolCall _ _ call_id _ _ _) = Some call_id"
| "custom_tool_call_id _ = None"

fun is_retained :: "rstr set \<Rightarrow> rstr set \<Rightarrow> rstr set \<Rightarrow> rstr set \<Rightarrow> 'v response_item \<Rightarrow> bool" where
  "is_retained fun_ids search_ids shell_ids custom_ids (FunctionCallOutput _ call_id _ _) =
     (call_id \<in> fun_ids \<or> call_id \<in> shell_ids)"
| "is_retained fun_ids search_ids shell_ids custom_ids (CustomToolCallOutput _ call_id _ _ _) = (call_id \<in> custom_ids)"
| "is_retained fun_ids search_ids shell_ids custom_ids (ToolSearchOutput _ call_id _ execution _ _) =
     (if execution = rs ''server'' then True
      else case call_id of Some call_id \<Rightarrow> call_id \<in> search_ids | None \<Rightarrow> True)"
| "is_retained fun_ids search_ids shell_ids custom_ids _ = True"

text \<open>An output that is not retained is an orphan, and is reported as an error.\<close>

definition remove_orphan_outputs :: "bool \<Rightarrow> 'v response_item list \<Rightarrow> 'v response_item list option" where
  "remove_orphan_outputs debug items =
     (let retained = is_retained (set (List.map_filter function_call_id items))
            (set (List.map_filter tool_search_call_id items)) (set (List.map_filter local_shell_call_id items))
            (set (List.map_filter custom_tool_call_id items))
      in if debug \<and> \<not> list_all retained items then None else Some (filter retained items))"

section \<open>Removing one half of a pair\<close>

fun remove_first_matching :: "('v response_item \<Rightarrow> bool) \<Rightarrow> 'v response_item list \<Rightarrow> 'v response_item list" where
  "remove_first_matching P [] = []"
| "remove_first_matching P (i # items) = (if P i then items else i # remove_first_matching P items)"

fun remove_corresponding_for :: "'v response_item list \<Rightarrow> 'v response_item \<Rightarrow> 'v response_item list" where
  "remove_corresponding_for items (FunctionCall _ _ _ _ call_id _) =
     remove_first_matching (\<lambda>i. function_output_id i = Some call_id) items"
| "remove_corresponding_for items (FunctionCallOutput _ call_id _ _) =
     (if list_ex (\<lambda>i. function_call_id i = Some call_id) items
      then remove_first_matching (\<lambda>i. function_call_id i = Some call_id) items
      else remove_first_matching (\<lambda>i. local_shell_call_id i = Some call_id) items)"
| "remove_corresponding_for items (ToolSearchCall _ (Some call_id) _ _ _ _) =
     remove_first_matching (\<lambda>i. tool_search_output_id i = Some call_id) items"
| "remove_corresponding_for items (ToolSearchOutput _ (Some call_id) _ _ _ _) =
     remove_first_matching (\<lambda>i. tool_search_call_id i = Some call_id) items"
| "remove_corresponding_for items (CustomToolCall _ _ call_id _ _ _) =
     remove_first_matching (\<lambda>i. custom_tool_output_id i = Some call_id) items"
| "remove_corresponding_for items (CustomToolCallOutput _ call_id _ _ _) =
     remove_first_matching (\<lambda>i. custom_tool_call_id i = Some call_id) items"
| "remove_corresponding_for items (LocalShellCall _ (Some call_id) _ _ _) =
     remove_first_matching (\<lambda>i. function_output_id i = Some call_id) items"
| "remove_corresponding_for items _ = items"

section \<open>Images\<close>

datatype input_modality = TextModality | ImageModality

definition IMAGE_CONTENT_OMITTED_PLACEHOLDER :: rstr where
  "IMAGE_CONTENT_OMITTED_PLACEHOLDER = rs ''image content omitted because you do not support image input''"

fun strip_content_image :: "'v content_item \<Rightarrow> 'v content_item" where
  "strip_content_image (InputImage _ _) = InputText IMAGE_CONTENT_OMITTED_PLACEHOLDER"
| "strip_content_image c = c"

fun strip_output_image :: "'v output_content_item \<Rightarrow> 'v output_content_item" where
  "strip_output_image (OutputInputImage _ _) = OutputInputText IMAGE_CONTENT_OMITTED_PLACEHOLDER"
| "strip_output_image c = c"

definition strip_payload_images :: "'v output_payload \<Rightarrow> 'v output_payload" where
  "strip_payload_images out =
     (case op_body out of
        TextBody _ \<Rightarrow> out
      | ContentItems content_items \<Rightarrow> out\<lparr>op_body := ContentItems (map strip_output_image content_items)\<rparr>)"

fun strip_item_images :: "'v response_item \<Rightarrow> 'v response_item" where
  "strip_item_images (Message i role content phase m) = Message i role (map strip_content_image content) phase m"
| "strip_item_images (FunctionCallOutput i call_id out m) = FunctionCallOutput i call_id (strip_payload_images out) m"
| "strip_item_images (CustomToolCallOutput i call_id name out m) =
     CustomToolCallOutput i call_id name (strip_payload_images out) m"
| "strip_item_images (ImageGenerationCall i status revised_prompt result m) =
     ImageGenerationCall i status revised_prompt [] m"
| "strip_item_images item = item"

definition strip_images_when_unsupported ::
  "input_modality list \<Rightarrow> 'v response_item list \<Rightarrow> 'v response_item list" where
  "strip_images_when_unsupported input_modalities items =
     (if ImageModality \<in> set input_modalities then items else map strip_item_images items)"

section \<open>The context manager\<close>

text \<open>\<open>'t\<close> is the token information, \<open>'r\<close> the reference context item, \<open>'w\<close> the world state snapshot.\<close>

record ('v, 't, 'r, 'w) context_manager =
  cm_items :: "'v response_item list"
  cm_history_version :: nat
  cm_token_info :: "'t option"
  cm_reference_context_item :: "'r option"
  cm_world_state_baseline :: "'w option"

definition normalize_history ::
  "bool \<Rightarrow> input_modality list \<Rightarrow> 'v response_item list \<Rightarrow> 'v response_item list option" where
  "normalize_history debug input_modalities items =
     Option.bind (ensure_call_outputs_present debug items) (\<lambda>items.
     Option.bind (remove_orphan_outputs debug items) (\<lambda>items.
       Some (strip_images_when_unsupported input_modalities items)))"

definition for_prompt ::
  "bool \<Rightarrow> ('v, 't, 'r, 'w) context_manager \<Rightarrow> input_modality list \<Rightarrow> 'v response_item list option" where
  "for_prompt debug cm input_modalities = normalize_history debug input_modalities (cm_items cm)"

definition remove_first_item :: "('v, 't, 'r, 'w) context_manager \<Rightarrow> ('v, 't, 'r, 'w) context_manager" where
  "remove_first_item cm =
     (case cm_items cm of
        [] \<Rightarrow> cm
      | removed # items \<Rightarrow>
          cm\<lparr>cm_items := remove_corresponding_for items removed, cm_world_state_baseline := None\<rparr>)"

definition replace_items ::
  "('v, 't, 'r, 'w) context_manager \<Rightarrow> 'v response_item list \<Rightarrow> ('v, 't, 'r, 'w) context_manager" where
  "replace_items cm items =
     cm\<lparr>cm_items := items, cm_history_version := saturating_add (cm_history_version cm) 1,
        cm_world_state_baseline := None\<rparr>"

end
