(* ===== verification/Text_Truncation.thy ===== *)
theory Text_Truncation
  imports History_Items
begin

text \<open>
  Cutting long output to a budget (\<^verbatim>\<open>utils/string/src/truncate.rs\<close>,
  \<^verbatim>\<open>utils/output-truncation/src/lib.rs\<close> and \<^verbatim>\<open>TruncationPolicy\<close> of \<^verbatim>\<open>protocol/src/protocol.rs\<close>):
  the middle of a text is replaced by a marker, on character boundaries. Slicing a
  string inside a character panics; \<^term>\<open>None\<close> stands for that panic, and the lemmas
  show that it does not occur. Sizes are \<^verbatim>\<open>usize\<close> values of a 64-bit target.
\<close>

section \<open>Byte offsets into strings\<close>

text \<open>\<^verbatim>\<open>(&s[..n], &s[n..])\<close>; \<^term>\<open>None\<close> where \<open>n\<close> is no character boundary of \<open>s\<close>.\<close>

fun str_split_at :: "nat \<Rightarrow> rstr \<Rightarrow> (rstr \<times> rstr) option" where
  "str_split_at n [] = (if n = 0 then Some ([], []) else None)"
| "str_split_at n (c # cs) =
     (if n = 0 then Some ([], c # cs)
      else if n < len_utf8 c then None
      else map_option (\<lambda>(a, b). (c # a, b)) (str_split_at (n - len_utf8 c) cs))"

definition saturating_mul :: "nat \<Rightarrow> nat \<Rightarrow> nat" where
  "saturating_mul a b = min (a * b) usize_max"

section \<open>Truncating a text\<close>

definition APPROX_BYTES_PER_TOKEN :: nat where
  "APPROX_BYTES_PER_TOKEN = 4"

definition approx_token_count :: "rstr \<Rightarrow> nat" where
  "approx_token_count s = saturating_add (str_len s) (APPROX_BYTES_PER_TOKEN - 1) div APPROX_BYTES_PER_TOKEN"

definition approx_bytes_for_tokens :: "nat \<Rightarrow> nat" where
  "approx_bytes_for_tokens tokens = saturating_mul tokens APPROX_BYTES_PER_TOKEN"

definition approx_tokens_from_byte_count :: "nat \<Rightarrow> nat" where
  "approx_tokens_from_byte_count bytes =
     saturating_add bytes (APPROX_BYTES_PER_TOKEN - 1) div APPROX_BYTES_PER_TOKEN"

text \<open>
  The loop of \<^verbatim>\<open>split_string\<close> over the characters from byte offset \<open>idx\<close> on; its state is
  \<^verbatim>\<open>(prefix_end, suffix_start, removed_chars, suffix_started)\<close>.
\<close>

fun split_loop :: "nat \<Rightarrow> nat \<Rightarrow> nat \<Rightarrow> nat \<times> nat \<times> nat \<times> bool \<Rightarrow> rstr \<Rightarrow> nat \<times> nat \<times> nat \<times> bool" where
  "split_loop beginning_bytes tail_start_target idx st [] = st"
| "split_loop beginning_bytes tail_start_target idx (prefix_end, suffix_start, removed_chars, suffix_started) (ch # cs) =
     (let char_end = idx + len_utf8 ch in
      split_loop beginning_bytes tail_start_target char_end
        (if char_end \<le> beginning_bytes then (char_end, suffix_start, removed_chars, suffix_started)
         else if idx \<ge> tail_start_target then
           (if \<not> suffix_started then (prefix_end, idx, removed_chars, True)
            else (prefix_end, suffix_start, removed_chars, suffix_started))
         else (prefix_end, suffix_start, saturating_add removed_chars 1, suffix_started)) cs)"

definition split_string :: "rstr \<Rightarrow> nat \<Rightarrow> nat \<Rightarrow> (nat \<times> rstr \<times> rstr) option" where
  "split_string s beginning_bytes end_bytes =
     (if s = [] then Some (0, [], [])
      else
        let len = str_len s;
            (prefix_end, suffix_start, removed_chars, _) =
              split_loop beginning_bytes (len - end_bytes) 0 (0, len, 0, False) s;
            suffix_start = (if suffix_start < prefix_end then prefix_end else suffix_start)
        in Option.bind (str_split_at prefix_end s) (\<lambda>(before, _).
           Option.bind (str_split_at suffix_start s) (\<lambda>(_, after).
             Some (removed_chars, before, after))))"

definition split_budget :: "nat \<Rightarrow> nat \<times> nat" where
  "split_budget budget = (let left = budget div 2 in (left, budget - left))"

definition format_truncation_marker :: "bool \<Rightarrow> nat \<Rightarrow> rstr" where
  "format_truncation_marker use_tokens removed_count =
     (if use_tokens then [0x2026] @ decimal removed_count @ rs '' tokens truncated'' @ [0x2026]
      else [0x2026] @ decimal removed_count @ rs '' chars truncated'' @ [0x2026])"

definition removed_units :: "bool \<Rightarrow> nat \<Rightarrow> nat \<Rightarrow> nat" where
  "removed_units use_tokens removed_bytes removed_chars =
     (if use_tokens then approx_tokens_from_byte_count removed_bytes else removed_chars)"

definition assemble_truncated_output :: "rstr \<Rightarrow> rstr \<Rightarrow> rstr \<Rightarrow> rstr" where
  "assemble_truncated_output pre suf marker = pre @ marker @ suf"

definition truncate_with_byte_estimate :: "rstr \<Rightarrow> nat \<Rightarrow> bool \<Rightarrow> rstr option" where
  "truncate_with_byte_estimate s max_bytes use_tokens =
     (if s = [] then Some []
      else
        let total_chars = length s in
        if max_bytes = 0 then
          Some (format_truncation_marker use_tokens (removed_units use_tokens (str_len s) total_chars))
        else if str_len s \<le> max_bytes then Some s
        else
          let total_bytes = str_len s;
              (left_budget, right_budget) = split_budget max_bytes
          in map_option (\<lambda>(removed_chars, left, right).
               assemble_truncated_output left right
                 (format_truncation_marker use_tokens
                    (removed_units use_tokens (total_bytes - max_bytes) removed_chars)))
               (split_string s left_budget right_budget))"

definition truncate_middle_chars :: "rstr \<Rightarrow> nat \<Rightarrow> rstr option" where
  "truncate_middle_chars s max_bytes = truncate_with_byte_estimate s max_bytes False"

definition truncate_middle_with_token_budget :: "rstr \<Rightarrow> nat \<Rightarrow> (rstr \<times> nat option) option" where
  "truncate_middle_with_token_budget s max_tokens =
     (if s = [] then Some ([], None)
      else if max_tokens > 0 \<and> str_len s \<le> approx_bytes_for_tokens max_tokens then Some (s, None)
      else map_option (\<lambda>truncated.
             if truncated = s then (truncated, None) else (truncated, Some (approx_token_count s)))
           (truncate_with_byte_estimate s (approx_bytes_for_tokens max_tokens) True))"

section \<open>Policies\<close>

datatype truncation_policy = Bytes nat | Tokens nat

fun token_budget :: "truncation_policy \<Rightarrow> nat" where
  "token_budget (Bytes bytes) = approx_tokens_from_byte_count bytes"
| "token_budget (Tokens tokens) = tokens"

fun byte_budget :: "truncation_policy \<Rightarrow> nat" where
  "byte_budget (Bytes bytes) = bytes"
| "byte_budget (Tokens tokens) = approx_bytes_for_tokens tokens"

fun truncate_text :: "rstr \<Rightarrow> truncation_policy \<Rightarrow> rstr option" where
  "truncate_text content (Bytes bytes) = truncate_middle_chars content bytes"
| "truncate_text content (Tokens tokens) = map_option fst (truncate_middle_with_token_budget content tokens)"

definition formatted_truncate_text :: "rstr \<Rightarrow> truncation_policy \<Rightarrow> rstr option" where
  "formatted_truncate_text content policy =
     (if str_len content \<le> byte_budget policy then Some content
      else
        let original_token_count = approx_token_count content;
            total_lines = length (str_lines content)
        in map_option (\<lambda>result.
             rs ''Warning: truncated output (original token count: '' @ decimal original_token_count @ rs '')'' @ [LF]
             @ rs ''Total output lines: '' @ decimal total_lines @ [LF, LF] @ result)
           (truncate_text content policy))"

section \<open>Output items\<close>

fun item_text :: "'v output_content_item \<Rightarrow> rstr option" where
  "item_text (OutputInputText t) = Some t"
| "item_text _ = None"

definition item_texts :: "'v output_content_item list \<Rightarrow> rstr list" where
  "item_texts items = List.map_filter item_text items"

definition combine_texts :: "rstr list \<Rightarrow> rstr" where
  "combine_texts ts = fold (\<lambda>t combined. (if combined \<noteq> [] then combined @ [LF] else combined) @ t) ts []"

definition formatted_truncate_text_content_items_with_policy ::
  "'v output_content_item list \<Rightarrow> truncation_policy \<Rightarrow> ('v output_content_item list \<times> nat option) option" where
  "formatted_truncate_text_content_items_with_policy items policy =
     (let text_segments = item_texts items in
      if text_segments = [] then Some (items, None)
      else
        let combined = combine_texts text_segments in
        if str_len combined \<le> byte_budget policy then Some (items, None)
        else map_option (\<lambda>t.
               (OutputInputText t # filter (\<lambda>item. item_text item = None) items, Some (approx_token_count combined)))
             (formatted_truncate_text combined policy))"

fun with_budget :: "truncation_policy \<Rightarrow> nat \<Rightarrow> truncation_policy" where
  "with_budget (Bytes _) n = Bytes n"
| "with_budget (Tokens _) n = Tokens n"

fun text_cost :: "truncation_policy \<Rightarrow> rstr \<Rightarrow> nat" where
  "text_cost (Bytes _) t = str_len t"
| "text_cost (Tokens _) t = approx_token_count t"

text \<open>The loop over the items: the items kept and the number of texts left out.\<close>

fun truncate_items_loop ::
  "truncation_policy \<Rightarrow> nat \<Rightarrow> nat \<Rightarrow> 'v output_content_item list \<Rightarrow> ('v output_content_item list \<times> nat) option" where
  "truncate_items_loop policy remaining_budget omitted [] = Some ([], omitted)"
| "truncate_items_loop policy remaining_budget omitted (OutputInputText t # items) =
     (if remaining_budget = 0 then truncate_items_loop policy remaining_budget (omitted + 1) items
      else if text_cost policy t \<le> remaining_budget then
        map_option (\<lambda>(out, n). (OutputInputText t # out, n))
          (truncate_items_loop policy (remaining_budget - text_cost policy t) omitted items)
      else
        Option.bind (truncate_text t (with_budget policy remaining_budget)) (\<lambda>snippet.
          if snippet = [] then truncate_items_loop policy 0 (omitted + 1) items
          else map_option (\<lambda>(out, n). (OutputInputText snippet # out, n))
                 (truncate_items_loop policy 0 omitted items)))"
| "truncate_items_loop policy remaining_budget omitted (item # items) =
     map_option (\<lambda>(out, n). (item # out, n)) (truncate_items_loop policy remaining_budget omitted items)"

definition initial_budget :: "truncation_policy \<Rightarrow> nat" where
  "initial_budget policy = (case policy of Bytes _ \<Rightarrow> byte_budget policy | Tokens _ \<Rightarrow> token_budget policy)"

definition omitted_note :: "nat \<Rightarrow> rstr" where
  "omitted_note n = rs ''[omitted '' @ decimal n @ rs '' text items ...]''"

definition truncate_function_output_items_with_policy ::
  "'v output_content_item list \<Rightarrow> truncation_policy \<Rightarrow> 'v output_content_item list option" where
  "truncate_function_output_items_with_policy items policy =
     map_option (\<lambda>(out, omitted_text_items).
        if omitted_text_items > 0 then out @ [OutputInputText (omitted_note omitted_text_items)] else out)
       (truncate_items_loop policy (initial_budget policy) 0 items)"

section \<open>Scaling a policy\<close>

text \<open>
  A 64-bit float with a value of at least \<open>2 ^ 52\<close> units is \<open>m * 2 ^ e\<close> with a mantissa
  of 53 bits. \<open>round53\<close> is rounding to the nearest such value, ties to even;
  multiplication by \<open>m / 2 ^ 52\<close> rounds the exact product.
\<close>

fun bit_length :: "nat \<Rightarrow> nat" where
  "bit_length n = (if n = 0 then 0 else Suc (bit_length (n div 2)))"

declare bit_length.simps [simp del]

definition round53 :: "nat \<Rightarrow> nat" where
  "round53 n =
     (let k = bit_length n - 53; q = n div 2 ^ k; r = n mod 2 ^ k in
      if k = 0 then n
      else if 2 * r > 2 ^ k \<or> (2 * r = 2 ^ k \<and> odd q) then (q + 1) * 2 ^ k
      else q * 2 ^ k)"

text \<open>The mantissa of the float \<^verbatim>\<open>1.2\<close>, in units of \<open>2 ^ -52\<close>.\<close>

definition f64_one_point_two :: nat where
  "f64_one_point_two = 5404319552844595"

text \<open>\<^verbatim>\<open>(n as f64 * multiplier).ceil() as usize\<close>, where the multiplier is \<open>m / 2 ^ 52\<close>.\<close>

definition f64_scale_ceil :: "nat \<Rightarrow> nat \<Rightarrow> nat" where
  "f64_scale_ceil m n = min ((round53 (round53 n * m) + (2 ^ 52 - 1)) div 2 ^ 52) usize_max"

fun policy_mul :: "truncation_policy \<Rightarrow> nat \<Rightarrow> truncation_policy" where
  "policy_mul (Bytes bytes) m = Bytes (f64_scale_ceil m bytes)"
| "policy_mul (Tokens tokens) m = Tokens (f64_scale_ceil m tokens)"

section \<open>Cutting on character boundaries\<close>

lemma len_utf8_pos [simp]: "0 < len_utf8 c"
  by (simp add: len_utf8_def)

lemma str_len_Nil [simp]: "str_len [] = 0"
  by (simp add: str_len_def)

lemma str_len_Cons [simp]: "str_len (c # s) = len_utf8 c + str_len s"
  by (simp add: str_len_def)

lemma str_len_append [simp]: "str_len (a @ b) = str_len a + str_len b"
  by (simp add: str_len_def)

lemma str_len_0 [simp]: "str_len s = 0 \<longleftrightarrow> s = []" "0 < str_len s \<longleftrightarrow> s \<noteq> []"
  by (cases s; simp)+

lemma length_le_str_len: "length s \<le> str_len s"
proof (induction s)
  case (Cons c s)
  have "1 \<le> len_utf8 c" by (simp add: len_utf8_def)
  with Cons show ?case by simp
qed simp

lemma str_split_at_append [simp]: "str_split_at (str_len a) (a @ b) = Some (a, b)"
  by (induction a) (simp_all add: case_prod_beta, cases b, simp_all)

lemma prefix_within: "\<exists>l r. s = l @ r \<and> str_len l \<le> b \<and> (r \<noteq> [] \<longrightarrow> b < str_len l + len_utf8 (hd r))"
proof (induction s arbitrary: b)
  case (Cons c s)
  show ?case
  proof (cases "len_utf8 c \<le> b")
    case True
    obtain l r where "s = l @ r" "str_len l \<le> b - len_utf8 c" "r \<noteq> [] \<longrightarrow> b - len_utf8 c < str_len l + len_utf8 (hd r)"
      using Cons.IH by blast
    with True have "c # s = (c # l) @ r \<and> str_len (c # l) \<le> b \<and> (r \<noteq> [] \<longrightarrow> b < str_len (c # l) + len_utf8 (hd r))"
      by (auto simp: less_diff_conv2)
    then show ?thesis by blast
  next
    case False
    then have "c # s = [] @ (c # s) \<and> str_len [] \<le> b \<and> (c # s \<noteq> [] \<longrightarrow> b < str_len [] + len_utf8 (hd (c # s)))"
      by simp
    then show ?thesis by blast
  qed
qed simp

lemma str_len_rev [simp]: "str_len (rev s) = str_len s"
  by (induction s) simp_all

lemma suffix_within: "\<exists>l r. s = l @ r \<and> str_len r \<le> b \<and> (l \<noteq> [] \<longrightarrow> b < str_len r + len_utf8 (last l))"
proof -
  obtain l r where "rev s = l @ r" "str_len l \<le> b" "r \<noteq> [] \<longrightarrow> b < str_len l + len_utf8 (hd r)"
    using prefix_within by blast
  then have "s = rev r @ rev l \<and> str_len (rev l) \<le> b \<and> (rev r \<noteq> [] \<longrightarrow> b < str_len (rev l) + len_utf8 (last (rev r)))"
    by (metis last_rev rev_append rev_is_Nil_conv rev_rev_ident str_len_rev)
  then show ?thesis by blast
qed

text \<open>
  The cut of a text at two budgets that do not cover it: the longest beginning
  and the longest end within the budgets, and what is between them.
\<close>

definition cut :: "rstr \<Rightarrow> nat \<Rightarrow> nat \<Rightarrow> rstr \<Rightarrow> rstr \<Rightarrow> rstr \<Rightarrow> bool" where
  "cut s b e left mid right \<longleftrightarrow>
     s = left @ mid @ right \<and> mid \<noteq> []
     \<and> str_len left \<le> b \<and> b < str_len left + len_utf8 (hd mid)
     \<and> str_len right \<le> e \<and> e < str_len right + len_utf8 (last mid)"

lemma cut_exists:
  assumes "b + e < str_len s"
  shows "\<exists>left mid right. cut s b e left mid right"
proof -
  obtain left rest where l: "s = left @ rest" "str_len left \<le> b" "rest \<noteq> [] \<longrightarrow> b < str_len left + len_utf8 (hd rest)"
    using prefix_within by blast
  obtain mid right where r: "rest = mid @ right" "str_len right \<le> e" "mid \<noteq> [] \<longrightarrow> e < str_len right + len_utf8 (last mid)"
    using suffix_within by blast
  have "mid \<noteq> []" using assms l(1,2) r(1,2) by auto
  with l r show ?thesis unfolding cut_def by auto
qed

lemma split_loop_left:
  "idx + str_len l \<le> b \<Longrightarrow>
     split_loop b t idx (pe, ss, rc, st) (l @ r) =
     split_loop b t (idx + str_len l) (if l = [] then pe else idx + str_len l, ss, rc, st) r"
  by (induction l arbitrary: idx pe) (auto simp: Let_def add.assoc)

lemma split_loop_mid:
  "mid \<noteq> [] \<Longrightarrow> b < idx + len_utf8 (hd mid) \<Longrightarrow> idx + str_len (butlast mid) < t \<Longrightarrow> rc \<le> usize_max \<Longrightarrow>
     split_loop b t idx (pe, ss, rc, st) (mid @ r) =
     split_loop b t (idx + str_len mid) (pe, ss, saturating_add rc (length mid), st) r"
proof (induction mid arbitrary: idx rc)
  case (Cons c mid)
  have "idx < t" using Cons.prems(3) by simp
  then have step: "split_loop b t idx (pe, ss, rc, st) ((c # mid) @ r) =
      split_loop b t (idx + len_utf8 c) (pe, ss, saturating_add rc 1, st) (mid @ r)"
    using Cons.prems(2) by (simp add: Let_def)
  show ?case
  proof (cases "mid = []")
    case True
    then show ?thesis using step by simp
  next
    case False
    have "split_loop b t (idx + len_utf8 c) (pe, ss, saturating_add rc 1, st) (mid @ r) =
        split_loop b t (idx + len_utf8 c + str_len mid) (pe, ss, saturating_add (saturating_add rc 1) (length mid), st) r"
      using Cons.prems False by (intro Cons.IH) (auto simp: saturating_add_def)
    then show ?thesis using step by (simp add: saturating_add_assoc add.assoc)
  qed
qed simp

lemma split_loop_right:
  "t \<le> idx \<Longrightarrow> b < idx \<Longrightarrow>
     split_loop b t idx (pe, ss, rc, st) r = (pe, if st \<or> r = [] then ss else idx, rc, st \<or> r \<noteq> [])"
  by (induction r arbitrary: idx ss st) (auto simp: Let_def)

lemma split_string_cut:
  assumes "cut s b e left mid right" "b + e < str_len s"
  shows "split_string s b e = Some (min (length mid) usize_max, left, right)"
proof -
  from assms have s: "s = left @ mid @ right" "mid \<noteq> []" "str_len left \<le> b"
      "b < str_len left + len_utf8 (hd mid)" "str_len right \<le> e" "e < str_len right + len_utf8 (last mid)"
    by (simp_all add: cut_def)
  have mid: "str_len mid = str_len (butlast mid) + len_utf8 (last mid)"
    using s(2) by (metis append_butlast_last_id str_len_Cons str_len_Nil str_len_append add_0_right)
  let ?t = "str_len s - e"
  have t: "str_len left + str_len (butlast mid) < ?t" "?t \<le> str_len left + str_len mid"
    using assms(2) s(1,5,6) mid by auto
  have "b < ?t" using assms(2) by simp
  then have b: "b < str_len left + str_len mid" using t(2) by simp
  have "split_loop b ?t 0 (0, str_len s, 0, False) s =
      split_loop b ?t (str_len left) (str_len left, str_len s, 0, False) (mid @ right)"
    using split_loop_left [of 0 left b ?t 0 "str_len s" 0 False "mid @ right"] s(1,3) by (cases "left = []") simp_all
  also have "\<dots> = split_loop b ?t (str_len left + str_len mid)
      (str_len left, str_len s, saturating_add 0 (length mid), False) right"
    by (rule split_loop_mid) (use s t in auto)
  also have "\<dots> = (str_len left, if right = [] then str_len s else str_len left + str_len mid,
      min (length mid) usize_max, right \<noteq> [])"
    by (subst split_loop_right) (use t b in \<open>auto simp: saturating_add_def\<close>)
  finally have loop: "split_loop b ?t 0 (0, str_len s, 0, False) s =
      (str_len left, str_len (left @ mid), min (length mid) usize_max, right \<noteq> [])"
    using s(1) by auto
  have at: "str_split_at (str_len left) s = Some (left, mid @ right)"
      "str_split_at (str_len (left @ mid)) s = Some (left @ mid, right)"
    using s(1) str_split_at_append [of left "mid @ right"] str_split_at_append [of "left @ mid" right] by simp_all
  have "s \<noteq> []" using s by auto
  then show ?thesis by (simp add: split_string_def Let_def loop at del: str_len_append) simp
qed

section \<open>Truncated texts\<close>

text \<open>The marker that counts what is missing: characters, or approximate tokens of the bytes over the budget.\<close>

fun removal_marker :: "truncation_policy \<Rightarrow> rstr \<Rightarrow> rstr \<Rightarrow> rstr" where
  "removal_marker (Bytes _) s removed = format_truncation_marker False (min (length removed) usize_max)"
| "removal_marker (Tokens tokens) s removed =
     format_truncation_marker True (approx_tokens_from_byte_count (str_len s - approx_bytes_for_tokens tokens))"

lemma split_budget_eq: "split_budget n = (n div 2, n - n div 2)"
  by (simp add: split_budget_def Let_def)

lemma approx_bytes_for_tokens_0 [simp]:
  "approx_bytes_for_tokens n = 0 \<longleftrightarrow> n = 0" "0 < approx_bytes_for_tokens n \<longleftrightarrow> 0 < n"
  by (auto simp: approx_bytes_for_tokens_def saturating_mul_def APPROX_BYTES_PER_TOKEN_def usize_max_def)

lemma truncate_with_byte_estimate_cut:
  assumes "0 < n" "n < str_len s" "cut s (n div 2) (n - n div 2) left mid right"
  shows "truncate_with_byte_estimate s n use_tokens = Some (left @ format_truncation_marker use_tokens
    (removed_units use_tokens (str_len s - n) (min (length mid) usize_max)) @ right)"
proof -
  have "s \<noteq> []" using assms(2) by auto
  then show ?thesis
    using assms split_string_cut [OF assms(3)]
    by (simp add: truncate_with_byte_estimate_def split_budget_eq assemble_truncated_output_def)
qed

lemma truncate_text_unchanged:
  "s = [] \<or> (0 < byte_budget policy \<and> str_len s \<le> byte_budget policy) \<Longrightarrow> truncate_text s policy = Some s"
  by (cases policy)
    (auto simp: truncate_middle_chars_def truncate_with_byte_estimate_def truncate_middle_with_token_budget_def Let_def)

lemma truncate_text_cut:
  assumes "0 < byte_budget policy" "byte_budget policy < str_len s"
    "cut s (byte_budget policy div 2) (byte_budget policy - byte_budget policy div 2) left mid right"
  shows "truncate_text s policy = Some (left @ removal_marker policy s mid @ right)"
proof -
  have "s \<noteq> []" using assms(2) by auto
  with assms truncate_with_byte_estimate_cut [OF assms] show ?thesis
    by (cases policy)
      (simp_all add: truncate_middle_chars_def truncate_middle_with_token_budget_def removed_units_def)
qed

text \<open>
  C25: truncating a text always returns, without slicing inside a character. A text
  within the budget of the policy is returned as it is. Otherwise the result is the
  longest beginning that fits in half the budget, a marker, and the longest end that
  fits in the other half: no character is split, moved or repeated, what is kept of
  the text is within the budget, and the marker counts exactly what is missing. With
  no budget at all only the marker is left.
\<close>

theorem truncate_text_spec:
  "\<exists>out. truncate_text s policy = Some out \<and>
     (let budget = byte_budget policy in
      if s = [] \<or> (0 < budget \<and> str_len s \<le> budget) then out = s
      else if budget = 0 then
        out = (case policy of Bytes _ \<Rightarrow> format_truncation_marker False (length s)
               | Tokens _ \<Rightarrow> format_truncation_marker True (approx_tokens_from_byte_count (str_len s)))
      else \<exists>left mid right. cut s (budget div 2) (budget - budget div 2) left mid right
        \<and> out = left @ removal_marker policy s mid @ right \<and> str_len left + str_len right \<le> budget)"
proof (cases "s = [] \<or> (0 < byte_budget policy \<and> str_len s \<le> byte_budget policy)")
  case True
  with truncate_text_unchanged show ?thesis by (metis (full_types))
next
  case False
  show ?thesis
  proof (cases "byte_budget policy = 0")
    case True
    with False show ?thesis
      by (cases policy) (auto simp: truncate_middle_chars_def truncate_with_byte_estimate_def
          truncate_middle_with_token_budget_def removed_units_def)
  next
    case pos: False
    let ?b = "byte_budget policy"
    have "?b div 2 + (?b - ?b div 2) < str_len s" using False pos by auto
    from cut_exists [OF this] obtain left mid right where
      c: "cut s (?b div 2) (?b - ?b div 2) left mid right" by blast
    have "truncate_text s policy = Some (left @ removal_marker policy s mid @ right)"
      using False pos c by (intro truncate_text_cut) auto
    moreover have "str_len left + str_len right \<le> ?b" using c by (auto simp: cut_def)
    ultimately show ?thesis using False pos c by (auto simp: Let_def)
  qed
qed

lemma truncate_text_nonempty:
  assumes "s \<noteq> []"
  shows "\<exists>out. truncate_text s policy = Some out \<and> out \<noteq> []"
proof (cases "byte_budget policy = 0 \<or> str_len s \<le> byte_budget policy")
  case True
  with assms show ?thesis
    by (cases policy) (auto simp: truncate_middle_chars_def truncate_with_byte_estimate_def
        truncate_middle_with_token_budget_def format_truncation_marker_def)
next
  case False
  let ?b = "byte_budget policy"
  from False have "?b div 2 + (?b - ?b div 2) < str_len s" by auto
  from cut_exists [OF this] obtain left mid right where
    c: "cut s (?b div 2) (?b - ?b div 2) left mid right" by blast
  have "truncate_text s policy = Some (left @ removal_marker policy s mid @ right)"
    using False c by (intro truncate_text_cut) auto
  moreover have "removal_marker policy s mid \<noteq> []"
    by (cases policy) (simp_all add: format_truncation_marker_def)
  ultimately show ?thesis by auto
qed

section \<open>Truncated output items\<close>

abbreviation texts_cost :: "truncation_policy \<Rightarrow> rstr list \<Rightarrow> nat" where
  "texts_cost policy ts \<equiv> sum_list (map (text_cost policy) ts)"

abbreviation non_texts :: "'v output_content_item list \<Rightarrow> 'v output_content_item list" where
  "non_texts items \<equiv> filter (\<lambda>i. item_text i = None) items"

lemma item_texts_simps [simp]:
  "item_texts [] = []"
  "item_texts (OutputInputText t # items) = t # item_texts items"
  "item_text i = None \<Longrightarrow> item_texts (i # items) = item_texts items"
  "item_texts (xs @ ys) = item_texts xs @ item_texts ys"
  by (simp_all add: item_texts_def List.map_filter_def)

lemma item_texts_non_texts [simp]: "item_texts (non_texts items) = []"
  by (auto simp: item_texts_def List.map_filter_def filter_empty_conv)

lemma text_cost_0 [simp]: "text_cost policy [] = 0"
  by (cases policy)
    (simp_all add: approx_token_count_def saturating_add_def usize_max_def APPROX_BYTES_PER_TOKEN_def)

lemma truncate_items_loop_other:
  "item_text i = None \<Longrightarrow> truncate_items_loop policy r n (i # items) =
     map_option (\<lambda>(out, n). (i # out, n)) (truncate_items_loop policy r n items)"
  by (cases i) simp_all

lemma truncate_items_loop_no_budget:
  "truncate_items_loop policy 0 n items = Some (non_texts items, n + length (item_texts items))"
proof (induction items arbitrary: n)
  case (Cons i items)
  then show ?case by (cases "item_text i") (cases i; auto)+
qed simp

text \<open>
  What the loop does with a budget: the first texts are kept as long as they fit,
  the next one is cut to what is left of the budget, and the others are left out.
\<close>

definition items_cut ::
  "truncation_policy \<Rightarrow> nat \<Rightarrow> 'v output_content_item list \<Rightarrow> 'v output_content_item list \<Rightarrow> rstr list \<Rightarrow> bool" where
  "items_cut policy budget items out omitted \<longleftrightarrow>
     non_texts out = non_texts items \<and>
     (\<exists>kept cut_texts snippets.
        item_texts items = kept @ cut_texts @ omitted \<and> item_texts out = kept @ snippets
        \<and> texts_cost policy kept \<le> budget \<and> length cut_texts \<le> 1
        \<and> list_all2 (\<lambda>t u. truncate_text t (with_budget policy (budget - texts_cost policy kept)) = Some u)
             cut_texts snippets
        \<and> list_all (\<lambda>t. texts_cost policy kept < budget \<and> budget < texts_cost policy kept + text_cost policy t) cut_texts
        \<and> (omitted = [] \<or> cut_texts \<noteq> [] \<or> texts_cost policy kept = budget))"

lemma items_cut_no_budget: "items_cut policy 0 items (non_texts items) (item_texts items)"
  by (auto simp: items_cut_def intro!: exI [of _ "[]"])

lemma items_cut_Cons_other:
  "item_text i = None \<Longrightarrow> items_cut policy budget items out omitted \<Longrightarrow>
     items_cut policy budget (i # items) (i # out) omitted"
  by (simp add: items_cut_def)

lemma items_cut_Cons_kept:
  assumes "items_cut policy (budget - text_cost policy t) items out omitted" "text_cost policy t \<le> budget"
  shows "items_cut policy budget (OutputInputText t # items) (OutputInputText t # out) omitted"
proof -
  from assms(1) obtain kept cut_texts snippets where
    k: "item_texts items = kept @ cut_texts @ omitted" "item_texts out = kept @ snippets"
      "texts_cost policy kept \<le> budget - text_cost policy t" "length cut_texts \<le> 1"
      "list_all2 (\<lambda>u v. truncate_text u (with_budget policy (budget - text_cost policy t - texts_cost policy kept)) = Some v)
             cut_texts snippets"
      "list_all (\<lambda>u. texts_cost policy kept < budget - text_cost policy t
          \<and> budget - text_cost policy t < texts_cost policy kept + text_cost policy u) cut_texts"
      "omitted = [] \<or> cut_texts \<noteq> [] \<or> texts_cost policy kept = budget - text_cost policy t"
      and n: "non_texts out = non_texts items"
    unfolding items_cut_def by blast
  have "list_all (\<lambda>u. texts_cost policy (t # kept) < budget
          \<and> budget < texts_cost policy (t # kept) + text_cost policy u) cut_texts"
    using k(6) assms(2) by (auto elim!: list.pred_mono_strong)
  with k n assms(2) show ?thesis
    unfolding items_cut_def
    by (intro conjI exI [of _ "t # kept"] exI [of _ cut_texts] exI [of _ snippets]) auto
qed

lemma truncate_items_loop_cut:
  "\<exists>out omitted. truncate_items_loop policy budget n items = Some (out, n + length omitted)
     \<and> items_cut policy budget items out omitted"
proof (induction items arbitrary: budget)
  case Nil
  show ?case by (auto simp: items_cut_def intro!: exI [of _ "[]"])
next
  case (Cons i items)
  show ?case
  proof (cases "item_text i")
    case None
    obtain out omitted where "truncate_items_loop policy budget n items = Some (out, n + length omitted)"
        "items_cut policy budget items out omitted"
      using Cons.IH by blast
    with None show ?thesis
      by (intro exI [of _ "i # out"] exI [of _ omitted]) (simp add: truncate_items_loop_other items_cut_Cons_other)
  next
    case (Some t)
    then have i: "i = OutputInputText t" by (cases i) simp_all
    consider "budget = 0" | "0 < budget" "text_cost policy t \<le> budget" | "0 < budget" "budget < text_cost policy t"
      by linarith
    then show ?thesis
    proof cases
      case 1
      with items_cut_no_budget [of policy "i # items"] show ?thesis
        by (intro exI [of _ "non_texts (i # items)"] exI [of _ "item_texts (i # items)"])
          (simp add: truncate_items_loop_no_budget)
    next
      case 2
      obtain out omitted where
        "truncate_items_loop policy (budget - text_cost policy t) n items = Some (out, n + length omitted)"
        "items_cut policy (budget - text_cost policy t) items out omitted"
        using Cons.IH by blast
      with 2 i items_cut_Cons_kept show ?thesis
        by (intro exI [of _ "i # out"] exI [of _ omitted]) simp
    next
      case 3
      then have "t \<noteq> []" by auto
      then obtain u where u: "truncate_text t (with_budget policy budget) = Some u" "u \<noteq> []"
        using truncate_text_nonempty by blast
      have "items_cut policy budget (i # items) (OutputInputText u # non_texts items) (item_texts items)"
        using 3 u i unfolding items_cut_def
        by (intro conjI exI [of _ "[]"] exI [of _ "[t]"] exI [of _ "[u]"]) simp_all
      with 3 u i show ?thesis
        by (intro exI [of _ "OutputInputText u # non_texts items"] exI [of _ "item_texts items"])
          (simp add: truncate_items_loop_no_budget)
    qed
  qed
qed

text \<open>
  Truncating a list of output items always returns. Images and encrypted items
  are all kept, in order; the texts are kept up to the first that does not fit in
  the budget, that one is cut to exactly the rest of the budget, and the following
  ones are left out and counted in a closing note.
\<close>

theorem truncate_items_spec:
  "\<exists>out omitted. truncate_function_output_items_with_policy items policy =
       Some (if omitted = [] then out else out @ [OutputInputText (omitted_note (length omitted))])
     \<and> items_cut policy (initial_budget policy) items out omitted"
proof -
  obtain out omitted where "truncate_items_loop policy (initial_budget policy) 0 items = Some (out, 0 + length omitted)"
      "items_cut policy (initial_budget policy) items out omitted"
    using truncate_items_loop_cut by blast
  then show ?thesis by (auto simp: truncate_function_output_items_with_policy_def)
qed

lemma truncate_items_loop_fits:
  "texts_cost policy (item_texts items) < budget \<Longrightarrow> truncate_items_loop policy budget n items = Some (items, n)"
proof (induction items arbitrary: budget)
  case (Cons i items)
  then show ?case by (cases i) (simp_all add: less_diff_conv)
qed simp

section \<open>Scaled policies\<close>

lemma bit_length_lower: "0 < n \<Longrightarrow> 2 ^ (bit_length n - 1) \<le> n"
proof (induction n rule: bit_length.induct)
  case (1 n)
  show ?case
  proof (cases "n div 2 = 0")
    case True
    with 1 show ?thesis by (simp add: bit_length.simps [of n] bit_length.simps [of 0])
  next
    case False
    have "2 ^ (bit_length (n div 2) - 1) \<le> n div 2" using 1 False by simp
    moreover have "bit_length (n div 2) \<noteq> 0" using False by (subst bit_length.simps) simp
    ultimately have "2 ^ bit_length (n div 2) \<le> 2 * (n div 2)"
      by (cases "bit_length (n div 2)") simp_all
    then show ?thesis using 1 by (simp add: bit_length.simps [of n])
  qed
qed

text \<open>Rounding loses less than one part in \<open>2 ^ 52\<close>.\<close>

lemma round53_lower: "2 ^ 52 * n \<le> 2 ^ 52 * round53 n + n"
proof (cases "bit_length n \<le> 53")
  case True
  then show ?thesis by (simp add: round53_def)
next
  case False
  let ?k = "bit_length n - 53"
  from False have "n \<noteq> 0" by (cases n) (auto simp: bit_length.simps [of 0])
  have "2 ^ 52 * 2 ^ ?k = (2::nat) ^ (bit_length n - 1)"
    unfolding power_add [symmetric] using False by (intro arg_cong [of _ _ "\<lambda>i. 2 ^ i"]) simp
  also have "\<dots> \<le> n" using \<open>n \<noteq> 0\<close> bit_length_lower by simp
  finally have k: "2 ^ 52 * 2 ^ ?k \<le> n" .
  have "n mod 2 ^ ?k < 2 ^ ?k" by (rule mod_less_divisor) simp
  then have "n < 2 ^ ?k + n div 2 ^ ?k * 2 ^ ?k"
    using div_mult_mod_eq [of n "2 ^ ?k"] by linarith
  moreover have "n div 2 ^ ?k * 2 ^ ?k \<le> round53 n" by (simp add: round53_def Let_def)
  ultimately have "n \<le> round53 n + 2 ^ ?k" by linarith
  then have "2 ^ 52 * n \<le> 2 ^ 52 * (round53 n + 2 ^ ?k)" by (rule mult_le_mono2)
  with k show ?thesis by (simp add: distrib_left)
qed

lemma f64_scale_ge:
  assumes "n \<le> usize_max"
  shows "n \<le> f64_scale_ceil f64_one_point_two n"
proof -
  let ?m = f64_one_point_two
  let ?a = "round53 n" and ?b = "round53 (round53 n * ?m)"
  have a: "2 ^ 52 * n \<le> 2 ^ 52 * ?a + n" and b: "2 ^ 52 * (?a * ?m) \<le> 2 ^ 52 * ?b + ?a * ?m"
    by (rule round53_lower)+
  have "2 ^ 52 * n \<le> ?b"
  proof -
    have "(2 ^ 52 - 1) * n \<le> 2 ^ 52 * ?a" using a by simp
    moreover have "(2 ^ 52 - 1) * (?a * ?m) \<le> 2 ^ 52 * ?b" using b by (simp add: mult.commute)
    ultimately show ?thesis by (simp add: f64_one_point_two_def)
  qed
  then have "n \<le> (?b + (2 ^ 52 - 1)) div 2 ^ 52"
    by (simp add: less_eq_div_iff_mult_less_eq)
  with assms show ?thesis by (simp add: f64_scale_ceil_def)
qed

end
