(* ===== verification/Context_Fragments.thy ===== *)
theory Context_Fragments
  imports Text_Truncation
begin

text \<open>
  The fragments of context that the program injects into the conversation as user
  messages, and how it recognises them later (\<^verbatim>\<open>context-fragments/src\<close>,
  \<^verbatim>\<open>core/src/context\<close>, \<^verbatim>\<open>core/src/event_mapping.rs\<close>): a fragment is written between two
  markers, and a message that consists of such text does not start a turn.

  The XML reader of hook prompts and the JSON reader of agent messages are
  third-party code and are given by the record \<open>content_decoders\<close>.
\<close>

record content_decoders =
  hook_prompt_xml :: "rstr \<Rightarrow> (rstr \<times> rstr) option"
  agent_communication_json :: "rstr \<Rightarrow> bool"

section \<open>Marked text\<close>

definition eq_ignore_ascii_case :: "rstr \<Rightarrow> rstr \<Rightarrow> bool" where
  "eq_ignore_ascii_case a b \<longleftrightarrow> to_ascii_lowercase a = to_ascii_lowercase b"

text \<open>\<^verbatim>\<open>s.get(..n)\<close> and \<^verbatim>\<open>s.get(n..)\<close>.\<close>

definition str_get_to :: "nat \<Rightarrow> rstr \<Rightarrow> rstr option" where
  "str_get_to n s = map_option fst (str_split_at n s)"

definition str_get_from :: "nat \<Rightarrow> rstr \<Rightarrow> rstr option" where
  "str_get_from n s = map_option snd (str_split_at n s)"

definition is_some_and :: "'a option \<Rightarrow> ('a \<Rightarrow> bool) \<Rightarrow> bool" where
  "is_some_and x P = (case x of Some y \<Rightarrow> P y | None \<Rightarrow> False)"

definition matches_marked_text :: "rstr \<Rightarrow> rstr \<Rightarrow> rstr \<Rightarrow> bool" where
  "matches_marked_text start_marker end_marker s =
     (if start_marker = [] \<or> end_marker = [] then False
      else
        let trimmed = trim_start s;
            starts_with_marker = is_some_and (str_get_to (str_len start_marker) trimmed)
              (\<lambda>candidate. eq_ignore_ascii_case candidate start_marker);
            trimmed = trim_end trimmed;
            ends_with_marker = is_some_and (str_get_from (str_len trimmed - str_len end_marker) trimmed)
              (\<lambda>candidate. eq_ignore_ascii_case candidate end_marker)
        in starts_with_marker \<and> ends_with_marker)"

text \<open>\<^verbatim>\<open>ContextualUserFragment::render\<close> and \<^verbatim>\<open>into\<close>, for a fragment with the given markers, role and body.\<close>

definition render_fragment :: "rstr \<times> rstr \<Rightarrow> rstr \<Rightarrow> rstr" where
  "render_fragment markers body =
     (case markers of (start_marker, end_marker) \<Rightarrow>
        if start_marker = [] \<and> end_marker = [] then body else start_marker @ body @ end_marker)"

definition fragment_message :: "rstr \<Rightarrow> rstr \<Rightarrow> 'v response_item" where
  "fragment_message role rendered = Message None role [InputText rendered] None None"

section \<open>The fragments\<close>

definition user_instructions_markers :: "rstr \<times> rstr" where
  "user_instructions_markers = (rs ''# AGENTS.md instructions'', rs ''</INSTRUCTIONS>'')"

definition user_instructions_body :: "rstr option \<Rightarrow> rstr \<Rightarrow> rstr" where
  "user_instructions_body directory t =
     (case directory of Some d \<Rightarrow> rs '' for '' @ d | None \<Rightarrow> [])
     @ [LF, LF] @ rs ''<INSTRUCTIONS>'' @ [LF] @ t @ [LF]"

definition environment_context_markers :: "rstr \<times> rstr" where
  "environment_context_markers = (rs ''<environment_context>'', rs ''</environment_context>'')"

definition skill_instructions_markers :: "rstr \<times> rstr" where
  "skill_instructions_markers = (rs ''<skill>'', rs ''</skill>'')"

definition skill_instructions_body :: "rstr \<Rightarrow> rstr \<Rightarrow> rstr \<Rightarrow> rstr" where
  "skill_instructions_body name path contents =
     [LF] @ rs ''<name>'' @ name @ rs ''</name>'' @ [LF] @ rs ''<path>'' @ path @ rs ''</path>'' @ [LF] @ contents @ [LF]"

definition user_shell_command_markers :: "rstr \<times> rstr" where
  "user_shell_command_markers = (rs ''<user_shell_command>'', rs ''</user_shell_command>'')"

text \<open>The exit code and the duration are given as they are printed.\<close>

definition user_shell_command_body :: "rstr \<Rightarrow> rstr \<Rightarrow> rstr \<Rightarrow> rstr \<Rightarrow> rstr" where
  "user_shell_command_body command exit_code duration_seconds out =
     [LF] @ rs ''<command>'' @ [LF] @ command @ [LF] @ rs ''</command>'' @ [LF] @ rs ''<result>'' @ [LF]
     @ rs ''Exit code: '' @ exit_code @ [LF] @ rs ''Duration: '' @ duration_seconds @ rs '' seconds'' @ [LF]
     @ rs ''Output:'' @ [LF] @ out @ [LF] @ rs ''</result>'' @ [LF]"

definition turn_aborted_markers :: "rstr \<times> rstr" where
  "turn_aborted_markers = (rs ''<turn_aborted>'', rs ''</turn_aborted>'')"

definition turn_aborted_body :: "rstr \<Rightarrow> rstr" where
  "turn_aborted_body guidance = [LF] @ guidance @ [LF]"

definition subagent_notification_markers :: "rstr \<times> rstr" where
  "subagent_notification_markers = (rs ''<subagent_notification>'', rs ''</subagent_notification>'')"

definition recommended_plugins_markers :: "rstr \<times> rstr" where
  "recommended_plugins_markers = (rs ''<recommended_plugins>'', rs ''</recommended_plugins>'')"

subsection \<open>Additional context\<close>

definition ADDITIONAL_CONTEXT_START_MARKER_PREFIX :: rstr where
  "ADDITIONAL_CONTEXT_START_MARKER_PREFIX = rs ''<external_''"

definition ADDITIONAL_CONTEXT_END_MARKER_SUFFIX :: rstr where
  "ADDITIONAL_CONTEXT_END_MARKER_SUFFIX = rs ''>''"

definition MAX_ADDITIONAL_CONTEXT_VALUE_TOKENS :: nat where
  "MAX_ADDITIONAL_CONTEXT_VALUE_TOKENS = 1000"

definition additional_context_body :: "rstr \<Rightarrow> rstr \<Rightarrow> rstr option" where
  "additional_context_body key value =
     map_option (\<lambda>(value, _). key @ rs ''>'' @ value @ rs ''</external_'' @ key)
       (truncate_middle_with_token_budget value MAX_ADDITIONAL_CONTEXT_VALUE_TOKENS)"

definition additional_context_matches :: "rstr \<Rightarrow> bool" where
  "additional_context_matches s =
     (case strip_prefix ADDITIONAL_CONTEXT_START_MARKER_PREFIX (trim s) of
        None \<Rightarrow> False
      | Some rest \<Rightarrow>
          (case split_once_str ADDITIONAL_CONTEXT_END_MARKER_SUFFIX rest of
             None \<Rightarrow> False
           | Some (key, value_and_close) \<Rightarrow> ends_with value_and_close (rs ''</external_'' @ key @ rs ''>'')))"

subsection \<open>Internal model context\<close>

definition CONTEXT_START_MARKER :: rstr where "CONTEXT_START_MARKER = rs ''<codex_internal_context''"
definition CONTEXT_END_MARKER :: rstr where "CONTEXT_END_MARKER = rs ''</codex_internal_context>''"
definition LEGACY_GOAL_CONTEXT_START_MARKER :: rstr where "LEGACY_GOAL_CONTEXT_START_MARKER = rs ''<goal_context>''"
definition LEGACY_GOAL_CONTEXT_END_MARKER :: rstr where "LEGACY_GOAL_CONTEXT_END_MARKER = rs ''</goal_context>''"
definition SOURCE_ATTR_START :: rstr where "SOURCE_ATTR_START = rs '' source='' @ [34]"
definition SOURCE_ATTR_END :: rstr where "SOURCE_ATTR_END = [34] @ rs ''>''"

definition is_ascii_lowercase :: "uchar \<Rightarrow> bool" where
  "is_ascii_lowercase c \<longleftrightarrow> 97 \<le> c \<and> c \<le> 122"

fun is_valid_source :: "rstr \<Rightarrow> bool" where
  "is_valid_source [] = False"
| "is_valid_source (first # chars) =
     (is_ascii_lowercase first \<and> list_all (\<lambda>ch. is_ascii_lowercase ch \<or> is_ascii_digit ch \<or> ch = 95) chars)"

definition internal_context_source_new :: "rstr \<Rightarrow> (rstr, rstr) result" where
  "internal_context_source_new source = (if is_valid_source source then Ok source else Err source)"

definition internal_model_context_body :: "rstr \<Rightarrow> rstr \<Rightarrow> rstr" where
  "internal_model_context_body source body = SOURCE_ATTR_START @ source @ SOURCE_ATTR_END @ [LF] @ body @ [LF]"

definition matches_legacy_goal_context :: "rstr \<Rightarrow> bool" where
  "matches_legacy_goal_context s \<longleftrightarrow>
     starts_with s LEGACY_GOAL_CONTEXT_START_MARKER \<and> ends_with s LEGACY_GOAL_CONTEXT_END_MARKER"

definition internal_model_context_matches :: "rstr \<Rightarrow> bool" where
  "internal_model_context_matches s =
     (let trimmed = trim s in
      if matches_legacy_goal_context trimmed then True
      else
        case strip_prefix CONTEXT_START_MARKER trimmed of
          None \<Rightarrow> False
        | Some rest \<Rightarrow>
            (case strip_prefix SOURCE_ATTR_START rest of
               None \<Rightarrow> False
             | Some rest \<Rightarrow>
                 (case split_once_str SOURCE_ATTR_END rest of
                    None \<Rightarrow> False
                  | Some (source, body_and_close) \<Rightarrow>
                      is_valid_source source \<and> ends_with body_and_close CONTEXT_END_MARKER)))"

subsection \<open>Warnings of older versions\<close>

definition unified_exec_process_limit_matches :: "rstr \<Rightarrow> bool" where
  "unified_exec_process_limit_matches s =
     starts_with (trim s) (rs ''Warning: The maximum number of unified exec processes you can keep open is'')"

definition apply_patch_exec_command_matches :: "rstr \<Rightarrow> bool" where
  "apply_patch_exec_command_matches s =
     (let trimmed = trim s in
      starts_with trimmed (rs ''Warning: apply_patch was requested via '')
      \<and> ends_with trimmed (rs ''Use the apply_patch tool instead of exec_command.''))"

definition model_mismatch_matches :: "rstr \<Rightarrow> bool" where
  "model_mismatch_matches s =
     starts_with (trim s) (rs ''Warning: Your account was flagged for potentially high-risk cyber activity'')"

section \<open>Recognising context\<close>

abbreviation matches_markers :: "rstr \<times> rstr \<Rightarrow> rstr \<Rightarrow> bool" where
  "matches_markers markers \<equiv> matches_marked_text (fst markers) (snd markers)"

definition CONTEXTUAL_USER_FRAGMENTS :: "(rstr \<Rightarrow> bool) list" where
  "CONTEXTUAL_USER_FRAGMENTS =
     [matches_markers user_instructions_markers, matches_markers environment_context_markers,
      additional_context_matches, matches_markers skill_instructions_markers,
      matches_markers user_shell_command_markers, matches_markers turn_aborted_markers,
      matches_markers subagent_notification_markers, internal_model_context_matches,
      matches_markers recommended_plugins_markers, unified_exec_process_limit_matches,
      apply_patch_exec_command_matches, model_mismatch_matches]"

definition is_standard_contextual_user_text :: "rstr \<Rightarrow> bool" where
  "is_standard_contextual_user_text s = list_ex (\<lambda>matches_text. matches_text s) CONTEXTUAL_USER_FRAGMENTS"

definition parse_hook_prompt_fragment :: "content_decoders \<Rightarrow> rstr \<Rightarrow> (rstr \<times> rstr) option" where
  "parse_hook_prompt_fragment dec s =
     (case hook_prompt_xml dec (trim s) of
        None \<Rightarrow> None
      | Some (t, hook_run_id) \<Rightarrow> if trim hook_run_id = [] then None else Some (t, hook_run_id))"

fun is_contextual_user_fragment :: "content_decoders \<Rightarrow> 'v content_item \<Rightarrow> bool" where
  "is_contextual_user_fragment dec (InputText t) =
     (parse_hook_prompt_fragment dec t \<noteq> None \<or> is_standard_contextual_user_text t)"
| "is_contextual_user_fragment dec _ = False"

definition is_contextual_user_message_content :: "content_decoders \<Rightarrow> 'v content_item list \<Rightarrow> bool" where
  "is_contextual_user_message_content dec message = list_ex (is_contextual_user_fragment dec) message"

definition CONTEXTUAL_DEVELOPER_PREFIXES :: "rstr list" where
  "CONTEXTUAL_DEVELOPER_PREFIXES =
     [rs ''<permissions instructions>'', rs ''<model_switch>'', rs ''<collaboration_mode>'',
      rs ''<multi_agent_mode>'', rs ''<realtime_conversation>'', rs ''<skills_instructions>'',
      rs ''<personality_spec>'', rs ''<token_budget>'', rs ''<context_window>'',
      rs ''<context_window_guidance>'', rs ''<rollout_budget>'']"

fun is_contextual_dev_fragment :: "'v content_item \<Rightarrow> bool" where
  "is_contextual_dev_fragment (InputText t) =
     (let trimmed = trim_start t in
      list_ex (\<lambda>pre. is_some_and (str_get_to (str_len pre) trimmed)
        (\<lambda>candidate. eq_ignore_ascii_case candidate pre)) CONTEXTUAL_DEVELOPER_PREFIXES)"
| "is_contextual_dev_fragment _ = False"

definition is_contextual_dev_message_content :: "'v content_item list \<Rightarrow> bool" where
  "is_contextual_dev_message_content message = list_ex is_contextual_dev_fragment message"

definition has_non_contextual_dev_message_content :: "'v content_item list \<Rightarrow> bool" where
  "has_non_contextual_dev_message_content message = list_ex (\<lambda>c. \<not> is_contextual_dev_fragment c) message"

fun is_message_content :: "content_decoders \<Rightarrow> 'v content_item list \<Rightarrow> bool" where
  "is_message_content dec [InputText t] = agent_communication_json dec t"
| "is_message_content dec [OutputText t] = agent_communication_json dec t"
| "is_message_content dec _ = False"

fun is_user_turn_boundary :: "content_decoders \<Rightarrow> 'v response_item \<Rightarrow> bool" where
  "is_user_turn_boundary dec (AgentMessage _ _ _ _ _) = True"
| "is_user_turn_boundary dec (Message _ role content _ _) =
     ((role = rs ''user'' \<and> \<not> is_contextual_user_message_content dec content)
      \<or> (role = rs ''assistant'' \<and> is_message_content dec content))"
| "is_user_turn_boundary dec _ = False"

subsection \<open>The store of additional context\<close>

datatype additional_context_kind = Untrusted | Application

record additional_context_entry =
  ac_value :: rstr
  ac_kind :: additional_context_kind

definition additional_context_developer_body :: "rstr \<Rightarrow> rstr \<Rightarrow> rstr option" where
  "additional_context_developer_body key value =
     map_option (\<lambda>(value, _). rs ''<'' @ key @ rs ''>'' @ value @ rs ''</'' @ key @ rs ''>'')
       (truncate_middle_with_token_budget value MAX_ADDITIONAL_CONTEXT_VALUE_TOKENS)"

text \<open>The role and the text of the message for one entry.\<close>

definition additional_context_fragment :: "rstr \<times> additional_context_entry \<Rightarrow> (rstr \<times> rstr) option" where
  "additional_context_fragment kv =
     (case ac_kind (snd kv) of
        Untrusted \<Rightarrow>
          map_option (\<lambda>body. (rs ''user'',
              render_fragment (ADDITIONAL_CONTEXT_START_MARKER_PREFIX, ADDITIONAL_CONTEXT_END_MARKER_SUFFIX) body))
            (additional_context_body (fst kv) (ac_value (snd kv)))
      | Application \<Rightarrow>
          map_option (\<lambda>body. (rs ''developer'', render_fragment ([], []) body))
            (additional_context_developer_body (fst kv) (ac_value (snd kv))))"

text \<open>
  \<^verbatim>\<open>AdditionalContextStore::merge\<close>: the store is a map from keys to entries; the new values
  are listed in the order of their keys, each key once. The result is the new store and the messages
  for the entries that changed.
\<close>

definition additional_context_merge ::
  "(rstr \<Rightarrow> additional_context_entry option) \<Rightarrow> (rstr \<times> additional_context_entry) list
   \<Rightarrow> (rstr \<Rightarrow> additional_context_entry option) \<times> (rstr \<times> rstr) option list" where
  "additional_context_merge store values =
     (map_of values,
      map additional_context_fragment (filter (\<lambda>(key, entry). store key \<noteq> Some entry) values))"

section \<open>Injected context is recognised\<close>

lemma rs_Nil_iff [simp]: "rs s = [] \<longleftrightarrow> s = []"
  by (simp add: rs_def)

lemma trim_start_id: "s = [] \<or> \<not> is_whitespace (hd s) \<Longrightarrow> trim_start s = s"
  by (cases s) (auto simp: trim_start_def)

lemma trim_end_id: "s = [] \<or> \<not> is_whitespace (last s) \<Longrightarrow> trim_end s = s"
  by (cases s rule: rev_cases) (auto simp: trim_end_def)

text \<open>Markers that trimming does not touch.\<close>

definition solid_markers :: "rstr \<times> rstr \<Rightarrow> bool" where
  "solid_markers m \<longleftrightarrow> fst m \<noteq> [] \<and> snd m \<noteq> [] \<and> \<not> is_whitespace (hd (fst m)) \<and> \<not> is_whitespace (last (snd m))"

lemma render_trim:
  assumes "solid_markers m"
  shows "trim_start (render_fragment m body) = render_fragment m body"
    "trim_end (render_fragment m body) = render_fragment m body" "trim (render_fragment m body) = render_fragment m body"
proof -
  show 1: "trim_start (render_fragment m body) = render_fragment m body"
    using assms by (intro trim_start_id) (auto simp: solid_markers_def render_fragment_def case_prod_beta hd_append)
  show 2: "trim_end (render_fragment m body) = render_fragment m body"
    using assms by (intro trim_end_id) (auto simp: solid_markers_def render_fragment_def case_prod_beta)
  from 1 2 show "trim (render_fragment m body) = render_fragment m body" by (simp add: trim_def)
qed

lemma matches_rendered: "solid_markers m \<Longrightarrow> matches_markers m (render_fragment m body)"
proof -
  assume m: "solid_markers m"
  obtain a b where ab: "m = (a, b)" by (cases m)
  have "str_split_at (str_len a) (a @ body @ b) = Some (a, body @ b)"
    by (rule str_split_at_append)
  moreover have "str_split_at (str_len (a @ body @ b) - str_len b) (a @ body @ b) = Some (a @ body, b)"
    using str_split_at_append [of "a @ body" b] by simp
  ultimately show ?thesis
    using m render_trim [OF m, of body] ab
    by (simp add: matches_marked_text_def Let_def render_fragment_def str_get_to_def str_get_from_def
        is_some_and_def eq_ignore_ascii_case_def solid_markers_def del: str_len_append)
qed

lemma solid_fragment_markers:
  "solid_markers user_instructions_markers" "solid_markers environment_context_markers"
  "solid_markers skill_instructions_markers" "solid_markers user_shell_command_markers"
  "solid_markers turn_aborted_markers" "solid_markers subagent_notification_markers"
  "solid_markers recommended_plugins_markers"
  "solid_markers (ADDITIONAL_CONTEXT_START_MARKER_PREFIX, ADDITIONAL_CONTEXT_END_MARKER_SUFFIX)"
  "solid_markers (CONTEXT_START_MARKER, CONTEXT_END_MARKER)"
  by code_simp+

lemma additional_context_rendered:
  assumes "62 \<notin> set key"
  shows "\<exists>body. additional_context_body key value = Some body \<and> additional_context_matches
    (render_fragment (ADDITIONAL_CONTEXT_START_MARKER_PREFIX, ADDITIONAL_CONTEXT_END_MARKER_SUFFIX) body)"
proof -
  obtain v where v: "truncate_text value (Tokens MAX_ADDITIONAL_CONTEXT_VALUE_TOKENS) = Some v"
    by (metis truncate_text_nonempty truncate_text_unchanged)
  then obtain n where t: "truncate_middle_with_token_budget value MAX_ADDITIONAL_CONTEXT_VALUE_TOKENS = Some (v, n)"
    by (auto simp del: split_paired_Ex)
  let ?m = "(ADDITIONAL_CONTEXT_START_MARKER_PREFIX, ADDITIONAL_CONTEXT_END_MARKER_SUFFIX)"
  let ?b = "key @ rs ''>'' @ v @ rs ''</external_'' @ key"
  have body: "additional_context_body key value = Some ?b" by (simp add: additional_context_body_def t)
  have "split_once_str (rs ''>'') (key @ rs ''>'' @ v @ rs ''</external_'' @ key @ rs ''>'')
      = Some (key, v @ rs ''</external_'' @ key @ rs ''>'')"
    using split_once_str_append [OF assms, of "[]"] by (simp add: rs_def)
  then have "additional_context_matches (render_fragment ?m ?b)"
    unfolding additional_context_matches_def render_trim(3) [OF solid_fragment_markers(8)]
    by (auto simp: render_fragment_def ADDITIONAL_CONTEXT_START_MARKER_PREFIX_def ADDITIONAL_CONTEXT_END_MARKER_SUFFIX_def
        ends_with_iff)
  with body show ?thesis by blast
qed

lemma valid_source_no_quote: "is_valid_source s \<Longrightarrow> 34 \<notin> set s"
  by (cases s) (auto simp: is_ascii_lowercase_def is_ascii_digit_def list_all_iff)

lemma internal_model_context_rendered:
  assumes "is_valid_source source"
  shows "internal_model_context_matches
    (render_fragment (CONTEXT_START_MARKER, CONTEXT_END_MARKER) (internal_model_context_body source body))"
proof -
  have "split_once_str SOURCE_ATTR_END (source @ SOURCE_ATTR_END @ [LF] @ body @ [LF] @ CONTEXT_END_MARKER)
      = Some (source, [LF] @ body @ [LF] @ CONTEXT_END_MARKER)"
    using split_once_str_append [OF valid_source_no_quote [OF assms], of "rs ''>''" "[LF] @ body @ [LF] @ CONTEXT_END_MARKER"]
    by (simp add: SOURCE_ATTR_END_def)
  with assms show ?thesis
    unfolding internal_model_context_matches_def render_trim(3) [OF solid_fragment_markers(9)]
    by (auto simp: Let_def render_fragment_def internal_model_context_body_def CONTEXT_START_MARKER_def
        CONTEXT_END_MARKER_def ends_with_iff)
qed

text \<open>
  What a kind of injected fragment promises: its text, when built from valid
  contents, is accepted by the test that is registered for it.
\<close>

locale contextual_fragment =
  fixes render :: "'a \<Rightarrow> rstr"
    and valid :: "'a \<Rightarrow> bool"
    and matches :: "rstr \<Rightarrow> bool"
  assumes registered: "matches \<in> set CONTEXTUAL_USER_FRAGMENTS"
    and matches_render: "valid x \<Longrightarrow> matches (render x)"
begin

lemma rendered_contextual: "valid x \<Longrightarrow> is_contextual_user_message_content dec [InputText (render x)]"
  using registered matches_render
  by (auto simp: is_contextual_user_message_content_def is_standard_contextual_user_text_def list_ex_iff)

lemma rendered_no_turn: "valid x \<Longrightarrow> \<not> is_user_turn_boundary dec (fragment_message (rs ''user'') (render x))"
  using rendered_contextual by (auto simp: fragment_message_def rs_def)

end

interpretation user_instructions: contextual_fragment
  "\<lambda>(directory, t). render_fragment user_instructions_markers (user_instructions_body directory t)"
  "\<lambda>_. True" "matches_markers user_instructions_markers"
  by unfold_locales (auto simp: CONTEXTUAL_USER_FRAGMENTS_def solid_fragment_markers intro!: matches_rendered)

interpretation environment_context: contextual_fragment
  "render_fragment environment_context_markers" "\<lambda>_. True" "matches_markers environment_context_markers"
  by unfold_locales (auto simp: CONTEXTUAL_USER_FRAGMENTS_def solid_fragment_markers intro!: matches_rendered)

interpretation skill_instructions: contextual_fragment
  "\<lambda>(name, path, contents). render_fragment skill_instructions_markers (skill_instructions_body name path contents)"
  "\<lambda>_. True" "matches_markers skill_instructions_markers"
  by unfold_locales (auto simp: CONTEXTUAL_USER_FRAGMENTS_def solid_fragment_markers intro!: matches_rendered)

interpretation user_shell_command: contextual_fragment
  "\<lambda>(command, exit_code, duration, out).
     render_fragment user_shell_command_markers (user_shell_command_body command exit_code duration out)"
  "\<lambda>_. True" "matches_markers user_shell_command_markers"
  by unfold_locales (auto simp: CONTEXTUAL_USER_FRAGMENTS_def solid_fragment_markers intro!: matches_rendered)

interpretation turn_aborted: contextual_fragment
  "\<lambda>guidance. render_fragment turn_aborted_markers (turn_aborted_body guidance)"
  "\<lambda>_. True" "matches_markers turn_aborted_markers"
  by unfold_locales (auto simp: CONTEXTUAL_USER_FRAGMENTS_def solid_fragment_markers intro!: matches_rendered)

interpretation subagent_notification: contextual_fragment
  "render_fragment subagent_notification_markers" "\<lambda>_. True" "matches_markers subagent_notification_markers"
  by unfold_locales (auto simp: CONTEXTUAL_USER_FRAGMENTS_def solid_fragment_markers intro!: matches_rendered)

interpretation recommended_plugins: contextual_fragment
  "render_fragment recommended_plugins_markers" "\<lambda>_. True" "matches_markers recommended_plugins_markers"
  by unfold_locales (auto simp: CONTEXTUAL_USER_FRAGMENTS_def solid_fragment_markers intro!: matches_rendered)

interpretation internal_model_context: contextual_fragment
  "\<lambda>(source, body). render_fragment (CONTEXT_START_MARKER, CONTEXT_END_MARKER) (internal_model_context_body source body)"
  "\<lambda>(source, body). is_valid_source source" internal_model_context_matches
  by unfold_locales (auto simp: CONTEXTUAL_USER_FRAGMENTS_def intro!: internal_model_context_rendered)

text \<open>The text of additional context; \<^term>\<open>None\<close> never occurs, as the lemma above shows.\<close>

definition additional_context_text :: "rstr \<times> rstr \<Rightarrow> rstr" where
  "additional_context_text kv =
     (case additional_context_body (fst kv) (snd kv) of
        Some body \<Rightarrow> render_fragment (ADDITIONAL_CONTEXT_START_MARKER_PREFIX, ADDITIONAL_CONTEXT_END_MARKER_SUFFIX) body
      | None \<Rightarrow> [])"

interpretation additional_context: contextual_fragment
  additional_context_text "\<lambda>kv. 62 \<notin> set (fst kv)" additional_context_matches
proof
  show "additional_context_matches (additional_context_text x)" if "62 \<notin> set (fst x)" for x
    using additional_context_rendered [OF that, of "snd x"] by (auto simp: additional_context_text_def)
qed (simp add: CONTEXTUAL_USER_FRAGMENTS_def)

end
