(* ===== verification/History_Pairs.thy ===== *)
theory History_Pairs
  imports History_Items
begin

text \<open>
  Calls and outputs come in pairs: what normalisation establishes, what it leaves
  alone, and that dropping the oldest item of a paired history keeps it paired.
\<close>

section \<open>Keys\<close>

text \<open>
  A call and its output share a kind and an identifier. A function call and a local
  shell call are both answered by a function call output.
\<close>

datatype call_kind = FunctionKind | SearchKind | CustomKind

fun call_key :: "'v response_item \<Rightarrow> (call_kind \<times> rstr) option" where
  "call_key (FunctionCall _ _ _ _ call_id _) = Some (FunctionKind, call_id)"
| "call_key (LocalShellCall _ call_id _ _ _) = map_option (Pair FunctionKind) call_id"
| "call_key (ToolSearchCall _ call_id _ _ _ _) = map_option (Pair SearchKind) call_id"
| "call_key (CustomToolCall _ _ call_id _ _ _) = Some (CustomKind, call_id)"
| "call_key _ = None"

fun output_key :: "'v response_item \<Rightarrow> (call_kind \<times> rstr) option" where
  "output_key (FunctionCallOutput _ call_id _ _) = Some (FunctionKind, call_id)"
| "output_key (ToolSearchOutput _ call_id _ _ _ _) = map_option (Pair SearchKind) call_id"
| "output_key (CustomToolCallOutput _ call_id _ _ _) = Some (CustomKind, call_id)"
| "output_key _ = None"

text \<open>The results of searches that the server ran need no call.\<close>

fun server_output :: "'v response_item \<Rightarrow> bool" where
  "server_output (ToolSearchOutput _ _ _ execution _ _) = (execution = rs ''server'')"
| "server_output _ = False"

definition call_keys :: "'v response_item list \<Rightarrow> (call_kind \<times> rstr) set" where
  "call_keys items = {k. \<exists>i \<in> set items. call_key i = Some k}"

definition output_keys :: "'v response_item list \<Rightarrow> (call_kind \<times> rstr) set" where
  "output_keys items = {k. \<exists>i \<in> set items. output_key i = Some k}"

definition paired :: "'v response_item list \<Rightarrow> bool" where
  "paired items \<longleftrightarrow> call_keys items \<subseteq> output_keys items
     \<and> (\<forall>i \<in> set items. \<forall>k. output_key i = Some k \<longrightarrow> \<not> server_output i \<longrightarrow> k \<in> call_keys items)"

lemma keys_simps [simp]:
  "call_keys [] = {}" "call_keys (i # items) = (case call_key i of None \<Rightarrow> {} | Some k \<Rightarrow> {k}) \<union> call_keys items"
  "call_keys (xs @ ys) = call_keys xs \<union> call_keys ys"
  "output_keys [] = {}" "output_keys (i # items) = (case output_key i of None \<Rightarrow> {} | Some k \<Rightarrow> {k}) \<union> output_keys items"
  "output_keys (xs @ ys) = output_keys xs \<union> output_keys ys"
  by (auto simp: call_keys_def output_keys_def split: option.splits)

lemma set_ids: "set (List.map_filter f xs) = {y. \<exists>x \<in> set xs. f x = Some y}"
  by (auto simp: List.map_filter_def intro: rev_image_eqI)

lemma output_ids:
  "c \<in> set (List.map_filter function_output_id items) \<longleftrightarrow> (FunctionKind, c) \<in> output_keys items"
  "c \<in> set (List.map_filter tool_search_output_id items) \<longleftrightarrow> (SearchKind, c) \<in> output_keys items"
  "c \<in> set (List.map_filter custom_tool_output_id items) \<longleftrightarrow> (CustomKind, c) \<in> output_keys items"
proof -
  have "function_output_id i = Some c \<longleftrightarrow> output_key i = Some (FunctionKind, c)"
    "tool_search_output_id i = Some c \<longleftrightarrow> output_key i = Some (SearchKind, c)"
    "custom_tool_output_id i = Some c \<longleftrightarrow> output_key i = Some (CustomKind, c)" for i :: "'a response_item"
    by (cases i; simp)+
  then show "c \<in> set (List.map_filter function_output_id items) \<longleftrightarrow> (FunctionKind, c) \<in> output_keys items"
    "c \<in> set (List.map_filter tool_search_output_id items) \<longleftrightarrow> (SearchKind, c) \<in> output_keys items"
    "c \<in> set (List.map_filter custom_tool_output_id items) \<longleftrightarrow> (CustomKind, c) \<in> output_keys items"
    by (simp_all add: set_ids output_keys_def)
qed

lemma call_ids:
  "c \<in> set (List.map_filter function_call_id items) \<or> c \<in> set (List.map_filter local_shell_call_id items)
     \<longleftrightarrow> (FunctionKind, c) \<in> call_keys items"
  "c \<in> set (List.map_filter tool_search_call_id items) \<longleftrightarrow> (SearchKind, c) \<in> call_keys items"
  "c \<in> set (List.map_filter custom_tool_call_id items) \<longleftrightarrow> (CustomKind, c) \<in> call_keys items"
proof -
  have "function_call_id i = Some c \<or> local_shell_call_id i = Some c \<longleftrightarrow> call_key i = Some (FunctionKind, c)"
    "tool_search_call_id i = Some c \<longleftrightarrow> call_key i = Some (SearchKind, c)"
    "custom_tool_call_id i = Some c \<longleftrightarrow> call_key i = Some (CustomKind, c)" for i :: "'a response_item"
    by (cases i; simp)+
  then show "c \<in> set (List.map_filter function_call_id items) \<or> c \<in> set (List.map_filter local_shell_call_id items)
     \<longleftrightarrow> (FunctionKind, c) \<in> call_keys items"
    "c \<in> set (List.map_filter tool_search_call_id items) \<longleftrightarrow> (SearchKind, c) \<in> call_keys items"
    "c \<in> set (List.map_filter custom_tool_call_id items) \<longleftrightarrow> (CustomKind, c) \<in> call_keys items"
    by (simp_all add: set_ids call_keys_def) blast
qed

section \<open>Missing outputs\<close>

lemma missing_output_cases:
  "missing_output_in items i = None \<longleftrightarrow> (\<forall>k. call_key i = Some k \<longrightarrow> k \<in> output_keys items)"
  "missing_output_in items i = Some out \<Longrightarrow>
     output_key out = call_key i \<and> call_key out = None \<and> call_key i \<noteq> None \<and> \<not> server_output out"
  by (cases "(set (List.map_filter function_output_id items), set (List.map_filter tool_search_output_id items),
        set (List.map_filter custom_tool_output_id items), i)" rule: missing_output.cases;
      auto simp: missing_output_in_def output_ids aborted_output_def rs_def split: if_splits)+

text \<open>The reverse insertion loop puts every synthetic output right behind its call.\<close>

definition with_output :: "('a \<Rightarrow> 'a option) \<Rightarrow> 'a \<Rightarrow> 'a list" where
  "with_output f i = i # (case f i of None \<Rightarrow> [] | Some out \<Rightarrow> [out])"

lemma insert_behind:
  "fold (\<lambda>(idx, out) items. vec_insert (idx + 1) out items)
     (rev (List.map_filter (\<lambda>(idx, i). map_option (\<lambda>out. (idx, out)) (f i)) (enumerate (length pre) xs))) (pre @ xs)
   = pre @ concat (map (with_output f) xs)"
proof (induction xs arbitrary: pre)
  case Nil
  then show ?case by (simp add: List.map_filter_simps)
next
  case (Cons x xs)
  let ?ins = "\<lambda>(idx, out) items. vec_insert (idx + 1) out items"
  let ?ms = "List.map_filter (\<lambda>(idx, i). map_option (\<lambda>out. (idx, out)) (f i)) (enumerate (Suc (length pre)) xs)"
  have ih: "fold ?ins (rev ?ms) (pre @ x # xs) = pre @ x # concat (map (with_output f) xs)"
    using Cons.IH [of "pre @ [x]"] by simp
  show ?case
  proof (cases "f x")
    case None
    with ih show ?thesis by (simp add: List.map_filter_simps with_output_def [of f x])
  next
    case (Some out)
    with ih show ?thesis by (simp add: List.map_filter_simps with_output_def [of f x] vec_insert_def)
  qed
qed

lemma ensure_call_outputs_present_eq:
  "ensure_call_outputs_present debug items =
     (if debug \<and> list_ex (\<lambda>item. missing_is_error item \<and> missing_output_in items item \<noteq> None) items then None
      else Some (concat (map (with_output (missing_output_in items)) items)))"
  using insert_behind [of "missing_output_in items" "[]" items]
  by (simp add: ensure_call_outputs_present_def missing_outputs_to_insert_def)

lemma with_output_keys:
  "call_keys (with_output (missing_output_in items) x) = call_keys [x]
    \<and> output_keys (with_output (missing_output_in items) x) = output_keys [x] \<union> (call_keys [x] - output_keys items)"
proof (cases "missing_output_in items x")
  case None
  moreover from this have "\<forall>k. call_key x = Some k \<longrightarrow> k \<in> output_keys items"
    by (simp only: missing_output_cases(1))
  ultimately show ?thesis by (auto simp: with_output_def split: option.splits)
next
  case (Some out)
  note out = missing_output_cases(2) [OF Some]
  from Some have "missing_output_in items x \<noteq> None" by simp
  then have "\<not> (\<forall>k. call_key x = Some k \<longrightarrow> k \<in> output_keys items)"
    by (simp only: missing_output_cases(1) not_False_eq_True)
  with Some out show ?thesis by (auto simp: with_output_def split: option.splits)
qed

lemma with_outputs_keys:
  "call_keys (concat (map (with_output (missing_output_in items)) xs)) = call_keys xs"
  "output_keys (concat (map (with_output (missing_output_in items)) xs))
     = output_keys xs \<union> (call_keys xs - output_keys items)"
  by (induction xs) (use with_output_keys [of items] in auto)

section \<open>Orphans\<close>

abbreviation retained_in :: "'v response_item list \<Rightarrow> 'v response_item \<Rightarrow> bool" where
  "retained_in items \<equiv> is_retained (set (List.map_filter function_call_id items))
     (set (List.map_filter tool_search_call_id items)) (set (List.map_filter local_shell_call_id items))
     (set (List.map_filter custom_tool_call_id items))"

lemma retained_iff:
  "retained_in items i \<longleftrightarrow> (\<forall>k. output_key i = Some k \<longrightarrow> server_output i \<or> k \<in> call_keys items)"
  by (cases i) (simp_all add: call_ids split: option.split)

lemma filter_retained_keys:
  "call_keys (filter (retained_in items) xs) = call_keys xs"
  "output_keys xs \<inter> call_keys items \<subseteq> output_keys (filter (retained_in items) xs)"
proof -
  have "call_key i = Some k \<Longrightarrow> output_key i = None" for i :: "'a response_item" and k by (cases i) auto
  then show "call_keys (filter (retained_in items) xs) = call_keys xs"
    by (auto simp: call_keys_def retained_iff)
  show "output_keys xs \<inter> call_keys items \<subseteq> output_keys (filter (retained_in items) xs)"
    by (auto simp: output_keys_def retained_iff)
qed

lemma strip_keys [simp]:
  "call_key (strip_item_images i) = call_key i" "output_key (strip_item_images i) = output_key i"
  "server_output (strip_item_images i) = server_output i"
  by (cases i; simp)+

lemma strip_idem [simp]: "strip_item_images (strip_item_images i) = strip_item_images i"
proof -
  have "strip_content_image (strip_content_image c) = strip_content_image c" for c :: "'a content_item"
    by (cases c) simp_all
  moreover have "strip_output_image (strip_output_image c) = strip_output_image c" for c :: "'a output_content_item"
    by (cases c) simp_all
  then have "strip_payload_images (strip_payload_images p) = strip_payload_images p" for p :: "'a output_payload"
    by (cases "op_body p") (simp_all add: strip_payload_images_def)
  ultimately show ?thesis by (cases i) simp_all
qed


text \<open>What the normalised list is: outputs added, orphans dropped, images stripped.\<close>

lemma normalize_history_eq:
  assumes "normalize_history debug ms items = Some items'"
  shows "items' = strip_images_when_unsupported ms
    (filter (retained_in (concat (map (with_output (missing_output_in items)) items)))
      (concat (map (with_output (missing_output_in items)) items)))"
  using assms
  by (auto simp: normalize_history_def ensure_call_outputs_present_eq remove_orphan_outputs_def Let_def
      split: if_splits)

lemma keys_strip [simp]:
  "call_keys (strip_images_when_unsupported ms xs) = call_keys xs"
  "output_keys (strip_images_when_unsupported ms xs) = output_keys xs"
  by (auto simp: strip_images_when_unsupported_def call_keys_def output_keys_def)

lemma paired_strip [simp]: "paired (strip_images_when_unsupported ms xs) \<longleftrightarrow> paired xs"
  unfolding paired_def keys_strip by (auto simp: strip_images_when_unsupported_def)

lemma paired_normalized:
  "paired (filter (retained_in (concat (map (with_output (missing_output_in items)) items)))
     (concat (map (with_output (missing_output_in items)) items)))" (is "paired (filter (retained_in ?xs) ?xs)")
proof -
  have "call_keys ?xs \<subseteq> output_keys ?xs" unfolding with_outputs_keys by auto
  then have "call_keys ?xs \<subseteq> output_keys (filter (retained_in ?xs) ?xs)"
    using filter_retained_keys(2) [of ?xs ?xs] by blast
  then show ?thesis unfolding paired_def filter_retained_keys(1) by (auto simp: retained_iff)
qed

lemma normalize_paired_id:
  assumes "paired items"
  shows "normalize_history debug ms items = Some (strip_images_when_unsupported ms items)"
proof -
  have n: "missing_output_in items i = None" if "i \<in> set items" for i
    unfolding missing_output_cases(1) using assms that by (auto simp: paired_def call_keys_def)
  then have "concat (map (with_output (missing_output_in items)) items) = concat (map (\<lambda>i. [i]) items)"
    by (intro arg_cong [where f = concat] map_cong) (auto simp: with_output_def)
  then have e: "ensure_call_outputs_present debug items = Some items"
    using n by (auto simp: ensure_call_outputs_present_eq list_ex_iff)
  have "\<forall>i \<in> set items. retained_in items i" unfolding retained_iff using assms by (auto simp: paired_def)
  then have "remove_orphan_outputs debug items = Some items"
    by (simp add: remove_orphan_outputs_def Let_def list_all_iff)
  with e show ?thesis by (simp add: normalize_history_def)
qed

lemma filter_with_outputs:
  "filter (\<lambda>i. output_key i = None) (concat (map (with_output (missing_output_in items)) xs))
     = filter (\<lambda>i. output_key i = None) xs"
proof (induction xs)
  case (Cons x xs)
  have "output_key out \<noteq> None" if "missing_output_in items x = Some out" for out
    using missing_output_cases(2) [OF that] by simp
  with Cons show ?case by (cases "missing_output_in items x") (auto simp: with_output_def [of _ x])
qed simp

lemma filter_strip:
  "filter (\<lambda>i. output_key i = None) (strip_images_when_unsupported ms xs)
     = strip_images_when_unsupported ms (filter (\<lambda>i. output_key i = None) xs)"
  by (simp add: strip_images_when_unsupported_def filter_map o_def)




section \<open>Dropping the oldest item\<close>

text \<open>Each identifier names at most one call and has at most one output.\<close>

definition unique_keys :: "'v response_item list \<Rightarrow> bool" where
  "unique_keys items \<longleftrightarrow>
     distinct (List.map_filter call_key items) \<and> distinct (List.map_filter output_key items)"

lemma unique_keys_Cons:
  "unique_keys (i # items) \<longleftrightarrow> unique_keys items
     \<and> (\<forall>k. call_key i = Some k \<longrightarrow> k \<notin> call_keys items) \<and> (\<forall>k. output_key i = Some k \<longrightarrow> k \<notin> output_keys items)"
  by (cases "call_key i"; cases "output_key i")
    (auto simp: unique_keys_def List.map_filter_simps set_ids call_keys_def output_keys_def)

lemma remove_first_matching_split:
  "(\<forall>i \<in> set xs. \<not> P i) \<and> remove_first_matching P xs = xs
   \<or> (\<exists>us i vs. xs = us @ i # vs \<and> P i \<and> remove_first_matching P xs = us @ vs)"
proof (induction xs)
  case (Cons x xs)
  show ?case
  proof (cases "P x")
    case True
    then show ?thesis by (auto intro!: exI [of _ "[]"])
  next
    case False
    from Cons show ?thesis
    proof
      assume "\<exists>us i vs. xs = us @ i # vs \<and> P i \<and> remove_first_matching P xs = us @ vs"
      then obtain us i vs where "xs = us @ i # vs" "P i" "remove_first_matching P xs = us @ vs" by blast
      with False show ?thesis by (intro disjI2 exI [of _ "x # us"] exI [of _ i] exI [of _ vs]) simp
    qed (use False in auto)
  qed
qed simp

lemma remove_first_matching_cong:
  "(\<And>i. i \<in> set xs \<Longrightarrow> P i \<longleftrightarrow> Q i) \<Longrightarrow> remove_first_matching P xs = remove_first_matching Q xs"
  by (induction xs) auto

lemma unique_call:
  "unique_keys items \<Longrightarrow> i \<in> set items \<Longrightarrow> j \<in> set items \<Longrightarrow> call_key i = Some k \<Longrightarrow> call_key j = Some k \<Longrightarrow> i = j"
  by (induction items) (auto simp: unique_keys_Cons call_keys_def simp del: split_paired_All)

lemma remove_corresponding_call:
  assumes "call_key x = Some k"
  shows "remove_corresponding_for items x = remove_first_matching (\<lambda>i. output_key i = Some k) items"
proof -
  have "output_key i = Some (FunctionKind, c) \<longleftrightarrow> function_output_id i = Some c"
    "output_key i = Some (SearchKind, c) \<longleftrightarrow> tool_search_output_id i = Some c"
    "output_key i = Some (CustomKind, c) \<longleftrightarrow> custom_tool_output_id i = Some c" for i :: "'a response_item" and c
    by (cases i; simp)+
  with assms show ?thesis by (cases x) auto
qed

lemma remove_corresponding_output:
  assumes "output_key x = Some k" "unique_keys items"
  shows "remove_corresponding_for items x = remove_first_matching (\<lambda>i. call_key i = Some k) items"
proof -
  have keys: "call_key i = Some (FunctionKind, c) \<longleftrightarrow> function_call_id i = Some c \<or> local_shell_call_id i = Some c"
    "call_key i = Some (SearchKind, c) \<longleftrightarrow> tool_search_call_id i = Some c"
    "call_key i = Some (CustomKind, c) \<longleftrightarrow> custom_tool_call_id i = Some c" for i :: "'a response_item" and c
    by (cases i; simp)+
  have f: "remove_first_matching (\<lambda>i. function_call_id i = Some c) items
      = remove_first_matching (\<lambda>i. call_key i = Some (FunctionKind, c)) items"
    if e: "list_ex (\<lambda>i. function_call_id i = Some c) items" for c
  proof (rule remove_first_matching_cong)
    fix i assume i: "i \<in> set items"
    from e obtain j where j: "j \<in> set items" "function_call_id j = Some c" by (auto simp: list_ex_iff)
    with unique_call [OF assms(2) i j(1)] keys(1) show "function_call_id i = Some c \<longleftrightarrow> call_key i = Some (FunctionKind, c)"
      by metis
  qed
  have l: "remove_first_matching (\<lambda>i. local_shell_call_id i = Some c) items
      = remove_first_matching (\<lambda>i. call_key i = Some (FunctionKind, c)) items"
    if "\<not> list_ex (\<lambda>i. function_call_id i = Some c) items" for c
    using that by (intro remove_first_matching_cong) (auto simp: keys list_ex_iff)
  show ?thesis using assms(1) f l by (cases x) (auto simp: keys)
qed


lemma unique_keys_remove:
  "unique_keys (us @ i # vs) \<Longrightarrow> unique_keys (us @ vs)
     \<and> (\<forall>k. call_key i = Some k \<longrightarrow> k \<notin> call_keys (us @ vs)) \<and> (\<forall>k. output_key i = Some k \<longrightarrow> k \<notin> output_keys (us @ vs))"
proof (induction us)
  case Nil
  then show ?case by (simp add: unique_keys_Cons)
next
  case (Cons u us)
  then show ?case
    by (cases "call_key u"; cases "output_key u") (auto simp: unique_keys_Cons simp del: split_paired_All)
qed

lemma call_or_output: "call_key i = Some k \<Longrightarrow> output_key i = None" "output_key i = Some k \<Longrightarrow> call_key i = None"
  by (cases i; simp)+

lemma remove_corresponding_other: "call_key x = None \<Longrightarrow> output_key x = None \<Longrightarrow> remove_corresponding_for items x = items"
  by (cases x) auto

lemma pairedI:
  assumes "call_keys xs \<subseteq> output_keys xs"
    and "\<And>i k. i \<in> set xs \<Longrightarrow> output_key i = Some k \<Longrightarrow> \<not> server_output i \<Longrightarrow> k \<in> call_keys xs"
  shows "paired xs"
  using assms by (simp add: paired_def)

lemma pairedD:
  assumes "paired xs"
  shows "call_keys xs \<subseteq> output_keys xs"
    and "i \<in> set xs \<Longrightarrow> output_key i = Some k \<Longrightarrow> \<not> server_output i \<Longrightarrow> k \<in> call_keys xs"
  using assms by (simp_all add: paired_def del: split_paired_All)

lemma output_keysI: "i \<in> set xs \<Longrightarrow> output_key i = Some k \<Longrightarrow> k \<in> output_keys xs"
  by (auto simp: output_keys_def)

lemma remove_call_paired:
  assumes p: "paired (x # xs)" and u: "unique_keys (x # xs)" and k: "call_key x = Some k"
  shows "paired (remove_corresponding_for xs x) \<and> unique_keys (remove_corresponding_for xs x)"
proof -
  note x = call_or_output(1) [OF k]
  from pairedD(1) [OF p] k x have "k \<in> output_keys xs" by auto
  then have "\<not> (\<forall>i \<in> set xs. output_key i \<noteq> Some k)" by (auto simp: output_keys_def)
  then obtain us i vs where xs: "xs = us @ i # vs" "output_key i = Some k"
      "remove_first_matching (\<lambda>i. output_key i = Some k) xs = us @ vs"
    using remove_first_matching_split [of xs "\<lambda>i. output_key i = Some k"] by blast
  from u k have kx: "k \<notin> call_keys xs" "unique_keys xs" by (simp_all add: unique_keys_Cons)
  note rest = unique_keys_remove [OF kx(2) [unfolded xs(1)]]
  have i: "call_key i = None" by (rule call_or_output(2) [OF xs(2)])
  have "paired (us @ vs)"
  proof (rule pairedI)
    show "call_keys (us @ vs) \<subseteq> output_keys (us @ vs)"
      using pairedD(1) [OF p] kx(1) k x i xs(2) by (auto simp: xs(1))
    show "k' \<in> call_keys (us @ vs)" if j: "j \<in> set (us @ vs)" "output_key j = Some k'" "\<not> server_output j" for j k'
    proof -
      have "k' \<in> call_keys (x # xs)" using pairedD(2) [OF p _ j(2,3)] j(1) xs(1) by auto
      moreover have "k' \<noteq> k" using rest xs(2) output_keysI [OF j(1,2)] by auto
      ultimately show ?thesis using k i by (auto simp: xs(1))
    qed
  qed
  with rest xs(3) show ?thesis by (simp add: remove_corresponding_call [OF k])
qed

lemma remove_output_paired:
  assumes p: "paired (x # xs)" and u: "unique_keys (x # xs)" and k: "output_key x = Some k"
  shows "paired (remove_corresponding_for xs x) \<and> unique_keys (remove_corresponding_for xs x)"
proof -
  note x = call_or_output(2) [OF k]
  from u k have kx: "k \<notin> output_keys xs" "unique_keys xs" by (simp_all add: unique_keys_Cons)
  have calls: "call_keys xs - {k} \<subseteq> output_keys xs" using pairedD(1) [OF p] k x by auto
  have outs: "k' \<in> call_keys xs - {k}" if j: "j \<in> set xs" "output_key j = Some k'" "\<not> server_output j" for j k'
    using pairedD(2) [OF p _ j(2,3)] j(1) x output_keysI [OF j(1,2)] kx(1) by auto
  from remove_first_matching_split [of xs "\<lambda>i. call_key i = Some k"]
  show ?thesis unfolding remove_corresponding_output [OF k kx(2)]
  proof
    assume n: "(\<forall>i \<in> set xs. call_key i \<noteq> Some k) \<and> remove_first_matching (\<lambda>i. call_key i = Some k) xs = xs"
    then have "k \<notin> call_keys xs" by (auto simp: call_keys_def)
    with calls outs have "paired xs" by (intro pairedI) blast+
    with n kx(2) show "paired (remove_first_matching (\<lambda>i. call_key i = Some k) xs)
        \<and> unique_keys (remove_first_matching (\<lambda>i. call_key i = Some k) xs)" by simp
  next
    assume "\<exists>us i vs. xs = us @ i # vs \<and> call_key i = Some k
        \<and> remove_first_matching (\<lambda>i. call_key i = Some k) xs = us @ vs"
    then obtain us i vs where xs: "xs = us @ i # vs" "call_key i = Some k"
        "remove_first_matching (\<lambda>i. call_key i = Some k) xs = us @ vs" by blast
    note rest = unique_keys_remove [OF kx(2) [unfolded xs(1)]]
    have i: "output_key i = None" by (rule call_or_output(1) [OF xs(2)])
    have c: "call_keys (us @ vs) = call_keys xs - {k}" using rest xs(2) by (auto simp: xs(1))
    have "paired (us @ vs)"
    proof (rule pairedI)
      show "call_keys (us @ vs) \<subseteq> output_keys (us @ vs)" using calls unfolding c by (simp add: xs(1) i)
      show "k' \<in> call_keys (us @ vs)" if "j \<in> set (us @ vs)" "output_key j = Some k'" "\<not> server_output j" for j k'
        unfolding c using outs [of j k'] that by (auto simp: xs(1))
    qed
    with rest xs(3) show "paired (remove_first_matching (\<lambda>i. call_key i = Some k) xs)
        \<and> unique_keys (remove_first_matching (\<lambda>i. call_key i = Some k) xs)" by simp
  qed
qed

text \<open>
  C24: dropping the oldest item keeps the history paired: its counterpart goes with it, so
  no call is left without its output and no output without its call, as long as every
  identifier names at most one call and one output; that stays so too.
\<close>

theorem remove_first_item_paired:
  assumes "paired (cm_items cm)" "unique_keys (cm_items cm)"
  shows "paired (cm_items (remove_first_item cm)) \<and> unique_keys (cm_items (remove_first_item cm))"
proof (cases "cm_items cm")
  case Nil
  with assms show ?thesis by (simp add: remove_first_item_def)
next
  case (Cons x xs)
  consider k where "call_key x = Some k" | k where "output_key x = Some k" | "call_key x = None" "output_key x = None"
    by (cases "call_key x"; cases "output_key x") auto
  then have "paired (remove_corresponding_for xs x) \<and> unique_keys (remove_corresponding_for xs x)"
  proof cases
    case 1
    with assms Cons show ?thesis by (intro remove_call_paired) simp_all
  next
    case 2
    with assms Cons show ?thesis by (intro remove_output_paired) simp_all
  next
    case 3
    with assms Cons show ?thesis by (auto simp: remove_corresponding_other paired_def unique_keys_Cons)
  qed
  with Cons show ?thesis by (simp add: remove_first_item_def)
qed

theorem remove_first_item_paired_witness:
  "paired (cm_items (remove_first_item
     \<lparr>cm_items = [FunctionCall None (rs ''shell'') None (rs ''{}'') (rs ''c1'') (None :: unit option), OtherItem,
        aborted_output (rs ''c1'')],
      cm_history_version = 0, cm_token_info = (None :: unit option), cm_reference_context_item = (None :: unit option),
      cm_world_state_baseline = (None :: unit option)\<rparr>))" (is "paired (cm_items (remove_first_item ?cm))")
proof -
  have "paired (cm_items ?cm)" by (simp add: paired_def aborted_output_def)
  moreover have "unique_keys (cm_items ?cm)" by (simp add: unique_keys_Cons aborted_output_def) (simp add: unique_keys_def List.map_filter_simps)
  ultimately show ?thesis by (rule conjunct1 [OF remove_first_item_paired])
qed

end
