(* ===== verification/Context_Manager.thy ===== *)
theory Context_Manager
  imports Context_Fragments History_Pairs
begin

text \<open>
  The context manager (\<^verbatim>\<open>core/src/context_manager/history.rs\<close>): recording items with
  truncated outputs, rolling turns back, replacing images, and the accounting of
  tokens (with \<^verbatim>\<open>TokenUsageInfo\<close> of \<^verbatim>\<open>protocol/src/protocol.rs\<close>).

  \<^term>\<open>None\<close> is a panic: a string sliced inside a character, or an overflow of plain
  arithmetic in a build with overflow checks (\<open>debug\<close>); other builds wrap around.
\<close>

section \<open>Signed 64-bit arithmetic\<close>

definition i64_max :: int where "i64_max = 2 ^ 63 - 1"
definition i64_min :: int where "i64_min = - (2 ^ 63)"

definition i64_clamp :: "int \<Rightarrow> int" where
  "i64_clamp x = max i64_min (min i64_max x)"

definition i64_saturating_add :: "int \<Rightarrow> int \<Rightarrow> int" where
  "i64_saturating_add a b = i64_clamp (a + b)"

definition i64_saturating_sub :: "int \<Rightarrow> int \<Rightarrow> int" where
  "i64_saturating_sub a b = i64_clamp (a - b)"

definition i64_saturating_mul :: "int \<Rightarrow> int \<Rightarrow> int" where
  "i64_saturating_mul a b = i64_clamp (a * b)"

text \<open>The result of a plain operation whose mathematical value is \<open>x\<close>.\<close>

definition i64_checked :: "bool \<Rightarrow> int \<Rightarrow> int option" where
  "i64_checked debug x =
     (if i64_min \<le> x \<and> x \<le> i64_max then Some x
      else if debug then None
      else Some ((x + 2 ^ 63) mod 2 ^ 64 - 2 ^ 63))"

text \<open>\<^verbatim>\<open>i64::try_from(n).unwrap_or(i64::MAX)\<close>.\<close>

definition i64_of_usize :: "nat \<Rightarrow> int" where
  "i64_of_usize n = min (int n) i64_max"

section \<open>Token usage\<close>

record token_usage =
  input_tokens :: int
  cached_input_tokens :: int
  output_tokens :: int
  reasoning_output_tokens :: int
  total_tokens :: int

definition usage_default :: token_usage where
  "usage_default = \<lparr>input_tokens = 0, cached_input_tokens = 0, output_tokens = 0,
     reasoning_output_tokens = 0, total_tokens = 0\<rparr>"

record token_usage_info =
  total_token_usage :: token_usage
  last_token_usage :: token_usage
  model_context_window :: "int option"

definition usage_add_assign :: "bool \<Rightarrow> token_usage \<Rightarrow> token_usage \<Rightarrow> token_usage option" where
  "usage_add_assign debug self other =
     Option.bind (i64_checked debug (input_tokens self + input_tokens other)) (\<lambda>i.
     Option.bind (i64_checked debug (cached_input_tokens self + cached_input_tokens other)) (\<lambda>c.
     Option.bind (i64_checked debug (output_tokens self + output_tokens other)) (\<lambda>out.
     Option.bind (i64_checked debug (reasoning_output_tokens self + reasoning_output_tokens other)) (\<lambda>r.
     Option.bind (i64_checked debug (total_tokens self + total_tokens other)) (\<lambda>t.
       Some \<lparr>input_tokens = i, cached_input_tokens = c, output_tokens = out,
         reasoning_output_tokens = r, total_tokens = t\<rparr>)))))"

definition append_last_usage :: "bool \<Rightarrow> token_usage_info \<Rightarrow> token_usage \<Rightarrow> token_usage_info option" where
  "append_last_usage debug info last_usage =
     map_option (\<lambda>total. info\<lparr>total_token_usage := total, last_token_usage := last_usage\<rparr>)
       (usage_add_assign debug (total_token_usage info) last_usage)"

text \<open>The outer option is the panic, the inner one is the option of the source.\<close>

definition new_or_append ::
  "bool \<Rightarrow> token_usage_info option \<Rightarrow> token_usage option \<Rightarrow> int option \<Rightarrow> token_usage_info option option" where
  "new_or_append debug info last_usage window =
     (if info = None \<and> last_usage = None then Some None
      else
        let info = (case info of Some info \<Rightarrow> info
              | None \<Rightarrow> \<lparr>total_token_usage = usage_default, last_token_usage = usage_default,
                  model_context_window = window\<rparr>)
        in map_option (\<lambda>info. Some (case window of Some w \<Rightarrow> info\<lparr>model_context_window := Some w\<rparr> | None \<Rightarrow> info))
             (case last_usage of Some l \<Rightarrow> append_last_usage debug info l | None \<Rightarrow> Some info))"

definition fill_to_context_window :: "bool \<Rightarrow> token_usage_info \<Rightarrow> int \<Rightarrow> token_usage_info option" where
  "fill_to_context_window debug info context_window =
     map_option (\<lambda>d.
        info\<lparr>model_context_window := Some context_window,
          total_token_usage := usage_default\<lparr>total_tokens := context_window\<rparr>,
          last_token_usage := usage_default\<lparr>total_tokens := max d 0\<rparr>\<rparr>)
       (i64_checked debug (context_window - total_tokens (total_token_usage info)))"

definition full_context_window :: "bool \<Rightarrow> int \<Rightarrow> token_usage_info option" where
  "full_context_window debug context_window =
     fill_to_context_window debug \<lparr>total_token_usage = usage_default, last_token_usage = usage_default,
       model_context_window = Some context_window\<rparr> context_window"

type_synonym ('v, 'r, 'w) manager = "('v, token_usage_info, 'r, 'w) context_manager"

definition cm_new :: "('v, 'r, 'w) manager" where
  "cm_new = \<lparr>cm_items = [], cm_history_version = 0, cm_token_info = None,
     cm_reference_context_item = None, cm_world_state_baseline = None\<rparr>"

definition set_token_usage_full :: "bool \<Rightarrow> ('v, 'r, 'w) manager \<Rightarrow> int \<Rightarrow> ('v, 'r, 'w) manager option" where
  "set_token_usage_full debug cm context_window =
     map_option (\<lambda>info. cm\<lparr>cm_token_info := Some info\<rparr>)
       (case cm_token_info cm of
          Some info \<Rightarrow> fill_to_context_window debug info context_window
        | None \<Rightarrow> full_context_window debug context_window)"

definition update_token_info ::
  "bool \<Rightarrow> ('v, 'r, 'w) manager \<Rightarrow> token_usage \<Rightarrow> int option \<Rightarrow> ('v, 'r, 'w) manager option" where
  "update_token_info debug cm usage window =
     map_option (\<lambda>info. cm\<lparr>cm_token_info := info\<rparr>) (new_or_append debug (cm_token_info cm) (Some usage) window)"

section \<open>Recording\<close>

fun is_api_message :: "'v response_item \<Rightarrow> bool" where
  "is_api_message (Message _ role _ _ _) = (role \<noteq> rs ''system'')"
| "is_api_message CompactionTrigger = False"
| "is_api_message OtherItem = False"
| "is_api_message _ = True"

definition truncate_function_output_payload ::
  "'v output_payload \<Rightarrow> truncation_policy \<Rightarrow> 'v output_payload option" where
  "truncate_function_output_payload out policy =
     map_option (\<lambda>body. \<lparr>op_body = body, op_success = op_success out\<rparr>)
       (case op_body out of
          TextBody content \<Rightarrow> map_option TextBody (truncate_text content policy)
        | ContentItems items \<Rightarrow> map_option ContentItems (truncate_function_output_items_with_policy items policy))"

fun process_item :: "'v response_item \<Rightarrow> truncation_policy \<Rightarrow> 'v response_item option" where
  "process_item (FunctionCallOutput i call_id out m) policy =
     map_option (\<lambda>out. FunctionCallOutput i call_id out m)
       (truncate_function_output_payload out (policy_mul policy f64_one_point_two))"
| "process_item (CustomToolCallOutput i call_id name out m) policy =
     map_option (\<lambda>out. CustomToolCallOutput i call_id name out m)
       (truncate_function_output_payload out (policy_mul policy f64_one_point_two))"
| "process_item item policy = Some item"

fun record_items ::
  "('v, 't, 'r, 'w) context_manager \<Rightarrow> 'v response_item list \<Rightarrow> truncation_policy \<Rightarrow> ('v, 't, 'r, 'w) context_manager option" where
  "record_items cm [] policy = Some cm"
| "record_items cm (item # items) policy =
     (if \<not> is_api_message item then record_items cm items policy
      else Option.bind (process_item item policy) (\<lambda>processed.
             record_items (cm\<lparr>cm_items := cm_items cm @ [processed]\<rparr>) items policy))"

section \<open>Rollback\<close>

definition user_message_positions :: "content_decoders \<Rightarrow> 'v response_item list \<Rightarrow> nat list" where
  "user_message_positions dec items =
     List.map_filter (\<lambda>(idx, item). if is_user_turn_boundary dec item then Some idx else None) (enumerate 0 items)"

text \<open>The loop returns the cut and whether the reference context is still usable.\<close>

fun trim_pre_turn_context_updates ::
  "content_decoders \<Rightarrow> 'v response_item list \<Rightarrow> nat \<Rightarrow> nat \<Rightarrow> 'r option \<Rightarrow> nat \<times> 'r option" where
  "trim_pre_turn_context_updates dec snapshot first_idx 0 ref = (0, ref)"
| "trim_pre_turn_context_updates dec snapshot first_idx (Suc n) ref =
     (if Suc n > first_idx then
        (case snapshot ! n of
           Message _ role content _ _ \<Rightarrow>
             if role = rs ''developer'' \<and> is_contextual_dev_message_content content then
               trim_pre_turn_context_updates dec snapshot first_idx n
                 (if has_non_contextual_dev_message_content content then None else ref)
             else if role = rs ''user'' \<and> is_contextual_user_message_content dec content then
               trim_pre_turn_context_updates dec snapshot first_idx n ref
             else (Suc n, ref)
         | _ \<Rightarrow> (Suc n, ref))
      else (Suc n, ref))"

definition drop_last_n_user_turns ::
  "content_decoders \<Rightarrow> ('v, 't, 'r, 'w) context_manager \<Rightarrow> nat \<Rightarrow> ('v, 't, 'r, 'w) context_manager" where
  "drop_last_n_user_turns dec cm num_turns =
     (if num_turns = 0 then cm
      else
        let snapshot = cm_items cm; user_positions = user_message_positions dec snapshot in
        case user_positions of
          [] \<Rightarrow> replace_items cm snapshot
        | first_idx # _ \<Rightarrow>
            let cut_idx = (if num_turns \<ge> length user_positions then first_idx
                           else user_positions ! (length user_positions - num_turns));
                (cut_idx, ref) = trim_pre_turn_context_updates dec snapshot first_idx cut_idx
                  (cm_reference_context_item cm)
            in replace_items (cm\<lparr>cm_reference_context_item := ref\<rparr>) (take cut_idx snapshot))"

section \<open>Images\<close>

text \<open>\<^verbatim>\<open>Iterator::rposition\<close>.\<close>

fun rposition :: "('a \<Rightarrow> bool) \<Rightarrow> 'a list \<Rightarrow> nat option" where
  "rposition P [] = None"
| "rposition P (x # xs) =
     (case rposition P xs of Some n \<Rightarrow> Some (Suc n) | None \<Rightarrow> if P x then Some 0 else None)"

fun is_output_image :: "'v output_content_item \<Rightarrow> bool" where
  "is_output_image (OutputInputImage _ _) = True"
| "is_output_image _ = False"

definition replace_last_turn_images ::
  "content_decoders \<Rightarrow> ('v, 't, 'r, 'w) context_manager \<Rightarrow> rstr \<Rightarrow> ('v, 't, 'r, 'w) context_manager \<times> bool" where
  "replace_last_turn_images dec cm placeholder =
     (case rposition (\<lambda>item. function_output_id item \<noteq> None \<or> is_user_turn_boundary dec item) (cm_items cm) of
        None \<Rightarrow> (cm, False)
      | Some index \<Rightarrow>
          (case cm_items cm ! index of
             FunctionCallOutput i call_id out m \<Rightarrow>
               (case op_body out of
                  TextBody _ \<Rightarrow> (cm, False)
                | ContentItems content_items \<Rightarrow>
                    let replaced = list_ex is_output_image content_items;
                        content_items = map (\<lambda>c. if is_output_image c then OutputInputText placeholder else c) content_items;
                        cm = cm\<lparr>cm_items := (cm_items cm)[index :=
                               FunctionCallOutput i call_id (out\<lparr>op_body := ContentItems content_items\<rparr>) m]\<rparr>
                    in (if replaced then cm\<lparr>cm_history_version := saturating_add (cm_history_version cm) 1\<rparr> else cm,
                        replaced))
           | _ \<Rightarrow> (cm, False)))"

section \<open>Estimating tokens\<close>

text \<open>
  Third-party code the estimates call: the length of the JSON text of an item, the
  size of the image in a base64 payload (\<^term>\<open>None\<close> where it cannot be decoded), and the
  reading of the detail hint of an image. The code caches the size of an image by
  the hash of its address; the cache only saves repeated decoding.
\<close>

record 'v estimators =
  json_len :: "'v response_item \<Rightarrow> nat option"
  image_size :: "rstr \<Rightarrow> (nat \<times> nat) option"
  detail_original :: "'v \<Rightarrow> bool"

definition estimate_reasoning_length :: "nat \<Rightarrow> nat" where
  "estimate_reasoning_length encoded_len = saturating_mul encoded_len 3 div 4 - 650"

definition estimate_encrypted_function_output_length :: "nat \<Rightarrow> nat" where
  "estimate_encrypted_function_output_length encoded_len = (saturating_mul encoded_len 9 + 15) div 16"

definition approx_tokens_from_byte_count_i64 :: "int \<Rightarrow> int" where
  "approx_tokens_from_byte_count_i64 bytes =
     (if bytes \<le> 0 then 0 else i64_of_usize (approx_tokens_from_byte_count (nat bytes)))"

definition RESIZED_IMAGE_BYTES_ESTIMATE :: int where "RESIZED_IMAGE_BYTES_ESTIMATE = 7373"
definition ORIGINAL_IMAGE_PATCH_SIZE :: int where "ORIGINAL_IMAGE_PATCH_SIZE = 32"
definition ORIGINAL_IMAGE_MAX_PATCHES :: nat where "ORIGINAL_IMAGE_MAX_PATCHES = 10000"

definition parse_base64_image_data_url :: "rstr \<Rightarrow> rstr option" where
  "parse_base64_image_data_url url =
     (if \<not> is_some_and (str_get_to 5 url) (\<lambda>pre. eq_ignore_ascii_case pre (rs ''data:'')) then None
      else
        case split_once 44 url of
          None \<Rightarrow> None
        | Some (metadata, payload) \<Rightarrow>
            let parts = split_char 59 (drop 5 metadata);
                mime_type = hd parts;
                has_base64_marker = list_ex (\<lambda>part. eq_ignore_ascii_case part (rs ''base64'')) (tl parts)
            in if \<not> is_some_and (str_get_to 6 mime_type) (\<lambda>pre. eq_ignore_ascii_case pre (rs ''image/'')) then None
               else if \<not> has_base64_marker then None
               else Some payload)"

definition estimate_original_image_bytes :: "'v estimators \<Rightarrow> rstr \<Rightarrow> int option" where
  "estimate_original_image_bytes est image_url =
     (case parse_base64_image_data_url image_url of
        None \<Rightarrow> None
      | Some payload \<Rightarrow>
          (case image_size est payload of
             None \<Rightarrow> None
           | Some (width, height) \<Rightarrow>
               let patch_size = ORIGINAL_IMAGE_PATCH_SIZE;
                   patches_wide = i64_saturating_add (int width) (i64_saturating_sub patch_size 1) div patch_size;
                   patches_high = i64_saturating_add (int height) (i64_saturating_sub patch_size 1) div patch_size;
                   patch_count = min (nat (i64_saturating_mul patches_wide patches_high)) ORIGINAL_IMAGE_MAX_PATCHES
               in Some (i64_of_usize (approx_bytes_for_tokens patch_count))))"

definition accumulate_image ::
  "'v estimators \<Rightarrow> rstr \<Rightarrow> 'v option \<Rightarrow> int \<times> int \<Rightarrow> int \<times> int" where
  "accumulate_image est image_url detail acc =
     (case parse_base64_image_data_url image_url of
        None \<Rightarrow> acc
      | Some payload \<Rightarrow>
          (i64_saturating_add (fst acc) (i64_of_usize (str_len payload)),
           i64_saturating_add (snd acc)
             (if (case detail of Some d \<Rightarrow> detail_original est d | None \<Rightarrow> False)
              then (case estimate_original_image_bytes est image_url of
                      Some b \<Rightarrow> b | None \<Rightarrow> RESIZED_IMAGE_BYTES_ESTIMATE)
              else RESIZED_IMAGE_BYTES_ESTIMATE)))"

fun accumulate_content :: "'v estimators \<Rightarrow> 'v content_item \<Rightarrow> int \<times> int \<Rightarrow> int \<times> int" where
  "accumulate_content est (InputImage image_url detail) acc = accumulate_image est image_url detail acc"
| "accumulate_content est _ acc = acc"

fun accumulate_output_content :: "'v estimators \<Rightarrow> 'v output_content_item \<Rightarrow> int \<times> int \<Rightarrow> int \<times> int" where
  "accumulate_output_content est (OutputInputImage image_url detail) acc = accumulate_image est image_url detail acc"
| "accumulate_output_content est _ acc = acc"

definition payload_items :: "'v output_payload \<Rightarrow> 'v output_content_item list" where
  "payload_items out = (case op_body out of TextBody _ \<Rightarrow> [] | ContentItems items \<Rightarrow> items)"

fun image_data_url_estimate_adjustment :: "'v estimators \<Rightarrow> 'v response_item \<Rightarrow> int \<times> int" where
  "image_data_url_estimate_adjustment est (Message _ _ content _ _) = fold (accumulate_content est) content (0, 0)"
| "image_data_url_estimate_adjustment est (FunctionCallOutput _ _ out _) =
     fold (accumulate_output_content est) (payload_items out) (0, 0)"
| "image_data_url_estimate_adjustment est (CustomToolCallOutput _ _ _ out _) =
     fold (accumulate_output_content est) (payload_items out) (0, 0)"
| "image_data_url_estimate_adjustment est _ = (0, 0)"

fun accumulate_encrypted :: "'v output_content_item \<Rightarrow> int \<times> int \<Rightarrow> int \<times> int" where
  "accumulate_encrypted (OutputEncryptedContent e) acc =
     (i64_saturating_add (fst acc) (i64_of_usize (str_len e)),
      i64_saturating_add (snd acc) (i64_of_usize (estimate_encrypted_function_output_length (str_len e))))"
| "accumulate_encrypted _ acc = acc"

fun encrypted_function_output_estimate_adjustment :: "'v response_item \<Rightarrow> int \<times> int" where
  "encrypted_function_output_estimate_adjustment (FunctionCallOutput _ _ out _) =
     fold accumulate_encrypted (payload_items out) (0, 0)"
| "encrypted_function_output_estimate_adjustment _ = (0, 0)"

fun encrypted_reasoning :: "'v response_item \<Rightarrow> rstr option" where
  "encrypted_reasoning (Reasoning _ _ _ (Some content) _) = Some content"
| "encrypted_reasoning (Compaction _ content _) = Some content"
| "encrypted_reasoning (ContextCompaction _ (Some content) _) = Some content"
| "encrypted_reasoning _ = None"

definition estimate_response_item_model_visible_bytes :: "'v estimators \<Rightarrow> 'v response_item \<Rightarrow> int" where
  "estimate_response_item_model_visible_bytes est item =
     (case encrypted_reasoning item of
        Some content \<Rightarrow> i64_of_usize (estimate_reasoning_length (str_len content))
      | None \<Rightarrow>
          let raw = (case json_len est item of Some n \<Rightarrow> i64_of_usize n | None \<Rightarrow> 0);
              (image_payload_bytes, image_replacement_bytes) = image_data_url_estimate_adjustment est item;
              (encrypted_payload_bytes, encrypted_replacement_bytes) = encrypted_function_output_estimate_adjustment item;
              raw = i64_saturating_add (i64_saturating_sub raw image_payload_bytes) image_replacement_bytes
          in i64_saturating_add (i64_saturating_sub raw encrypted_payload_bytes) encrypted_replacement_bytes)"

definition estimate_item_token_count :: "'v estimators \<Rightarrow> 'v response_item \<Rightarrow> int" where
  "estimate_item_token_count est item =
     approx_tokens_from_byte_count_i64 (estimate_response_item_model_visible_bytes est item)"

text \<open>\<^verbatim>\<open>map(estimate_item_token_count).fold(0, i64::saturating_add)\<close>.\<close>

definition sum_item_tokens :: "'v estimators \<Rightarrow> 'v response_item list \<Rightarrow> int" where
  "sum_item_tokens est items = fold (\<lambda>item acc. i64_saturating_add acc (estimate_item_token_count est item)) items 0"

definition estimate_token_count_with_base_instructions ::
  "'v estimators \<Rightarrow> ('v, 't, 'r, 'w) context_manager \<Rightarrow> rstr \<Rightarrow> int option" where
  "estimate_token_count_with_base_instructions est cm base_text =
     Some (i64_saturating_add (i64_of_usize (approx_token_count base_text)) (sum_item_tokens est (cm_items cm)))"

fun is_model_generated_item :: "'v response_item \<Rightarrow> bool" where
  "is_model_generated_item (Message _ role _ _ _) = (role = rs ''assistant'')"
| "is_model_generated_item (Reasoning _ _ _ _ _) = True"
| "is_model_generated_item (FunctionCall _ _ _ _ _ _) = True"
| "is_model_generated_item (ToolSearchCall _ _ _ _ _ _) = True"
| "is_model_generated_item (WebSearchCall _ _ _ _) = True"
| "is_model_generated_item (ImageGenerationCall _ _ _ _ _) = True"
| "is_model_generated_item (CustomToolCall _ _ _ _ _ _) = True"
| "is_model_generated_item (LocalShellCall _ _ _ _ _) = True"
| "is_model_generated_item (Compaction _ _ _) = True"
| "is_model_generated_item (ContextCompaction _ _ _) = True"
| "is_model_generated_item _ = False"

fun is_encrypted_reasoning :: "'v response_item \<Rightarrow> bool" where
  "is_encrypted_reasoning (Reasoning _ _ _ (Some _) _) = True"
| "is_encrypted_reasoning _ = False"

definition get_non_last_reasoning_items_tokens ::
  "content_decoders \<Rightarrow> 'v estimators \<Rightarrow> ('v, 't, 'r, 'w) context_manager \<Rightarrow> int" where
  "get_non_last_reasoning_items_tokens dec est cm =
     (case rposition (is_user_turn_boundary dec) (cm_items cm) of
        None \<Rightarrow> 0
      | Some last_user_index \<Rightarrow>
          sum_item_tokens est (filter is_encrypted_reasoning (take last_user_index (cm_items cm))))"

definition items_after_last_model_generated_item :: "('v, 't, 'r, 'w) context_manager \<Rightarrow> 'v response_item list" where
  "items_after_last_model_generated_item cm =
     (let start = (case rposition is_model_generated_item (cm_items cm) of
            None \<Rightarrow> length (cm_items cm) | Some index \<Rightarrow> saturating_add index 1)
      in drop start (cm_items cm))"

definition get_total_token_usage ::
  "content_decoders \<Rightarrow> 'v estimators \<Rightarrow> ('v, 'r, 'w) manager \<Rightarrow> bool \<Rightarrow> int" where
  "get_total_token_usage dec est cm server_reasoning_included =
     (let last_tokens = (case cm_token_info cm of Some info \<Rightarrow> total_tokens (last_token_usage info) | None \<Rightarrow> 0);
          after_tokens = sum_item_tokens est (items_after_last_model_generated_item cm)
      in if server_reasoning_included then i64_saturating_add last_tokens after_tokens
         else i64_saturating_add (i64_saturating_add last_tokens (get_non_last_reasoning_items_tokens dec est cm)) after_tokens)"

definition estimated_tokens_after_last_model_generated_item ::
  "'v estimators \<Rightarrow> ('v, 't, 'r, 'w) context_manager \<Rightarrow> int" where
  "estimated_tokens_after_last_model_generated_item est cm =
     sum_item_tokens est (items_after_last_model_generated_item cm)"

end
