(* ===== verification/Context_Manager_Facts.thy ===== *)
theory Context_Manager_Facts
  imports Context_Manager
begin

text \<open>
  What the context manager guarantees: recording keeps every call and output with
  its identifiers, rollback removes exactly the requested turns together with the
  context injected for them, and the token estimates are clamped sums.
\<close>

section \<open>Positions of turns\<close>

lemma user_message_positions_eq:
  "user_message_positions dec items = filter (\<lambda>i. is_user_turn_boundary dec (items ! i)) [0..<length items]"
proof (induction items rule: rev_induct)
  case (snoc x xs)
  have "filter (\<lambda>i. is_user_turn_boundary dec ((xs @ [x]) ! i)) [0..<length xs]
      = filter (\<lambda>i. is_user_turn_boundary dec (xs ! i)) [0..<length xs]"
    by (rule filter_cong) (auto simp: nth_append)
  with snoc show ?case
    by (simp add: user_message_positions_def enumerate_append_eq List.map_filter_def)
qed (simp add: user_message_positions_def List.map_filter_def)

lemma length_positions:
  "length (filter (\<lambda>i. P (xs ! i)) [0..<length xs]) = length (filter P xs)"
proof -
  have "filter P xs = filter P (map ((!) xs) [0..<length xs])" by (simp add: map_nth)
  then show ?thesis by (simp add: filter_map comp_def)
qed

lemma count_before_position:
  "m < length (filter (\<lambda>i. P (xs ! i)) [0..<length xs]) \<Longrightarrow>
     length (filter P (take (filter (\<lambda>i. P (xs ! i)) [0..<length xs] ! m) xs)) = m"
proof (induction xs rule: rev_induct)
  case (snoc x xs)
  let ?ps = "filter (\<lambda>i. P (xs ! i)) [0..<length xs]"
  have ps: "filter (\<lambda>i. P ((xs @ [x]) ! i)) [0..<length (xs @ [x])] = ?ps @ (if P x then [length xs] else [])"
    by (auto simp: nth_append intro!: filter_cong)
  show ?case
  proof (cases "m < length ?ps")
    case True
    then have "?ps ! m \<in> set ?ps" by (rule nth_mem)
    then have "?ps ! m < length xs" by simp
    with True snoc.IH show ?thesis unfolding ps by (simp add: nth_append)
  next
    case False
    then have "P x" "m = length ?ps" using snoc.prems unfolding ps by (auto split: if_splits)
    then show ?thesis unfolding ps by (simp add: nth_append length_positions)
  qed
qed simp

lemma first_position:
  assumes "filter (\<lambda>i. P (xs ! i)) [0..<length xs] = k # ks"
  shows "take k xs = takeWhile (\<lambda>x. \<not> P x) xs" "k < length xs"
proof -
  from assms have "k \<in> set (filter (\<lambda>i. P (xs ! i)) [0..<length xs])" by simp
  then have k: "P (xs ! k)" "k < length xs" by simp_all
  have "length (filter P (take k xs)) = 0" using count_before_position [of 0 P xs] assms by simp
  then have "\<forall>x \<in> set (take k xs). \<not> P x" by (simp add: filter_empty_conv)
  then have "takeWhile (\<lambda>x. \<not> P x) (take k xs @ xs ! k # drop (Suc k) xs) = take k xs"
    using k(1) by (simp add: takeWhile_append2)
  with id_take_nth_drop [OF k(2)] show "take k xs = takeWhile (\<lambda>x. \<not> P x) xs" by simp
  show "k < length xs" by (rule k)
qed

lemma turn_cut:
  assumes "ps = filter (\<lambda>i. P (xs ! i)) [0..<length xs]" "ps = f # rest" "0 < n"
  defines "c \<equiv> if n \<ge> length ps then f else ps ! (length ps - n)"
  shows "c \<in> set ps" "length (filter P (take c xs)) = length ps - n" "f \<le> c"
proof -
  obtain m where m: "c = ps ! m" "m < length ps" "m = length ps - n"
  proof (cases "n \<ge> length ps")
    case True
    then show ?thesis using that [of 0] by (simp add: c_def assms(2))
  next
    case False
    then show ?thesis using that [of "length ps - n"] assms(3) by (simp add: c_def)
  qed
  then show "length (filter P (take c xs)) = length ps - n" using count_before_position [of m P xs] assms(1) by simp
  from m show c: "c \<in> set ps" by simp
  have "sorted ps" by (simp add: assms(1) sorted_wrt_filter)
  with c show "f \<le> c" unfolding assms(2) by auto
qed

section \<open>Trimming injected context\<close>

fun trimmable :: "content_decoders \<Rightarrow> 'v response_item \<Rightarrow> bool" where
  "trimmable dec (Message _ role content _ _) =
     ((role = rs ''developer'' \<and> is_contextual_dev_message_content content)
      \<or> (role = rs ''user'' \<and> is_contextual_user_message_content dec content))"
| "trimmable dec _ = False"

fun mixed_bundle :: "'v response_item \<Rightarrow> bool" where
  "mixed_bundle (Message _ role content _ _) =
     (role = rs ''developer'' \<and> is_contextual_dev_message_content content \<and> has_non_contextual_dev_message_content content)"
| "mixed_bundle _ = False"

lemma trimmable_no_boundary: "trimmable dec i \<Longrightarrow> \<not> is_user_turn_boundary dec i"
  by (cases i) (auto simp: rs_def)

lemma trim_step:
  "trim_pre_turn_context_updates dec xs f (Suc n) ref =
     (if f < Suc n \<and> trimmable dec (xs ! n)
      then trim_pre_turn_context_updates dec xs f n (if mixed_bundle (xs ! n) then None else ref)
      else (Suc n, ref))"
  by (cases "xs ! n") (auto simp: rs_def)

lemma trim_result:
  "trim_pre_turn_context_updates dec xs f n ref = (k, ref') \<Longrightarrow> f \<le> n \<Longrightarrow> n \<le> length xs \<Longrightarrow>
     f \<le> k \<and> k \<le> n
     \<and> filter (is_user_turn_boundary dec) (take k xs) = filter (is_user_turn_boundary dec) (take n xs)
     \<and> (f < k \<longrightarrow> \<not> trimmable dec (xs ! (k - 1)))
     \<and> ref' = (if \<exists>j. k \<le> j \<and> j < n \<and> mixed_bundle (xs ! j) then None else ref)"
proof (induction n arbitrary: ref)
  case (Suc n)
  show ?case
  proof (cases "f < Suc n \<and> trimmable dec (xs ! n)")
    case True
    let ?ref = "if mixed_bundle (xs ! n) then None else ref"
    have run: "trim_pre_turn_context_updates dec xs f n ?ref = (k, ref')"
      using Suc.prems(1) True unfolding trim_step by simp
    have ih: "f \<le> k" "k \<le> n"
      "filter (is_user_turn_boundary dec) (take k xs) = filter (is_user_turn_boundary dec) (take n xs)"
      "f < k \<longrightarrow> \<not> trimmable dec (xs ! (k - 1))"
      "ref' = (if \<exists>j. k \<le> j \<and> j < n \<and> mixed_bundle (xs ! j) then None else ?ref)"
      using Suc.IH [OF run] True Suc.prems(3) by auto
    have "filter (is_user_turn_boundary dec) (take (Suc n) xs) = filter (is_user_turn_boundary dec) (take n xs)"
      using trimmable_no_boundary [of dec "xs ! n"] True Suc.prems(3) by (simp add: take_Suc_conv_app_nth)
    moreover have "(\<exists>j. k \<le> j \<and> j < Suc n \<and> mixed_bundle (xs ! j))
        \<longleftrightarrow> mixed_bundle (xs ! n) \<or> (\<exists>j. k \<le> j \<and> j < n \<and> mixed_bundle (xs ! j))"
      using ih(2) less_Suc_eq by auto
    ultimately show ?thesis using ih by auto
  next
    case False
    with Suc.prems show ?thesis unfolding trim_step by auto
  qed
qed auto

section \<open>Rollback\<close>

text \<open>
  C26: rolling back some turns keeps a beginning of the history: all items before
  the first turn survive, exactly the requested number of turns is gone (all of them when there
  are fewer), and no context that was injected for the first dropped turn is left
  at the end; the reference context is dropped with a bundle that mixed context
  and instructions, and kept otherwise.
\<close>

theorem drop_last_n_user_turns_spec:
  assumes "0 < n" "list_ex (is_user_turn_boundary dec) (cm_items cm)"
  defines "cm' \<equiv> drop_last_n_user_turns dec cm n"
  defines "before \<equiv> takeWhile (\<lambda>i. \<not> is_user_turn_boundary dec i) (cm_items cm)"
  shows "prefix before (cm_items cm') \<and> strict_prefix (cm_items cm') (cm_items cm)
    \<and> length (filter (is_user_turn_boundary dec) (cm_items cm'))
        = length (filter (is_user_turn_boundary dec) (cm_items cm)) - n
    \<and> (cm_items cm' \<noteq> before \<longrightarrow> \<not> trimmable dec (last (cm_items cm')))
    \<and> (cm_reference_context_item cm' = cm_reference_context_item cm
       \<or> cm_reference_context_item cm' = None
         \<and> list_ex mixed_bundle (drop (length (cm_items cm')) (cm_items cm)))
    \<and> cm_history_version cm' = saturating_add (cm_history_version cm) 1
    \<and> cm_world_state_baseline cm' = None"
proof -
  let ?B = "is_user_turn_boundary dec" and ?xs = "cm_items cm"
  let ?ps = "filter (\<lambda>i. ?B (?xs ! i)) [0..<length ?xs]"
  have len: "length ?ps = length (filter ?B ?xs)" by (rule length_positions)
  have "filter ?B ?xs \<noteq> []" using assms(2) by (auto simp: filter_empty_conv list_ex_iff)
  with len have "?ps \<noteq> []" by (metis length_0_conv)
  then obtain f rest where ps: "?ps = f # rest" by (cases ?ps) auto
  note f = first_position [OF ps]
  define c where "c = (if n \<ge> length ?ps then f else ?ps ! (length ?ps - n))"
  obtain k ref where run: "trim_pre_turn_context_updates dec ?xs f c (cm_reference_context_item cm) = (k, ref)"
    by (cases "trim_pre_turn_context_updates dec ?xs f c (cm_reference_context_item cm)")
  have cm': "cm' = replace_items (cm\<lparr>cm_reference_context_item := ref\<rparr>) (take k ?xs)"
    using assms(1) run ps by (simp add: cm'_def drop_last_n_user_turns_def user_message_positions_eq c_def Let_def)
  have c: "c \<in> set ?ps" "length (filter ?B (take c ?xs)) = length ?ps - n" "f \<le> c"
    using turn_cut [OF refl ps assms(1)] unfolding c_def by blast+
  then have clen: "c < length ?xs" by simp
  have t: "f \<le> k" "k \<le> c" "filter ?B (take k ?xs) = filter ?B (take c ?xs)"
      "f < k \<longrightarrow> \<not> trimmable dec (?xs ! (k - 1))"
      "ref = (if \<exists>j. k \<le> j \<and> j < c \<and> mixed_bundle (?xs ! j) then None else cm_reference_context_item cm)"
    using trim_result [OF run c(3)] clen by auto
  have klen: "k < length ?xs" using t(2) clen by simp
  have items: "cm_items cm' = take k ?xs" by (simp add: cm' replace_items_def)
  have before: "before = take f ?xs" by (simp add: before_def f(1))
  have "prefix (take f ?xs) (take k ?xs)" using t(1) by (metis min.absorb1 take_is_prefix take_take)
  moreover have "strict_prefix (take k ?xs) ?xs" using klen by (simp add: strict_prefix_def take_is_prefix)
  moreover have "last (take k ?xs) = ?xs ! (k - 1)" if "f < k"
  proof -
    from that klen have "take k ?xs \<noteq> []" by auto
    then show ?thesis using klen by (simp add: last_conv_nth)
  qed
  moreover have "f < k" if "take k ?xs \<noteq> take f ?xs" using that t(1) by (cases "f = k") auto
  moreover have "list_ex mixed_bundle (drop k ?xs)" if j: "k \<le> j" "j < c" "mixed_bundle (?xs ! j)" for j
  proof -
    have "drop k ?xs ! (j - k) = ?xs ! j" "j - k < length (drop k ?xs)" using j clen by simp_all
    with j(3) show ?thesis unfolding list_ex_iff by (metis nth_mem)
  qed
  ultimately show ?thesis
    unfolding items before using t c(2) len klen by (auto simp: cm' replace_items_def)
qed

text \<open>A history of two turns, the second one with a context update before it.\<close>

definition plain_decoders :: content_decoders where
  "plain_decoders = \<lparr>hook_prompt_xml = \<lambda>_. None, agent_communication_json = \<lambda>_. False\<rparr>"

definition message :: "string \<Rightarrow> string \<Rightarrow> unit response_item" where
  "message role t = Message None (rs role) [InputText (rs t)] None None"

definition two_turns :: "(unit, token_usage_info, unit, unit) context_manager" where
  "two_turns = \<lparr>cm_items = [message ''developer'' ''rules'', message ''user'' ''first'', message ''developer'' ''<model_switch>x'',
       message ''user'' ''second''],
     cm_history_version = 0, cm_token_info = None, cm_reference_context_item = Some (), cm_world_state_baseline = Some ()\<rparr>"

theorem drop_last_n_user_turns_spec_witness:
  "length (filter (is_user_turn_boundary plain_decoders) (cm_items (drop_last_n_user_turns plain_decoders two_turns 1)))
     = length (filter (is_user_turn_boundary plain_decoders) (cm_items two_turns)) - 1
   \<and> cm_items (drop_last_n_user_turns plain_decoders two_turns 1) = take 2 (cm_items two_turns)"
proof
  have "list_ex (is_user_turn_boundary plain_decoders) (cm_items two_turns)" by code_simp
  from drop_last_n_user_turns_spec [OF _ this, of 1]
  show "length (filter (is_user_turn_boundary plain_decoders) (cm_items (drop_last_n_user_turns plain_decoders two_turns 1)))
     = length (filter (is_user_turn_boundary plain_decoders) (cm_items two_turns)) - 1"
    by (meson zero_less_one)
  have "user_message_positions plain_decoders (cm_items two_turns) = [1, 3]" by code_simp
  moreover have "trim_pre_turn_context_updates plain_decoders (cm_items two_turns) 1 3 (cm_reference_context_item two_turns)
      = (2, Some ())" by code_simp
  ultimately show "cm_items (drop_last_n_user_turns plain_decoders two_turns 1) = take 2 (cm_items two_turns)"
    by (simp add: drop_last_n_user_turns_def replace_items_def Let_def del: trim_pre_turn_context_updates.simps)
qed

text \<open>Without any turn the items stay, but the history counts as rewritten and the world-state baseline is lost.\<close>

lemma rollback_without_turns_rewrites:
  assumes "0 < n" "\<not> list_ex (is_user_turn_boundary dec) (cm_items cm)"
  shows "drop_last_n_user_turns dec cm n =
    cm\<lparr>cm_history_version := saturating_add (cm_history_version cm) 1, cm_world_state_baseline := None\<rparr>"
proof -
  have "user_message_positions dec (cm_items cm) = []"
    using assms(2) by (auto simp: user_message_positions_eq filter_empty_conv list_ex_iff)
  with assms(1) show ?thesis by (simp add: drop_last_n_user_turns_def replace_items_def)
qed

section \<open>Recording\<close>

lemma truncate_text_total: "\<exists>t. truncate_text s policy = Some t"
  using truncate_text_nonempty truncate_text_unchanged by (cases "s = []") blast+

lemma truncate_items_total: "\<exists>out. truncate_function_output_items_with_policy items policy = Some out"
proof -
  obtain p where "truncate_items_loop policy (initial_budget policy) 0 items = Some p"
    using truncate_items_loop_cut by blast
  then show ?thesis by (auto simp: truncate_function_output_items_with_policy_def)
qed

lemma truncate_payload_total:
  "\<exists>out'. truncate_function_output_payload out policy = Some out' \<and> op_success out' = op_success out"
proof (cases "op_body out")
  case (TextBody t)
  with truncate_text_total [of t policy] show ?thesis by (auto simp: truncate_function_output_payload_def)
next
  case (ContentItems items)
  with truncate_items_total [of items policy] show ?thesis by (auto simp: truncate_function_output_payload_def)
qed

lemma process_item_keys:
  "\<exists>i'. process_item i policy = Some i' \<and> call_key i' = call_key i \<and> output_key i' = output_key i
     \<and> server_output i' = server_output i"
proof (cases i)
  case (FunctionCallOutput a b out d)
  with truncate_payload_total [of out "policy_mul policy f64_one_point_two"] show ?thesis by auto
next
  case (CustomToolCallOutput a b c out d)
  with truncate_payload_total [of out "policy_mul policy f64_one_point_two"] show ?thesis by auto
qed simp_all

lemma record_items_result:
  "\<exists>recorded. record_items cm items policy = Some (cm\<lparr>cm_items := cm_items cm @ recorded\<rparr>)
     \<and> list_all2 (\<lambda>i j. process_item i policy = Some j) (filter is_api_message items) recorded"
proof (induction items arbitrary: cm)
  case Nil
  show ?case by (intro exI [of _ "[]"]) simp
next
  case (Cons i items)
  show ?case
  proof (cases "is_api_message i")
    case True
    obtain j where j: "process_item i policy = Some j" using process_item_keys by blast
    obtain rec where "record_items (cm\<lparr>cm_items := cm_items cm @ [j]\<rparr>) items policy
        = Some (cm\<lparr>cm_items := cm_items cm @ [j] @ rec\<rparr>)"
      "list_all2 (\<lambda>i j. process_item i policy = Some j) (filter is_api_message items) rec"
      using Cons.IH [of "cm\<lparr>cm_items := cm_items cm @ [j]\<rparr>"] by auto
    with True j show ?thesis by (intro exI [of _ "j # rec"]) simp
  next
    case False
    with Cons.IH [of cm] show ?thesis by simp
  qed
qed

text \<open>The keys of the outputs that need a call.\<close>

definition client_output_keys :: "'v response_item list \<Rightarrow> (call_kind \<times> rstr) set" where
  "client_output_keys items = {k. \<exists>i \<in> set items. output_key i = Some k \<and> \<not> server_output i}"

lemma client_output_keys_simps [simp]:
  "client_output_keys [] = {}"
  "client_output_keys (i # items) =
     (if server_output i then {} else case output_key i of None \<Rightarrow> {} | Some k \<Rightarrow> {k}) \<union> client_output_keys items"
  "client_output_keys (xs @ ys) = client_output_keys xs \<union> client_output_keys ys"
  by (auto simp: client_output_keys_def split: option.splits)

lemma paired_client: "paired xs \<longleftrightarrow> call_keys xs \<subseteq> output_keys xs \<and> client_output_keys xs \<subseteq> call_keys xs"
  by (auto simp: paired_def client_output_keys_def)

lemma processed_keys:
  "list_all2 (\<lambda>i j. process_item i policy = Some j) xs ys \<Longrightarrow>
     call_keys ys = call_keys xs \<and> output_keys ys = output_keys xs \<and> client_output_keys ys = client_output_keys xs"
proof (induction rule: list_all2_induct)
  case (Cons i xs j ys)
  have "call_key j = call_key i \<and> output_key j = output_key i \<and> server_output j = server_output i"
    using Cons.hyps(1) process_item_keys [of i policy] by auto
  with Cons.IH show ?case by simp
qed simp


lemma policy_mul_budget:
  assumes "byte_budget policy \<le> usize_max" "token_budget policy \<le> usize_max"
  shows "byte_budget policy \<le> byte_budget (policy_mul policy f64_one_point_two)"
    "0 < byte_budget policy \<Longrightarrow> 0 < byte_budget (policy_mul policy f64_one_point_two)"
proof -
  show 1: "byte_budget policy \<le> byte_budget (policy_mul policy f64_one_point_two)"
  proof (cases policy)
    case (Bytes n)
    with assms f64_scale_ge show ?thesis by simp
  next
    case (Tokens n)
    with assms have "n \<le> f64_scale_ceil f64_one_point_two n" by (intro f64_scale_ge) simp
    then have "min (n * APPROX_BYTES_PER_TOKEN) usize_max
        \<le> min (f64_scale_ceil f64_one_point_two n * APPROX_BYTES_PER_TOKEN) usize_max"
      by (intro min.mono mult_le_mono1) simp_all
    with Tokens show ?thesis by (simp add: approx_bytes_for_tokens_def saturating_mul_def)
  qed
  then show "0 < byte_budget policy \<Longrightarrow> 0 < byte_budget (policy_mul policy f64_one_point_two)" by simp
qed

text \<open>
  A text output that is within the policy is recorded as it is: the extra fifth,
  computed in floating point, never makes the budget smaller.
\<close>

theorem small_output_recorded_unchanged:
  assumes "op_body out = TextBody t" "0 < byte_budget policy" "str_len t \<le> byte_budget policy"
    and "byte_budget policy \<le> usize_max" "token_budget policy \<le> usize_max"
  shows "process_item (FunctionCallOutput i call_id out m) policy = Some (FunctionCallOutput i call_id out m)"
proof -
  let ?p = "policy_mul policy f64_one_point_two"
  have "truncate_text t ?p = Some t"
    using policy_mul_budget [OF assms(4,5)] assms(2,3) by (intro truncate_text_unchanged) auto
  with assms(1) show ?thesis by (simp add: truncate_function_output_payload_def)
qed

theorem small_output_recorded_unchanged_witness:
  "process_item (FunctionCallOutput None (rs ''c'') (payload_from_text (rs ''ok'')) (None :: unit option)) (Bytes 10000)
     = Some (FunctionCallOutput None (rs ''c'') (payload_from_text (rs ''ok'')) None)
   \<and> f64_scale_ceil f64_one_point_two 10000 = 12000"
proof
  show "process_item (FunctionCallOutput None (rs ''c'') (payload_from_text (rs ''ok'')) (None :: unit option)) (Bytes 10000)
     = Some (FunctionCallOutput None (rs ''c'') (payload_from_text (rs ''ok'')) None)"
    by (rule small_output_recorded_unchanged [where t = "rs ''ok''"])
      (simp_all add: payload_from_text_def rs_def len_utf8_def usize_max_def
        approx_tokens_from_byte_count_def saturating_add_def APPROX_BYTES_PER_TOKEN_def)
  show "f64_scale_ceil f64_one_point_two 10000 = 12000"
    by (simp add: f64_scale_ceil_def round53_def f64_one_point_two_def usize_max_def Let_def bit_length.simps)
qed

section \<open>Injected context and turns\<close>

lemma additional_context_fragment_no_turn:
  assumes "62 \<notin> set (fst kv)"
  shows "\<exists>role t. additional_context_fragment kv = Some (role, t)
    \<and> \<not> is_user_turn_boundary dec (fragment_message role t)"
proof (cases "ac_kind (snd kv)")
  case Untrusted
  obtain body where b: "additional_context_body (fst kv) (ac_value (snd kv)) = Some body"
    using additional_context_rendered [OF assms] by blast
  have "\<not> is_user_turn_boundary dec (fragment_message (rs ''user'') (additional_context_text (fst kv, ac_value (snd kv))))"
    using assms by (intro additional_context.rendered_no_turn) simp
  with Untrusted b show ?thesis by (simp add: additional_context_fragment_def additional_context_text_def)
next
  case Application
  obtain v n where "truncate_middle_with_token_budget (ac_value (snd kv)) MAX_ADDITIONAL_CONTEXT_VALUE_TOKENS = Some (v, n)"
    using truncate_text_total [of "ac_value (snd kv)" "Tokens MAX_ADDITIONAL_CONTEXT_VALUE_TOKENS"] by auto
  with Application show ?thesis
    by (simp add: additional_context_fragment_def additional_context_developer_body_def fragment_message_def rs_def)
qed

text \<open>
  Context that the program injects is never taken for a turn of the user, so
  rollback neither counts it nor stops at it: project instructions, skills, the
  output of shell commands, notes on aborted turns and hidden context of extensions, whatever
  text they carry, and the messages for additional context whose keys do not
  contain the character that closes a tag.
\<close>

theorem injected_context_no_turn:
  assumes "is_valid_source source" "list_all (\<lambda>kv. 62 \<notin> set (fst kv)) values"
  shows "\<not> is_user_turn_boundary dec (fragment_message (rs ''user'')
        (render_fragment user_instructions_markers (user_instructions_body directory t)))
    \<and> \<not> is_user_turn_boundary dec (fragment_message (rs ''user'')
        (render_fragment skill_instructions_markers (skill_instructions_body name path t)))
    \<and> \<not> is_user_turn_boundary dec (fragment_message (rs ''user'')
        (render_fragment user_shell_command_markers (user_shell_command_body command exit_code duration t)))
    \<and> \<not> is_user_turn_boundary dec (fragment_message (rs ''user'')
        (render_fragment turn_aborted_markers (turn_aborted_body t)))
    \<and> \<not> is_user_turn_boundary dec (fragment_message (rs ''user'')
        (render_fragment (CONTEXT_START_MARKER, CONTEXT_END_MARKER) (internal_model_context_body source t)))
    \<and> list_all (\<lambda>f. case f of Some (role, t) \<Rightarrow> \<not> is_user_turn_boundary dec (fragment_message role t) | None \<Rightarrow> False)
        (snd (additional_context_merge store values))"
proof -
  have "\<forall>kv \<in> set values. case additional_context_fragment kv of
      Some (role, t) \<Rightarrow> \<not> is_user_turn_boundary dec (fragment_message role t) | None \<Rightarrow> False"
    using additional_context_fragment_no_turn [of _ dec] assms(2) by (fastforce simp: list_all_iff)
  then have "list_all (\<lambda>f. case f of Some (role, t) \<Rightarrow> \<not> is_user_turn_boundary dec (fragment_message role t) | None \<Rightarrow> False)
        (snd (additional_context_merge store values))"
    by (auto simp: additional_context_merge_def list_all_iff)
  with assms(1) show ?thesis
    by (intro conjI user_instructions.rendered_no_turn [where x = "(directory, t)", simplified]
        skill_instructions.rendered_no_turn [where x = "(name, path, t)", simplified]
        user_shell_command.rendered_no_turn [where x = "(command, exit_code, duration, t)", simplified]
        turn_aborted.rendered_no_turn [where x = t, simplified]
        internal_model_context.rendered_no_turn [where x = "(source, t)", simplified])
qed

theorem injected_context_no_turn_witness:
  "\<not> is_user_turn_boundary plain_decoders (fragment_message (rs ''user'')
     (render_fragment (CONTEXT_START_MARKER, CONTEXT_END_MARKER) (internal_model_context_body (rs ''goal_1'') (rs ''x''))))"
proof -
  have "is_valid_source (rs ''goal_1'')" by code_simp
  moreover have "list_all (\<lambda>kv. 62 \<notin> set (fst kv)) [(rs ''k'', \<lparr>ac_value = rs ''v'', ac_kind = Untrusted\<rparr>)]"
    by (simp add: rs_def)
  ultimately show ?thesis using injected_context_no_turn [of "rs ''goal_1''"] by blast
qed

text \<open>A key that contains the closing character: its message starts a turn.\<close>

lemma additional_context_key_starts_turn:
  "\<exists>body. additional_context_body (rs ''a>b'') (rs ''v'') = Some body
     \<and> is_user_turn_boundary plain_decoders (fragment_message (rs ''user'')
         (render_fragment (ADDITIONAL_CONTEXT_START_MARKER_PREFIX, ADDITIONAL_CONTEXT_END_MARKER_SUFFIX) body))"
proof -
  have "additional_context_body (rs ''a>b'') (rs ''v'') = Some (rs ''a>b>v</external_a>b'')"
    by (simp add: additional_context_body_def truncate_middle_with_token_budget_def
        MAX_ADDITIONAL_CONTEXT_VALUE_TOKENS_def approx_bytes_for_tokens_def saturating_mul_def usize_max_def
        APPROX_BYTES_PER_TOKEN_def rs_def len_utf8_def)
  moreover have "is_user_turn_boundary plain_decoders (fragment_message (rs ''user'')
         (render_fragment (ADDITIONAL_CONTEXT_START_MARKER_PREFIX, ADDITIONAL_CONTEXT_END_MARKER_SUFFIX)
           (rs ''a>b>v</external_a>b'')))"
    by code_simp
  ultimately show ?thesis by blast
qed

section \<open>Estimates\<close>

lemma estimate_item_bounds:
  "0 \<le> estimate_item_token_count est i" "estimate_item_token_count est i \<le> i64_max"
  by (auto simp: estimate_item_token_count_def approx_tokens_from_byte_count_i64_def i64_of_usize_def i64_max_def)

lemma i64_saturating_add_nonneg:
  "0 \<le> a \<Longrightarrow> 0 \<le> b \<Longrightarrow> i64_saturating_add (min a i64_max) b = min (a + b) i64_max"
  by (simp add: i64_saturating_add_def i64_clamp_def i64_min_def i64_max_def)

lemma sum_tokens_onto:
  "0 \<le> a \<Longrightarrow> fold (\<lambda>item acc. i64_saturating_add acc (estimate_item_token_count est item)) items (min a i64_max)
     = min (a + sum_list (map (estimate_item_token_count est) items)) i64_max"
proof (induction items arbitrary: a)
  case (Cons i items)
  have "0 \<le> a + estimate_item_token_count est i" using Cons.prems estimate_item_bounds(1) [of est i] by linarith
  from Cons.IH [OF this] show ?case
    using Cons.prems estimate_item_bounds(1) [of est i] by (simp add: i64_saturating_add_nonneg add.assoc)
qed simp

lemma sum_item_tokens_eq:
  "sum_item_tokens est items = min (sum_list (map (estimate_item_token_count est) items)) i64_max"
  using sum_tokens_onto [of 0 est items] by (simp add: sum_item_tokens_def i64_max_def)

lemma sum_tokens_nonneg: "0 \<le> sum_list (map (estimate_item_token_count est) items)"
  by (rule sum_list_nonneg) (auto simp: estimate_item_bounds)

lemma sum_tokens_subseq:
  "subseq xs ys \<Longrightarrow> sum_list (map (estimate_item_token_count est) xs) \<le> sum_list (map (estimate_item_token_count est) ys)"
proof (induction rule: list_emb.induct)
  case (list_emb_Cons xs ys y)
  then show ?case using estimate_item_bounds(1) [of est y] by simp
qed (simp_all add: sum_tokens_nonneg)

lemma remove_first_matching_subseq: "subseq (remove_first_matching P items) items"
  by (induction items) (auto simp: list_emb_Cons)

lemma remove_corresponding_subseq: "subseq (remove_corresponding_for items i) items"
  by (cases "(items, i)" rule: remove_corresponding_for.cases) (simp_all add: remove_first_matching_subseq)

text \<open>
  The estimate of the prompt is the sum of the estimates of the instructions and
  of all items, clamped to the largest 64-bit number, and never negative, although
  every step of the code saturates; so dropping the oldest item with its counterpart
  never makes it larger.
\<close>

theorem estimate_clamped_sum:
  "estimate_token_count_with_base_instructions est cm base_text =
     Some (min (int (approx_token_count base_text) + sum_list (map (estimate_item_token_count est) (cm_items cm))) i64_max)
   \<and> 0 \<le> int (approx_token_count base_text) + sum_list (map (estimate_item_token_count est) (cm_items cm))
   \<and> the (estimate_token_count_with_base_instructions est (remove_first_item cm) base_text)
     \<le> the (estimate_token_count_with_base_instructions est cm base_text)"
proof -
  have est: "estimate_token_count_with_base_instructions est cm base_text =
     Some (min (int (approx_token_count base_text) + sum_list (map (estimate_item_token_count est) (cm_items cm))) i64_max)"
    for cm :: "('a, 'b, 'c, 'd) context_manager"
    using sum_tokens_nonneg [of est "cm_items cm"]
    by (simp add: estimate_token_count_with_base_instructions_def i64_of_usize_def sum_item_tokens_eq
        i64_saturating_add_def i64_clamp_def i64_min_def i64_max_def)
  have "subseq (cm_items (remove_first_item cm)) (cm_items cm)"
    by (cases "cm_items cm") (simp_all add: remove_first_item_def list_emb_Cons remove_corresponding_subseq)
  from sum_tokens_subseq [OF this, of est] show ?thesis
    using sum_tokens_nonneg [of est "cm_items cm"] unfolding est by auto
qed

section \<open>Images\<close>

lemma rposition_Some: "rposition P xs = Some n \<Longrightarrow> n < length xs \<and> P (xs ! n)"
  by (induction xs arbitrary: n) (auto split: option.splits if_splits)

text \<open>Replacing images touches one function call output and keeps its identifiers.\<close>

lemma map_update_same: "i < length xs \<Longrightarrow> f y = f (xs ! i) \<Longrightarrow> map f (xs[i := y]) = map f xs"
  by (metis list_update_id map_update)

lemma replace_last_turn_images_keys:
  assumes "replace_last_turn_images dec cm placeholder = (cm', b)"
  shows "map call_key (cm_items cm') = map call_key (cm_items cm)"
    "map output_key (cm_items cm') = map output_key (cm_items cm)"
  using assms
  by (auto simp: replace_last_turn_images_def Let_def map_update_same
      split: option.splits response_item.splits output_body.splits if_splits dest!: rposition_Some)

end
