(* ===== verification/Net_Hosts.thy ===== *)
theory Net_Hosts
  imports Rust_Prelude
begin

text \<open>
  Hosts and domain patterns of the network proxy
  (\<^verbatim>\<open>network-proxy/src/policy.rs\<close>): which addresses are not public, how hosts and
  patterns are normalised, and when one pattern covers another. Addresses are read
  by the parser of the standard library; the glob library and the URL parser are
  third-party code and are parameters.
\<close>

unbundle bit_operations_syntax

section \<open>Addresses\<close>

text \<open>An IPv6 address is the list of its eight segments.\<close>

datatype ip_addr = V4 "32 word" | V6 "16 word list"

text \<open>\<^verbatim>\<open>char::to_digit\<close> for radix 10 and 16.\<close>

definition to_digit :: "int \<Rightarrow> uchar \<Rightarrow> int option" where
  "to_digit radix c =
     (let d = (if 48 \<le> c \<and> c \<le> 57 then Some (c - 48)
               else if 97 \<le> c \<and> c \<le> 122 then Some (c - 87)
               else if 65 \<le> c \<and> c \<le> 90 then Some (c - 55)
               else None)
      in case d of Some n \<Rightarrow> if n < radix then Some n else None | None \<Rightarrow> None)"

text \<open>The readers of \<^verbatim>\<open>core::net::parser\<close>: the value read and the rest of the input.\<close>

fun read_digits :: "int \<Rightarrow> nat \<Rightarrow> int \<Rightarrow> nat \<Rightarrow> rstr \<Rightarrow> (int \<times> nat \<times> rstr) option" where
  "read_digits radix max_digits n count [] = Some (n, count, [])"
| "read_digits radix max_digits n count (c # s) =
     (case to_digit radix c of
        None \<Rightarrow> Some (n, count, c # s)
      | Some d \<Rightarrow>
          if count + 1 > max_digits then None
          else read_digits radix max_digits (n * radix + d) (count + 1) s)"

definition read_number :: "int \<Rightarrow> nat \<Rightarrow> bool \<Rightarrow> int \<Rightarrow> rstr \<Rightarrow> (int \<times> rstr) option" where
  "read_number radix max_digits allow_zero_prefix bound s =
     (case read_digits radix max_digits 0 0 s of
        None \<Rightarrow> None
      | Some (n, count, rest) \<Rightarrow>
          if count = 0 then None
          else if \<not> allow_zero_prefix \<and> s \<noteq> [] \<and> hd s = 48 \<and> count > 1 then None
          else if n < bound then Some (n, rest) else None)"

definition read_given_char :: "uchar \<Rightarrow> rstr \<Rightarrow> rstr option" where
  "read_given_char c s = (case s of [] \<Rightarrow> None | d # rest \<Rightarrow> if d = c then Some rest else None)"

definition read_separator :: "uchar \<Rightarrow> nat \<Rightarrow> (rstr \<Rightarrow> ('a \<times> rstr) option) \<Rightarrow> rstr \<Rightarrow> ('a \<times> rstr) option" where
  "read_separator sep index inner s =
     (if index > 0 then Option.bind (read_given_char sep s) inner else inner s)"

fun read_octets :: "nat \<Rightarrow> nat \<Rightarrow> rstr \<Rightarrow> (int list \<times> rstr) option" where
  "read_octets index 0 s = Some ([], s)"
| "read_octets index (Suc n) s =
     Option.bind (read_separator 46 index (read_number 10 3 False 256) s) (\<lambda>(x, rest).
       map_option (\<lambda>(xs, rest). (x # xs, rest)) (read_octets (index + 1) n rest))"

text \<open>An IPv4 address is read as its four octets.\<close>

definition read_ipv4_addr :: "rstr \<Rightarrow> (int list \<times> rstr) option" where
  "read_ipv4_addr s = read_octets 0 4 s"

text \<open>\<^verbatim>\<open>read_groups\<close> for the remaining slots: the groups, whether they end in an IPv4 address, the rest.\<close>

fun read_groups :: "nat \<Rightarrow> nat \<Rightarrow> rstr \<Rightarrow> int list \<times> bool \<times> rstr" where
  "read_groups index 0 s = ([], False, s)"
| "read_groups index (Suc left) s =
     (case (if left > 0 then read_separator 58 index read_ipv4_addr s else None) of
        Some (octets, rest) \<Rightarrow>
          ([octets ! 0 * 256 + octets ! 1, octets ! 2 * 256 + octets ! 3], True, rest)
      | None \<Rightarrow>
          (case read_separator 58 index (read_number 16 4 True 65536) s of
             None \<Rightarrow> ([], False, s)
           | Some (g, rest) \<Rightarrow>
               (case read_groups (index + 1) left rest of (groups, v4, rest) \<Rightarrow> (g # groups, v4, rest))))"

definition read_ipv6_addr :: "rstr \<Rightarrow> (int list \<times> rstr) option" where
  "read_ipv6_addr s =
     (case read_groups 0 8 s of (head, head_ipv4, rest) \<Rightarrow>
        if length head = 8 then Some (head, rest)
        else if head_ipv4 then None
        else
          Option.bind (read_given_char 58 rest) (\<lambda>rest.
          Option.bind (read_given_char 58 rest) (\<lambda>rest.
            case read_groups 0 (7 - length head) rest of (tail, _, rest) \<Rightarrow>
              Some (head @ replicate (8 - length head - length tail) 0 @ tail, rest))))"

definition octets_to_ipv4 :: "int list \<Rightarrow> 32 word" where
  "octets_to_ipv4 xs = foldl (\<lambda>n x. n * 256 + word_of_int x) 0 xs"

text \<open>\<^verbatim>\<open>str::parse::<IpAddr>\<close>: the whole input has to be read.\<close>

definition parse_ip :: "rstr \<Rightarrow> ip_addr option" where
  "parse_ip s =
     (case read_ipv4_addr s of
        Some (octets, rest) \<Rightarrow> if rest = [] then Some (V4 (octets_to_ipv4 octets)) else None
      | None \<Rightarrow>
          (case read_ipv6_addr s of
             Some (groups, rest) \<Rightarrow> if rest = [] then Some (V6 (map word_of_int groups)) else None
           | None \<Rightarrow> None))"

section \<open>Non-public addresses\<close>

text \<open>The classification helpers of \<^verbatim>\<open>Ipv4Addr\<close> and \<^verbatim>\<open>Ipv6Addr\<close>.\<close>

definition octet :: "nat \<Rightarrow> 32 word \<Rightarrow> 32 word" where
  "octet i ip = drop_bit (24 - 8 * i) ip AND 0xFF"

definition ipv4_is_loopback :: "32 word \<Rightarrow> bool" where
  "ipv4_is_loopback ip \<longleftrightarrow> octet 0 ip = 127"

definition ipv4_is_private :: "32 word \<Rightarrow> bool" where
  "ipv4_is_private ip \<longleftrightarrow> octet 0 ip = 10 \<or> (octet 0 ip = 172 \<and> octet 1 ip AND 0xF0 = 16)
     \<or> (octet 0 ip = 192 \<and> octet 1 ip = 168)"

definition ipv4_is_link_local :: "32 word \<Rightarrow> bool" where
  "ipv4_is_link_local ip \<longleftrightarrow> octet 0 ip = 169 \<and> octet 1 ip = 254"

definition ipv4_is_multicast :: "32 word \<Rightarrow> bool" where
  "ipv4_is_multicast ip \<longleftrightarrow> 224 \<le> octet 0 ip \<and> octet 0 ip \<le> 239"

definition ipv4_in_cidr :: "32 word \<Rightarrow> int list \<Rightarrow> nat \<Rightarrow> bool" where
  "ipv4_in_cidr ip base pre \<longleftrightarrow>
     (let mask = (if pre = 0 then 0 else push_bit (32 - pre) (- 1))
      in ip AND mask = octets_to_ipv4 base AND mask)"

definition is_non_public_ipv4 :: "32 word \<Rightarrow> bool" where
  "is_non_public_ipv4 ip \<longleftrightarrow>
     ipv4_is_loopback ip \<or> ipv4_is_private ip \<or> ipv4_is_link_local ip \<or> ip = 0
     \<or> ipv4_is_multicast ip \<or> ip = 0xFFFFFFFF
     \<or> ipv4_in_cidr ip [0, 0, 0, 0] 8
     \<or> ipv4_in_cidr ip [100, 64, 0, 0] 10
     \<or> ipv4_in_cidr ip [192, 0, 0, 0] 24
     \<or> ipv4_in_cidr ip [192, 0, 2, 0] 24
     \<or> ipv4_in_cidr ip [198, 18, 0, 0] 15
     \<or> ipv4_in_cidr ip [198, 51, 100, 0] 24
     \<or> ipv4_in_cidr ip [203, 0, 113, 0] 24
     \<or> ipv4_in_cidr ip [240, 0, 0, 0] 4"

definition ipv6_to_ipv4 :: "16 word list \<Rightarrow> 32 word option" where
  "ipv6_to_ipv4 ip =
     (case ip of [a, b, c, d, e, f, ab, cd] \<Rightarrow>
        if a = 0 \<and> b = 0 \<and> c = 0 \<and> d = 0 \<and> e = 0 \<and> (f = 0 \<or> f = 0xFFFF)
        then Some (push_bit 16 (ucast ab) OR ucast cd) else None
      | _ \<Rightarrow> None)"

definition ipv6_is_loopback :: "16 word list \<Rightarrow> bool" where
  "ipv6_is_loopback ip \<longleftrightarrow> ip = [0, 0, 0, 0, 0, 0, 0, 1]"

definition is_non_public_ipv6 :: "16 word list \<Rightarrow> bool" where
  "is_non_public_ipv6 ip =
     (case ipv6_to_ipv4 ip of
        Some v4 \<Rightarrow> is_non_public_ipv4 v4 \<or> ipv6_is_loopback ip
      | None \<Rightarrow>
          ipv6_is_loopback ip \<or> ip = [0, 0, 0, 0, 0, 0, 0, 0]
          \<or> hd ip AND 0xFF00 = 0xFF00 \<or> hd ip AND 0xFE00 = 0xFC00 \<or> hd ip AND 0xFFC0 = 0xFE80)"

fun is_non_public_ip :: "ip_addr \<Rightarrow> bool" where
  "is_non_public_ip (V4 ip) = is_non_public_ipv4 ip"
| "is_non_public_ip (V6 ip) = is_non_public_ipv6 ip"

fun ip_is_loopback :: "ip_addr \<Rightarrow> bool" where
  "ip_is_loopback (V4 ip) = ipv4_is_loopback ip"
| "ip_is_loopback (V6 ip) = ipv6_is_loopback ip"

section \<open>Normalised hosts\<close>

definition unscoped_ip_literal :: "rstr \<Rightarrow> rstr option" where
  "unscoped_ip_literal host =
     (case split_once 37 host of
        None \<Rightarrow> None
      | Some (ip, _) \<Rightarrow> if parse_ip ip = None then None else Some ip)"

definition scoped_literal :: "rstr \<Rightarrow> rstr \<Rightarrow> rstr option" where
  "scoped_literal delimiter host =
     (case split_once_str delimiter host of
        Some (ip, scope) \<Rightarrow> if parse_ip ip \<noteq> None then Some (ip @ [37] @ scope) else None
      | None \<Rightarrow> None)"

definition normalize_ip_literal :: "rstr \<Rightarrow> rstr option" where
  "normalize_ip_literal host =
     (if parse_ip host \<noteq> None then Some host
      else case scoped_literal (rs ''%25'') host of
        Some ip \<Rightarrow> Some ip
      | None \<Rightarrow> scoped_literal (rs ''%'') host)"

definition normalize_dns_host_or_ip_literal :: "rstr \<Rightarrow> rstr" where
  "normalize_dns_host_or_ip_literal host =
     (let host = trim_end_matches 46 (to_ascii_lowercase host) in
      case normalize_ip_literal host of Some ip \<Rightarrow> ip | None \<Rightarrow> host)"

definition normalize_host :: "rstr \<Rightarrow> rstr" where
  "normalize_host host =
     (let host = trim host in
      case (if starts_with host [91] then find_str [93] host else None) of
        Some e \<Rightarrow> normalize_dns_host_or_ip_literal (take (e - 1) (drop 1 host))
      | None \<Rightarrow>
          if length (filter (\<lambda>c. c = 58) host) = 1
          then normalize_dns_host_or_ip_literal (hd (split_char 58 host))
          else normalize_dns_host_or_ip_literal host)"

text \<open>\<^verbatim>\<open>Host::parse\<close>; the only error is an empty host.\<close>

definition host_parse :: "rstr \<Rightarrow> rstr option" where
  "host_parse input = (let normalized = normalize_host input in if normalized = [] then None else Some normalized)"

definition is_loopback_host :: "rstr \<Rightarrow> bool" where
  "is_loopback_host host =
     (let host = (case unscoped_ip_literal host of Some ip \<Rightarrow> ip | None \<Rightarrow> host) in
      if host = rs ''localhost'' then True
      else case parse_ip host of Some ip \<Rightarrow> ip_is_loopback ip | None \<Rightarrow> False)"

section \<open>Domain patterns\<close>

definition normalize_pattern :: "rstr \<Rightarrow> rstr" where
  "normalize_pattern pattern =
     (let pattern = trim pattern in
      if pattern = rs ''*'' then rs ''*''
      else
        case (case strip_prefix (rs ''**.'') pattern of
                Some domain \<Rightarrow> (rs ''**.'', domain)
              | None \<Rightarrow> (case strip_prefix (rs ''*.'') pattern of
                  Some domain \<Rightarrow> (rs ''*.'', domain) | None \<Rightarrow> ([], pattern))) of
          (pre, remainder) \<Rightarrow> pre @ normalize_host remainder)"

datatype domain_pattern = ApexAndSubdomains rstr | SubdomainsOnly rstr | Exact rstr

definition parse_domain :: "rstr \<Rightarrow> (rstr \<Rightarrow> domain_pattern) \<Rightarrow> domain_pattern" where
  "parse_domain domain build = (let domain = trim domain in if domain = [] then Exact [] else build domain)"

definition domain_pattern_parse :: "rstr \<Rightarrow> domain_pattern" where
  "domain_pattern_parse input =
     (let input = trim input in
      if input = [] then Exact []
      else case strip_prefix (rs ''**.'') input of
        Some domain \<Rightarrow> parse_domain domain ApexAndSubdomains
      | None \<Rightarrow>
          (case strip_prefix (rs ''*.'') input of
             Some domain \<Rightarrow> parse_domain domain SubdomainsOnly
           | None \<Rightarrow> Exact input))"

fun expansions :: "domain_pattern \<Rightarrow> rstr list" where
  "expansions (Exact domain) = [domain]"
| "expansions (SubdomainsOnly domain) = [rs ''?*.'' @ domain]"
| "expansions (ApexAndSubdomains domain) = [domain, rs ''?*.'' @ domain]"

definition expand_domain_pattern :: "rstr \<Rightarrow> rstr list" where
  "expand_domain_pattern pattern = expansions (domain_pattern_parse pattern)"

definition is_global_wildcard_domain_pattern :: "rstr \<Rightarrow> bool" where
  "is_global_wildcard_domain_pattern pattern =
     list_ex (\<lambda>candidate. candidate = rs ''*'') (expand_domain_pattern (normalize_pattern pattern))"

definition normalize_domain :: "rstr \<Rightarrow> rstr" where
  "normalize_domain domain = to_ascii_lowercase (trim_end_matches 46 domain)"

definition domain_eq :: "rstr \<Rightarrow> rstr \<Rightarrow> bool" where
  "domain_eq left right \<longleftrightarrow> normalize_domain left = normalize_domain right"

definition is_subdomain_or_equal :: "rstr \<Rightarrow> rstr \<Rightarrow> bool" where
  "is_subdomain_or_equal child parent =
     (let child = normalize_domain child; parent = normalize_domain parent in
      if child = parent then True else ends_with child (rs ''.'' @ parent))"

definition is_strict_subdomain :: "rstr \<Rightarrow> rstr \<Rightarrow> bool" where
  "is_strict_subdomain child parent =
     (let child = normalize_domain child; parent = normalize_domain parent in
      child \<noteq> parent \<and> ends_with child (rs ''.'' @ parent))"

fun pattern_allows :: "domain_pattern \<Rightarrow> domain_pattern \<Rightarrow> bool" where
  "pattern_allows (Exact domain) (Exact candidate) = domain_eq candidate domain"
| "pattern_allows (Exact domain) _ = False"
| "pattern_allows (SubdomainsOnly domain) (Exact candidate) = is_strict_subdomain candidate domain"
| "pattern_allows (SubdomainsOnly domain) (SubdomainsOnly candidate) = is_subdomain_or_equal candidate domain"
| "pattern_allows (SubdomainsOnly domain) (ApexAndSubdomains candidate) = is_strict_subdomain candidate domain"
| "pattern_allows (ApexAndSubdomains domain) (Exact candidate) = is_subdomain_or_equal candidate domain"
| "pattern_allows (ApexAndSubdomains domain) (SubdomainsOnly candidate) = is_subdomain_or_equal candidate domain"
| "pattern_allows (ApexAndSubdomains domain) (ApexAndSubdomains candidate) = is_subdomain_or_equal candidate domain"

text \<open>\<open>url_host\<close> is \<^verbatim>\<open>url::Host::parse\<close> followed by \<^verbatim>\<open>to_string\<close>.\<close>

definition parse_domain_for_constraints :: "(rstr \<Rightarrow> rstr option) \<Rightarrow> rstr \<Rightarrow> rstr" where
  "parse_domain_for_constraints url_host domain =
     (let domain = trim_end_matches 46 (trim domain) in
      if domain = [] then []
      else
        let host = (if starts_with domain [91] \<and> ends_with domain [93]
                    then take (length domain - 1 - 1) (drop 1 domain) else domain)
        in if 42 \<in> set host \<or> 63 \<in> set host \<or> 37 \<in> set host then domain
           else case url_host host of Some h \<Rightarrow> h | None \<Rightarrow> [])"

definition parse_for_constraints :: "(rstr \<Rightarrow> rstr option) \<Rightarrow> rstr \<Rightarrow> domain_pattern" where
  "parse_for_constraints url_host input =
     (let input = trim input in
      if input = [] then Exact []
      else case strip_prefix (rs ''**.'') input of
        Some domain \<Rightarrow> ApexAndSubdomains (parse_domain_for_constraints url_host domain)
      | None \<Rightarrow>
          (case strip_prefix (rs ''*.'') input of
             Some domain \<Rightarrow> SubdomainsOnly (parse_domain_for_constraints url_host domain)
           | None \<Rightarrow> Exact (parse_domain_for_constraints url_host input)))"

section \<open>Compiled pattern sets\<close>

text \<open>
  The glob library: whether a single pattern (case insensitive) is well formed, the
  set built from a list of patterns, and matching.
\<close>

record 'g glob_library =
  glob_valid :: "rstr \<Rightarrow> bool"
  globset_build :: "rstr list \<Rightarrow> 'g option"
  globset_is_match :: "'g \<Rightarrow> rstr \<Rightarrow> bool"

datatype glob_error = GlobalWildcardUnsupported | InvalidGlobPattern rstr | GlobSetFailed

text \<open>
  The loop of \<^verbatim>\<open>compile_globset_with_policy\<close>: the patterns added so far are also the ones seen.
\<close>

fun add_candidates :: "'g glob_library \<Rightarrow> rstr list \<Rightarrow> rstr list \<Rightarrow> (glob_error, rstr list) result" where
  "add_candidates gl added [] = Ok added"
| "add_candidates gl added (candidate # candidates) =
     (if candidate \<in> set added then add_candidates gl added candidates
      else if \<not> glob_valid gl candidate then Err (InvalidGlobPattern candidate)
      else add_candidates gl (added @ [candidate]) candidates)"

fun add_patterns :: "'g glob_library \<Rightarrow> bool \<Rightarrow> rstr list \<Rightarrow> rstr list \<Rightarrow> (glob_error, rstr list) result" where
  "add_patterns gl reject_global added [] = Ok added"
| "add_patterns gl reject_global added (pattern # patterns) =
     (if reject_global \<and> is_global_wildcard_domain_pattern pattern then Err GlobalWildcardUnsupported
      else bind_result (add_candidates gl added (expand_domain_pattern (normalize_pattern pattern)))
             (\<lambda>added. add_patterns gl reject_global added patterns))"

definition compile_globset_with_policy ::
  "'g glob_library \<Rightarrow> rstr list \<Rightarrow> bool \<Rightarrow> (glob_error, 'g) result" where
  "compile_globset_with_policy gl patterns reject_global =
     bind_result (add_patterns gl reject_global [] patterns)
       (\<lambda>added. case globset_build gl added of Some g \<Rightarrow> Ok g | None \<Rightarrow> Err GlobSetFailed)"

definition compile_allowlist_globset :: "'g glob_library \<Rightarrow> rstr list \<Rightarrow> (glob_error, 'g) result" where
  "compile_allowlist_globset gl patterns = compile_globset_with_policy gl patterns False"

definition compile_denylist_globset :: "'g glob_library \<Rightarrow> rstr list \<Rightarrow> (glob_error, 'g) result" where
  "compile_denylist_globset gl patterns = compile_globset_with_policy gl patterns True"

end
