(* ===== verification/Absolute_Path.thy ===== *)
theory Absolute_Path
  imports Rust_Prelude
begin

text \<open>
  Absolute paths (\<^verbatim>\<open>utils/absolute-path/src/lib.rs\<close> and \<^verbatim>\<open>absolutize.rs\<close>) as they are
  built on Unix. A path is the list of its components, which is what Rust's equality
  of paths compares; \<open>components\<close> reads the text of a path and \<open>path_text\<close> prints a
  component list. The home directory, the working directory and the symbolic links
  of the file system are parameters.
\<close>

section \<open>Paths of the standard library\<close>

datatype path_component = RootDir | CurDir | ParentDir | Normal rstr

type_synonym path = "path_component list"

definition component_of :: "rstr \<Rightarrow> path_component" where
  "component_of piece = (if piece = rs ''..'' then ParentDir else Normal piece)"

definition path_pieces :: "rstr \<Rightarrow> rstr list" where
  "path_pieces s = filter (\<lambda>piece. piece \<noteq> [] \<and> piece \<noteq> rs ''.'') (split_char 47 s)"

text \<open>\<^verbatim>\<open>Path::components\<close>: a dot is a component only at the start of a relative path.\<close>

definition components :: "rstr \<Rightarrow> path" where
  "components s =
     (if starts_with s [47] then [RootDir]
      else if hd (split_char 47 s) = rs ''.'' then [CurDir] else [])
     @ map component_of (path_pieces s)"

definition is_absolute :: "path \<Rightarrow> bool" where
  "is_absolute p \<longleftrightarrow> p \<noteq> [] \<and> hd p = RootDir"

text \<open>\<^verbatim>\<open>PathBuf::push\<close> and \<^verbatim>\<open>Path::join\<close>: an absolute path replaces the buffer.\<close>

definition path_join :: "path \<Rightarrow> path \<Rightarrow> path" where
  "path_join base p =
     (if is_absolute p then p
      else if base = [] then p
      else base @ (case p of CurDir # rest \<Rightarrow> rest | _ \<Rightarrow> p))"

text \<open>\<^verbatim>\<open>Path::parent\<close>: neither the root nor the empty path has one; \<^verbatim>\<open>PathBuf::pop\<close> then does nothing.\<close>

definition path_parent :: "path \<Rightarrow> path option" where
  "path_parent p = (if p = [] \<or> last p = RootDir then None else Some (butlast p))"

definition path_pop :: "path \<Rightarrow> path" where
  "path_pop p = (case path_parent p of Some q \<Rightarrow> q | None \<Rightarrow> p)"

text \<open>\<^verbatim>\<open>Path::ancestors\<close>: the path itself and its parents.\<close>

function path_ancestors :: "path \<Rightarrow> path list" where
  "path_ancestors p = p # (case path_parent p of Some q \<Rightarrow> path_ancestors q | None \<Rightarrow> [])"
  by pat_completeness auto
termination
  by (relation "measure length") (auto simp: path_parent_def split: if_splits)

declare path_ancestors.simps [simp del]

fun component_text :: "path_component \<Rightarrow> rstr" where
  "component_text RootDir = []"
| "component_text CurDir = rs ''.''"
| "component_text ParentDir = rs ''..''"
| "component_text (Normal piece) = piece"

definition path_text :: "path \<Rightarrow> rstr" where
  "path_text p = (if p = [RootDir] then [47] else join_str [47] (map component_text p))"

section \<open>Normalisation\<close>

record host_paths =
  home_dir :: "rstr option"
  current_dir :: "rstr option"

definition maybe_expand_home_directory :: "host_paths \<Rightarrow> rstr \<Rightarrow> path" where
  "maybe_expand_home_directory hp s =
     (case (home_dir hp, strip_prefix [126] s) of
        (Some home, Some rest) \<Rightarrow>
          if rest = [] then components home
          else (case strip_prefix [47] rest of
                  Some rest \<Rightarrow> path_join (components home) (components (dropWhile (\<lambda>c. c = 47) rest))
                | None \<Rightarrow> components s)
      | _ \<Rightarrow> components s)"

fun normalize_component :: "path \<Rightarrow> path_component \<Rightarrow> path" where
  "normalize_component normalized CurDir = normalized"
| "normalize_component normalized ParentDir = path_pop normalized"
| "normalize_component normalized RootDir = path_join normalized [RootDir]"
| "normalize_component normalized (Normal piece) = path_join normalized [Normal piece]"

definition normalize_path :: "path \<Rightarrow> path" where
  "normalize_path p =
     (let normalized = foldl normalize_component [] p in if normalized = [] then [CurDir] else normalized)"

definition path_with_base :: "path \<Rightarrow> path \<Rightarrow> path" where
  "path_with_base p base = (if is_absolute p then p else path_join base p)"

definition absolutize_from :: "path \<Rightarrow> path \<Rightarrow> path" where
  "absolutize_from p base = normalize_path (path_with_base p base)"

datatype path_error = CurrentDirUnavailable | PathNotAbsolute rstr | DeserializedWithoutBase | CanonicalizeFailed

definition absolutize :: "host_paths \<Rightarrow> path \<Rightarrow> (path_error, path) result" where
  "absolutize hp p =
     (if is_absolute p then Ok (normalize_path p)
      else case current_dir hp of
        None \<Rightarrow> Err CurrentDirUnavailable
      | Some dir \<Rightarrow> Ok (absolutize_from p (components dir)))"

section \<open>Absolute paths\<close>

definition resolve_path_against_base :: "host_paths \<Rightarrow> rstr \<Rightarrow> path \<Rightarrow> path" where
  "resolve_path_against_base hp s base = absolutize_from (maybe_expand_home_directory hp s) base"

definition from_absolute_path :: "host_paths \<Rightarrow> rstr \<Rightarrow> (path_error, path) result" where
  "from_absolute_path hp s = absolutize hp (maybe_expand_home_directory hp s)"

definition from_absolute_path_checked :: "host_paths \<Rightarrow> rstr \<Rightarrow> (path_error, path) result" where
  "from_absolute_path_checked hp s =
     (let expanded = maybe_expand_home_directory hp s in
      if \<not> is_absolute expanded then Err (PathNotAbsolute s)
      else Ok (absolutize_from expanded [RootDir]))"

definition absolute_join :: "host_paths \<Rightarrow> path \<Rightarrow> rstr \<Rightarrow> path" where
  "absolute_join hp self s = resolve_path_against_base hp s self"

definition relative_to_current_dir :: "host_paths \<Rightarrow> rstr \<Rightarrow> (path_error, path) result" where
  "relative_to_current_dir hp s =
     (case current_dir hp of
        None \<Rightarrow> Err CurrentDirUnavailable
      | Some dir \<Rightarrow> Ok (resolve_path_against_base hp s (components dir)))"

text \<open>The base is the value the deserialisation guard put in the thread's cell.\<close>

definition deserialize_path :: "host_paths \<Rightarrow> path option \<Rightarrow> rstr \<Rightarrow> (path_error, path) result" where
  "deserialize_path hp base s =
     (case base of
        Some base \<Rightarrow> Ok (resolve_path_against_base hp s base)
      | None \<Rightarrow> if is_absolute (components s) then from_absolute_path hp s else Err DeserializedWithoutBase)"

section \<open>Canonical paths that keep nested links\<close>

text \<open>The file system: \<^verbatim>\<open>canonicalize\<close>, and whether a path exists and is a symbolic link.\<close>

record link_view =
  fs_canonicalize :: "rstr \<Rightarrow> path option"
  is_symlink :: "path \<Rightarrow> bool"

definition should_preserve_logical_path :: "link_view \<Rightarrow> path \<Rightarrow> bool" where
  "should_preserve_logical_path fs logical =
     list_ex (\<lambda>ancestor. is_symlink fs ancestor \<and> Option.bind (path_parent ancestor) path_parent \<noteq> None)
       (path_ancestors logical)"

definition canonicalize_preserving_symlinks :: "host_paths \<Rightarrow> link_view \<Rightarrow> rstr \<Rightarrow> (path_error, path) result" where
  "canonicalize_preserving_symlinks hp fs s =
     bind_result (from_absolute_path hp s) (\<lambda>logical.
       let preserve_logical_path = should_preserve_logical_path fs logical in
       case fs_canonicalize fs s of
         Some canonical \<Rightarrow> if preserve_logical_path \<and> canonical \<noteq> logical then Ok logical else Ok canonical
       | None \<Rightarrow> Ok logical)"

definition canonicalize_existing_preserving_symlinks :: "host_paths \<Rightarrow> link_view \<Rightarrow> rstr \<Rightarrow> (path_error, path) result" where
  "canonicalize_existing_preserving_symlinks hp fs s =
     bind_result (from_absolute_path hp s) (\<lambda>logical.
       case fs_canonicalize fs s of
         None \<Rightarrow> Err CanonicalizeFailed
       | Some canonical \<Rightarrow>
           if should_preserve_logical_path fs logical \<and> canonical \<noteq> logical then Ok logical else Ok canonical)"

section \<open>Absolute and normalised\<close>

text \<open>What the type promises: the root, then names that are neither empty nor dots.\<close>

fun is_name :: "path_component \<Rightarrow> bool" where
  "is_name (Normal piece) = (piece \<noteq> [] \<and> piece \<noteq> rs ''.'' \<and> piece \<noteq> rs ''..'' \<and> 47 \<notin> set piece)"
| "is_name _ = False"

fun absolute_normal :: "path \<Rightarrow> bool" where
  "absolute_normal (RootDir # names) = list_all is_name names"
| "absolute_normal _ = False"

text \<open>A component of a text is the root at most once, at the start, and its names are proper.\<close>

fun proper_component :: "path_component \<Rightarrow> bool" where
  "proper_component (Normal piece) = is_name (Normal piece)"
| "proper_component RootDir = False"
| "proper_component _ = True"

fun proper_path :: "path \<Rightarrow> bool" where
  "proper_path (RootDir # p) = list_all proper_component p"
| "proper_path p = list_all proper_component p"

lemma proper_path_relative: "list_all proper_component p \<Longrightarrow> proper_path p"
  by (cases p rule: proper_path.cases) auto

lemma proper_path_absolute: "is_absolute p \<Longrightarrow> proper_path p \<longleftrightarrow> (\<exists>q. p = RootDir # q \<and> list_all proper_component q)"
  by (cases p) (auto simp: is_absolute_def)

lemma proper_path_not_absolute: "\<not> is_absolute p \<Longrightarrow> proper_path p \<longleftrightarrow> list_all proper_component p"
  by (cases p rule: proper_path.cases) (auto simp: is_absolute_def)

lemma component_of_proper:
  "piece \<in> set (path_pieces s) \<Longrightarrow> proper_component (component_of piece)"
  using split_char_pieces [of piece 47 s] by (auto simp: path_pieces_def component_of_def)

lemma components_proper [simp]: "proper_path (components s)"
proof -
  have "list_all proper_component (map component_of (path_pieces s))"
    by (auto simp: list_all_iff component_of_proper)
  then show ?thesis by (auto simp: components_def intro: proper_path_relative)
qed

lemma components_absolute: "is_absolute (components s) \<longleftrightarrow> starts_with s [47]"
  by (auto simp: components_def is_absolute_def path_pieces_def component_of_def hd_append map_filter_def
      hd_map split: if_splits)

lemma is_name_proper: "is_name c \<Longrightarrow> proper_component c"
  by (cases c) auto

lemma absolute_normal_proper: "absolute_normal p \<Longrightarrow> proper_path p \<and> is_absolute p"
  by (cases p rule: absolute_normal.cases) (auto simp: is_absolute_def list_all_iff is_name_proper)

lemma path_join_proper:
  assumes "proper_path base" "proper_path p" shows "proper_path (path_join base p)"
  using assms
  by (cases base rule: proper_path.cases; cases p rule: proper_path.cases)
     (auto simp: path_join_def is_absolute_def)

lemma path_join_absolute: "is_absolute base \<Longrightarrow> is_absolute (path_join base p)"
  by (auto simp: path_join_def is_absolute_def)

lemma path_pop_absolute_normal: "absolute_normal p \<Longrightarrow> absolute_normal (path_pop p)"
  by (cases p rule: absolute_normal.cases)
     (auto simp: path_pop_def path_parent_def list_all_iff dest: in_set_butlastD)

lemma normalize_component_absolute_normal:
  "absolute_normal p \<Longrightarrow> proper_component c \<Longrightarrow> absolute_normal (normalize_component p c)"
  by (cases c; cases p rule: absolute_normal.cases)
     (auto simp: path_pop_absolute_normal path_join_def is_absolute_def)

lemma normalize_components_absolute_normal:
  "absolute_normal p \<Longrightarrow> list_all proper_component cs \<Longrightarrow> absolute_normal (foldl normalize_component p cs)"
  by (induction cs arbitrary: p) (simp_all add: normalize_component_absolute_normal)

lemma normalize_path_absolute_normal:
  assumes "proper_path p" "is_absolute p" shows "absolute_normal (normalize_path p)"
proof -
  obtain q where q: "p = RootDir # q" "list_all proper_component q"
    using assms proper_path_absolute by blast
  have "absolute_normal (foldl normalize_component [RootDir] q)"
    using q(2) by (simp add: normalize_components_absolute_normal)
  then show ?thesis
    by (cases "foldl normalize_component [RootDir] q") (simp_all add: normalize_path_def q path_join_def is_absolute_def)
qed

lemma normalize_names:
  "list_all is_name names \<Longrightarrow> p \<noteq> [] \<Longrightarrow> foldl normalize_component p names = p @ names"
proof (induction names arbitrary: p)
  case (Cons c cs)
  then show ?case by (cases c) (simp_all add: path_join_def is_absolute_def)
qed simp

lemma normalize_path_normal: "absolute_normal p \<Longrightarrow> normalize_path p = p"
  by (cases p rule: absolute_normal.cases)
     (simp_all add: normalize_path_def path_join_def is_absolute_def normalize_names)

lemma expanded_proper [simp]: "proper_path (maybe_expand_home_directory hp s)"
  by (auto simp: maybe_expand_home_directory_def path_join_proper split: option.splits)

lemma absolutize_from_absolute_normal:
  assumes "proper_path p" "proper_path base" "is_absolute base"
  shows "absolute_normal (absolutize_from p base)"
  unfolding absolutize_from_def path_with_base_def
  using assms by (auto intro!: normalize_path_absolute_normal path_join_proper path_join_absolute)

section \<open>What the constructors give\<close>



lemma split_join_names:
  assumes "list_all is_name names"
  shows "names \<noteq> [] \<Longrightarrow> split_char 47 (join_str [47] (map component_text names)) = map component_text names"
  using assms by (intro split_join_char) (auto simp: list_all_iff elim!: is_name.elims)

lemma path_text_absolute:
  assumes "list_all is_name names"
  shows "path_text (RootDir # names) = 47 # join_str [47] (map component_text names)"
  by (cases names) (simp_all add: path_text_def)

lemma components_of_names:
  assumes "list_all is_name names"
  shows "map component_of (filter (\<lambda>piece. piece \<noteq> [] \<and> piece \<noteq> rs ''.'') (map component_text names)) = names"
  using assms
proof (induction names)
  case (Cons c cs)
  then show ?case by (cases c) (simp_all add: component_of_def)
qed simp

lemma components_path_text: "absolute_normal p \<Longrightarrow> components (path_text p) = p"
proof (cases p rule: absolute_normal.cases)
  case (1 names)
  assume "absolute_normal p"
  then have names: "list_all is_name names" using 1 by simp
  show ?thesis
  proof (cases names)
    case Nil
    then show ?thesis using 1 by (simp add: path_text_def components_def path_pieces_def starts_with_def)
  next
    case (Cons n ns)
    then have "split_char 47 (path_text p) = [] # map component_text names"
      using names split_join_names [of names] by (simp add: 1 path_text_absolute)
    then have "path_pieces (path_text p) = filter (\<lambda>piece. piece \<noteq> [] \<and> piece \<noteq> rs ''.'') (map component_text names)"
      by (simp add: path_pieces_def)
    then show ?thesis
      using components_of_names [OF names] by (simp add: components_def 1 path_text_absolute [OF names] starts_with_def)
  qed
qed auto

text \<open>
  An absolute path that is printed and read back, by the constructors or when it
  is deserialised, is the same path, whatever the home and working directories are.
\<close>

theorem absolute_path_roundtrip:
  assumes "absolute_normal p"
  shows "from_absolute_path hp (path_text p) = Ok p \<and> from_absolute_path_checked hp (path_text p) = Ok p
    \<and> deserialize_path hp base (path_text p) = Ok p"
proof -
  have "strip_prefix [126] (path_text p) = None"
    using assms by (cases p rule: absolute_normal.cases) (simp_all add: path_text_absolute)
  then have e: "maybe_expand_home_directory hp (path_text p) = p"
    using assms by (simp add: maybe_expand_home_directory_def components_path_text split: option.splits)
  have a: "is_absolute p" using assms absolute_normal_proper by blast
  show ?thesis
    using assms a e
    by (simp add: from_absolute_path_def absolutize_def normalize_path_normal from_absolute_path_checked_def
        absolutize_from_def path_with_base_def deserialize_path_def resolve_path_against_base_def
        components_path_text split: option.splits)
qed

theorem absolute_path_roundtrip_witness:
  "from_absolute_path \<lparr>home_dir = Some (rs ''/h''), current_dir = None\<rparr> (rs ''/w/~x'')
     = Ok [RootDir, Normal (rs ''w''), Normal (rs ''~x'')]"
proof -
  have p: "absolute_normal [RootDir, Normal (rs ''w''), Normal (rs ''~x'')]" by code_simp
  have "path_text [RootDir, Normal (rs ''w''), Normal (rs ''~x'')] = rs ''/w/~x''" by code_simp
  then show ?thesis
    using absolute_path_roundtrip [OF p, of "\<lparr>home_dir = Some (rs ''/h''), current_dir = None\<rparr>"] by simp
qed

text \<open>
  A base that is not absolute is not checked: the resolved path is then relative,
  although the type says that it is absolute.
\<close>

lemma relative_base_not_absolute:
  "\<not> is_absolute (resolve_path_against_base hp (rs ''x'') (components (rs ''base'')))"
proof -
  have "maybe_expand_home_directory hp (rs ''x'') = components (rs ''x'')"
    by (simp add: maybe_expand_home_directory_def rs_def split: option.splits)
  moreover have "\<not> is_absolute (absolutize_from (components (rs ''x'')) (components (rs ''base'')))" by code_simp
  ultimately show ?thesis by (simp add: resolve_path_against_base_def)
qed

end
