(* ===== verification/Net_Config.thy ===== *)
theory Net_Config
  imports Net_Hosts Absolute_Path
begin

text \<open>
  The settings of the network proxy (\<^verbatim>\<open>network-proxy/src/config.rs\<close>): domain and
  unix-socket permissions and the operations that update them, the addresses the
  proxy binds to, and the configuration types of the MITM hooks
  (\<^verbatim>\<open>network-proxy/src/mitm_hook.rs\<close>), which are part of the settings. The URL parser
  is third-party code and is a parameter.
\<close>

section \<open>Ordered maps\<close>

text \<open>
  A \<^verbatim>\<open>BTreeMap<String, _>\<close> is the list of its entries in the order of the keys; the
  byte order of strings is the order of their code points.
\<close>

fun str_less :: "rstr \<Rightarrow> rstr \<Rightarrow> bool" where
  "str_less s [] = False"
| "str_less [] (d # t) = True"
| "str_less (c # s) (d # t) = (c < d \<or> (c = d \<and> str_less s t))"

fun btree_insert :: "rstr \<Rightarrow> 'v \<Rightarrow> (rstr \<times> 'v) list \<Rightarrow> (rstr \<times> 'v) list" where
  "btree_insert k v [] = [(k, v)]"
| "btree_insert k v ((k', v') # m) =
     (if k = k' then (k, v) # m
      else if str_less k k' then (k, v) # (k', v') # m
      else (k', v') # btree_insert k v m)"

section \<open>Hook configuration\<close>

text \<open>A JSON value, as the body matcher of a hook holds one.\<close>

datatype json_value =
  JNull | JBool bool | JNumber rstr | JString rstr | JArray "json_value list" | JObject "(rstr \<times> json_value) list"

record mitm_hook_match_config =
  methods :: "rstr list"
  path_prefixes :: "rstr list"
  query :: "(rstr \<times> rstr list) list"
  headers :: "(rstr \<times> rstr list) list"
  body :: "json_value option"

record injected_header_config =
  header_name :: rstr
  secret_env_var :: "rstr option"
  secret_file :: "rstr option"
  header_prefix :: "rstr option"

record mitm_hook_actions_config =
  strip_request_headers :: "rstr list"
  inject_request_headers :: "injected_header_config list"

record mitm_hook_config =
  hook_host :: rstr
  matcher :: mitm_hook_match_config
  actions :: mitm_hook_actions_config

section \<open>Settings\<close>

datatype network_domain_permission = DomainNone | DomainAllow | DomainDeny

text \<open>The derived order: the variant order is the precedence.\<close>

fun permission_rank :: "network_domain_permission \<Rightarrow> nat" where
  "permission_rank DomainNone = 0"
| "permission_rank DomainAllow = 1"
| "permission_rank DomainDeny = 2"

record network_domain_permission_entry =
  pattern :: rstr
  permission :: network_domain_permission

datatype network_unix_socket_permission = SocketAllow | SocketDeny

datatype network_mode = Limited | Full

record network_proxy_settings =
  enabled :: bool
  proxy_url :: rstr
  enable_socks5 :: bool
  socks_url :: rstr
  enable_socks5_udp :: bool
  allow_upstream_proxy :: bool
  dangerously_allow_non_loopback_proxy :: bool
  dangerously_allow_all_unix_sockets :: bool
  mode :: network_mode
  domains :: "network_domain_permission_entry list option"
  unix_sockets :: "(rstr \<times> network_unix_socket_permission) list option"
  allow_local_binding :: bool
  mitm :: bool
  credential_broker :: bool
  dangerously_allow_plaintext_credential_injection :: bool
  mitm_hooks :: "mitm_hook_config list"

definition default_proxy_url :: rstr where "default_proxy_url = rs ''http://127.0.0.1:3128''"

definition default_socks_url :: rstr where "default_socks_url = rs ''http://127.0.0.1:8081''"

definition default_settings :: network_proxy_settings where
  "default_settings =
     \<lparr>enabled = False, proxy_url = default_proxy_url, enable_socks5 = True, socks_url = default_socks_url,
      enable_socks5_udp = True, allow_upstream_proxy = True, dangerously_allow_non_loopback_proxy = False,
      dangerously_allow_all_unix_sockets = False, mode = Full, domains = None, unix_sockets = None,
      allow_local_binding = False, mitm = False, credential_broker = False,
      dangerously_allow_plaintext_credential_injection = False, mitm_hooks = []\<rparr>"

definition set_credential_broker_enabled :: "bool \<Rightarrow> network_proxy_settings \<Rightarrow> network_proxy_settings" where
  "set_credential_broker_enabled on cfg = cfg\<lparr>credential_broker := on, mitm := mitm cfg \<or> on\<rparr>"

subsection \<open>Domain permissions\<close>

text \<open>The loop of \<^verbatim>\<open>effective_entries\<close>: the patterns in order, and the strongest permission of each.\<close>

definition record_entry ::
  "rstr list \<times> (rstr \<rightharpoonup> network_domain_permission) \<Rightarrow> network_domain_permission_entry
     \<Rightarrow> rstr list \<times> (rstr \<rightharpoonup> network_domain_permission)" where
  "record_entry acc entry =
     (case acc of (order, effective) \<Rightarrow>
        case effective (pattern entry) of
          None \<Rightarrow> (order @ [pattern entry], effective(pattern entry \<mapsto> permission entry))
        | Some p \<Rightarrow>
            if permission_rank (permission entry) > permission_rank p
            then (order, effective(pattern entry \<mapsto> permission entry)) else acc)"

fun take_entries ::
  "rstr list \<Rightarrow> (rstr \<rightharpoonup> network_domain_permission) \<Rightarrow> network_domain_permission_entry list" where
  "take_entries [] effective = []"
| "take_entries (pat # order) effective =
     (case effective pat of
        None \<Rightarrow> take_entries order effective
      | Some p \<Rightarrow> \<lparr>pattern = pat, permission = p\<rparr> # take_entries order (effective(pat := None)))"

definition effective_entries :: "network_domain_permission_entry list \<Rightarrow> network_domain_permission_entry list" where
  "effective_entries entries =
     (case foldl record_entry ([], Map.empty) entries of (order, effective) \<Rightarrow> take_entries order effective)"

definition domain_entries :: "network_domain_permission \<Rightarrow> network_proxy_settings \<Rightarrow> rstr list option" where
  "domain_entries perm cfg =
     (case domains cfg of
        None \<Rightarrow> None
      | Some entries \<Rightarrow>
          let found = map pattern (filter (\<lambda>entry. permission entry = perm) (effective_entries entries))
          in if found = [] then None else Some found)"

definition allowed_domains :: "network_proxy_settings \<Rightarrow> rstr list option" where
  "allowed_domains = domain_entries DomainAllow"

definition denied_domains :: "network_proxy_settings \<Rightarrow> rstr list option" where
  "denied_domains = domain_entries DomainDeny"

definition or_default :: "'a list option \<Rightarrow> 'a list" where
  "or_default x = (case x of Some xs \<Rightarrow> xs | None \<Rightarrow> [])"

definition some_unless_empty :: "'a list \<Rightarrow> 'a list option" where
  "some_unless_empty xs = (if xs = [] then None else Some xs)"

definition upsert_domain_permission ::
  "rstr \<Rightarrow> network_domain_permission \<Rightarrow> (rstr \<Rightarrow> rstr) \<Rightarrow> network_proxy_settings \<Rightarrow> network_proxy_settings" where
  "upsert_domain_permission host perm norm_host cfg =
     (let kept = filter (\<lambda>entry. norm_host (pattern entry) \<noteq> norm_host host) (or_default (domains cfg))
      in cfg\<lparr>domains := some_unless_empty (kept @ [\<lparr>pattern = host, permission = perm\<rparr>])\<rparr>)"

fun push_entries ::
  "network_domain_permission \<Rightarrow> network_domain_permission_entry list \<Rightarrow> rstr list
     \<Rightarrow> network_domain_permission_entry list" where
  "push_entries perm entries [] = entries"
| "push_entries perm entries (host # hosts) =
     push_entries perm
       (if list_ex (\<lambda>existing. pattern existing = host \<and> permission existing = perm) entries then entries
        else entries @ [\<lparr>pattern = host, permission = perm\<rparr>]) hosts"

definition set_domain_entries ::
  "rstr list \<Rightarrow> network_domain_permission \<Rightarrow> network_proxy_settings \<Rightarrow> network_proxy_settings" where
  "set_domain_entries hosts perm cfg =
     cfg\<lparr>domains := some_unless_empty
       (push_entries perm (filter (\<lambda>entry. permission entry \<noteq> perm) (or_default (domains cfg))) hosts)\<rparr>"

definition set_allowed_domains :: "rstr list \<Rightarrow> network_proxy_settings \<Rightarrow> network_proxy_settings" where
  "set_allowed_domains hosts = set_domain_entries hosts DomainAllow"

definition set_denied_domains :: "rstr list \<Rightarrow> network_proxy_settings \<Rightarrow> network_proxy_settings" where
  "set_denied_domains hosts = set_domain_entries hosts DomainDeny"

subsection \<open>Unix sockets\<close>

definition allow_unix_sockets :: "network_proxy_settings \<Rightarrow> rstr list" where
  "allow_unix_sockets cfg = map fst (filter (\<lambda>(_, perm). perm = SocketAllow) (or_default (unix_sockets cfg)))"

definition set_unix_socket_entries ::
  "rstr list \<Rightarrow> network_unix_socket_permission \<Rightarrow> network_proxy_settings \<Rightarrow> network_proxy_settings" where
  "set_unix_socket_entries sockets perm cfg =
     cfg\<lparr>unix_sockets := some_unless_empty
       (foldl (\<lambda>m socket. btree_insert socket perm m)
          (filter (\<lambda>(_, existing). existing \<noteq> perm) (or_default (unix_sockets cfg))) sockets)\<rparr>"

definition set_allow_unix_sockets :: "rstr list \<Rightarrow> network_proxy_settings \<Rightarrow> network_proxy_settings" where
  "set_allow_unix_sockets sockets = set_unix_socket_entries sockets SocketAllow"

fun allows_method :: "network_mode \<Rightarrow> rstr \<Rightarrow> bool" where
  "allows_method Full method = True"
| "allows_method Limited method = (method = rs ''GET'' \<or> method = rs ''HEAD'' \<or> method = rs ''OPTIONS'')"

section \<open>Errors\<close>

text \<open>The messages about hooks; \<open>InHook\<close> adds the hook's index and the field.\<close>

datatype hook_error =
    HooksRequireMitm
  | HostEmpty
  | HostWildcard
  | EmptyMethod
  | MethodsEmpty
  | EmptyPathPrefix
  | PathPrefixesEmpty
  | EmptyGlob
  | InvalidGlob rstr
  | BodyUnsupported
  | QueryKeyEmpty
  | QueryValuesEmpty rstr
  | InvalidHeaderName rstr
  | SecretEnvVarEmpty
  | SecretFileEmpty
  | SecretFileNotAbsolute rstr
  | ExactlyOneSecret
  | MissingEnvVar rstr
  | SecretFileUnreadable path
  | InvalidHeaderValue rstr
  | InHook nat rstr hook_error

text \<open>A printed value of a constraint error: a text, or a list of entries.\<close>

datatype printed = Text rstr | Entries "rstr list"

datatype net_error =
    MissingHost rstr
  | InvalidProxyUrl rstr net_error
  | InvalidSocksUrl rstr net_error
  | InvalidUnixSocket nat net_error
  | ExpectedAbsolutePath rstr
  | PathError path_error
  | HookConfigError hook_error
  | GlobError glob_error
  | BrokerRequiresMitm
  | MitmSetupFailed
  | InvalidValue rstr printed printed
  | InvalidHookConfiguration hook_error
  | BrokerChanged
  | ReloadFailed
  | InvalidHost
  | Constrained rstr net_error
  | CompileFailed rstr net_error

datatype validated_unix_socket_path = Native path | UnixStyleAbsolute rstr

definition validated_unix_socket_path_parse ::
  "host_paths \<Rightarrow> rstr \<Rightarrow> (net_error, validated_unix_socket_path) result" where
  "validated_unix_socket_path_parse hp socket_path =
     (if is_absolute (components socket_path)
      then result_map_err PathError (result_map Native (from_absolute_path hp socket_path))
      else if starts_with socket_path [47] then Ok (UnixStyleAbsolute socket_path)
      else Err (ExpectedAbsolutePath socket_path))"

fun validate_socket_paths :: "host_paths \<Rightarrow> nat \<Rightarrow> rstr list \<Rightarrow> (net_error, unit) result" where
  "validate_socket_paths hp index [] = Ok ()"
| "validate_socket_paths hp index (socket_path # socket_paths) =
     bind_result (result_map_err (InvalidUnixSocket index) (validated_unix_socket_path_parse hp socket_path))
       (\<lambda>_. validate_socket_paths hp (index + 1) socket_paths)"

definition validate_unix_socket_allowlist_paths :: "host_paths \<Rightarrow> network_proxy_settings \<Rightarrow> (net_error, unit) result" where
  "validate_unix_socket_allowlist_paths hp cfg = validate_socket_paths hp 0 (allow_unix_sockets cfg)"

section \<open>Listening addresses\<close>

type_synonym u16 = "16 word"

type_synonym socket_addr = "ip_addr \<times> u16"

definition localhost_ip :: ip_addr where
  "localhost_ip = V4 (octets_to_ipv4 [127, 0, 0, 1])"

definition clamp_non_loopback :: "socket_addr \<Rightarrow> bool \<Rightarrow> socket_addr" where
  "clamp_non_loopback addr allow_non_loopback =
     (if ip_is_loopback (fst addr) then addr
      else if allow_non_loopback then addr
      else (localhost_ip, snd addr))"

definition clamp_bind_addrs :: "socket_addr \<Rightarrow> socket_addr \<Rightarrow> network_proxy_settings \<Rightarrow> socket_addr \<times> socket_addr" where
  "clamp_bind_addrs http_addr socks_addr cfg =
     (let http_addr = clamp_non_loopback http_addr (dangerously_allow_non_loopback_proxy cfg);
          socks_addr = clamp_non_loopback socks_addr (dangerously_allow_non_loopback_proxy cfg)
      in if allow_unix_sockets cfg = [] \<and> \<not> dangerously_allow_all_unix_sockets cfg then (http_addr, socks_addr)
         else ((localhost_ip, snd http_addr), (localhost_ip, snd socks_addr)))"

text \<open>\<^verbatim>\<open>str::parse::<u16>\<close>.\<close>

definition parse_u16 :: "rstr \<Rightarrow> u16 option" where
  "parse_u16 s =
     (let ds = (case s of c # rest \<Rightarrow> if c = 43 \<and> rest \<noteq> [] then rest else s | [] \<Rightarrow> s) in
      if ds = [] \<or> \<not> list_all is_ascii_digit ds then None
      else let n = foldl (\<lambda>n c. n * 10 + (c - 48)) 0 ds in if n < 65536 then Some (word_of_int n) else None)"

definition port_or :: "u16 \<Rightarrow> rstr \<Rightarrow> u16" where
  "port_or default_port s = (case parse_u16 s of Some port \<Rightarrow> port | None \<Rightarrow> default_port)"

definition parse_host_port_fallback :: "rstr \<Rightarrow> u16 \<Rightarrow> (net_error, rstr \<times> u16) result" where
  "parse_host_port_fallback input default_port =
     (let without_scheme = (case split_once_str (rs ''://'') input of Some (_, rest) \<Rightarrow> rest | None \<Rightarrow> input);
          host_port = hd (split_char 47 without_scheme);
          host_port = (case rsplit_once 64 host_port of Some (_, rest) \<Rightarrow> rest | None \<Rightarrow> host_port)
      in case (if starts_with host_port [91] then find_str [93] host_port else None) of
           Some e \<Rightarrow>
             let host = take (e - 1) (drop 1 host_port);
                 port = (case strip_prefix [58] (drop (e + 1) host_port) of
                           Some port \<Rightarrow> port_or default_port port | None \<Rightarrow> default_port)
             in if host = [] then Err (MissingHost input) else Ok (host, port)
         | None \<Rightarrow>
             (case (if length (filter (\<lambda>c. c = 58) host_port) = 1 then rsplit_once 58 host_port else None) of
                Some (host, port) \<Rightarrow>
                  if host = [] then Err (MissingHost input) else Ok (host, port_or default_port port)
              | None \<Rightarrow> if host_port = [] then Err (MissingHost input) else Ok (host_port, default_port)))"

text \<open>\<open>url_parse\<close> is \<^verbatim>\<open>Url::parse\<close>, giving \<^verbatim>\<open>host_str\<close> and \<^verbatim>\<open>port\<close>.\<close>

definition trim_brackets :: "rstr \<Rightarrow> rstr" where
  "trim_brackets s =
     rev (dropWhile (\<lambda>c. c = 91 \<or> c = 93) (rev (dropWhile (\<lambda>c. c = 91 \<or> c = 93) s)))"

definition is_v6 :: "rstr \<Rightarrow> bool" where
  "is_v6 s = (case parse_ip s of Some (V6 _) \<Rightarrow> True | _ \<Rightarrow> False)"

definition parse_host_port ::
  "(rstr \<Rightarrow> (rstr option \<times> u16 option) option) \<Rightarrow> rstr \<Rightarrow> u16 \<Rightarrow> (net_error, rstr \<times> u16) result" where
  "parse_host_port url_parse url default_port =
     (let trimmed = trim url in
      if trimmed = [] then Err (MissingHost url)
      else if is_v6 trimmed \<and> \<not> starts_with trimmed [91] then Ok (trimmed, default_port)
      else
        let candidate = (if contains_str trimmed (rs ''://'') then trimmed else rs ''http://'' @ trimmed) in
        case url_parse candidate of
          Some (Some host, port) \<Rightarrow>
            let host = trim_brackets host in
            if host = [] then Err (MissingHost url)
            else Ok (host, case port of Some p \<Rightarrow> p | None \<Rightarrow> default_port)
        | _ \<Rightarrow> parse_host_port_fallback trimmed default_port)"

definition format_host_and_port :: "rstr \<Rightarrow> u16 \<Rightarrow> rstr" where
  "format_host_and_port host port =
     (if 58 \<in> set host then [91] @ host @ rs '']:'' @ decimal (unat port) else host @ [58] @ decimal (unat port))"

definition host_and_port_from_network_addr ::
  "(rstr \<Rightarrow> (rstr option \<times> u16 option) option) \<Rightarrow> rstr \<Rightarrow> u16 \<Rightarrow> rstr" where
  "host_and_port_from_network_addr url_parse val default_port =
     (let trimmed = trim val in
      if trimmed = [] then rs ''<missing>''
      else case parse_host_port url_parse trimmed default_port of
        Ok (host, port) \<Rightarrow> format_host_and_port host port
      | Err _ \<Rightarrow> format_host_and_port trimmed default_port)"

definition resolve_addr ::
  "(rstr \<Rightarrow> (rstr option \<times> u16 option) option) \<Rightarrow> rstr \<Rightarrow> u16 \<Rightarrow> (net_error, socket_addr) result" where
  "resolve_addr url_parse url default_port =
     result_map (\<lambda>(host, port).
       let host = (if to_ascii_lowercase host = rs ''localhost'' then rs ''127.0.0.1'' else host)
       in case parse_ip host of Some ip \<Rightarrow> (ip, port) | None \<Rightarrow> (localhost_ip, port))
       (parse_host_port url_parse url default_port)"

definition resolve_runtime ::
  "host_paths \<Rightarrow> (rstr \<Rightarrow> (rstr option \<times> u16 option) option) \<Rightarrow> network_proxy_settings
     \<Rightarrow> (net_error, socket_addr \<times> socket_addr) result" where
  "resolve_runtime hp url_parse cfg =
     bind_result (validate_unix_socket_allowlist_paths hp cfg) (\<lambda>_.
     bind_result (result_map_err (InvalidProxyUrl (proxy_url cfg)) (resolve_addr url_parse (proxy_url cfg) 3128)) (\<lambda>http_addr.
     bind_result (result_map_err (InvalidSocksUrl (socks_url cfg)) (resolve_addr url_parse (socks_url cfg) 8081)) (\<lambda>socks_addr.
       Ok (clamp_bind_addrs http_addr socks_addr cfg))))"

end
