(* ===== verification/Net_Hooks.thy ===== *)
theory Net_Hooks
  imports Net_Config
begin

text \<open>
  The MITM hooks of the network proxy (\<^verbatim>\<open>network-proxy/src/mitm_hook.rs\<close>): validation and
  compilation of the configured hooks and their evaluation on a request. Header
  names and values, glob matchers and the parser of query strings are third-party
  code; the environment and the secret files belong to the host. All of them are
  fields of the parameter \<open>hook_library\<close>.
\<close>

record hook_library =
  header_name_from_bytes :: "rstr \<Rightarrow> rstr option"
  header_value_from_str :: "rstr \<Rightarrow> rstr option"
  glob_builds :: "bool \<Rightarrow> rstr \<Rightarrow> bool"
  glob_is_match :: "bool \<Rightarrow> rstr \<Rightarrow> rstr \<Rightarrow> bool"
  form_urlencoded_parse :: "rstr \<Rightarrow> (rstr \<times> rstr) list"
  env_var :: "rstr \<Rightarrow> rstr option"
  read_to_string :: "path \<Rightarrow> rstr option"
  paths :: host_paths

section \<open>Compiled hooks\<close>

text \<open>A compiled glob: whether a separator has to be matched literally, and the pattern.\<close>

type_synonym compiled_glob_matcher = "bool \<times> rstr"

datatype path_matcher = PathPrefix rstr | PathGlob compiled_glob_matcher

datatype value_matcher = ExactValue rstr | ValueGlob compiled_glob_matcher

datatype matcher_pattern = LiteralPattern rstr | GlobPattern rstr

datatype secret_source = EnvVar rstr | SecretFile path

record resolved_injected_header =
  injected_name :: rstr
  injected_value :: rstr
  injected_source :: secret_source

record mitm_hook_actions =
  strip_headers :: "rstr list"
  inject_headers :: "resolved_injected_header list"

record mitm_hook_matcher =
  matcher_methods :: "rstr list"
  matcher_paths :: "path_matcher list"
  matcher_query :: "(rstr \<times> value_matcher list) list"
  matcher_headers :: "(rstr \<times> value_matcher list) list"
  matcher_body :: "json_value option"

record mitm_hook =
  mitm_hook_host :: rstr
  mitm_hook_matcher :: mitm_hook_matcher
  mitm_hook_actions :: mitm_hook_actions

type_synonym mitm_hooks_by_host = "rstr \<rightharpoonup> mitm_hook list"

datatype hook_evaluation = NoHooksForHost | Matched mitm_hook_actions | HookedHostNoMatch

text \<open>
  The parts of a request that hooks look at. A header value that is not visible
  text (\<^verbatim>\<open>to_str\<close> fails) is \<open>None\<close>.
\<close>

record http_request =
  request_method :: rstr
  request_path :: rstr
  request_query :: "rstr option"
  request_headers :: "(rstr \<times> rstr option) list"

section \<open>Reading the configuration\<close>

definition to_ascii_uppercase :: "rstr \<Rightarrow> rstr" where
  "to_ascii_uppercase s = map (\<lambda>c. if 97 \<le> c \<and> c \<le> 122 then c - 32 else c) s"

definition parse_matcher_pattern :: "rstr \<Rightarrow> (hook_error, matcher_pattern) result" where
  "parse_matcher_pattern s =
     (case strip_prefix (rs ''literal:'') s of
        Some literal \<Rightarrow> Ok (LiteralPattern literal)
      | None \<Rightarrow>
          (case strip_prefix (rs ''pattern:'') s of
             None \<Rightarrow> Ok (LiteralPattern s)
           | Some glob_pattern \<Rightarrow> if glob_pattern = [] then Err EmptyGlob else Ok (GlobPattern glob_pattern)))"

definition compile_glob_matcher :: "hook_library \<Rightarrow> rstr \<Rightarrow> bool \<Rightarrow> (hook_error, compiled_glob_matcher) result" where
  "compile_glob_matcher lib pat literal_separator =
     (if glob_builds lib literal_separator pat then Ok (literal_separator, pat) else Err (InvalidGlob pat))"

definition compile_path_matcher :: "hook_library \<Rightarrow> rstr \<Rightarrow> (hook_error, path_matcher) result" where
  "compile_path_matcher lib s =
     bind_result (parse_matcher_pattern s) (\<lambda>p.
       case p of
         LiteralPattern pre \<Rightarrow> if pre = [] then Err EmptyPathPrefix else Ok (PathPrefix pre)
       | GlobPattern glob_pattern \<Rightarrow> result_map PathGlob (compile_glob_matcher lib glob_pattern True))"

definition compile_path_matchers :: "hook_library \<Rightarrow> rstr list \<Rightarrow> (hook_error, path_matcher list) result" where
  "compile_path_matchers lib pres = collect_results (compile_path_matcher lib) pres"

definition compile_value_matcher :: "hook_library \<Rightarrow> rstr \<Rightarrow> (hook_error, value_matcher) result" where
  "compile_value_matcher lib s =
     bind_result (parse_matcher_pattern s) (\<lambda>p.
       case p of
         LiteralPattern v \<Rightarrow> Ok (ExactValue v)
       | GlobPattern glob_pattern \<Rightarrow> result_map ValueGlob (compile_glob_matcher lib glob_pattern False))"

definition compile_value_matchers :: "hook_library \<Rightarrow> rstr list \<Rightarrow> (hook_error, value_matcher list) result" where
  "compile_value_matchers lib vals = collect_results (compile_value_matcher lib) vals"

definition normalize_hook_host :: "rstr \<Rightarrow> (hook_error, rstr) result" where
  "normalize_hook_host host =
     (let normalized = normalize_host host in
      if normalized = [] then Err HostEmpty
      else if 42 \<in> set normalized then Err HostWildcard
      else Ok normalized)"

definition normalize_method :: "rstr \<Rightarrow> (hook_error, rstr) result" where
  "normalize_method m = (let normalized = to_ascii_uppercase (trim m) in if normalized = [] then Err EmptyMethod else Ok normalized)"

definition normalize_methods :: "rstr list \<Rightarrow> (hook_error, rstr list) result" where
  "normalize_methods ms = collect_results normalize_method ms"

definition normalize_query_name :: "rstr \<Rightarrow> (hook_error, rstr) result" where
  "normalize_query_name name = (if name = [] then Err QueryKeyEmpty else Ok name)"

fun validate_query_constraints :: "hook_library \<Rightarrow> (rstr \<times> rstr list) list \<Rightarrow> (hook_error, unit) result" where
  "validate_query_constraints lib [] = Ok ()"
| "validate_query_constraints lib ((name, vals) # rest) =
     bind_result (normalize_query_name name) (\<lambda>normalized.
       if normalized = [] then Err QueryKeyEmpty
       else if vals = [] then Err (QueryValuesEmpty name)
       else bind_result (compile_value_matchers lib vals) (\<lambda>_. validate_query_constraints lib rest))"

definition parse_header_name :: "hook_library \<Rightarrow> rstr \<Rightarrow> (hook_error, rstr) result" where
  "parse_header_name lib name =
     (case header_name_from_bytes lib name of Some n \<Rightarrow> Ok n | None \<Rightarrow> Err (InvalidHeaderName name))"

fun validate_header_constraints :: "hook_library \<Rightarrow> (rstr \<times> rstr list) list \<Rightarrow> (hook_error, unit) result" where
  "validate_header_constraints lib [] = Ok ()"
| "validate_header_constraints lib ((name, vals) # rest) =
     bind_result (parse_header_name lib name) (\<lambda>_.
     bind_result (compile_value_matchers lib vals) (\<lambda>_. validate_header_constraints lib rest))"

definition validate_strip_request_headers :: "hook_library \<Rightarrow> rstr list \<Rightarrow> (hook_error, unit) result" where
  "validate_strip_request_headers lib names = result_map (\<lambda>_. ()) (collect_results (parse_header_name lib) names)"

definition parse_secret_file :: "hook_library \<Rightarrow> rstr \<Rightarrow> (hook_error, path) result" where
  "parse_secret_file lib s =
     (if trim s = [] then Err SecretFileEmpty
      else if \<not> is_absolute (components s) then Err (SecretFileNotAbsolute s)
      else result_map_err (\<lambda>_. SecretFileNotAbsolute s) (from_absolute_path (paths lib) s))"

definition validate_injected_header :: "hook_library \<Rightarrow> injected_header_config \<Rightarrow> (hook_error, unit) result" where
  "validate_injected_header lib h =
     bind_result (parse_header_name lib (header_name h)) (\<lambda>_.
       case (secret_env_var h, secret_file h) of
         (Some var, None) \<Rightarrow> if trim var = [] then Err SecretEnvVarEmpty else Ok ()
       | (None, Some file) \<Rightarrow> result_map (\<lambda>_. ()) (parse_secret_file lib file)
       | _ \<Rightarrow> Err ExactlyOneSecret)"

definition validate_injected_headers :: "hook_library \<Rightarrow> injected_header_config list \<Rightarrow> (hook_error, unit) result" where
  "validate_injected_headers lib hs = result_map (\<lambda>_. ()) (collect_results (validate_injected_header lib) hs)"

section \<open>Validation\<close>

definition validate_hook :: "hook_library \<Rightarrow> nat \<Rightarrow> mitm_hook_config \<Rightarrow> (hook_error, unit) result" where
  "validate_hook lib hook_index hook =
     (let m = matcher hook; a = actions hook in
      bind_result (result_map_err (InHook hook_index (rs ''host'')) (normalize_hook_host (hook_host hook))) (\<lambda>host.
      bind_result (result_map_err (InHook hook_index (rs ''match.methods'')) (normalize_methods (methods m))) (\<lambda>ms.
      if ms = [] then Err (InHook hook_index (rs ''match.methods'') MethodsEmpty)
      else bind_result (result_map_err (InHook hook_index (rs ''match.path_prefixes''))
             (compile_path_matchers lib (path_prefixes m))) (\<lambda>ps.
      if ps = [] then Err (InHook hook_index (rs ''match.path_prefixes'') PathPrefixesEmpty)
      else if body m \<noteq> None then Err (InHook hook_index (rs ''match.body'') BodyUnsupported)
      else bind_result (result_map_err (InHook hook_index (rs ''match.query'')) (validate_query_constraints lib (query m))) (\<lambda>_.
      bind_result (result_map_err (InHook hook_index (rs ''match.headers'')) (validate_header_constraints lib (headers m))) (\<lambda>_.
      bind_result (result_map_err (InHook hook_index (rs ''actions.strip_request_headers''))
             (validate_strip_request_headers lib (strip_request_headers a))) (\<lambda>_.
      bind_result (result_map_err (InHook hook_index (rs ''actions.inject_request_headers''))
             (validate_injected_headers lib (inject_request_headers a))) (\<lambda>_.
      if host = [] then Err (InHook hook_index (rs ''host'') HostEmpty) else Ok ()))))))))"

fun validate_hooks_from :: "hook_library \<Rightarrow> nat \<Rightarrow> mitm_hook_config list \<Rightarrow> (hook_error, unit) result" where
  "validate_hooks_from lib hook_index [] = Ok ()"
| "validate_hooks_from lib hook_index (hook # hooks) =
     bind_result (validate_hook lib hook_index hook) (\<lambda>_. validate_hooks_from lib (hook_index + 1) hooks)"

definition validate_mitm_hook_config :: "hook_library \<Rightarrow> network_proxy_settings \<Rightarrow> (hook_error, unit) result" where
  "validate_mitm_hook_config lib cfg =
     (if mitm_hooks cfg = [] then Ok ()
      else if \<not> mitm cfg then Err HooksRequireMitm
      else validate_hooks_from lib 0 (mitm_hooks cfg))"

section \<open>Compilation\<close>

definition compile_injected_header ::
  "hook_library \<Rightarrow> injected_header_config \<Rightarrow> (hook_error, resolved_injected_header) result" where
  "compile_injected_header lib h =
     bind_result (parse_header_name lib (header_name h)) (\<lambda>name.
     bind_result
       (case (secret_env_var h, secret_file h) of
          (Some var, None) \<Rightarrow>
            (case env_var lib var of Some v \<Rightarrow> Ok (v, EnvVar var) | None \<Rightarrow> Err (MissingEnvVar var))
        | (None, Some file) \<Rightarrow>
            bind_result (parse_secret_file lib file) (\<lambda>p.
              case read_to_string lib p of
                Some v \<Rightarrow> Ok (trim v, SecretFile p)
              | None \<Rightarrow> Err (SecretFileUnreadable p))
        | _ \<Rightarrow> Err ExactlyOneSecret)
       (\<lambda>(secret, source).
          case header_value_from_str lib ((case header_prefix h of Some p \<Rightarrow> p | None \<Rightarrow> []) @ secret) of
            Some v \<Rightarrow> Ok \<lparr>injected_name = name, injected_value = v, injected_source = source\<rparr>
          | None \<Rightarrow> Err (InvalidHeaderValue (header_name h))))"

definition compile_hook :: "hook_library \<Rightarrow> mitm_hook_config \<Rightarrow> (hook_error, mitm_hook) result" where
  "compile_hook lib hook =
     (let m = matcher hook; a = actions hook in
      bind_result (normalize_hook_host (hook_host hook)) (\<lambda>host.
      bind_result (normalize_methods (methods m)) (\<lambda>ms.
      bind_result (compile_path_matchers lib (path_prefixes m)) (\<lambda>ps.
      bind_result (collect_results (\<lambda>(name, vals).
          bind_result (normalize_query_name name) (\<lambda>n.
            result_map (\<lambda>allowed. (n, allowed)) (compile_value_matchers lib vals))) (query m)) (\<lambda>qs.
      bind_result (collect_results (\<lambda>(name, vals).
          bind_result (parse_header_name lib name) (\<lambda>n.
            result_map (\<lambda>allowed. (n, allowed)) (compile_value_matchers lib vals))) (headers m)) (\<lambda>hs.
      bind_result (collect_results (parse_header_name lib) (strip_request_headers a)) (\<lambda>strip.
      bind_result (collect_results (compile_injected_header lib) (inject_request_headers a)) (\<lambda>inject.
        Ok \<lparr>mitm_hook_host = host,
            mitm_hook_matcher = \<lparr>matcher_methods = ms, matcher_paths = ps, matcher_query = qs, matcher_headers = hs,
              matcher_body = None\<rparr>,
            mitm_hook_actions = \<lparr>strip_headers = strip, inject_headers = inject\<rparr>\<rparr>))))))))"

definition add_hook :: "mitm_hook \<Rightarrow> mitm_hooks_by_host \<Rightarrow> mitm_hooks_by_host" where
  "add_hook hook by_host =
     by_host(mitm_hook_host hook \<mapsto>
       (case by_host (mitm_hook_host hook) of Some hooks \<Rightarrow> hooks | None \<Rightarrow> []) @ [hook])"

fun compile_hooks_into ::
  "hook_library \<Rightarrow> mitm_hooks_by_host \<Rightarrow> mitm_hook_config list \<Rightarrow> (hook_error, mitm_hooks_by_host) result" where
  "compile_hooks_into lib by_host [] = Ok by_host"
| "compile_hooks_into lib by_host (hook # hooks) =
     bind_result (compile_hook lib hook) (\<lambda>h. compile_hooks_into lib (add_hook h by_host) hooks)"

definition compile_mitm_hooks :: "hook_library \<Rightarrow> network_proxy_settings \<Rightarrow> (hook_error, mitm_hooks_by_host) result" where
  "compile_mitm_hooks lib cfg =
     bind_result (validate_mitm_hook_config lib cfg) (\<lambda>_. compile_hooks_into lib Map.empty (mitm_hooks cfg))"

section \<open>Evaluation\<close>

fun path_matcher_matches :: "hook_library \<Rightarrow> path_matcher \<Rightarrow> rstr \<Rightarrow> bool" where
  "path_matcher_matches lib (PathPrefix pre) candidate = starts_with candidate pre"
| "path_matcher_matches lib (PathGlob (sep, pat)) candidate = glob_is_match lib sep pat candidate"

fun value_matcher_matches :: "hook_library \<Rightarrow> value_matcher \<Rightarrow> rstr \<Rightarrow> bool" where
  "value_matcher_matches lib (ExactValue v) candidate = (v = candidate)"
| "value_matcher_matches lib (ValueGlob (sep, pat)) candidate = glob_is_match lib sep pat candidate"

definition path_matches :: "hook_library \<Rightarrow> path_matcher list \<Rightarrow> rstr \<Rightarrow> bool" where
  "path_matches lib ms candidate = list_ex (\<lambda>m. path_matcher_matches lib m candidate) ms"

definition any_allowed :: "hook_library \<Rightarrow> value_matcher list \<Rightarrow> rstr \<Rightarrow> bool" where
  "any_allowed lib allowed candidate = list_ex (\<lambda>m. value_matcher_matches lib m candidate) allowed"

text \<open>The values of a name are those the map built from the query lists for it, in order.\<close>

definition query_matches :: "hook_library \<Rightarrow> (rstr \<times> value_matcher list) list \<Rightarrow> http_request \<Rightarrow> bool" where
  "query_matches lib constraints req =
     (if constraints = [] then True
      else
        let actual = form_urlencoded_parse lib (case request_query req of Some q \<Rightarrow> q | None \<Rightarrow> []) in
        list_all (\<lambda>(name, allowed).
          list_ex (any_allowed lib allowed) (map snd (filter (\<lambda>(n, _). n = name) actual))) constraints)"

definition headers_match :: "hook_library \<Rightarrow> (rstr \<times> value_matcher list) list \<Rightarrow> http_request \<Rightarrow> bool" where
  "headers_match lib constraints req =
     list_all (\<lambda>(name, allowed).
       let actual = map snd (filter (\<lambda>(n, _). n = name) (request_headers req)) in
       if actual = [] then False
       else if allowed = [] then True
       else list_ex (\<lambda>v. case v of Some candidate \<Rightarrow> any_allowed lib allowed candidate | None \<Rightarrow> False) actual) constraints"

definition hook_matches :: "hook_library \<Rightarrow> mitm_hook \<Rightarrow> http_request \<Rightarrow> bool" where
  "hook_matches lib hook req =
     (let m = mitm_hook_matcher hook; method = to_ascii_uppercase (request_method req) in
      if \<not> list_ex (\<lambda>allowed. allowed = method) (matcher_methods m) then False
      else if \<not> path_matches lib (matcher_paths m) (request_path req) then False
      else if \<not> query_matches lib (matcher_query m) req then False
      else headers_match lib (matcher_headers m) req)"

fun first_matching_hook :: "hook_library \<Rightarrow> mitm_hook list \<Rightarrow> http_request \<Rightarrow> hook_evaluation" where
  "first_matching_hook lib [] req = HookedHostNoMatch"
| "first_matching_hook lib (hook # hooks) req =
     (if hook_matches lib hook req then Matched (mitm_hook_actions hook) else first_matching_hook lib hooks req)"

definition evaluate_mitm_hooks :: "hook_library \<Rightarrow> mitm_hooks_by_host \<Rightarrow> rstr \<Rightarrow> http_request \<Rightarrow> hook_evaluation" where
  "evaluate_mitm_hooks lib by_host host req =
     (case by_host (normalize_host host) of
        None \<Rightarrow> NoHooksForHost
      | Some hooks \<Rightarrow> first_matching_hook lib hooks req)"

end
