(* ===== verification/Net_Constraints.thy ===== *)
theory Net_Constraints
  imports Net_Hooks
begin

text \<open>
  Managed constraints on the proxy's settings and the state compiled from settings
  (\<^verbatim>\<open>network-proxy/src/state.rs\<close>). The parameter \<open>net_library\<close> gathers the third-party
  code: the glob library, the hook library, the URL parser for hosts, and the set-up
  of the TLS interception (certificates and connectors).
\<close>

record network_proxy_constraints =
  max_enabled :: "bool option"
  max_mode :: "network_mode option"
  max_upstream_proxy :: "bool option"
  max_non_loopback_proxy :: "bool option"
  max_all_unix_sockets :: "bool option"
  managed_allowed_domains :: "rstr list option"
  allowlist_expansion_enabled :: "bool option"
  managed_denied_domains :: "rstr list option"
  denylist_expansion_enabled :: "bool option"
  managed_unix_sockets :: "rstr list option"
  max_local_binding :: "bool option"

record ('g, 'm) net_library =
  globs :: "'g glob_library"
  hooks_lib :: hook_library
  url_host :: "rstr \<Rightarrow> rstr option"
  mitm_new :: "bool \<Rightarrow> bool \<Rightarrow> 'm option"

record blocked_request =
  blocked_host :: rstr
  blocked_reason :: rstr
  blocked_client :: "rstr option"
  blocked_method :: "rstr option"
  blocked_mode :: "network_mode option"
  blocked_protocol :: rstr
  blocked_decision :: "rstr option"
  blocked_source :: "rstr option"
  blocked_port :: "u16 option"
  blocked_timestamp :: int

record ('g, 'm) config_state =
  config :: network_proxy_settings
  allow_set :: 'g
  deny_set :: 'g
  mitm_state :: "'m option"
  compiled_hooks :: mitm_hooks_by_host
  constraints :: network_proxy_constraints
  blocked :: "blocked_request list"
  blocked_total :: "64 word"

section \<open>Validation\<close>

fun network_mode_rank :: "network_mode \<Rightarrow> nat" where
  "network_mode_rank Limited = 0"
| "network_mode_rank Full = 1"

definition validate_non_global_wildcard_domain_patterns :: "rstr \<Rightarrow> rstr list \<Rightarrow> (net_error, unit) result" where
  "validate_non_global_wildcard_domain_patterns field_name patterns =
     (case find is_global_wildcard_domain_pattern patterns of
        Some pat \<Rightarrow>
          Err (InvalidValue field_name (Text (trim pat))
            (Text (rs ''exact hosts or scoped wildcards like *.example.com or **.example.com'')))
      | None \<Rightarrow> Ok ())"

definition disabled_by_managed_config :: "rstr \<Rightarrow> bool \<Rightarrow> (net_error, unit) result" where
  "disabled_by_managed_config field_name violated =
     (if violated
      then Err (InvalidValue field_name (Text (rs ''true'')) (Text (rs ''false (disabled by managed config)'')))
      else Ok ())"

fun mode_text :: "network_mode \<Rightarrow> rstr" where
  "mode_text Limited = rs ''Limited''"
| "mode_text Full = rs ''Full''"

definition validate_mode :: "network_mode \<Rightarrow> network_mode option \<Rightarrow> (net_error, unit) result" where
  "validate_mode candidate limit =
     (case limit of
        Some m \<Rightarrow>
          if network_mode_rank candidate > network_mode_rank m
          then Err (InvalidValue (rs ''network.mode'') (Text (mode_text candidate))
                 (Text (mode_text m @ rs '' or more restrictive'')))
          else Ok ()
      | None \<Rightarrow> Ok ())"

text \<open>A set of lower-cased entries; the code's sets have no order, the model lists entries in the given order.\<close>

definition lower_set :: "rstr list \<Rightarrow> rstr set" where
  "lower_set xs = set (map to_ascii_lowercase xs)"

definition missing_entries :: "rstr list \<Rightarrow> rstr set \<Rightarrow> rstr list" where
  "missing_entries required present =
     filter (\<lambda>entry. entry \<notin> present) (remdups (map to_ascii_lowercase required))"

definition validate_allowed_domains ::
  "(rstr \<Rightarrow> rstr option) \<Rightarrow> rstr list \<Rightarrow> rstr list \<Rightarrow> rstr list \<Rightarrow> bool option \<Rightarrow> (net_error, unit) result" where
  "validate_allowed_domains uh candidate denied managed expansion =
     (let field_name = rs ''network.allowed_domains''; overrides = lower_set denied in
      bind_result (validate_non_global_wildcard_domain_patterns field_name managed) (\<lambda>_.
        case expansion of
          Some True \<Rightarrow>
            let missing = missing_entries managed (lower_set candidate \<union> overrides) in
            if missing = [] then Ok ()
            else Err (InvalidValue field_name (Text (rs ''missing managed allowed_domains entries'')) (Entries missing))
        | Some False \<Rightarrow>
            if lower_set candidate = lower_set managed - overrides then Ok ()
            else Err (InvalidValue field_name (Entries candidate) (Text (rs ''must match managed allowed_domains'')))
        | None \<Rightarrow>
            let managed_patterns = map (parse_for_constraints uh) managed;
                invalid = filter (\<lambda>entry.
                  \<not> list_ex (\<lambda>m. pattern_allows m (parse_for_constraints uh entry)) managed_patterns) candidate
            in if invalid = [] then Ok ()
               else Err (InvalidValue field_name (Entries invalid) (Text (rs ''subset of managed allowed_domains'')))))"

definition validate_denied_domains ::
  "rstr list \<Rightarrow> rstr list \<Rightarrow> bool option \<Rightarrow> (net_error, unit) result" where
  "validate_denied_domains candidate managed expansion =
     (let field_name = rs ''network.denied_domains'' in
      bind_result (validate_non_global_wildcard_domain_patterns field_name managed) (\<lambda>_.
        if expansion = Some False
        then (if lower_set candidate = lower_set managed then Ok ()
              else Err (InvalidValue field_name (Entries candidate) (Text (rs ''must match managed denied_domains''))))
        else
          let missing = missing_entries managed (lower_set candidate) in
          if missing = [] then Ok ()
          else Err (InvalidValue field_name (Text (rs ''missing managed denied_domains entries'')) (Entries missing))))"

definition validate_unix_sockets :: "rstr list \<Rightarrow> rstr list \<Rightarrow> (net_error, unit) result" where
  "validate_unix_sockets candidate managed =
     (let invalid = filter (\<lambda>entry. to_ascii_lowercase entry \<notin> lower_set managed) candidate in
      if invalid = [] then Ok ()
      else Err (InvalidValue (rs ''network.allow_unix_sockets'') (Entries invalid)
             (Text (rs ''subset of managed allow_unix_sockets''))))"

definition validate_policy_against_constraints ::
  "('g, 'm) net_library \<Rightarrow> network_proxy_settings \<Rightarrow> network_proxy_constraints \<Rightarrow> (net_error, unit) result" where
  "validate_policy_against_constraints lib cfg c =
     (let config_allowed_domains = or_default (allowed_domains cfg);
          config_denied_domains = or_default (denied_domains cfg);
          allow_all_unix_sockets =
            (case max_all_unix_sockets c of Some b \<Rightarrow> b | None \<Rightarrow> managed_unix_sockets c = None)
      in
      bind_result (result_map_err InvalidHookConfiguration (validate_mitm_hook_config (hooks_lib lib) cfg)) (\<lambda>_.
      bind_result (validate_non_global_wildcard_domain_patterns (rs ''network.denied_domains'') config_denied_domains) (\<lambda>_.
      bind_result (disabled_by_managed_config (rs ''network.enabled'') (enabled cfg \<and> max_enabled c = Some False)) (\<lambda>_.
      bind_result (validate_mode (mode cfg) (max_mode c)) (\<lambda>_.
      bind_result (disabled_by_managed_config (rs ''network.allow_upstream_proxy'')
        (max_upstream_proxy c = Some False \<and> allow_upstream_proxy cfg)) (\<lambda>_.
      bind_result (disabled_by_managed_config (rs ''network.dangerously_allow_non_loopback_proxy'')
        (max_non_loopback_proxy c = Some False \<and> dangerously_allow_non_loopback_proxy cfg)) (\<lambda>_.
      bind_result (disabled_by_managed_config (rs ''network.dangerously_allow_all_unix_sockets'')
        (dangerously_allow_all_unix_sockets cfg \<and> \<not> allow_all_unix_sockets)) (\<lambda>_.
      bind_result (disabled_by_managed_config (rs ''network.allow_local_binding'')
        (allow_local_binding cfg \<and> max_local_binding c = Some False)) (\<lambda>_.
      bind_result (case managed_allowed_domains c of
          Some managed \<Rightarrow>
            validate_allowed_domains (url_host lib) config_allowed_domains config_denied_domains managed
              (allowlist_expansion_enabled c)
        | None \<Rightarrow> Ok ()) (\<lambda>_.
      bind_result (case managed_denied_domains c of
          Some managed \<Rightarrow> validate_denied_domains config_denied_domains managed (denylist_expansion_enabled c)
        | None \<Rightarrow> Ok ()) (\<lambda>_.
      (case managed_unix_sockets c of
          Some managed \<Rightarrow> validate_unix_sockets (allow_unix_sockets cfg) managed
        | None \<Rightarrow> Ok ()))))))))))))"

section \<open>The compiled state\<close>

definition build_config_state ::
  "('g, 'm) net_library \<Rightarrow> network_proxy_settings \<Rightarrow> network_proxy_constraints
     \<Rightarrow> (net_error, ('g, 'm) config_state) result" where
  "build_config_state lib cfg c =
     bind_result (validate_unix_socket_allowlist_paths (paths (hooks_lib lib)) cfg) (\<lambda>_.
     if credential_broker cfg \<and> \<not> mitm cfg then Err BrokerRequiresMitm
     else
       let allowed = or_default (allowed_domains cfg); denied = or_default (denied_domains cfg) in
       bind_result (validate_non_global_wildcard_domain_patterns (rs ''network.denied_domains'') denied) (\<lambda>_.
       bind_result (result_map_err GlobError (compile_denylist_globset (globs lib) denied)) (\<lambda>deny_set.
       bind_result (result_map_err GlobError (compile_allowlist_globset (globs lib) allowed)) (\<lambda>allow_set.
       bind_result (result_map_err HookConfigError (compile_mitm_hooks (hooks_lib lib) cfg)) (\<lambda>hooks.
       bind_result
         (if mitm cfg
          then (case mitm_new lib (allow_upstream_proxy cfg) (allow_local_binding cfg) of
                  Some m \<Rightarrow> Ok (Some m) | None \<Rightarrow> Err MitmSetupFailed)
          else Ok None)
         (\<lambda>m. Ok \<lparr>config = cfg, allow_set = allow_set, deny_set = deny_set, mitm_state = m,
                  compiled_hooks = hooks, constraints = c, blocked = [], blocked_total = 0\<rparr>))))))"

end
