(* ===== verification/Net_Proxy.thy ===== *)
theory Net_Proxy
  imports Net_Constraints
begin

text \<open>
  The state of the running proxy and its operations
  (\<^verbatim>\<open>network-proxy/src/runtime.rs\<close>), the decision about a request
  (\<^verbatim>\<open>network_policy.rs\<close>) and the check of a connection's target
  (\<^verbatim>\<open>connect_policy.rs\<close>). Every operation asks the reloader first; its answer is an
  argument of the model, as are the answers of the name service and of the decider.
  An operation that holds the lock more than once is split at those points into
  the sections that run under one lock; \<open>task_step\<close> runs one section of an operation.
\<close>

type_synonym ('g, 'm) reload_answer = "(net_error, ('g, 'm) config_state option) result"

section \<open>Reloading\<close>

definition ensure_credential_broker_enablement_unchanged ::
  "bool \<Rightarrow> ('g, 'm) config_state \<Rightarrow> (net_error, unit) result" where
  "ensure_credential_broker_enablement_unchanged broker_enabled new_state =
     (if broker_enabled = credential_broker (config new_state) then Ok () else Err BrokerChanged)"

text \<open>The blocked requests are carried over from the state that is replaced.\<close>

definition carry_blocked :: "('g, 'm) config_state \<Rightarrow> ('g, 'm) config_state \<Rightarrow> ('g, 'm) config_state" where
  "carry_blocked old new_state = new_state\<lparr>blocked := blocked old, blocked_total := blocked_total old\<rparr>"

definition reload_if_needed ::
  "bool \<Rightarrow> ('g, 'm) reload_answer \<Rightarrow> ('g, 'm) config_state \<Rightarrow> (net_error, unit) result \<times> ('g, 'm) config_state" where
  "reload_if_needed broker_enabled answer s =
     (case answer of
        Err e \<Rightarrow> (Err e, s)
      | Ok None \<Rightarrow> (Ok (), s)
      | Ok (Some new_state) \<Rightarrow>
          (case ensure_credential_broker_enablement_unchanged broker_enabled new_state of
             Err e \<Rightarrow> (Err e, s)
           | Ok _ \<Rightarrow> (Ok (), carry_blocked s new_state)))"

definition force_reload ::
  "bool \<Rightarrow> (net_error, ('g, 'm) config_state) result \<Rightarrow> ('g, 'm) config_state
     \<Rightarrow> (net_error, unit) result \<times> ('g, 'm) config_state" where
  "force_reload broker_enabled answer s =
     (case answer of
        Err e \<Rightarrow> (Err e, s)
      | Ok new_state \<Rightarrow>
          (case ensure_credential_broker_enablement_unchanged broker_enabled new_state of
             Err e \<Rightarrow> (Err e, s)
           | Ok _ \<Rightarrow> (Ok (), new_state\<lparr>blocked := blocked s\<rparr>)))"

definition replace_config_state ::
  "bool \<Rightarrow> ('g, 'm) reload_answer \<Rightarrow> ('g, 'm) config_state \<Rightarrow> ('g, 'm) config_state
     \<Rightarrow> (net_error, unit) result \<times> ('g, 'm) config_state" where
  "replace_config_state broker_enabled answer new_state s =
     (case reload_if_needed broker_enabled answer s of
        (Err e, s) \<Rightarrow> (Err e, s)
      | (Ok _, s) \<Rightarrow>
          (case ensure_credential_broker_enablement_unchanged broker_enabled new_state of
             Err e \<Rightarrow> (Err e, s)
           | Ok _ \<Rightarrow> (Ok (), carry_blocked s new_state)))"

text \<open>What every reader does: reload, then look at the state.\<close>

definition with_reload ::
  "bool \<Rightarrow> ('g, 'm) reload_answer \<Rightarrow> (('g, 'm) config_state \<Rightarrow> 'a) \<Rightarrow> ('g, 'm) config_state
     \<Rightarrow> (net_error, 'a) result \<times> ('g, 'm) config_state" where
  "with_reload broker_enabled answer look s =
     (case reload_if_needed broker_enabled answer s of
        (Err e, s) \<Rightarrow> (Err e, s)
      | (Ok _, s) \<Rightarrow> (Ok (look s), s))"

definition current_cfg where
  "current_cfg broker_enabled answer s = with_reload broker_enabled answer config s"

definition current_patterns where
  "current_patterns broker_enabled answer s =
     with_reload broker_enabled answer
       (\<lambda>s. (or_default (allowed_domains (config s)), or_default (denied_domains (config s)))) s"

definition proxy_enabled where
  "proxy_enabled broker_enabled answer s = with_reload broker_enabled answer (\<lambda>s. enabled (config s)) s"

definition method_allowed where
  "method_allowed broker_enabled answer method s =
     with_reload broker_enabled answer (\<lambda>s. allows_method (mode (config s)) method) s"

definition proxy_allow_upstream_proxy where
  "proxy_allow_upstream_proxy broker_enabled answer s =
     with_reload broker_enabled answer (\<lambda>s. allow_upstream_proxy (config s)) s"

definition proxy_allow_local_binding where
  "proxy_allow_local_binding broker_enabled answer s =
     with_reload broker_enabled answer (\<lambda>s. allow_local_binding (config s)) s"

definition proxy_network_mode where
  "proxy_network_mode broker_enabled answer s = with_reload broker_enabled answer (\<lambda>s. mode (config s)) s"

definition proxy_mitm_state where
  "proxy_mitm_state broker_enabled answer s = with_reload broker_enabled answer mitm_state s"

definition plaintext_credential_injection_enabled where
  "plaintext_credential_injection_enabled broker_enabled answer s =
     with_reload broker_enabled answer (\<lambda>s. dangerously_allow_plaintext_credential_injection (config s)) s"

definition evaluate_mitm_hook_request where
  "evaluate_mitm_hook_request lib broker_enabled answer host req s =
     with_reload broker_enabled answer (\<lambda>s. evaluate_mitm_hooks (hooks_lib lib) (compiled_hooks s) host req) s"

datatype host_mitm_requirement = RequireNone | RequireTls | RequireAlways

text \<open>\<open>broker_requires\<close> is the broker's \<^verbatim>\<open>host_requires_mitm\<close>.\<close>

definition host_mitm_requirement_of where
  "host_mitm_requirement_of broker_requires broker_enabled answer host s =
     with_reload broker_enabled answer
       (\<lambda>s. let normalized_host = normalize_host host in
            if compiled_hooks s normalized_host \<noteq> None then RequireAlways
            else if broker_requires normalized_host then RequireTls
            else RequireNone) s"

section \<open>Hosts\<close>

datatype host_block_reason = Denied | NotAllowed | NotAllowedLocal

fun reason_text :: "host_block_reason \<Rightarrow> rstr" where
  "reason_text Denied = rs ''denied''"
| "reason_text NotAllowed = rs ''not_allowed''"
| "reason_text NotAllowedLocal = rs ''not_allowed_local''"

datatype host_block_decision = HostAllowed | Blocked host_block_reason

text \<open>An answer of the name service.\<close>

datatype lookup_answer = Resolved "socket_addr list" | LookupFailed | LookupTimedOut

definition host_resolves_to_non_public_ip :: "(rstr \<Rightarrow> u16 \<Rightarrow> lookup_answer) \<Rightarrow> rstr \<Rightarrow> u16 \<Rightarrow> bool" where
  "host_resolves_to_non_public_ip lookup host port =
     (case parse_ip host of
        Some ip \<Rightarrow> is_non_public_ip ip
      | None \<Rightarrow>
          (case lookup host port of
             Resolved addrs \<Rightarrow> list_ex (\<lambda>addr. is_non_public_ip (fst addr)) addrs
           | LookupFailed \<Rightarrow> True
           | LookupTimedOut \<Rightarrow> True))"

definition globset_matches_host_or_unscoped :: "'g glob_library \<Rightarrow> 'g \<Rightarrow> rstr \<Rightarrow> bool" where
  "globset_matches_host_or_unscoped gl g host =
     (globset_is_match gl g host
      \<or> (case unscoped_ip_literal host of Some ip \<Rightarrow> globset_is_match gl g ip | None \<Rightarrow> False))"

definition is_explicit_local_allowlisted :: "rstr list \<Rightarrow> rstr \<Rightarrow> bool" where
  "is_explicit_local_allowlisted allowed host =
     list_ex (\<lambda>pat.
       let pat = trim pat in
       if pat = rs ''*'' \<or> starts_with pat (rs ''*.'') \<or> starts_with pat (rs ''**.'') then False
       else if 42 \<in> set pat \<or> 63 \<in> set pat then False
       else
         let normalized_pattern = normalize_host pat in
         normalized_pattern = host
         \<or> (case unscoped_ip_literal host of Some ip \<Rightarrow> normalized_pattern = ip | None \<Rightarrow> False)) allowed"

definition is_local_literal :: "rstr \<Rightarrow> bool" where
  "is_local_literal host =
     (let host_no_scope = (case unscoped_ip_literal host of Some ip \<Rightarrow> ip | None \<Rightarrow> host) in
      if is_loopback_host host then True
      else case parse_ip host_no_scope of Some ip \<Rightarrow> is_non_public_ip ip | None \<Rightarrow> False)"

definition decide_host ::
  "('g, 'm) net_library \<Rightarrow> (rstr \<Rightarrow> u16 \<Rightarrow> lookup_answer) \<Rightarrow> ('g, 'm) config_state \<Rightarrow> rstr \<Rightarrow> u16
     \<Rightarrow> host_block_decision" where
  "decide_host lib lookup s host port =
     (case host_parse host of
        None \<Rightarrow> Blocked NotAllowed
      | Some host \<Rightarrow>
          let allowed = allowed_domains (config s) in
          if globset_matches_host_or_unscoped (globs lib) (deny_set s) host then Blocked Denied
          else
            let is_allowlisted = globset_matches_host_or_unscoped (globs lib) (allow_set s) host;
                local_blocked =
                  (\<not> allow_local_binding (config s)
                   \<and> (if is_local_literal host then \<not> is_explicit_local_allowlisted (or_default allowed) host
                      else host_resolves_to_non_public_ip lookup host port))
            in if local_blocked then Blocked NotAllowedLocal
               else if allowed = None \<or> \<not> is_allowlisted then Blocked NotAllowed
               else HostAllowed)"

definition host_blocked where
  "host_blocked lib lookup broker_enabled answer host port s =
     with_reload broker_enabled answer (\<lambda>s. decide_host lib lookup s host port) s"

section \<open>Blocked requests\<close>

definition MAX_BLOCKED_EVENTS :: nat where "MAX_BLOCKED_EVENTS = 200"

definition saturating_add_u64 :: "64 word \<Rightarrow> 64 word \<Rightarrow> 64 word" where
  "saturating_add_u64 a b = (if a + b < a then - 1 else a + b)"

text \<open>\<^verbatim>\<open>while len > MAX { pop_front() }\<close>\<close>

fun pop_excess :: "nat \<Rightarrow> 'a list \<Rightarrow> 'a list" where
  "pop_excess limit [] = []"
| "pop_excess limit (x # xs) = (if length (x # xs) > limit then pop_excess limit xs else x # xs)"

definition record_section :: "blocked_request \<Rightarrow> ('g, 'm) config_state \<Rightarrow> ('g, 'm) config_state" where
  "record_section entry s =
     s\<lparr>blocked := pop_excess MAX_BLOCKED_EVENTS (blocked s @ [entry]),
       blocked_total := saturating_add_u64 (blocked_total s) 1\<rparr>"

definition record_blocked ::
  "bool \<Rightarrow> ('g, 'm) reload_answer \<Rightarrow> blocked_request \<Rightarrow> ('g, 'm) config_state
     \<Rightarrow> (net_error, unit) result \<times> ('g, 'm) config_state" where
  "record_blocked broker_enabled answer entry s =
     (case reload_if_needed broker_enabled answer s of
        (Err e, s) \<Rightarrow> (Err e, s)
      | (Ok _, s) \<Rightarrow> (Ok (), record_section entry s))"

definition blocked_snapshot where
  "blocked_snapshot broker_enabled answer s = with_reload broker_enabled answer blocked s"

definition drain_section :: "('g, 'm) config_state \<Rightarrow> blocked_request list \<times> ('g, 'm) config_state" where
  "drain_section s = (blocked s, s\<lparr>blocked := []\<rparr>)"

definition drain_blocked ::
  "bool \<Rightarrow> ('g, 'm) reload_answer \<Rightarrow> ('g, 'm) config_state
     \<Rightarrow> (net_error, blocked_request list) result \<times> ('g, 'm) config_state" where
  "drain_blocked broker_enabled answer s =
     (case reload_if_needed broker_enabled answer s of
        (Err e, s) \<Rightarrow> (Err e, s)
      | (Ok _, s) \<Rightarrow> (case drain_section s of (drained, s) \<Rightarrow> (Ok drained, s)))"

section \<open>Unix sockets\<close>

text \<open>
  \<open>macos\<close> is \<^verbatim>\<open>unix_socket_permissions_supported\<close> and \<open>canonicalize\<close> the file system's.
\<close>

definition socket_allowed ::
  "host_paths \<Rightarrow> (path \<Rightarrow> path option) \<Rightarrow> path \<Rightarrow> rstr \<Rightarrow> bool" where
  "socket_allowed hp canonicalize requested_abs allowed =
     (case validated_unix_socket_path_parse hp allowed of
        Ok (Native allowed_path) \<Rightarrow>
          allowed_path = requested_abs
          \<or> (case (canonicalize requested_abs, canonicalize allowed_path) of
               (Some requested_canonical, Some allowed_canonical) \<Rightarrow> allowed_canonical = requested_canonical
             | _ \<Rightarrow> False)
      | _ \<Rightarrow> False)"

definition is_unix_socket_allowed where
  "is_unix_socket_allowed macos hp canonicalize broker_enabled answer p s =
     with_reload broker_enabled answer
       (\<lambda>s. if \<not> macos then False
            else if \<not> is_absolute (components p) then False
            else if dangerously_allow_all_unix_sockets (config s) then True
            else case from_absolute_path hp p of
              Err _ \<Rightarrow> False
            | Ok requested_abs \<Rightarrow>
                list_ex (socket_allowed hp canonicalize requested_abs) (allow_unix_sockets (config s))) s"

section \<open>Updates\<close>

datatype domain_list_kind = AllowList | DenyList

fun list_name :: "domain_list_kind \<Rightarrow> rstr" where
  "list_name AllowList = rs ''allowlist''"
| "list_name DenyList = rs ''denylist''"

fun constraint_field :: "domain_list_kind \<Rightarrow> rstr" where
  "constraint_field AllowList = rs ''network.allowed_domains''"
| "constraint_field DenyList = rs ''network.denied_domains''"

fun kind_permission :: "domain_list_kind \<Rightarrow> network_domain_permission" where
  "kind_permission AllowList = DomainAllow"
| "kind_permission DenyList = DomainDeny"

fun kind_entries :: "domain_list_kind \<Rightarrow> network_proxy_settings \<Rightarrow> rstr list" where
  "kind_entries AllowList cfg = or_default (allowed_domains cfg)"
| "kind_entries DenyList cfg = or_default (denied_domains cfg)"

fun opposite_entries :: "domain_list_kind \<Rightarrow> network_proxy_settings \<Rightarrow> rstr list" where
  "opposite_entries AllowList cfg = or_default (denied_domains cfg)"
| "opposite_entries DenyList cfg = or_default (allowed_domains cfg)"

text \<open>
  An operation under way: at its start (before the reload), between the read and the
  write of a reload, before its own read or write, or finished.
\<close>

datatype ('g, 'm) task =
    SetMode network_mode
  | SetModeRead network_mode
  | SetModeWrite network_mode network_proxy_constraints
  | UpdateList domain_list_kind rstr
  | UpdateListRead domain_list_kind rstr
  | UpdateListWrite domain_list_kind rstr network_proxy_settings network_proxy_constraints "('g, 'm) config_state"
  | Record blocked_request
  | RecordWrite blocked_request
  | Drain
  | DrainWrite
  | Replace "('g, 'm) config_state"
  | ReplaceWrite "('g, 'm) config_state"
  | Reload
  | ForceReload
  | ForceReloadWrite "('g, 'm) config_state"
  | ReloadRead "('g, 'm) config_state" "('g, 'm) task"
  | ReloadWrite "('g, 'm) config_state" "('g, 'm) task"
  | Done "(net_error, unit) result"

text \<open>The first part of \<^verbatim>\<open>reload_if_needed\<close>, before it takes a lock, with the task to go on with.\<close>

definition start_reload ::
  "bool \<Rightarrow> ('g, 'm) reload_answer \<Rightarrow> ('g, 'm) task \<Rightarrow> ('g, 'm) task" where
  "start_reload broker_enabled answer next =
     (case answer of
        Err e \<Rightarrow> Done (Err e)
      | Ok None \<Rightarrow> next
      | Ok (Some new_state) \<Rightarrow>
          (case ensure_credential_broker_enablement_unchanged broker_enabled new_state of
             Err e \<Rightarrow> Done (Err e)
           | Ok _ \<Rightarrow> ReloadRead new_state next))"

definition set_mode_read ::
  "('g, 'm) net_library \<Rightarrow> network_mode \<Rightarrow> ('g, 'm) config_state \<Rightarrow> ('g, 'm) task" where
  "set_mode_read lib m s =
     (case validate_policy_against_constraints lib ((config s)\<lparr>mode := m\<rparr>) (constraints s) of
        Err e \<Rightarrow> Done (Err (Constrained (rs ''network.mode'') e))
      | Ok _ \<Rightarrow> SetModeWrite m (constraints s))"

definition set_mode_write ::
  "network_mode \<Rightarrow> network_proxy_constraints \<Rightarrow> ('g, 'm) config_state \<Rightarrow> ('g, 'm) config_state \<times> ('g, 'm) task" where
  "set_mode_write m c s =
     (if constraints s \<noteq> c then (s, SetMode m)
      else (s\<lparr>config := (config s)\<lparr>mode := m\<rparr>\<rparr>, Done (Ok ())))"

definition update_list_read ::
  "('g, 'm) net_library \<Rightarrow> domain_list_kind \<Rightarrow> rstr \<Rightarrow> ('g, 'm) config_state \<Rightarrow> ('g, 'm) task" where
  "update_list_read lib kind host s =
     (let previous_cfg = config s;
          target_contains = list_ex (\<lambda>entry. normalize_host entry = host) (kind_entries kind previous_cfg);
          opposite_contains = list_ex (\<lambda>entry. normalize_host entry = host) (opposite_entries kind previous_cfg)
      in if target_contains \<and> \<not> opposite_contains then Done (Ok ())
         else
           let candidate = upsert_domain_permission host (kind_permission kind) normalize_host previous_cfg in
           case validate_policy_against_constraints lib candidate (constraints s) of
             Err e \<Rightarrow> Done (Err (Constrained (constraint_field kind) e))
           | Ok _ \<Rightarrow>
               (case build_config_state lib candidate (constraints s) of
                  Err e \<Rightarrow> Done (Err (CompileFailed (list_name kind) e))
                | Ok new_state \<Rightarrow>
                    UpdateListWrite kind host previous_cfg (constraints s) (carry_blocked s new_state)))"

definition update_list_write ::
  "domain_list_kind \<Rightarrow> rstr \<Rightarrow> network_proxy_settings \<Rightarrow> network_proxy_constraints \<Rightarrow> ('g, 'm) config_state
     \<Rightarrow> ('g, 'm) config_state \<Rightarrow> ('g, 'm) config_state \<times> ('g, 'm) task" where
  "update_list_write kind host previous_cfg c new_state s =
     (if constraints s \<noteq> c \<or> config s \<noteq> previous_cfg then (s, UpdateList kind host)
      else (new_state, Done (Ok ())))"

text \<open>
  One section of a task. A forced reload always gives a state or fails, so the
  answer that no reload is needed stands for a failure there.
\<close>

fun task_step ::
  "('g, 'm) net_library \<Rightarrow> bool \<Rightarrow> ('g, 'm) reload_answer \<Rightarrow> ('g, 'm) config_state \<Rightarrow> ('g, 'm) task
     \<Rightarrow> ('g, 'm) config_state \<times> ('g, 'm) task" where
  "task_step lib b answer s (SetMode m) = (s, start_reload b answer (SetModeRead m))"
| "task_step lib b answer s (SetModeRead m) = (s, set_mode_read lib m s)"
| "task_step lib b answer s (SetModeWrite m c) = set_mode_write m c s"
| "task_step lib b answer s (UpdateList kind host) = (s, start_reload b answer (UpdateListRead kind host))"
| "task_step lib b answer s (UpdateListRead kind host) = (s, update_list_read lib kind host s)"
| "task_step lib b answer s (UpdateListWrite kind host cfg c new_state) = update_list_write kind host cfg c new_state s"
| "task_step lib b answer s (Record entry) = (s, start_reload b answer (RecordWrite entry))"
| "task_step lib b answer s (RecordWrite entry) = (record_section entry s, Done (Ok ()))"
| "task_step lib b answer s Drain = (s, start_reload b answer DrainWrite)"
| "task_step lib b answer s DrainWrite = (snd (drain_section s), Done (Ok ()))"
| "task_step lib b answer s (Replace new_state) =
     (s, start_reload b answer
           (case ensure_credential_broker_enablement_unchanged b new_state of
              Err e \<Rightarrow> Done (Err e) | Ok _ \<Rightarrow> ReplaceWrite new_state))"
| "task_step lib b answer s (ReplaceWrite new_state) = (carry_blocked s new_state, Done (Ok ()))"
| "task_step lib b answer s Reload = (s, start_reload b answer (Done (Ok ())))"
| "task_step lib b answer s ForceReload =
     (s, case answer of
           Ok (Some new_state) \<Rightarrow>
             (case ensure_credential_broker_enablement_unchanged b new_state of
                Err e \<Rightarrow> Done (Err e) | Ok _ \<Rightarrow> ForceReloadWrite new_state)
         | Ok None \<Rightarrow> Done (Err ReloadFailed)
         | Err e \<Rightarrow> Done (Err e))"
| "task_step lib b answer s (ForceReloadWrite new_state) = (new_state\<lparr>blocked := blocked s\<rparr>, Done (Ok ()))"
| "task_step lib b answer s (ReloadRead new_state next) = (s, ReloadWrite (carry_blocked s new_state) next)"
| "task_step lib b answer s (ReloadWrite new_state next) = (new_state, next)"
| "task_step lib b answer s (Done r) = (s, Done r)"

text \<open>\<^verbatim>\<open>update_domain_list\<close> reads its host before the loop.\<close>

definition update_domain_list :: "domain_list_kind \<Rightarrow> rstr \<Rightarrow> ('g, 'm) task" where
  "update_domain_list kind host =
     (case host_parse host of None \<Rightarrow> Done (Err InvalidHost) | Some h \<Rightarrow> UpdateList kind h)"

definition add_allowed_domain :: "rstr \<Rightarrow> ('g, 'm) task" where
  "add_allowed_domain host = update_domain_list AllowList host"

definition add_denied_domain :: "rstr \<Rightarrow> ('g, 'm) task" where
  "add_denied_domain host = update_domain_list DenyList host"

text \<open>An operation that runs alone: the answers the reloader gives, one for each section.\<close>

fun run_task ::
  "('g, 'm) net_library \<Rightarrow> bool \<Rightarrow> ('g, 'm) reload_answer list \<Rightarrow> ('g, 'm) config_state \<Rightarrow> ('g, 'm) task
     \<Rightarrow> ('g, 'm) config_state \<times> ('g, 'm) task" where
  "run_task lib b [] s t = (s, t)"
| "run_task lib b (answer # answers) s t =
     (case task_step lib b answer s t of (s, t) \<Rightarrow> run_task lib b answers s t)"

text \<open>\<^verbatim>\<open>set_network_mode\<close>, alone, with the answers of the reloader and of every turn of its loop.\<close>

definition set_network_mode where
  "set_network_mode lib b answers m s = run_task lib b answers s (SetMode m)"

text \<open>An operation that a caller may start; a state given to \<^verbatim>\<open>replace_config_state\<close> is one the reloader could give.\<close>

fun starting_task :: "(('g, 'm) reload_answer \<Rightarrow> bool) \<Rightarrow> ('g, 'm) task \<Rightarrow> bool" where
  "starting_task answers (SetMode m) = True"
| "starting_task answers (UpdateList kind host) = True"
| "starting_task answers (Record entry) = True"
| "starting_task answers Drain = True"
| "starting_task answers Reload = True"
| "starting_task answers ForceReload = True"
| "starting_task answers (Replace new_state) = answers (Ok (Some new_state))"
| "starting_task answers _ = False"

text \<open>
  Operations run together: a world is the shared state and the tasks, and a step runs
  one section of one task. \<open>answers\<close> are the answers the reloader may give.
\<close>

inductive world_step ::
  "('g, 'm) net_library \<Rightarrow> bool \<Rightarrow> (('g, 'm) reload_answer \<Rightarrow> bool)
     \<Rightarrow> ('g, 'm) config_state \<times> ('g, 'm) task list \<Rightarrow> ('g, 'm) config_state \<times> ('g, 'm) task list \<Rightarrow> bool"
  for lib b answers where
  section_runs:
    "i < length tasks \<Longrightarrow> answers answer \<Longrightarrow> task_step lib b answer s (tasks ! i) = (s', t)
     \<Longrightarrow> world_step lib b answers (s, tasks) (s', tasks[i := t])"
| task_arrives:
    "starting_task answers t \<Longrightarrow> world_step lib b answers (s, tasks) (s, tasks @ [t])"

inductive_cases world_stepE: "world_step lib b answers w w'"

section \<open>Decisions about requests\<close>

datatype network_policy_decision = PolicyDeny | PolicyAsk

datatype network_decision_source = BaselinePolicy | ModeGuard | ProxyState | Decider

datatype network_decision = Allow | Deny rstr network_decision_source network_policy_decision

datatype network_protocol = Http | HttpsConnect | Socks5Tcp | Socks5Udp

record network_policy_request =
  protocol :: network_protocol
  request_host :: rstr
  request_port :: u16
  environment_id :: "rstr option"
  client_addr :: "rstr option"
  policy_method :: "rstr option"
  policy_command :: "rstr option"
  exec_policy_hint :: "rstr option"

definition reason_or_default :: "rstr \<Rightarrow> rstr" where
  "reason_or_default reason = (if reason = [] then rs ''policy_denied'' else reason)"

definition deny_with_source :: "rstr \<Rightarrow> network_decision_source \<Rightarrow> network_decision" where
  "deny_with_source reason source = Deny (reason_or_default reason) source PolicyDeny"

definition ask_with_source :: "rstr \<Rightarrow> network_decision_source \<Rightarrow> network_decision" where
  "ask_with_source reason source = Deny (reason_or_default reason) source PolicyAsk"

definition decision_deny :: "rstr \<Rightarrow> network_decision" where
  "decision_deny reason = deny_with_source reason Decider"

definition decision_ask :: "rstr \<Rightarrow> network_decision" where
  "decision_ask reason = ask_with_source reason Decider"

fun map_decider_decision :: "network_decision \<Rightarrow> network_decision" where
  "map_decider_decision Allow = Allow"
| "map_decider_decision (Deny reason source d) = Deny reason Decider d"

record policy_audit_event =
  audit_decision :: rstr
  audit_source :: network_decision_source
  audit_reason :: rstr
  audit_override :: bool

fun policy_decision_text :: "network_policy_decision \<Rightarrow> rstr" where
  "policy_decision_text PolicyDeny = rs ''deny''"
| "policy_decision_text PolicyAsk = rs ''ask''"

text \<open>The decision on a request, and the audit event it emits.\<close>

definition evaluate_host_decision ::
  "(network_policy_request \<Rightarrow> network_decision) option \<Rightarrow> network_policy_request \<Rightarrow> host_block_decision
     \<Rightarrow> network_decision \<times> policy_audit_event" where
  "evaluate_host_decision decider req host_decision =
     (case
        (case host_decision of
           HostAllowed \<Rightarrow> (Allow, False)
         | Blocked NotAllowed \<Rightarrow>
             (case decider of
                Some decide \<Rightarrow> let d = map_decider_decision (decide req) in (d, d = Allow)
              | None \<Rightarrow> (deny_with_source (reason_text NotAllowed) BaselinePolicy, False))
         | Blocked reason \<Rightarrow> (deny_with_source (reason_text reason) BaselinePolicy, False))
      of (d, policy_override) \<Rightarrow>
        (d, case d of
              Allow \<Rightarrow>
                \<lparr>audit_decision = rs ''allow'', audit_source = (if policy_override then Decider else BaselinePolicy),
                 audit_reason = (if policy_override then reason_text NotAllowed else rs ''allow''),
                 audit_override = policy_override\<rparr>
            | Deny reason source pd \<Rightarrow>
                \<lparr>audit_decision = policy_decision_text pd, audit_source = source, audit_reason = reason,
                 audit_override = policy_override\<rparr>))"

definition evaluate_host_policy where
  "evaluate_host_policy lib lookup broker_enabled answer decider req s =
     (case host_blocked lib lookup broker_enabled answer (request_host req) (request_port req) s of
        (Err e, s) \<Rightarrow> (Err e, s)
      | (Ok d, s) \<Rightarrow> (Ok (evaluate_host_decision decider req d), s))"

section \<open>Connection targets\<close>

datatype target_policy = FromConfig bool | FromState

datatype connect_outcome = Connect socket_addr | RejectedByPolicy | PolicyUnreadable net_error

definition checked_connect where
  "checked_connect policy broker_enabled answer addr s =
     (let (allow, s) =
        (case policy of
           FromConfig b \<Rightarrow> (Ok b, s)
         | FromState \<Rightarrow> proxy_allow_local_binding broker_enabled answer s)
      in case allow of
           Err e \<Rightarrow> (PolicyUnreadable e, s)
         | Ok allow \<Rightarrow>
             if \<not> allow \<and> is_non_public_ip (fst addr) then (RejectedByPolicy, s) else (Connect addr, s))"

end
