(* ===== verification/Net_Host_Facts.thy ===== *)
theory Net_Host_Facts
  imports Net_Hosts
begin

text \<open>
  What the host checks of the proxy mean: the addresses that are not public as
  ranges, the soundness of comparing domain patterns, and the hosts that
  normalisation leaves alone.
\<close>

section \<open>Address ranges\<close>

lemma and_high_mask_eq:
  fixes a b :: "32 word"
  shows "a AND push_bit k (- 1) = b AND push_bit k (- 1) \<longleftrightarrow> drop_bit k a = drop_bit k b"
proof
  assume h: "a AND push_bit k (- 1) = b AND push_bit k (- 1)"
  show "drop_bit k a = drop_bit k b"
  proof (rule bit_eqI)
    fix n
    from h have "bit (a AND push_bit k (- 1)) (k + n) = bit (b AND push_bit k (- 1)) (k + n)" by simp
    then show "bit (drop_bit k a) n = bit (drop_bit k b) n"
      by (cases "k + n < 32") (auto simp: bit_simps dest: bit_imp_le_length)
  qed
next
  assume h: "drop_bit k a = drop_bit k b"
  show "a AND push_bit k (- 1) = b AND push_bit k (- 1)"
  proof (rule bit_eqI)
    fix n
    from h have "bit (drop_bit k a) (n - k) = bit (drop_bit k b) (n - k)" by simp
    then show "bit (a AND push_bit k (- 1)) n = bit (b AND push_bit k (- 1)) n"
      by (cases "k \<le> n") (auto simp: bit_simps)
  qed
qed

lemma unat_drop: "unat (drop_bit k (w :: 32 word)) = unat w div 2 ^ k"
proof -
  have "take_bit 32 (unat w) = unat w" using unsigned_less [of w] by (simp add: take_bit_nat_eq_self_iff)
  then show ?thesis by (subst unsigned_drop_bit_eq) (simp add: drop_bit_eq_div)
qed

lemma unat_take: "unat (take_bit k (w :: 32 word)) = unat w mod 2 ^ k"
  by (subst unsigned_take_bit_eq) (simp add: take_bit_eq_mod)

lemma ipv4_in_cidr_unat:
  assumes "0 < pre"
  shows "ipv4_in_cidr ip base pre \<longleftrightarrow> unat ip div 2 ^ (32 - pre) = unat (octets_to_ipv4 base) div 2 ^ (32 - pre)"
proof -
  have "ipv4_in_cidr ip base pre \<longleftrightarrow> drop_bit (32 - pre) ip = drop_bit (32 - pre) (octets_to_ipv4 base)"
    using assms and_high_mask_eq [of ip "32 - pre" "octets_to_ipv4 base"] by (simp add: ipv4_in_cidr_def Let_def)
  then show ?thesis by (simp only: word_unat_eq_iff unat_drop)
qed

lemma octet_unat: "unat (octet i ip) = unat ip div 2 ^ (24 - 8 * i) mod 256"
proof -
  have "octet i ip = take_bit 8 (drop_bit (24 - 8 * i) ip)"
    by (simp add: octet_def take_bit_eq_mask mask_numeral)
  then show ?thesis by (simp only: unat_take unat_drop) simp
qed

lemma octet_eq: "octet i ip = n \<longleftrightarrow> unat ip div 2 ^ (24 - 8 * i) mod 256 = unat n"
  by (simp add: word_unat_eq_iff octet_unat)

lemma high_half_eq: "octet 1 ip AND 0xF0 = 16 \<longleftrightarrow> unat ip div 2 ^ 20 mod 16 = 1"
proof -
  have m: "(0xF0 :: 32 word) = push_bit 4 (mask 4)" "(0xFF :: 32 word) = mask 8"
    by (simp_all add: mask_numeral)
  have "octet 1 ip AND 0xF0 = push_bit 4 (take_bit 4 (drop_bit 20 ip))" (is "_ = push_bit 4 ?y")
    unfolding octet_def m by (rule bit_eqI) (auto simp: bit_simps)
  moreover have "push_bit 4 ?y = 16 \<longleftrightarrow> ?y = 1"
  proof -
    have y: "unat ?y < 16" by (simp only: unat_take) simp
    have "unat (push_bit 4 ?y) = unat ?y * 16"
      using y unat_mult_lem [of ?y "16 :: 32 word"] by (simp add: push_bit_eq_mult)
    then have "push_bit 4 ?y = 16 \<longleftrightarrow> unat ?y * 16 = 16" by (simp add: word_unat_eq_iff)
    also have "\<dots> \<longleftrightarrow> ?y = 1" by (simp add: word_unat_eq_iff)
    finally show ?thesis .
  qed
  ultimately show ?thesis by (simp only: word_unat_eq_iff unat_take unat_drop) simp
qed

lemma div_range: "0 < (d::nat) \<Longrightarrow> u div d = q \<longleftrightarrow> q * d \<le> u \<and> u < (q + 1) * d"
  by (metis div_less_iff_less_mult less_Suc_eq_le less_eq_div_iff_mult_less_eq nat_less_le not_less_eq Suc_eq_plus1)

lemma div_mod_eq: "b < c \<Longrightarrow> x div c = a \<and> x mod c = b \<longleftrightarrow> x = a * c + (b::nat)"
  using div_mult_mod_eq [of x c] by auto

lemma leading_octet: "octet 0 ip = n \<longleftrightarrow> unat ip div 2 ^ 24 = unat n"
proof -
  have "unat ip < 2 ^ 32" using unsigned_less [of ip] by simp
  then have "unat ip div 2 ^ 24 < 256" by (simp add: div_less_iff_less_mult)
  then show ?thesis by (simp add: octet_eq)
qed

lemma leading_octets: "octet 0 ip = m \<and> octet 1 ip = n \<longleftrightarrow> unat ip div 2 ^ 16 = unat m * 256 + unat n" if "unat n < 256"
proof -
  have "unat ip div 2 ^ 24 = unat ip div 2 ^ 16 div 256" by (simp add: div_mult2_eq [symmetric])
  then show ?thesis using div_mod_eq [OF that, of "unat ip div 2 ^ 16" "unat m"]
    by (simp only: leading_octet) (simp add: octet_eq)
qed

lemma leading_octet_half:
  "octet 0 ip = m \<and> octet 1 ip AND 0xF0 = 16 \<longleftrightarrow> unat ip div 2 ^ 20 = unat m * 16 + 1"
proof -
  have "unat ip div 2 ^ 24 = unat ip div 2 ^ 20 div 16" by (simp add: div_mult2_eq [symmetric])
  then show ?thesis using div_mod_eq [of 1 16 "unat ip div 2 ^ 20" "unat m"]
    by (simp only: leading_octet high_half_eq)
qed

lemma ipv4_range:
  assumes "0 < pre"
  shows "ipv4_in_cidr ip base pre \<longleftrightarrow>
    (let d = 2 ^ (32 - pre); q = unat (octets_to_ipv4 base) div d in q * d \<le> unat ip \<and> unat ip < (q + 1) * d)"
  using assms by (simp add: ipv4_in_cidr_unat div_range Let_def)

lemma ipv4_private_range:
  "ipv4_is_private ip \<longleftrightarrow> (0x0A000000 \<le> unat ip \<and> unat ip < 0x0B000000)
     \<or> (0xAC100000 \<le> unat ip \<and> unat ip < 0xAC200000) \<or> (0xC0A80000 \<le> unat ip \<and> unat ip < 0xC0A90000)"
proof -
  have "octet 0 ip = 192 \<and> octet 1 ip = 168 \<longleftrightarrow> 0xC0A80000 \<le> unat ip \<and> unat ip < 0xC0A90000"
    using leading_octets [of 168 ip 192] by (simp add: div_range)
  moreover have "octet 0 ip = 10 \<longleftrightarrow> 0x0A000000 \<le> unat ip \<and> unat ip < 0x0B000000"
    by (simp add: leading_octet div_range)
  ultimately show ?thesis
    unfolding ipv4_is_private_def leading_octet_half by (simp add: div_range)
qed

text \<open>The addresses that are not public, as half-open ranges of 32-bit numbers.\<close>

definition non_public_ranges :: "(nat \<times> nat) list" where
  "non_public_ranges =
     [(0x00000000, 0x01000000), (0x0A000000, 0x0B000000), (0x64400000, 0x64800000), (0x7F000000, 0x80000000),
      (0xA9FE0000, 0xA9FF0000), (0xAC100000, 0xAC200000), (0xC0000000, 0xC0000100), (0xC0000200, 0xC0000300),
      (0xC0A80000, 0xC0A90000), (0xC6120000, 0xC6140000), (0xC6336400, 0xC6336500), (0xCB007100, 0xCB007200),
      (0xE0000000, 0x100000000)]"

text \<open>The addresses that the proxy treats as not public are exactly thirteen ranges.\<close>

theorem non_public_ipv4_ranges:
  "is_non_public_ipv4 ip \<longleftrightarrow> list_ex (\<lambda>(lo, hi). lo \<le> unat ip \<and> unat ip < hi) non_public_ranges"
proof -
  have high: "ipv4_is_multicast ip \<or> ipv4_in_cidr ip [240, 0, 0, 0] 4 \<longleftrightarrow> 0xE0000000 \<le> unat ip \<and> unat ip < 0x100000000"
  proof -
    have "ipv4_is_multicast ip \<longleftrightarrow> 224 \<le> unat ip div 2 ^ 24 \<and> unat ip div 2 ^ 24 < 240"
      using leading_octet [of ip "octet 0 ip"] by (auto simp: ipv4_is_multicast_def word_le_nat_alt)
    then have "ipv4_is_multicast ip \<longleftrightarrow> 0xE0000000 \<le> unat ip \<and> unat ip < 0xF0000000"
      by (simp add: div_less_iff_less_mult less_eq_div_iff_mult_less_eq)
    moreover have "ipv4_in_cidr ip [240, 0, 0, 0] 4 \<longleftrightarrow> 0xF0000000 \<le> unat ip \<and> unat ip < 0x100000000"
      by (simp add: ipv4_range octets_to_ipv4_def)
    ultimately show ?thesis by auto
  qed
  have loopback: "ipv4_is_loopback ip \<longleftrightarrow> 0x7F000000 \<le> unat ip \<and> unat ip < 0x80000000"
    by (simp add: ipv4_is_loopback_def leading_octet div_range)
  have link_local: "ipv4_is_link_local ip \<longleftrightarrow> 0xA9FE0000 \<le> unat ip \<and> unat ip < 0xA9FF0000"
    by (simp add: ipv4_is_link_local_def leading_octets [where n = 254, simplified] div_range)
  have "ip = 0 \<Longrightarrow> ipv4_in_cidr ip [0, 0, 0, 0] 8" "ip = 0xFFFFFFFF \<Longrightarrow> ipv4_in_cidr ip [240, 0, 0, 0] 4"
    by (simp_all add: ipv4_range octets_to_ipv4_def)
  then have "is_non_public_ipv4 ip \<longleftrightarrow>
      ipv4_in_cidr ip [0, 0, 0, 0] 8 \<or> ipv4_is_private ip \<or> ipv4_in_cidr ip [100, 64, 0, 0] 10
      \<or> ipv4_is_loopback ip \<or> ipv4_is_link_local ip \<or> ipv4_in_cidr ip [192, 0, 0, 0] 24
      \<or> ipv4_in_cidr ip [192, 0, 2, 0] 24 \<or> ipv4_in_cidr ip [198, 18, 0, 0] 15
      \<or> ipv4_in_cidr ip [198, 51, 100, 0] 24 \<or> ipv4_in_cidr ip [203, 0, 113, 0] 24
      \<or> (ipv4_is_multicast ip \<or> ipv4_in_cidr ip [240, 0, 0, 0] 4)"
    unfolding is_non_public_ipv4_def by blast
  then show ?thesis
    unfolding high loopback link_local ipv4_private_range
    by (simp add: ipv4_range octets_to_ipv4_def non_public_ranges_def disj_ac)
qed

section \<open>Comparing patterns\<close>

text \<open>The normalised hosts below a domain, and the hosts that a pattern stands for.\<close>

definition below :: "rstr \<Rightarrow> rstr set" where
  "below d = {h. normalize_domain h = h \<and> ends_with h (46 # normalize_domain d)}"

fun pattern_hosts :: "domain_pattern \<Rightarrow> rstr set" where
  "pattern_hosts (Exact d) = {normalize_domain d}"
| "pattern_hosts (SubdomainsOnly d) = below d"
| "pattern_hosts (ApexAndSubdomains d) = insert (normalize_domain d) (below d)"

fun pattern_domain :: "domain_pattern \<Rightarrow> rstr" where
  "pattern_domain (Exact d) = d"
| "pattern_domain (SubdomainsOnly d) = d"
| "pattern_domain (ApexAndSubdomains d) = d"

lemma trim_end_matches_fixed: "trim_end_matches c s = s \<longleftrightarrow> s = [] \<or> last s \<noteq> c"
proof (cases s rule: rev_cases)
  case (snoc t x)
  then show ?thesis
    using length_dropWhile_le [of "\<lambda>d. d = c" "rev t"] by (auto simp: trim_end_matches_def dest: arg_cong [where f = length])
qed (simp add: trim_end_matches_def)

lemma trim_end_matches_last: "trim_end_matches c s \<noteq> [] \<Longrightarrow> last (trim_end_matches c s) \<noteq> c"
  using hd_dropWhile [of "\<lambda>d. d = c" "rev s"] by (auto simp: trim_end_matches_def last_rev)

lemma to_ascii_lower_idem [simp]: "to_ascii_lower (to_ascii_lower c) = to_ascii_lower c"
  by (simp add: to_ascii_lower_def)

lemma to_ascii_lower_dot: "to_ascii_lower c = 46 \<longleftrightarrow> c = 46"
  by (auto simp: to_ascii_lower_def)

lemma normal_domain_iff:
  "normalize_domain h = h \<longleftrightarrow> to_ascii_lowercase h = h \<and> (h = [] \<or> last h \<noteq> 46)"
proof
  assume fixed: "normalize_domain h = h"
  then have "length (trim_end_matches 46 h) = length h"
    by (metis length_map normalize_domain_def to_ascii_lowercase_def)
  moreover obtain t where "h = trim_end_matches 46 h @ t"
    unfolding trim_end_matches_def by (metis rev_append rev_rev_ident takeWhile_dropWhile_id)
  ultimately have "trim_end_matches 46 h = h" by (metis append_Nil2 append_eq_append_conv)
  then show "to_ascii_lowercase h = h \<and> (h = [] \<or> last h \<noteq> 46)"
    using fixed trim_end_matches_fixed by (metis normalize_domain_def)
next
  assume "to_ascii_lowercase h = h \<and> (h = [] \<or> last h \<noteq> 46)"
  then show "normalize_domain h = h" using trim_end_matches_fixed by (metis normalize_domain_def)
qed

lemma normalize_domain_idem [simp]: "normalize_domain (normalize_domain d) = normalize_domain d"
proof -
  let ?t = "trim_end_matches 46 d"
  have "to_ascii_lowercase (to_ascii_lowercase ?t) = to_ascii_lowercase ?t"
    by (simp add: to_ascii_lowercase_def o_def)
  moreover have "to_ascii_lowercase ?t = [] \<or> last (to_ascii_lowercase ?t) \<noteq> 46"
    using trim_end_matches_last [of 46 d] by (auto simp: to_ascii_lowercase_def last_map to_ascii_lower_dot)
  ultimately show ?thesis
    using normal_domain_iff [of "to_ascii_lowercase ?t"] by (simp add: normalize_domain_def [of d])
qed

lemma strict_subdomain_below: "is_strict_subdomain c d \<longleftrightarrow> normalize_domain c \<in> below d"
  by (auto simp: is_strict_subdomain_def below_def Let_def rs_def ends_with_iff)

lemma subdomain_or_equal_iff:
  "is_subdomain_or_equal c d \<longleftrightarrow> normalize_domain c = normalize_domain d \<or> normalize_domain c \<in> below d"
  by (auto simp: is_subdomain_or_equal_def below_def Let_def rs_def)

lemma below_mono: "is_subdomain_or_equal c d \<Longrightarrow> below c \<subseteq> below d"
  by (auto simp: subdomain_or_equal_iff below_def ends_with_iff)

text \<open>A long name made of one letter, put in front of a domain, is below that domain only for its own sake.\<close>

lemma long_subdomain_below:
  assumes "normalize_domain c \<noteq> []" "replicate (Suc n) 97 @ 46 # normalize_domain c \<in> below d"
  shows "is_subdomain_or_equal c d"
proof -
  let ?x = "replicate (Suc n) (97::uchar)"
  obtain y where y: "?x @ 46 # normalize_domain c = y @ 46 # normalize_domain d"
    using assms(2) by (auto simp: below_def ends_with_iff)
  then consider us where "?x = y @ us" "us @ 46 # normalize_domain c = 46 # normalize_domain d"
    | us where "?x @ us = y" "46 # normalize_domain c = us @ 46 # normalize_domain d"
    unfolding append_eq_append_conv2 by blast
  then show ?thesis
  proof cases
    case 1
    have "set us \<subseteq> {97}" using arg_cong [OF 1(1), of set] by auto
    with 1(2) have "us = []" by (cases us) auto
    with 1(2) show ?thesis by (simp add: subdomain_or_equal_iff)
  next
    case 2
    then show ?thesis
      using normalize_domain_idem [of c]
      by (cases us) (auto simp: subdomain_or_equal_iff below_def ends_with_iff simp del: normalize_domain_idem)
  qed
qed

lemma long_subdomain_in: "normalize_domain c \<noteq> [] \<Longrightarrow> replicate n 97 @ 46 # normalize_domain c \<in> below c"
  using normal_domain_iff [of "normalize_domain c"] normal_domain_iff [of "replicate n 97 @ 46 # normalize_domain c"]
  by (auto simp: below_def ends_with_iff to_ascii_lowercase_def to_ascii_lower_def)

lemma below_subset_below:
  assumes "normalize_domain c \<noteq> []"
  shows "below c \<subseteq> insert (normalize_domain d) (below d) \<longleftrightarrow> is_subdomain_or_equal c d"
proof
  let ?h = "replicate (Suc (length (normalize_domain d))) 97 @ 46 # normalize_domain c"
  assume "below c \<subseteq> insert (normalize_domain d) (below d)"
  then have "?h = normalize_domain d \<or> ?h \<in> below d" using long_subdomain_in [OF assms] by blast
  moreover have "?h \<noteq> normalize_domain d" by (auto dest: arg_cong [where f = length])
  ultimately show "is_subdomain_or_equal c d" using long_subdomain_below [OF assms] by blast
next
  assume "is_subdomain_or_equal c d"
  then show "below c \<subseteq> insert (normalize_domain d) (below d)" using below_mono by blast
qed

lemma pattern_allows_hosts:
  assumes "normalize_domain (pattern_domain c) \<noteq> []"
  shows "pattern_allows m c \<longleftrightarrow> pattern_hosts c \<subseteq> pattern_hosts m"
proof -
  have not_below: "normalize_domain d \<notin> below d" for d by (auto simp: below_def ends_with_iff dest: arg_cong [where f = length])
  have many: "\<not> below c' \<subseteq> {d}" if "normalize_domain c' \<noteq> []" for c' d
  proof
    assume "below c' \<subseteq> {d}"
    then have "replicate 1 97 @ 46 # normalize_domain c' = d" "replicate 2 97 @ 46 # normalize_domain c' = d"
      using long_subdomain_in [OF that] by blast+
    then show False by (auto simp: numeral_2_eq_2)
  qed
  have only: "below c' \<subseteq> below d \<longleftrightarrow> is_subdomain_or_equal c' d" if "normalize_domain c' \<noteq> []" for c' d
    using below_subset_below [OF that, of d] below_mono by blast
  show ?thesis
    using assms many only below_subset_below below_mono not_below
    by (cases m; cases c)
       (auto simp: domain_eq_def strict_subdomain_below subdomain_or_equal_iff)
qed

text \<open>
  A managed pattern allows a configured pattern exactly when every host the
  configured one stands for is one the managed pattern stands for.
\<close>

theorem pattern_allows_iff:
  assumes "normalize_domain (pattern_domain c) \<noteq> []"
  shows "pattern_allows m c \<longleftrightarrow> pattern_hosts c \<subseteq> pattern_hosts m"
  using assms by (rule pattern_allows_hosts)

theorem pattern_allows_iff_witness:
  "pattern_allows (ApexAndSubdomains (rs ''Example.com'')) (SubdomainsOnly (rs ''a.example.com.''))
   \<and> pattern_hosts (SubdomainsOnly (rs ''a.example.com.'')) \<subseteq> pattern_hosts (ApexAndSubdomains (rs ''Example.com''))"
proof -
  let ?m = "ApexAndSubdomains (rs ''Example.com'')" and ?c = "SubdomainsOnly (rs ''a.example.com.'')"
  have "normalize_domain (pattern_domain ?c) \<noteq> []" "pattern_allows ?m ?c" by code_simp+
  then show ?thesis using pattern_allows_iff [of ?c ?m] by blast
qed

end
