(* ===== verification/Net_Config_Facts.thy ===== *)
theory Net_Config_Facts
  imports Net_Config
begin

text \<open>
  What the settings of the proxy mean: the strongest permission of a pattern decides,
  the proxy listens on loopback addresses unless told otherwise, and printed
  addresses are read back.
\<close>

section \<open>Effective permissions\<close>

lemma permission_rank_inj [simp]: "permission_rank p = permission_rank q \<longleftrightarrow> p = q"
  by (cases p; cases q) auto

lemma entry_eq [simp]: "\<lparr>pattern = pat, permission = q\<rparr> = e \<longleftrightarrow> pat = pattern e \<and> q = permission e"
  by (cases e) auto

text \<open>The strongest permission that the entries give to each pattern.\<close>

definition strongest :: "network_domain_permission_entry list \<Rightarrow> rstr \<Rightarrow> network_domain_permission \<Rightarrow> bool" where
  "strongest es pat q \<longleftrightarrow> \<lparr>pattern = pat, permission = q\<rparr> \<in> set es
     \<and> (\<forall>e \<in> set es. pattern e = pat \<longrightarrow> permission_rank (permission e) \<le> permission_rank q)"

lemma strongest_unique: "strongest es pat p \<Longrightarrow> strongest es pat q \<Longrightarrow> p = q"
proof -
  assume "strongest es pat p" "strongest es pat q"
  then have "permission_rank p \<le> permission_rank q" "permission_rank q \<le> permission_rank p"
    by (auto simp: strongest_def)
  then show ?thesis by (metis antisym permission_rank_inj)
qed

lemma record_entries_strongest:
  assumes "foldl record_entry ([], Map.empty) es = (order, effective)"
  shows "distinct order \<and> set order = dom effective \<and> dom effective = pattern ` set es
    \<and> (\<forall>pat q. effective pat = Some q \<longleftrightarrow> strongest es pat q)"
  using assms
proof (induction es arbitrary: order effective rule: rev_induct)
  case Nil
  then show ?case by (auto simp: strongest_def)
next
  case (snoc e es)
  obtain ord eff where prev: "foldl record_entry ([], Map.empty) es = (ord, eff)" by fastforce
  have d: "distinct ord" and so: "set ord = dom eff" and dm: "dom eff = pattern ` set es"
    and st: "eff pat = Some q \<longleftrightarrow> strongest es pat q" for pat q
    using snoc.IH [OF prev] by blast+
  have step: "record_entry (ord, eff) e = (order, effective)" using snoc.prems prev by simp
  have e: "e = \<lparr>pattern = pattern e, permission = permission e\<rparr>" by simp
  have other: "strongest (es @ [e]) pat q \<longleftrightarrow> strongest es pat q" if "pat \<noteq> pattern e" for pat q
    using that by (auto simp: strongest_def)
  show ?case
  proof (cases "eff (pattern e)")
    case None
    then have out: "pattern e \<notin> pattern ` set es" using dm by (metis domIff)
    then have none: "\<forall>e' \<in> set es. pattern e' \<noteq> pattern e" by (metis imageI)
    have eff: "order = ord @ [pattern e]" "effective = eff(pattern e \<mapsto> permission e)"
      using step None by (simp_all add: record_entry_def)
    have new: "strongest (es @ [e]) (pattern e) q \<longleftrightarrow> q = permission e" for q
      using none by (auto simp: strongest_def)
    have "effective pat = Some q \<longleftrightarrow> strongest (es @ [e]) pat q" for pat q
      by (cases "pat = pattern e") (auto simp: eff new other st)
    moreover have "dom effective = insert (pattern e) (dom eff)" by (simp only: eff(2) dom_fun_upd) simp
    ultimately show ?thesis using d so dm out by (simp add: eff(1))
  next
    case (Some p)
    then have p: "strongest es (pattern e) p" and in_dom: "pattern e \<in> pattern ` set es" using st dm by blast+
    have eff: "order = ord" "effective = (if permission_rank (permission e) > permission_rank p then eff(pattern e \<mapsto> permission e) else eff)"
      using step Some by (simp_all add: record_entry_def split: if_splits)
    let ?m = "if permission_rank (permission e) > permission_rank p then permission e else p"
    have "strongest (es @ [e]) (pattern e) ?m" using p by (fastforce simp: strongest_def)
    then have new: "strongest (es @ [e]) (pattern e) q \<longleftrightarrow> q = ?m" for q using strongest_unique by blast
    have old: "strongest es (pattern e) q \<longleftrightarrow> q = p" for q using p strongest_unique by blast
    have "effective pat = Some q \<longleftrightarrow> strongest (es @ [e]) pat q" for pat q
      by (cases "pat = pattern e") (auto simp: eff new other st old)
    moreover have "dom effective = dom eff" using Some by (auto simp: eff)
    ultimately show ?thesis using d so dm in_dom by (simp add: eff(1) insert_absorb)
  qed
qed

lemma take_entries_all:
  "distinct order \<Longrightarrow> set order \<subseteq> dom eff
   \<Longrightarrow> take_entries order eff = map (\<lambda>pat. \<lparr>pattern = pat, permission = the (eff pat)\<rparr>) order"
proof (induction order arbitrary: eff)
  case (Cons pat order)
  then obtain q where q: "eff pat = Some q" by auto
  have "take_entries order (eff(pat := None)) = map (\<lambda>p. \<lparr>pattern = p, permission = the ((eff(pat := None)) p)\<rparr>) order"
    using Cons.prems by (intro Cons.IH) auto
  also have "\<dots> = map (\<lambda>p. \<lparr>pattern = p, permission = the (eff p)\<rparr>) order"
    using Cons.prems by (intro map_cong) auto
  finally show ?case using q by simp
qed simp

lemma effective_mem_aux:
  "distinct (map pattern (effective_entries es))
   \<and> set (effective_entries es) = {e \<in> set es. list_all (\<lambda>e'. pattern e' = pattern e \<longrightarrow>
       permission_rank (permission e') \<le> permission_rank (permission e)) es}"
proof -
  obtain order eff where f: "foldl record_entry ([], Map.empty) es = (order, eff)" by fastforce
  have inv: "distinct order" "set order = dom eff" "\<And>pat q. eff pat = Some q \<longleftrightarrow> strongest es pat q"
    using record_entries_strongest [OF f] by blast+
  have t: "effective_entries es = map (\<lambda>pat. \<lparr>pattern = pat, permission = the (eff pat)\<rparr>) order"
    using inv by (simp add: effective_entries_def f take_entries_all)
  have mem: "e \<in> set (effective_entries es) \<longleftrightarrow> strongest es (pattern e) (permission e)" for e
  proof -
    have "e \<in> set (effective_entries es) \<longleftrightarrow> eff (pattern e) = Some (permission e)"
    proof
      assume "e \<in> set (effective_entries es)"
      then obtain pat where "pat \<in> set order" "e = \<lparr>pattern = pat, permission = the (eff pat)\<rparr>"
        unfolding t by (metis (no_types, lifting) imageE set_map)
      moreover from this(1) obtain q where "eff pat = Some q" using inv by (metis domD)
      ultimately show "eff (pattern e) = Some (permission e)" by simp
    next
      assume "eff (pattern e) = Some (permission e)"
      then have "pattern e \<in> set order" "e = \<lparr>pattern = pattern e, permission = the (eff (pattern e))\<rparr>"
        using inv(2) by (auto simp del: inv(3) simp: domI)
      then show "e \<in> set (effective_entries es)" unfolding t by (metis (no_types, lifting) image_eqI set_map)
    qed
    then show ?thesis using inv by blast
  qed
  have "e \<in> set (effective_entries es) \<longleftrightarrow> e \<in> {e \<in> set es. list_all (\<lambda>e'. pattern e' = pattern e \<longrightarrow>
       permission_rank (permission e') \<le> permission_rank (permission e)) es}" for e
    by (cases e) (simp add: mem strongest_def list_all_iff)
  moreover have "distinct (map pattern (effective_entries es))" using inv by (simp add: t o_def)
  ultimately show ?thesis by blast
qed

text \<open>
  The effective entries have one entry for each configured pattern, and it is the
  strongest one configured: a denial wins over an allowance of the same pattern.
\<close>

theorem effective_entries_strongest:
  "distinct (map pattern (effective_entries es))
   \<and> set (effective_entries es) = {e \<in> set es. list_all (\<lambda>e'. pattern e' = pattern e \<longrightarrow>
       permission_rank (permission e') \<le> permission_rank (permission e)) es}"
  by (rule effective_mem_aux)

lemma effective_entries_mem:
  "\<lparr>pattern = pat, permission = q\<rparr> \<in> set (effective_entries es) \<longleftrightarrow> strongest es pat q"
  using conjunct2 [OF effective_mem_aux, of es] by (simp add: strongest_def list_all_iff)

lemma pattern_image:
  "pat \<in> pattern ` {e \<in> S. permission e = q} \<longleftrightarrow> \<lparr>pattern = pat, permission = q\<rparr> \<in> S"
proof
  assume "pat \<in> pattern ` {e \<in> S. permission e = q}"
  then obtain e where "e \<in> S" "pattern e = pat" "permission e = q" by auto
  then show "\<lparr>pattern = pat, permission = q\<rparr> \<in> S" by (metis entry_eq)
next
  assume "\<lparr>pattern = pat, permission = q\<rparr> \<in> S"
  then show "pat \<in> pattern ` {e \<in> S. permission e = q}"
    by (intro image_eqI [of _ _ "\<lparr>pattern = pat, permission = q\<rparr>"]) simp_all
qed

lemma domain_entries_mem:
  "pat \<in> set (or_default (domain_entries q cfg)) \<longleftrightarrow> strongest (or_default (domains cfg)) pat q"
proof (cases "domains cfg")
  case None
  then show ?thesis by (simp add: domain_entries_def or_default_def strongest_def)
next
  case (Some es)
  let ?found = "map pattern (filter (\<lambda>entry. permission entry = q) (effective_entries es))"
  have "or_default (domain_entries q cfg) = ?found"
    by (simp add: domain_entries_def or_default_def Some Let_def)
  then show ?thesis
    using pattern_image [of pat "set (effective_entries es)" q] effective_entries_mem [of pat q es]
    by (simp add: Some or_default_def)
qed

text \<open>A pattern is denied if some entry denies it, and allowed if some entry allows it and none denies it.\<close>

lemma denied_domains_iff:
  "pat \<in> set (or_default (denied_domains cfg)) \<longleftrightarrow>
     \<lparr>pattern = pat, permission = DomainDeny\<rparr> \<in> set (or_default (domains cfg))"
proof -
  have "permission_rank p \<le> 2" for p by (cases p) auto
  then show ?thesis by (simp add: denied_domains_def domain_entries_mem strongest_def)
qed

lemma allowed_domains_iff:
  "pat \<in> set (or_default (allowed_domains cfg)) \<longleftrightarrow>
     \<lparr>pattern = pat, permission = DomainAllow\<rparr> \<in> set (or_default (domains cfg))
     \<and> \<lparr>pattern = pat, permission = DomainDeny\<rparr> \<notin> set (or_default (domains cfg))"
proof -
  have "permission_rank p \<le> 1 \<longleftrightarrow> p \<noteq> DomainDeny" for p by (cases p) auto
  then have "strongest es pat DomainAllow \<longleftrightarrow>
      \<lparr>pattern = pat, permission = DomainAllow\<rparr> \<in> set es \<and> (\<forall>e \<in> set es. pattern e = pat \<longrightarrow> permission e \<noteq> DomainDeny)" for es
    by (simp add: strongest_def)
  moreover have "(\<forall>e \<in> set es. pattern e = pat \<longrightarrow> permission e \<noteq> DomainDeny)
      \<longleftrightarrow> \<lparr>pattern = pat, permission = DomainDeny\<rparr> \<notin> set es" for es
    using pattern_image [of pat "set es" DomainDeny] by (auto simp: image_iff)
  ultimately show ?thesis by (simp add: allowed_domains_def domain_entries_mem)
qed

lemma allowed_domains_None: "allowed_domains cfg = None \<longleftrightarrow> or_default (allowed_domains cfg) = []"
  by (cases "domains cfg") (auto simp: allowed_domains_def domain_entries_def or_default_def Let_def)

text \<open>After an update only the new entry is left of those with the same host.\<close>

lemma upsert_domains:
  "set (or_default (domains (upsert_domain_permission host q norm_host cfg))) =
     {e \<in> set (or_default (domains cfg)). norm_host (pattern e) \<noteq> norm_host host} \<union> {\<lparr>pattern = host, permission = q\<rparr>}"
  by (auto simp: upsert_domain_permission_def Let_def some_unless_empty_def or_default_def)

lemma upsert_deny_denied:
  "host \<in> set (or_default (denied_domains (upsert_domain_permission host DomainDeny norm_host cfg)))"
  by (simp add: denied_domains_iff upsert_domains)

lemma upsert_allow_allowed:
  "host \<in> set (or_default (allowed_domains (upsert_domain_permission host DomainAllow norm_host cfg)))"
  by (auto simp: allowed_domains_iff upsert_domains)

section \<open>Listening addresses\<close>

lemma localhost_loopback [simp]: "ip_is_loopback localhost_ip"
  by code_simp

lemma clamp_loopback: "\<not> allow \<Longrightarrow> ip_is_loopback (fst (clamp_non_loopback addr allow))"
  by (simp add: clamp_non_loopback_def)

text \<open>
  The proxy listens on loopback addresses only, unless the settings allow other
  addresses and no unix socket can be reached through it; the ports are the ones
  the settings name.
\<close>

theorem proxy_listens_on_loopback:
  assumes "resolve_runtime hp url_parse cfg = Ok (http_addr, socks_addr)"
    and "\<not> dangerously_allow_non_loopback_proxy cfg \<or> allow_unix_sockets cfg \<noteq> []
         \<or> dangerously_allow_all_unix_sockets cfg"
  shows "ip_is_loopback (fst http_addr) \<and> ip_is_loopback (fst socks_addr)
    \<and> (\<exists>ip. resolve_addr url_parse (proxy_url cfg) 3128 = Ok (ip, snd http_addr))
    \<and> (\<exists>ip. resolve_addr url_parse (socks_url cfg) 8081 = Ok (ip, snd socks_addr))"
proof -
  have ports: "snd (clamp_non_loopback a b) = snd a" for a b by (simp add: clamp_non_loopback_def)
  obtain a b where "resolve_addr url_parse (proxy_url cfg) 3128 = Ok a" "resolve_addr url_parse (socks_url cfg) 8081 = Ok b"
    "clamp_bind_addrs a b cfg = (http_addr, socks_addr)"
    using assms(1)
    by (cases "resolve_addr url_parse (proxy_url cfg) 3128"; cases "resolve_addr url_parse (socks_url cfg) 8081")
       (auto simp: resolve_runtime_def bind_result_eq)
  then show ?thesis
    using assms(2) clamp_loopback [of False a] clamp_loopback [of False b] ports
    by (cases a; cases b) (auto simp: clamp_bind_addrs_def Let_def split: if_splits)
qed

text \<open>A listener on every address and an allowed unix socket.\<close>

theorem proxy_listens_on_loopback_witness:
  "resolve_runtime \<lparr>home_dir = None, current_dir = None\<rparr> (\<lambda>_. Some (Some (rs ''0.0.0.0''), Some 9))
     (default_settings\<lparr>dangerously_allow_non_loopback_proxy := True,
        unix_sockets := Some [(rs ''/s'', SocketAllow)]\<rparr>) = Ok ((localhost_ip, 9), (localhost_ip, 9))
   \<and> ip_is_loopback localhost_ip"
proof -
  let ?hp = "\<lparr>home_dir = None, current_dir = None\<rparr>" and ?up = "\<lambda>_::rstr. Some (Some (rs ''0.0.0.0''), Some (9::u16))"
  let ?cfg = "default_settings\<lparr>dangerously_allow_non_loopback_proxy := True,
        unix_sockets := Some [(rs ''/s'', SocketAllow)]\<rparr>"
  have r: "resolve_runtime ?hp ?up ?cfg = Ok ((localhost_ip, 9), (localhost_ip, 9))" by code_simp
  have "allow_unix_sockets ?cfg \<noteq> []" by code_simp
  then show ?thesis using proxy_listens_on_loopback [OF r] r by simp
qed

section \<open>Printed addresses\<close>

lemma decimal_digits: "list_all is_ascii_digit (decimal n) \<and> decimal n \<noteq> []"
proof (induction n rule: decimal.induct)
  case (1 n)
  then show ?case by (subst (1 2) decimal.simps) (auto simp: list_all_iff is_ascii_digit_def)
qed

lemma decimal_value: "foldl (\<lambda>n c. n * 10 + (c - 48)) 0 (decimal n) = int n"
proof (induction n rule: decimal.induct)
  case (1 n)
  then show ?case by (subst decimal.simps) (simp add: zdiv_int zmod_int)
qed

lemma decimal_free: "c < 48 \<or> 57 < c \<Longrightarrow> c \<notin> set (decimal n)"
  using decimal_digits [of n] by (auto simp: list_all_iff is_ascii_digit_def)

lemma parse_u16_decimal: "parse_u16 (decimal (unat port)) = Some port"
proof -
  have "int (unat port) < 65536" using uint_bounded [of port] by simp
  moreover have "hd (decimal (unat port)) \<noteq> 43"
  proof
    assume "hd (decimal (unat port)) = 43"
    then have "43 \<in> set (decimal (unat port))" using hd_in_set decimal_digits [of "unat port"] by force
    then show False using decimal_free [of 43 "unat port"] by simp
  qed
  ultimately show ?thesis
    using decimal_digits [of "unat port"] decimal_value [of "unat port"]
    by (cases "decimal (unat port)") (auto simp: parse_u16_def Let_def)
qed

lemma split_once_free: "c \<notin> set s \<Longrightarrow> split_once c s = None"
  using split_once_Some [of c s] by (cases "split_once c s") auto

lemma rsplit_once_free: "c \<notin> set s \<Longrightarrow> rsplit_once c s = None"
  by (simp add: rsplit_once_def split_once_free)

lemma rsplit_once_append: "c \<notin> set b \<Longrightarrow> rsplit_once c (a @ c # b) = Some (a, b)"
  by (simp add: rsplit_once_def split_once_def takeWhile_append dropWhile_append)

lemma no_scheme: "47 \<notin> set s \<Longrightarrow> split_once_str (rs ''://'') s = None"
proof -
  assume "47 \<notin> set s"
  then have "\<not> starts_with (drop n s) (rs ''://'')" for n
    by (auto simp: starts_with_iff rs_def dest!: arg_cong [where f = set] dest: in_set_dropD)
  then show ?thesis by (simp add: split_once_str_def find_str_None)
qed

text \<open>
  An address that is printed for a log or a URL is read back as the same host and
  port, for hosts with colons (printed in brackets) and without.
\<close>

theorem host_port_roundtrip:
  assumes "host \<noteq> []" and "{47, 64, 91, 93} \<inter> set host = {}"
  shows "parse_host_port_fallback (format_host_and_port host port) default_port = Ok (host, port)"
proof (cases "58 \<in> set host")
  case True
  let ?t = "91 # host @ 93 # 58 # decimal (unat port)"
  have printed: "format_host_and_port host port = ?t"
    using True by (simp add: format_host_and_port_def rs_def)
  have free: "47 \<notin> set ?t" "64 \<notin> set ?t" using assms(2) by (simp_all add: decimal_free)
  have found: "find_str [93] ?t = Some (Suc (length host))"
    using assms(2) by (intro find_str_eqI) (auto simp: starts_with_def take_Suc hd_drop_conv_nth nth_Cons' nth_append dest: nth_mem split: if_splits)
  show ?thesis
    unfolding printed parse_host_port_fallback_def no_scheme [OF free(1)]
    using found free assms(1)
    by (simp add: split_char_free rsplit_once_free starts_with_def port_or_def parse_u16_decimal Let_def)
next
  case False
  let ?t = "host @ 58 # decimal (unat port)"
  have printed: "format_host_and_port host port = ?t" using False by (simp add: format_host_and_port_def)
  have free: "47 \<notin> set ?t" "64 \<notin> set ?t" using assms(2) by (simp_all add: decimal_free)
  have plain: "\<not> starts_with ?t [91]" using assms by (cases host) (auto simp: starts_with_def)
  have "filter (\<lambda>c. c = 58) host = []" using False by (auto simp: filter_empty_conv)
  moreover have "filter (\<lambda>c. c = 58) (decimal (unat port)) = []"
    using decimal_free [of 58 "unat port"] by (auto simp: filter_empty_conv)
  ultimately have once: "length (filter (\<lambda>c. c = 58) ?t) = 1" by simp
  have "rsplit_once 58 ?t = Some (host, decimal (unat port))" by (simp add: rsplit_once_append decimal_free)
  then show ?thesis
    unfolding printed parse_host_port_fallback_def no_scheme [OF free(1)]
    using free plain once assms(1)
    by (simp add: split_char_free rsplit_once_free port_or_def parse_u16_decimal Let_def)
qed

theorem host_port_roundtrip_witness:
  "parse_host_port_fallback (format_host_and_port (rs ''::1'') 443) 80 = Ok (rs ''::1'', 443)"
proof -
  have "rs ''::1'' \<noteq> []" "{47, 64, 91, 93} \<inter> set (rs ''::1'') = {}" by code_simp+
  then show ?thesis by (rule host_port_roundtrip)
qed

end
