(* ===== verification/Net_Hook_Facts.thy ===== *)
theory Net_Hook_Facts
  imports Net_Hooks
begin

text \<open>
  Hooks: a validated configuration compiles unless a secret is missing, hooks are filed
  under the normal form of their host in the order of the configuration, and the
  actions taken on a request are those of the first configured hook that matches it.
\<close>

section \<open>Compilation after validation\<close>

text \<open>The errors that only reading the secrets can show.\<close>

fun secret_error :: "hook_error \<Rightarrow> bool" where
  "secret_error (MissingEnvVar _) = True"
| "secret_error (SecretFileUnreadable _) = True"
| "secret_error (InvalidHeaderValue _) = True"
| "secret_error _ = False"

lemma collect_results_Err: "collect_results f xs = Err e \<Longrightarrow> \<exists>x \<in> set xs. f x = Err e"
  by (induction xs) (auto simp: bind_result_eq result_map_eq)

lemma collect_results_Ok_mem: "collect_results f xs = Ok ys \<Longrightarrow> x \<in> set xs \<Longrightarrow> is_ok (f x)"
  by (induction xs arbitrary: ys) (auto simp: bind_result_eq result_map_eq)

lemma collect_cannot_fail: "(\<And>x. x \<in> set xs \<Longrightarrow> is_ok (f x)) \<Longrightarrow> \<exists>ys. collect_results f xs = Ok ys"
  using collect_results_Err by (cases "collect_results f xs") fastforce+

lemma query_validated_compiles:
  "validate_query_constraints lib qs = Ok () \<Longrightarrow> (name, vals) \<in> set qs
   \<Longrightarrow> is_ok (normalize_query_name name) \<and> is_ok (compile_value_matchers lib vals)"
  by (induction lib qs rule: validate_query_constraints.induct) (auto simp: bind_result_eq split: if_splits)

lemma headers_validated_compile:
  "validate_header_constraints lib hs = Ok () \<Longrightarrow> (name, vals) \<in> set hs
   \<Longrightarrow> is_ok (parse_header_name lib name) \<and> is_ok (compile_value_matchers lib vals)"
  by (induction lib hs rule: validate_header_constraints.induct) (auto simp: bind_result_eq)

lemma injected_header_error:
  assumes "is_ok (validate_injected_header lib h)" "compile_injected_header lib h = Err e"
  shows "secret_error e"
  using assms
  by (cases "parse_header_name lib (header_name h)"; cases "secret_env_var h"; cases "secret_file h")
     (auto simp: validate_injected_header_def compile_injected_header_def bind_result_eq result_map_eq
       split: option.splits result.splits if_splits)

lemma is_okE: "is_ok r \<Longrightarrow> \<exists>x. r = Ok x"
  by (cases r) auto

lemma compile_hook_error:
  assumes "validate_hook lib i hook = Ok ()" "compile_hook lib hook = Err e"
  shows "secret_error e"
proof -
  let ?m = "matcher hook" and ?a = "actions hook"
  have v: "is_ok (normalize_hook_host (hook_host hook))" "is_ok (normalize_methods (methods ?m))"
    "is_ok (compile_path_matchers lib (path_prefixes ?m))" "validate_query_constraints lib (query ?m) = Ok ()"
    "validate_header_constraints lib (headers ?m) = Ok ()"
    "is_ok (collect_results (parse_header_name lib) (strip_request_headers ?a))"
    "is_ok (collect_results (validate_injected_header lib) (inject_request_headers ?a))"
    using assms(1)
    by (auto simp: validate_hook_def Let_def bind_result_eq result_map_err_Ok result_map_eq
        validate_strip_request_headers_def validate_injected_headers_def split: if_splits)
  let ?q = "\<lambda>(name, vals). bind_result (normalize_query_name name) (\<lambda>n.
            result_map (\<lambda>allowed. (n, allowed)) (compile_value_matchers lib vals))"
  let ?h = "\<lambda>(name, vals). bind_result (parse_header_name lib name) (\<lambda>n.
            result_map (\<lambda>allowed. (n, allowed)) (compile_value_matchers lib vals))"
  have "\<exists>qs. collect_results ?q (query ?m) = Ok qs"
    by (rule collect_cannot_fail) (auto dest!: query_validated_compiles [OF v(4)] is_okE)
  moreover have "\<exists>hs. collect_results ?h (headers ?m) = Ok hs"
    by (rule collect_cannot_fail) (auto dest!: headers_validated_compile [OF v(5)] is_okE)
  ultimately obtain host ms ps qs hs strip where
    "normalize_hook_host (hook_host hook) = Ok host" "normalize_methods (methods ?m) = Ok ms"
    "compile_path_matchers lib (path_prefixes ?m) = Ok ps" "collect_results ?q (query ?m) = Ok qs"
    "collect_results ?h (headers ?m) = Ok hs"
    "collect_results (parse_header_name lib) (strip_request_headers ?a) = Ok strip"
    using v(1,2,3,6) [THEN is_okE] by blast
  then have "compile_hook lib hook = bind_result (collect_results (compile_injected_header lib) (inject_request_headers ?a))
      (\<lambda>inject. Ok \<lparr>mitm_hook_host = host,
            mitm_hook_matcher = \<lparr>matcher_methods = ms, matcher_paths = ps, matcher_query = qs, matcher_headers = hs,
              matcher_body = None\<rparr>,
            mitm_hook_actions = \<lparr>strip_headers = strip, inject_headers = inject\<rparr>\<rparr>)"
    by (simp only: compile_hook_def Let_def bind_result.simps)
  then have "collect_results (compile_injected_header lib) (inject_request_headers ?a) = Err e"
    using assms(2) by (cases "collect_results (compile_injected_header lib) (inject_request_headers ?a)") simp_all
  from collect_results_Err [OF this] obtain h
    where "h \<in> set (inject_request_headers ?a)" "compile_injected_header lib h = Err e" ..
  then show ?thesis using injected_header_error v(7) collect_results_Ok_mem is_okE by metis
qed

lemma compile_hooks_error:
  "validate_hooks_from lib i hooks = Ok () \<Longrightarrow> compile_hooks_into lib by_host hooks = Err e \<Longrightarrow> secret_error e"
  by (induction hooks arbitrary: i by_host) (auto simp: bind_result_eq dest: compile_hook_error)

text \<open>
  Once hooks have been validated, compiling them fails only because of a secret: a
  missing variable, an unreadable file, or a secret that is no header value.
\<close>

theorem validated_hooks_compile:
  assumes "validate_mitm_hook_config lib cfg = Ok ()" "compile_mitm_hooks lib cfg = Err e"
  shows "secret_error e"
  using assms
  by (auto simp: compile_mitm_hooks_def validate_mitm_hook_config_def bind_result_eq dest: compile_hooks_error
      split: if_splits)

text \<open>A library for examples: every header is accepted, and no secret is there.\<close>

definition plain_hooks :: hook_library where
  "plain_hooks =
     \<lparr>header_name_from_bytes = Some, header_value_from_str = Some, glob_builds = \<lambda>_ _. True,
      glob_is_match = \<lambda>_ p c. p = c, form_urlencoded_parse = \<lambda>_. [], env_var = \<lambda>_. None,
      read_to_string = \<lambda>_. None, paths = \<lparr>home_dir = None, current_dir = None\<rparr>\<rparr>"

definition example_hook :: mitm_hook_config where
  "example_hook =
     \<lparr>hook_host = rs ''API.github.com'',
      matcher = \<lparr>methods = [rs ''post''], path_prefixes = [rs ''/repos/''], query = [], headers = [], body = None\<rparr>,
      actions = \<lparr>strip_request_headers = [rs ''authorization''], inject_request_headers = []\<rparr>\<rparr>"

definition example_header :: injected_header_config where
  "example_header =
     \<lparr>header_name = rs ''authorization'', secret_env_var = Some (rs ''TOKEN''), secret_file = None, header_prefix = None\<rparr>"

theorem validated_hooks_compile_witness: "secret_error (MissingEnvVar (rs ''TOKEN''))"
proof -
  let ?cfg = "default_settings\<lparr>mitm := True, mitm_hooks :=
    [example_hook\<lparr>actions := \<lparr>strip_request_headers = [], inject_request_headers = [example_header]\<rparr>\<rparr>]\<rparr>"
  have "validate_mitm_hook_config plain_hooks ?cfg = Ok ()" by code_simp
  moreover have "compile_mitm_hooks plain_hooks ?cfg = Err (MissingEnvVar (rs ''TOKEN''))"
  proof -
    have "case compile_mitm_hooks plain_hooks ?cfg of Err e \<Rightarrow> e = MissingEnvVar (rs ''TOKEN'') | Ok _ \<Rightarrow> False" by code_simp
    then show ?thesis by (simp split: result.splits)
  qed
  ultimately show ?thesis by (rule validated_hooks_compile)
qed

section \<open>Evaluation\<close>

text \<open>The hooks of a host, in the order of the configuration.\<close>

lemma add_hook_lookup:
  "add_hook h m k = (if k = mitm_hook_host h then Some ((case m k of Some hs \<Rightarrow> hs | None \<Rightarrow> []) @ [h]) else m k)"
  by (simp add: add_hook_def)

lemma compile_hook_host: "compile_hook lib c = Ok h \<Longrightarrow> normalize_hook_host (hook_host c) = Ok (mitm_hook_host h)"
  by (auto simp: compile_hook_def Let_def bind_result_eq)

lemma compiled_hooks_of_host:
  assumes "compile_hooks_into lib by_host cs = Ok res"
  shows "\<exists>hs. list_all2 (\<lambda>c h. compile_hook lib c = Ok h) cs hs
    \<and> (\<forall>k. (case res k of Some l \<Rightarrow> l | None \<Rightarrow> []) =
          (case by_host k of Some l \<Rightarrow> l | None \<Rightarrow> []) @ filter (\<lambda>h. mitm_hook_host h = k) hs)
    \<and> (\<forall>k. res k = None \<longleftrightarrow> by_host k = None \<and> (\<forall>h \<in> set hs. mitm_hook_host h \<noteq> k))"
  using assms
proof (induction cs arbitrary: by_host)
  case (Cons c cs)
  then obtain h where h: "compile_hook lib c = Ok h" "compile_hooks_into lib (add_hook h by_host) cs = Ok res"
    by (auto simp: bind_result_eq)
  from Cons.IH [OF h(2)] obtain hs where hs: "list_all2 (\<lambda>c h. compile_hook lib c = Ok h) cs hs"
    "\<And>k. (case res k of Some l \<Rightarrow> l | None \<Rightarrow> []) =
          (case add_hook h by_host k of Some l \<Rightarrow> l | None \<Rightarrow> []) @ filter (\<lambda>h. mitm_hook_host h = k) hs"
    "\<And>k. res k = None \<longleftrightarrow> add_hook h by_host k = None \<and> (\<forall>h \<in> set hs. mitm_hook_host h \<noteq> k)"
    by blast
  show ?case
    by (rule exI [of _ "h # hs"]) (use h(1) hs in \<open>auto simp: add_hook_lookup\<close>)
qed simp

lemma first_matching_hook_eq:
  "first_matching_hook lib hs req =
     (case find (\<lambda>h. hook_matches lib h req) hs of Some h \<Rightarrow> Matched (mitm_hook_actions h) | None \<Rightarrow> HookedHostNoMatch)"
  by (induction hs) auto

text \<open>
  C34: what compiled hooks do to a request is what the configuration says: without a hook
  for the host nothing, and otherwise the actions of the first configured hook of the
  host that matches, or a refusal when none does.
\<close>

theorem hooks_act_by_configuration:
  assumes "compile_mitm_hooks lib cfg = Ok by_host"
  shows "\<exists>hs. list_all2 (\<lambda>c h. compile_hook lib c = Ok h) (mitm_hooks cfg) hs
    \<and> evaluate_mitm_hooks lib by_host host req =
       (let here = filter (\<lambda>h. mitm_hook_host h = normalize_host host) hs in
        if here = [] then NoHooksForHost
        else case find (\<lambda>h. hook_matches lib h req) here of
          Some h \<Rightarrow> Matched (mitm_hook_actions h) | None \<Rightarrow> HookedHostNoMatch)"
proof -
  have "compile_hooks_into lib Map.empty (mitm_hooks cfg) = Ok by_host"
    using assms by (auto simp: compile_mitm_hooks_def bind_result_eq)
  from compiled_hooks_of_host [OF this] obtain hs where hs:
    "list_all2 (\<lambda>c h. compile_hook lib c = Ok h) (mitm_hooks cfg) hs"
    "\<And>k. (case by_host k of Some l \<Rightarrow> l | None \<Rightarrow> []) = filter (\<lambda>h. mitm_hook_host h = k) hs"
    "\<And>k. by_host k = None \<longleftrightarrow> (\<forall>h \<in> set hs. mitm_hook_host h \<noteq> k)"
    by auto
  let ?here = "filter (\<lambda>h. mitm_hook_host h = normalize_host host) hs"
  have "evaluate_mitm_hooks lib by_host host req =
      (if ?here = [] then NoHooksForHost else first_matching_hook lib ?here req)"
    using hs(2,3) [of "normalize_host host"]
    by (cases "by_host (normalize_host host)") (auto simp: evaluate_mitm_hooks_def filter_empty_conv)
  then show ?thesis using hs(1) by (auto simp: Let_def first_matching_hook_eq)
qed

text \<open>A request to the hooked host whose path starts with the configured prefix.\<close>

definition example_http_request :: http_request where
  "example_http_request =
     \<lparr>request_method = rs ''POST'', request_path = rs ''/repos/x'', request_query = None, request_headers = []\<rparr>"

theorem hooks_act_by_configuration_witness:
  "\<exists>by_host. compile_mitm_hooks plain_hooks (default_settings\<lparr>mitm := True, mitm_hooks := [example_hook]\<rparr>) = Ok by_host
     \<and> evaluate_mitm_hooks plain_hooks by_host (rs ''api.github.com.'') example_http_request
       = Matched \<lparr>strip_headers = [rs ''authorization''], inject_headers = []\<rparr>"
proof -
  let ?cfg = "default_settings\<lparr>mitm := True, mitm_hooks := [example_hook]\<rparr>"
  let ?h = "\<lparr>mitm_hook_host = rs ''api.github.com'',
    mitm_hook_matcher = \<lparr>matcher_methods = [rs ''POST''], matcher_paths = [PathPrefix (rs ''/repos/'')],
      matcher_query = [], matcher_headers = [], matcher_body = None\<rparr>,
    mitm_hook_actions = \<lparr>strip_headers = [rs ''authorization''], inject_headers = []\<rparr>\<rparr>"
  have "is_ok (compile_mitm_hooks plain_hooks ?cfg)" by code_simp
  then obtain by_host where ok: "compile_mitm_hooks plain_hooks ?cfg = Ok by_host" using is_okE by blast
  have h: "compile_hook plain_hooks example_hook = Ok ?h" by code_simp
  obtain hs where "list_all2 (\<lambda>c h. compile_hook plain_hooks c = Ok h) (mitm_hooks ?cfg) hs"
    and ev: "evaluate_mitm_hooks plain_hooks by_host (rs ''api.github.com.'') example_http_request =
       (let here = filter (\<lambda>h. mitm_hook_host h = normalize_host (rs ''api.github.com.'')) hs in
        if here = [] then NoHooksForHost
        else case find (\<lambda>h. hook_matches plain_hooks h example_http_request) here of
          Some h \<Rightarrow> Matched (mitm_hook_actions h) | None \<Rightarrow> HookedHostNoMatch)"
    using hooks_act_by_configuration [OF ok] by blast
  then have "hs = [?h]" using h by (auto simp: list_all2_Cons1)
  moreover have "mitm_hook_host ?h = normalize_host (rs ''api.github.com.'')" "hook_matches plain_hooks ?h example_http_request"
    by code_simp+
  ultimately show ?thesis using ok ev by simp
qed

end
