(* ===== verification/Net_Constraints_Facts.thy ===== *)
theory Net_Constraints_Facts
  imports Net_Constraints Net_Host_Facts Net_Config_Facts Net_Hook_Facts
begin

text \<open>
  What a validated configuration keeps of the managed constraints, and what the
  compiled state is made of.
\<close>

section \<open>Validated settings\<close>

lemma lower_set_mem: "x \<in> lower_set xs \<longleftrightarrow> (\<exists>y \<in> set xs. to_ascii_lowercase y = x)"
  by (auto simp: lower_set_def)

lemma missing_entries_Nil: "missing_entries required present = [] \<longleftrightarrow> lower_set required \<subseteq> present"
  by (auto simp: missing_entries_def lower_set_def filter_empty_conv)

lemma result_unit_Ok: "r = Ok () \<longleftrightarrow> is_ok (r :: (net_error, unit) result)"
  by (cases r) auto

lemma disabled_Ok: "disabled_by_managed_config f v = Ok () \<longleftrightarrow> \<not> v"
  by (simp add: disabled_by_managed_config_def)

lemma validate_mode_Ok:
  "validate_mode m limit = Ok () \<longleftrightarrow> (\<forall>l. limit = Some l \<longrightarrow> network_mode_rank m \<le> network_mode_rank l)"
  by (auto simp: validate_mode_def split: option.splits)

lemma validate_policy_Ok:
  "validate_policy_against_constraints lib cfg c = Ok () \<longleftrightarrow>
     validate_mitm_hook_config (hooks_lib lib) cfg = Ok ()
     \<and> validate_non_global_wildcard_domain_patterns (rs ''network.denied_domains'') (or_default (denied_domains cfg)) = Ok ()
     \<and> \<not> (enabled cfg \<and> max_enabled c = Some False)
     \<and> validate_mode (mode cfg) (max_mode c) = Ok ()
     \<and> \<not> (max_upstream_proxy c = Some False \<and> allow_upstream_proxy cfg)
     \<and> \<not> (max_non_loopback_proxy c = Some False \<and> dangerously_allow_non_loopback_proxy cfg)
     \<and> \<not> (dangerously_allow_all_unix_sockets cfg
          \<and> \<not> (case max_all_unix_sockets c of Some b \<Rightarrow> b | None \<Rightarrow> managed_unix_sockets c = None))
     \<and> \<not> (allow_local_binding cfg \<and> max_local_binding c = Some False)
     \<and> (case managed_allowed_domains c of
          Some managed \<Rightarrow> validate_allowed_domains (url_host lib) (or_default (allowed_domains cfg))
            (or_default (denied_domains cfg)) managed (allowlist_expansion_enabled c) = Ok ()
        | None \<Rightarrow> True)
     \<and> (case managed_denied_domains c of
          Some managed \<Rightarrow> validate_denied_domains (or_default (denied_domains cfg)) managed (denylist_expansion_enabled c) = Ok ()
        | None \<Rightarrow> True)
     \<and> (case managed_unix_sockets c of
          Some managed \<Rightarrow> validate_unix_sockets (allow_unix_sockets cfg) managed = Ok ()
        | None \<Rightarrow> True)"
  by (simp add: validate_policy_against_constraints_def Let_def bind_result_eq disabled_Ok result_map_err_Ok
      split: option.splits)

text \<open>Only one of the checks looks at the mode.\<close>

lemma mode_independent [simp]:
  "allowed_domains (cfg\<lparr>mode := m\<rparr>) = allowed_domains cfg"
  "denied_domains (cfg\<lparr>mode := m\<rparr>) = denied_domains cfg"
  "allow_unix_sockets (cfg\<lparr>mode := m\<rparr>) = allow_unix_sockets cfg"
  "validate_mitm_hook_config hl (cfg\<lparr>mode := m\<rparr>) = validate_mitm_hook_config hl cfg"
  "compile_mitm_hooks hl (cfg\<lparr>mode := m\<rparr>) = compile_mitm_hooks hl cfg"
  by (simp_all add: allowed_domains_def denied_domains_def domain_entries_def allow_unix_sockets_def
      validate_mitm_hook_config_def compile_mitm_hooks_def)

lemma validate_with_mode:
  "validate_policy_against_constraints lib cfg c = Ok () \<Longrightarrow> validate_mode m (max_mode c) = Ok ()
   \<Longrightarrow> validate_policy_against_constraints lib (cfg\<lparr>mode := m\<rparr>) c = Ok ()"
  by (simp add: validate_policy_Ok cong: option.case_cong)

lemma validate_gives_mode:
  "validate_policy_against_constraints lib (cfg\<lparr>mode := m\<rparr>) c = Ok () \<Longrightarrow> validate_mode m (max_mode c) = Ok ()"
  by (simp add: validate_policy_Ok)

section \<open>Managed domains\<close>

lemma validate_allowed_subset:
  assumes "validate_allowed_domains uh candidate denied managed None = Ok ()" "pat \<in> set candidate"
  shows "\<exists>m \<in> set managed. pattern_allows (parse_for_constraints uh m) (parse_for_constraints uh pat)"
  using assms
  by (auto simp: validate_allowed_domains_def Let_def bind_result_eq filter_empty_conv list_ex_iff split: if_splits)

lemma validate_denied_superset:
  "validate_denied_domains candidate managed expansion = Ok () \<Longrightarrow> lower_set managed \<subseteq> lower_set candidate"
  by (auto simp: validate_denied_domains_def Let_def bind_result_eq missing_entries_Nil split: if_splits)

text \<open>
  C31: settings that pass the validation are no wider than the managed constraints: the
  switches that managed configuration turns off are off and the mode is at most the
  managed one, every managed denial is denied, every allowed unix socket is a managed
  one, and, when the managed allowlist may not be extended freely, every configured
  pattern stands only for hosts of a managed pattern.
\<close>

theorem validated_within_constraints:
  assumes "validate_policy_against_constraints lib cfg c = Ok ()"
  shows "(enabled cfg \<longrightarrow> max_enabled c \<noteq> Some False)
    \<and> (allow_upstream_proxy cfg \<longrightarrow> max_upstream_proxy c \<noteq> Some False)
    \<and> (dangerously_allow_non_loopback_proxy cfg \<longrightarrow> max_non_loopback_proxy c \<noteq> Some False)
    \<and> (allow_local_binding cfg \<longrightarrow> max_local_binding c \<noteq> Some False)
    \<and> (dangerously_allow_all_unix_sockets cfg \<longrightarrow>
         max_all_unix_sockets c = Some True \<or> (max_all_unix_sockets c = None \<and> managed_unix_sockets c = None))
    \<and> (\<forall>m. max_mode c = Some m \<longrightarrow> network_mode_rank (mode cfg) \<le> network_mode_rank m)
    \<and> (\<forall>managed. managed_denied_domains c = Some managed \<longrightarrow>
         lower_set managed \<subseteq> lower_set (or_default (denied_domains cfg)))
    \<and> (\<forall>managed. managed_unix_sockets c = Some managed \<longrightarrow> lower_set (allow_unix_sockets cfg) \<subseteq> lower_set managed)
    \<and> (\<forall>managed pat. managed_allowed_domains c = Some managed \<and> allowlist_expansion_enabled c = None
         \<and> pat \<in> set (or_default (allowed_domains cfg))
         \<and> normalize_domain (pattern_domain (parse_for_constraints (url_host lib) pat)) \<noteq> [] \<longrightarrow>
         (\<exists>m \<in> set managed. pattern_hosts (parse_for_constraints (url_host lib) pat)
            \<subseteq> pattern_hosts (parse_for_constraints (url_host lib) m)))
    \<and> (\<forall>managed. managed_allowed_domains c = Some managed \<and> allowlist_expansion_enabled c = Some False \<longrightarrow>
         lower_set (or_default (allowed_domains cfg)) = lower_set managed - lower_set (or_default (denied_domains cfg)))"
proof -
  note ok = assms [unfolded validate_policy_Ok]
  have sockets: "lower_set (allow_unix_sockets cfg) \<subseteq> lower_set managed" if "managed_unix_sockets c = Some managed" for managed
    using ok that by (auto simp: validate_unix_sockets_def Let_def filter_empty_conv lower_set_mem split: if_splits) 
  have denied: "lower_set managed \<subseteq> lower_set (or_default (denied_domains cfg))" if "managed_denied_domains c = Some managed" for managed
    using ok that validate_denied_superset by auto
  have hosts: "\<exists>m \<in> set managed. pattern_hosts (parse_for_constraints (url_host lib) pat)
      \<subseteq> pattern_hosts (parse_for_constraints (url_host lib) m)"
    if "managed_allowed_domains c = Some managed" "allowlist_expansion_enabled c = None"
      "pat \<in> set (or_default (allowed_domains cfg))"
      "normalize_domain (pattern_domain (parse_for_constraints (url_host lib) pat)) \<noteq> []" for managed pat
    using ok that validate_allowed_subset [of "url_host lib" _ _ managed pat] pattern_allows_hosts by force
  have exact: "lower_set (or_default (allowed_domains cfg)) = lower_set managed - lower_set (or_default (denied_domains cfg))"
    if "managed_allowed_domains c = Some managed" "allowlist_expansion_enabled c = Some False" for managed
    using ok that by (auto simp: validate_allowed_domains_def Let_def bind_result_eq split: if_splits)
  have switches: "dangerously_allow_all_unix_sockets cfg \<longrightarrow>
      max_all_unix_sockets c = Some True \<or> (max_all_unix_sockets c = None \<and> managed_unix_sockets c = None)"
    using ok by (auto split: option.splits)
  have mode: "network_mode_rank (mode cfg) \<le> network_mode_rank m" if "max_mode c = Some m" for m
    using ok that by (simp add: validate_mode_Ok)
  have off: "enabled cfg \<longrightarrow> max_enabled c \<noteq> Some False" "allow_upstream_proxy cfg \<longrightarrow> max_upstream_proxy c \<noteq> Some False"
    "dangerously_allow_non_loopback_proxy cfg \<longrightarrow> max_non_loopback_proxy c \<noteq> Some False"
    "allow_local_binding cfg \<longrightarrow> max_local_binding c \<noteq> Some False"
    using ok by blast+
  show ?thesis
    apply (intro conjI off switches)
    subgoal using mode by blast
    subgoal using denied by blast
    subgoal using sockets by blast
    subgoal using hosts by blast
    subgoal using exact by blast
    done
qed

text \<open>The smallest library for examples: patterns match themselves only.\<close>

definition literal_globs :: "rstr list glob_library" where
  "literal_globs = \<lparr>glob_valid = \<lambda>_. True, globset_build = Some, globset_is_match = \<lambda>g h. list_ex (\<lambda>p. p = h) g\<rparr>"

definition literal_library :: "(rstr list, unit) net_library" where
  "literal_library = \<lparr>globs = literal_globs, hooks_lib = plain_hooks, url_host = Some, mitm_new = \<lambda>_ _. Some ()\<rparr>"

definition no_constraints :: network_proxy_constraints where
  "no_constraints =
     \<lparr>max_enabled = None, max_mode = None, max_upstream_proxy = None, max_non_loopback_proxy = None,
      max_all_unix_sockets = None, managed_allowed_domains = None, allowlist_expansion_enabled = None,
      managed_denied_domains = None, denylist_expansion_enabled = None, managed_unix_sockets = None,
      max_local_binding = None\<rparr>"

theorem validated_within_constraints_witness:
  "pattern_hosts (parse_for_constraints Some (rs ''api.example.com''))
     \<subseteq> pattern_hosts (parse_for_constraints Some (rs ''*.example.com''))"
proof -
  let ?cfg = "set_denied_domains [rs ''x.org''] (set_allowed_domains [rs ''api.example.com''] default_settings)"
  let ?c = "no_constraints\<lparr>managed_allowed_domains := Some [rs ''*.example.com''],
    managed_denied_domains := Some [rs ''X.org'']\<rparr>"
  have ok: "validate_policy_against_constraints literal_library ?cfg ?c = Ok ()" by code_simp
  have "rs ''api.example.com'' \<in> set (or_default (allowed_domains ?cfg))"
    "normalize_domain (pattern_domain (parse_for_constraints (url_host literal_library) (rs ''api.example.com''))) \<noteq> []"
    by code_simp+
  moreover have "managed_allowed_domains ?c = Some [rs ''*.example.com'']" "allowlist_expansion_enabled ?c = None"
    "url_host literal_library = Some" by (simp_all add: no_constraints_def literal_library_def)
  ultimately show ?thesis using validated_within_constraints [OF ok] by (metis (no_types, lifting) empty_iff empty_set set_ConsD)
qed

section \<open>Compiled states\<close>

lemma build_config_state_Ok:
  "build_config_state lib cfg c = Ok s \<Longrightarrow>
     config s = cfg \<and> constraints s = c \<and> blocked s = [] \<and> blocked_total s = 0
     \<and> compile_denylist_globset (globs lib) (or_default (denied_domains cfg)) = Ok (deny_set s)
     \<and> compile_allowlist_globset (globs lib) (or_default (allowed_domains cfg)) = Ok (allow_set s)
     \<and> compile_mitm_hooks (hooks_lib lib) cfg = Ok (compiled_hooks s)
     \<and> (mitm_state s \<noteq> None \<longleftrightarrow> mitm cfg) \<and> (credential_broker cfg \<longrightarrow> mitm cfg)"
  by (auto simp: build_config_state_def Let_def bind_result_eq result_map_err_Ok split: if_splits option.splits)

lemma add_candidates_covers:
  "add_candidates gl added cs = Ok res \<Longrightarrow> set added \<union> set cs \<subseteq> set res"
  by (induction cs arbitrary: added) (fastforce split: if_splits)+

lemma add_patterns_covers:
  "add_patterns gl rg added ps = Ok res \<Longrightarrow>
     set added \<subseteq> set res \<and> (\<forall>p \<in> set ps. set (expand_domain_pattern (normalize_pattern p)) \<subseteq> set res)"
proof (induction ps arbitrary: added)
  case (Cons p ps)
  then obtain mid where mid: "add_candidates gl added (expand_domain_pattern (normalize_pattern p)) = Ok mid"
    "add_patterns gl rg mid ps = Ok res"
    by (auto simp: bind_result_eq split: if_splits)
  show ?case using add_candidates_covers [OF mid(1)] Cons.IH [OF mid(2)] by auto
qed simp

lemma compiled_globset_covers:
  assumes "compile_globset_with_policy gl ps rg = Ok g" "p \<in> set ps"
  shows "\<exists>pats. globset_build gl pats = Some g \<and> set (expand_domain_pattern (normalize_pattern p)) \<subseteq> set pats"
  using assms
  by (auto simp: compile_globset_with_policy_def bind_result_eq split: option.splits
      dest!: add_patterns_covers intro!: exI)

end
