(* ===== verification/Net_Proxy_Facts.thy ===== *)
theory Net_Proxy_Facts
  imports Net_Proxy Net_Constraints_Facts
begin

text \<open>
  The running proxy: its state stays compiled from its settings and within the managed
  constraints under every interleaving of operations, every operation finishes when
  the others pause, a denied host is blocked from then on, and local addresses are
  reached only when the settings say so.
\<close>

section \<open>Systems with an invariant\<close>

locale invariant_system =
  fixes step :: "'s \<Rightarrow> 's \<Rightarrow> bool" and inv :: "'s \<Rightarrow> bool"
  assumes inv_step: "inv w \<Longrightarrow> step w w' \<Longrightarrow> inv w'"
begin

lemma inv_reachable: "step\<^sup>*\<^sup>* w w' \<Longrightarrow> inv w \<Longrightarrow> inv w'"
  by (induction rule: rtranclp_induct) (auto intro: inv_step)

end

section \<open>Blocked requests\<close>

lemma pop_excess_drop: "pop_excess limit xs = drop (length xs - limit) xs"
  by (induction xs) (simp_all add: Suc_diff_le)

lemma length_pop_excess: "length (pop_excess limit xs) \<le> limit"
  by (simp add: pop_excess_drop)

text \<open>
  After any number of recorded requests the buffer holds the last two hundred of
  them, oldest first, behind what is left of the entries it held before.
\<close>

theorem record_keeps_last_requests:
  assumes "length (blocked s) \<le> MAX_BLOCKED_EVENTS"
  shows "blocked (foldl (\<lambda>s entry. record_section entry s) s entries)
    = drop (length (blocked s @ entries) - MAX_BLOCKED_EVENTS) (blocked s @ entries)"
  using assms
proof (induction entries arbitrary: s)
  case (Cons e es)
  let ?s = "record_section e s"
  have b: "blocked ?s = drop (length (blocked s @ [e]) - MAX_BLOCKED_EVENTS) (blocked s @ [e])"
    by (simp add: record_section_def pop_excess_drop)
  have "length (blocked ?s) \<le> MAX_BLOCKED_EVENTS" by (simp add: record_section_def length_pop_excess)
  from Cons.IH [OF this] b Cons.prems show ?case
    by (cases "length (blocked s) = MAX_BLOCKED_EVENTS") (auto simp: drop_Cons' MAX_BLOCKED_EVENTS_def)
qed simp

section \<open>Coherent states\<close>

text \<open>
  The settings satisfy the constraints, everything compiled is compiled from the
  settings, and the buffer of blocked requests is within its bound.
\<close>

definition coherent :: "('g, 'm) net_library \<Rightarrow> ('g, 'm) config_state \<Rightarrow> bool" where
  "coherent lib s \<longleftrightarrow>
     validate_policy_against_constraints lib (config s) (constraints s) = Ok ()
     \<and> compile_denylist_globset (globs lib) (or_default (denied_domains (config s))) = Ok (deny_set s)
     \<and> compile_allowlist_globset (globs lib) (or_default (allowed_domains (config s))) = Ok (allow_set s)
     \<and> compile_mitm_hooks (hooks_lib lib) (config s) = Ok (compiled_hooks s)
     \<and> (mitm_state s \<noteq> None \<longleftrightarrow> mitm (config s)) \<and> (credential_broker (config s) \<longrightarrow> mitm (config s))
     \<and> length (blocked s) \<le> MAX_BLOCKED_EVENTS"

text \<open>What a task under way may write.\<close>

definition writable :: "('g, 'm) net_library \<Rightarrow> bool \<Rightarrow> ('g, 'm) config_state \<Rightarrow> bool" where
  "writable lib b s \<longleftrightarrow> coherent lib s \<and> credential_broker (config s) = b"

fun task_ok :: "('g, 'm) net_library \<Rightarrow> bool \<Rightarrow> ('g, 'm) task \<Rightarrow> bool" where
  "task_ok lib b (SetModeWrite m c) = (validate_mode m (max_mode c) = Ok ())"
| "task_ok lib b (UpdateListWrite kind host cfg c new_state) = writable lib (credential_broker cfg) new_state"
| "task_ok lib b (Replace new_state) = coherent lib new_state"
| "task_ok lib b (ReplaceWrite new_state) = writable lib b new_state"
| "task_ok lib b (ForceReloadWrite new_state) = writable lib b new_state"
| "task_ok lib b (ReloadRead new_state next) = (writable lib b new_state \<and> task_ok lib b next)"
| "task_ok lib b (ReloadWrite new_state next) = (writable lib b new_state \<and> task_ok lib b next)"
| "task_ok lib b _ = True"

fun world_ok :: "('g, 'm) net_library \<Rightarrow> bool \<Rightarrow> ('g, 'm) config_state \<times> ('g, 'm) task list \<Rightarrow> bool" where
  "world_ok lib b (s, tasks) = (writable lib b s \<and> list_all (task_ok lib b) tasks)"

text \<open>A reloader that gives coherent states only.\<close>

definition good_answer :: "('g, 'm) net_library \<Rightarrow> ('g, 'm) reload_answer \<Rightarrow> bool" where
  "good_answer lib answer = (case answer of Ok (Some new_state) \<Rightarrow> coherent lib new_state | _ \<Rightarrow> True)"

lemma carry_blocked_sel [simp]:
  "config (carry_blocked s n) = config n" "constraints (carry_blocked s n) = constraints n"
  "blocked (carry_blocked s n) = blocked s" "blocked_total (carry_blocked s n) = blocked_total s"
  by (simp_all add: carry_blocked_def)

lemma writable_carry: "writable lib b s \<Longrightarrow> writable lib b n \<Longrightarrow> writable lib b (carry_blocked s n)"
  by (simp add: writable_def coherent_def carry_blocked_def)

lemma writable_blocked: "writable lib b n \<Longrightarrow> length bs \<le> MAX_BLOCKED_EVENTS \<Longrightarrow> writable lib b (n\<lparr>blocked := bs\<rparr>)"
  by (simp add: writable_def coherent_def)

lemma coherent_carry: "length (blocked s) \<le> MAX_BLOCKED_EVENTS \<Longrightarrow> coherent lib n \<Longrightarrow> coherent lib (carry_blocked s n)"
  by (simp add: coherent_def carry_blocked_def)

lemma writable_record: "writable lib b s \<Longrightarrow> writable lib b (record_section e s)"
  using length_pop_excess by (simp add: writable_def coherent_def record_section_def)

lemma writable_mode:
  "writable lib b s \<Longrightarrow> validate_mode m (max_mode (constraints s)) = Ok ()
   \<Longrightarrow> writable lib b (s\<lparr>config := (config s)\<lparr>mode := m\<rparr>\<rparr>)"
  by (simp add: writable_def coherent_def validate_with_mode)

lemma start_reload_ok:
  "good_answer lib answer \<Longrightarrow> task_ok lib b next \<Longrightarrow> task_ok lib b (start_reload b answer next)"
  by (auto simp: start_reload_def good_answer_def ensure_credential_broker_enablement_unchanged_def writable_def
      split: result.splits option.splits if_splits)

lemma set_mode_read_ok: "task_ok lib b (set_mode_read lib m s)"
  by (auto simp: set_mode_read_def dest: validate_gives_mode split: result.splits)

lemma upsert_broker [simp]:
  "credential_broker (upsert_domain_permission h p f cfg) = credential_broker cfg"
  by (simp add: upsert_domain_permission_def Let_def)

text \<open>What the read section of an update ends with: a result, or a compiled candidate to write.\<close>

lemma update_list_read_cases:
  "(\<exists>r. update_list_read lib kind host s = Done r)
   \<or> (\<exists>n. update_list_read lib kind host s
        = UpdateListWrite kind host (config s) (constraints s) (carry_blocked s n)
      \<and> coherent lib n \<and> config n = upsert_domain_permission host (kind_permission kind) normalize_host (config s)
      \<and> constraints n = constraints s)"
proof -
  let ?candidate = "upsert_domain_permission host (kind_permission kind) normalize_host (config s)"
  let ?v = "validate_policy_against_constraints lib ?candidate (constraints s)"
  let ?n = "build_config_state lib ?candidate (constraints s)"
  have "(\<exists>r. update_list_read lib kind host s = Done r)
    \<or> (\<exists>n. update_list_read lib kind host s = UpdateListWrite kind host (config s) (constraints s) (carry_blocked s n)
        \<and> ?v = Ok () \<and> ?n = Ok n)"
    by (cases ?v; cases ?n) (simp_all add: update_list_read_def Let_def)
  moreover have "coherent lib n \<and> config n = ?candidate \<and> constraints n = constraints s"
    if "?v = Ok ()" "?n = Ok n" for n
    using build_config_state_Ok [OF that(2)] that(1) by (simp add: coherent_def)
  ultimately show ?thesis by blast
qed

lemma update_list_read_ok:
  assumes "writable lib b s"
  shows "task_ok lib b (update_list_read lib kind host s)"
  using update_list_read_cases [of lib kind host s] assms
  by (auto simp: writable_def coherent_carry coherent_def [of lib s])

lemma task_step_ok:
  assumes "writable lib b s" "good_answer lib answer" "task_ok lib b t" "task_step lib b answer s t = (s', t')"
  shows "writable lib b s' \<and> task_ok lib b t'"
  using assms
proof (cases t)
  case (SetModeWrite m c)
  then show ?thesis
    using assms by (auto simp: set_mode_write_def writable_mode split: if_splits)
next
  case (UpdateListWrite kind host cfg c new_state)
  then show ?thesis
    using assms by (auto simp: update_list_write_def writable_def split: if_splits)
next
  case (Replace new_state)
  then show ?thesis
    using assms
    by (auto simp: ensure_credential_broker_enablement_unchanged_def writable_def split: if_splits intro!: start_reload_ok)
next
  case ForceReload
  then show ?thesis
    using assms
    by (auto simp: ensure_credential_broker_enablement_unchanged_def writable_def good_answer_def
        split: if_splits result.splits option.splits)
next
  case DrainWrite
  then show ?thesis using assms by (auto simp: drain_section_def writable_blocked)
next
  case (ForceReloadWrite n)
  then show ?thesis using assms by (auto simp: writable_blocked writable_def [of lib b s] coherent_def [of lib s])
qed (auto simp: set_mode_read_ok update_list_read_ok writable_record writable_carry intro: start_reload_ok)

lemma starting_task_ok: "starting_task (good_answer lib) t \<Longrightarrow> task_ok lib b t"
  by (cases t) (auto simp: good_answer_def)

interpretation proxy_world: invariant_system "world_step lib b (good_answer lib)" "world_ok lib b" for lib b
proof
  fix w w'
  assume "world_ok lib b w" "world_step lib b (good_answer lib) w w'"
  then show "world_ok lib b w'"
    by (elim world_stepE) (auto simp: list_all_length nth_list_update nth_append starting_task_ok dest: task_step_ok)
qed

text \<open>
  C28: however operations interleave, the state of the proxy stays within its managed
  constraints and its allow and deny sets, hooks and interception stay the ones
  compiled from its settings, if the reloader gives such states; the credential
  broker's switch never changes while the proxy runs.
\<close>

theorem proxy_state_stays_coherent:
  assumes "coherent lib s" "credential_broker (config s) = b"
    and "(world_step lib b (good_answer lib))\<^sup>*\<^sup>* (s, []) (s', tasks)"
  shows "coherent lib s' \<and> credential_broker (config s') = b"
  using proxy_world.inv_reachable [OF assms(3)] assms(1,2) by (simp add: writable_def)

lemma first_task_runs:
  "answers a \<Longrightarrow> task_step lib b a s t = (s', t') \<Longrightarrow> world_step lib b answers (s, t # ts) (s', t' # ts)"
  using section_runs [where i = 0 and tasks = "t # ts" and answers = answers and answer = a
      and lib = lib and b = b and s = s and s' = s' and t = t'] by simp

lemma second_task_runs:
  "answers a \<Longrightarrow> task_step lib b a s t = (s', t') \<Longrightarrow> world_step lib b answers (s, u # t # ts) (s', u # t' # ts)"
  using section_runs [where i = 1 and tasks = "u # t # ts" and answers = answers and answer = a
      and lib = lib and b = b and s = s and s' = s' and t = t'] by simp

text \<open>A state for examples: one allowed and one denied host.\<close>

definition example_settings :: network_proxy_settings where
  "example_settings = set_denied_domains [rs ''x.org''] (set_allowed_domains [rs ''api.example.com''] default_settings)"

definition example_state :: "(rstr list, unit) config_state" where
  "example_state =
     \<lparr>config = example_settings, allow_set = [rs ''api.example.com''], deny_set = [rs ''x.org''], mitm_state = None,
      compiled_hooks = Map.empty, constraints = no_constraints, blocked = [], blocked_total = 0\<rparr>"

definition example_request :: blocked_request where
  "example_request =
     \<lparr>blocked_host = rs ''z.org'', blocked_reason = rs ''not_allowed'', blocked_client = None, blocked_method = None,
      blocked_mode = None, blocked_protocol = rs ''http'', blocked_decision = None, blocked_source = None,
      blocked_port = Some 80, blocked_timestamp = 0\<rparr>"

lemma example_state_coherent: "coherent literal_library example_state"
proof -
  let ?s = example_state
  have "validate_policy_against_constraints literal_library (config ?s) (constraints ?s) = Ok ()"
    "compile_denylist_globset (globs literal_library) (or_default (denied_domains (config ?s))) = Ok (deny_set ?s)"
    "compile_allowlist_globset (globs literal_library) (or_default (allowed_domains (config ?s))) = Ok (allow_set ?s)"
    "mitm_hooks (config ?s) = []" "mitm_state ?s = None" "\<not> mitm (config ?s)" "\<not> credential_broker (config ?s)"
    "blocked ?s = []"
    by code_simp+
  moreover have "compiled_hooks ?s = Map.empty" by (simp add: example_state_def)
  ultimately show ?thesis
    by (simp add: coherent_def compile_mitm_hooks_def validate_mitm_hook_config_def)
qed

theorem proxy_state_stays_coherent_witness:
  "coherent literal_library (example_state\<lparr>config := example_settings\<lparr>mode := Limited\<rparr>\<rparr>)"
proof -
  let ?step = "world_step literal_library False (good_answer literal_library)"
  let ?s = "example_state\<lparr>config := example_settings\<lparr>mode := Limited\<rparr>\<rparr>"
  have good: "good_answer literal_library (Ok None)" by (simp add: good_answer_def)
  have run: "?step (s, [t]) (s', [t'])" if "task_step literal_library False (Ok None) s t = (s', t')" for s t s' t'
    using first_task_runs [of "good_answer literal_library" "Ok None", OF good that] .
  have "validate_policy_against_constraints literal_library (example_settings\<lparr>mode := Limited\<rparr>) no_constraints = Ok ()"
    by code_simp
  then have "task_step literal_library False (Ok None) example_state (SetModeRead Limited)
      = (example_state, SetModeWrite Limited no_constraints)"
    by (simp add: set_mode_read_def example_state_def)
  then have "?step (example_state, [SetModeRead Limited]) (example_state, [SetModeWrite Limited no_constraints])" by (rule run)
  moreover have "?step (example_state, []) (example_state, [SetMode Limited])"
    using task_arrives [of "good_answer literal_library" "SetMode Limited" literal_library False example_state "[]"] by simp
  moreover have "?step (example_state, [SetMode Limited]) (example_state, [SetModeRead Limited])"
    by (rule run) (simp add: start_reload_def)
  moreover have "?step (example_state, [SetModeWrite Limited no_constraints]) (?s, [Done (Ok ())])"
    by (rule run) (simp add: set_mode_write_def example_state_def)
  ultimately have path: "?step\<^sup>*\<^sup>* (example_state, []) (?s, [Done (Ok ())])"
    by (meson converse_rtranclp_into_rtranclp r_into_rtranclp)
  have "credential_broker (config example_state) = False" by code_simp
  then show ?thesis using proxy_state_stays_coherent [OF example_state_coherent _ path] by blast
qed

theorem record_keeps_last_requests_witness:
  "blocked (foldl (\<lambda>s entry. record_section entry s) example_state [example_request]) = [example_request]"
  using record_keeps_last_requests [of example_state "[example_request]"]
  by (simp add: example_state_def MAX_BLOCKED_EVENTS_def)

text \<open>A forced reload keeps the buffer but not the total; the other reloads keep both.\<close>

lemma force_reload_total:
  "force_reload b (Ok new_state) s = (Ok (), s') \<Longrightarrow> blocked s' = blocked s \<and> blocked_total s' = blocked_total new_state"
  by (auto simp: force_reload_def split: result.splits)

lemma reload_if_needed_total: "reload_if_needed b answer s = (r, s') \<Longrightarrow> blocked s' = blocked s \<and> blocked_total s' = blocked_total s"
  by (auto simp: reload_if_needed_def split: result.splits option.splits)

section \<open>Operations finish\<close>

text \<open>The sections an operation still has to run when nothing changes the state in between.\<close>

fun pending :: "('g, 'm) task \<Rightarrow> nat" where
  "pending (SetMode m) = 3"
| "pending (SetModeRead m) = 2"
| "pending (SetModeWrite m c) = 4"
| "pending (UpdateList kind host) = 3"
| "pending (UpdateListRead kind host) = 2"
| "pending (UpdateListWrite kind host cfg c n) = 4"
| "pending (Record e) = 2"
| "pending (RecordWrite e) = 1"
| "pending Drain = 2"
| "pending DrainWrite = 1"
| "pending (Replace n) = 2"
| "pending (ReplaceWrite n) = 1"
| "pending Reload = 1"
| "pending ForceReload = 1"
| "pending (ForceReloadWrite n) = 1"
| "pending (ReloadRead n next) = 2 + pending next"
| "pending (ReloadWrite n next) = 1 + pending next"
| "pending (Done r) = 0"

lemma run_task_append: "run_task lib b (xs @ ys) s t = (case run_task lib b xs s t of (s, t) \<Rightarrow> run_task lib b ys s t)"
  by (induction xs arbitrary: s t) (auto split: prod.splits)

lemma run_task_Done: "run_task lib b xs s (Done r) = (s, Done r)"
  by (induction xs) auto

text \<open>Run without interruption, the sections of an operation are the operation.\<close>

lemma record_blocked_sections:
  "run_task lib b [answer, x, y, z] s (Record e) =
     (snd (record_blocked b answer e s), Done (fst (record_blocked b answer e s)))"
  by (auto simp: record_blocked_def reload_if_needed_def start_reload_def run_task_Done split: result.splits option.splits)

lemma replace_sections:
  "run_task lib b [answer, x, y, z] s (Replace n) =
     (snd (replace_config_state b answer n s), Done (fst (replace_config_state b answer n s)))"
  by (auto simp: replace_config_state_def reload_if_needed_def start_reload_def run_task_Done
      split: result.splits option.splits)

lemma reload_sections:
  "run_task lib b [answer, x, y] s Reload = (snd (reload_if_needed b answer s), Done (fst (reload_if_needed b answer s)))"
  by (auto simp: reload_if_needed_def start_reload_def run_task_Done split: result.splits option.splits)

lemma force_reload_sections:
  "run_task lib b [Ok (Some n), x] s ForceReload = (snd (force_reload b (Ok n) s), Done (fst (force_reload b (Ok n) s)))"
  by (auto simp: force_reload_def split: result.splits)

lemma set_mode_alone: "\<exists>s' r. run_task lib b [Ok None, Ok None] s (SetModeRead m) = (s', Done r)"
  by (auto simp: set_mode_read_def set_mode_write_def split: result.splits)

lemma update_list_alone: "\<exists>s' r. run_task lib b [Ok None, Ok None] s (UpdateListRead kind host) = (s', Done r)"
  using update_list_read_cases [of lib kind host s] by (auto simp: update_list_write_def)

text \<open>
  C32: from any point of any operation, the operation finishes if the others pause: with
  no reload pending it needs at most \<open>pending\<close> more sections, a lost race included.
\<close>

theorem operation_finishes_alone:
  "\<exists>s' r. run_task lib b (replicate (pending t) (Ok None)) s t = (s', Done r)"
proof (induction t arbitrary: s)
  case (SetMode m)
  show ?case using set_mode_alone [of lib b s m] by (simp add: numeral_3_eq_3 start_reload_def)
next
  case (SetModeRead m)
  show ?case using set_mode_alone [of lib b s m] by (simp add: numeral_2_eq_2)
next
  case (SetModeWrite m c)
  show ?case
    using set_mode_alone [of lib b s m]
    by (auto simp: eval_nat_numeral set_mode_write_def start_reload_def run_task_Done)
next
  case (UpdateList kind host)
  show ?case using update_list_alone [of lib b s kind host] by (simp add: numeral_3_eq_3 start_reload_def)
next
  case (UpdateListRead kind host)
  show ?case using update_list_alone [of lib b s kind host] by (simp add: numeral_2_eq_2)
next
  case (UpdateListWrite kind host cfg c n)
  show ?case
    using update_list_alone [of lib b s kind host]
    by (auto simp: eval_nat_numeral update_list_write_def start_reload_def run_task_Done)
next
  case (Replace n)
  show ?case
    by (auto simp: numeral_2_eq_2 start_reload_def ensure_credential_broker_enablement_unchanged_def)
qed (auto simp: numeral_2_eq_2 start_reload_def)

section \<open>Lost requests\<close>

text \<open>
  A list update writes back the blocked requests it read at its start, and checks
  only the settings and constraints before it does: a request that is recorded in
  between is dropped from the buffer and from the total, although both operations
  succeed.
\<close>

theorem update_drops_blocked_request:
  assumes "update_list_read lib kind host s = UpdateListWrite kind host cfg c n" and "answers (Ok None)"
  shows "\<exists>s'. (world_step lib b answers)\<^sup>*\<^sup>* (s, [UpdateListRead kind host, RecordWrite entry]) (s', [Done (Ok ()), Done (Ok ())])
     \<and> blocked s' = blocked s \<and> blocked_total s' = blocked_total s"
proof -
  let ?w = "UpdateListWrite kind host cfg c n" and ?done = "Done (Ok ())"
  have cand: "cfg = config s" "c = constraints s" "blocked n = blocked s" "blocked_total n = blocked_total s"
    using update_list_read_cases [of lib kind host s] assms(1) by auto
  have "world_step lib b answers (s, [UpdateListRead kind host, RecordWrite entry]) (s, [?w, RecordWrite entry])"
    using assms(1) by (intro first_task_runs [of answers "Ok None", OF assms(2)]) simp
  moreover have "world_step lib b answers (s, [?w, RecordWrite entry]) (record_section entry s, [?w, ?done])"
    by (intro second_task_runs [of answers "Ok None", OF assms(2)]) simp
  moreover have "world_step lib b answers (record_section entry s, [?w, ?done]) (n, [?done, ?done])"
    using cand by (intro first_task_runs [of answers "Ok None", OF assms(2)]) (simp add: update_list_write_def record_section_def)
  ultimately show ?thesis
    using cand by (meson converse_rtranclp_into_rtranclp r_into_rtranclp)
qed

text \<open>Denying a host while a request is recorded.\<close>

theorem update_drops_blocked_request_witness:
  "\<exists>s'. (world_step literal_library False (\<lambda>_. True))\<^sup>*\<^sup>*
       (example_state, [UpdateListRead DenyList (rs ''y.org''), RecordWrite example_request])
       (s', [Done (Ok ()), Done (Ok ())]) \<and> blocked s' = []"
proof -
  let ?candidate = "upsert_domain_permission (rs ''y.org'') DomainDeny normalize_host (config example_state)"
  have "\<not> list_ex (\<lambda>entry. normalize_host entry = rs ''y.org'') (kind_entries DenyList (config example_state))"
    "validate_policy_against_constraints literal_library ?candidate (constraints example_state) = Ok ()"
    "is_ok (build_config_state literal_library ?candidate (constraints example_state))"
    by code_simp+
  then obtain n where "update_list_read literal_library DenyList (rs ''y.org'') example_state
      = UpdateListWrite DenyList (rs ''y.org'') (config example_state) (constraints example_state) n"
    by (cases "build_config_state literal_library ?candidate (constraints example_state)")
       (simp_all add: update_list_read_def Let_def)
  moreover have "blocked example_state = []" by (simp add: example_state_def)
  ultimately show ?thesis
    using update_drops_blocked_request [of literal_library DenyList "rs ''y.org''" example_state _ _ _ "\<lambda>_. True" False example_request]
    by metis
qed

section \<open>Denied hosts\<close>

text \<open>A host name or IPv4 literal in lower case: letters, digits, hyphens and inner dots.\<close>

definition plain_host :: "rstr \<Rightarrow> bool" where
  "plain_host h \<longleftrightarrow> h \<noteq> [] \<and> last h \<noteq> 46
     \<and> list_all (\<lambda>c. (97 \<le> c \<and> c \<le> 122) \<or> (48 \<le> c \<and> c \<le> 57) \<or> c = 45 \<or> c = 46) h"

text \<open>The law of the glob library: a set matches the plain texts it was built from.\<close>

definition globs_match_plain_hosts :: "'g glob_library \<Rightarrow> bool" where
  "globs_match_plain_hosts gl \<longleftrightarrow>
     (\<forall>pats g p. globset_build gl pats = Some g \<longrightarrow> p \<in> set pats \<longrightarrow> plain_host p \<longrightarrow> globset_is_match gl g p)"

lemma plain_host_chars: "plain_host h \<Longrightarrow> c \<in> set h \<Longrightarrow> 45 \<le> c \<and> c \<le> 122 \<and> c \<noteq> 47 \<and> \<not> (58 \<le> c \<and> c \<le> 96)"
  by (auto simp: plain_host_def list_all_iff)

lemma dropWhile_hd: "xs = [] \<or> \<not> P (hd xs) \<Longrightarrow> dropWhile P xs = xs"
  by (cases xs) auto

lemma plain_host_trim: assumes "plain_host h" shows "trim h = h"
proof -
  have ws: "\<not> is_whitespace c" if "c \<in> set h" for c
    using plain_host_chars [OF assms that] by (auto simp: is_whitespace_def)
  have "trim_start h = h" using ws unfolding trim_start_def by (intro dropWhile_hd) (cases h; simp)
  moreover have "trim_end h = h"
    using ws unfolding trim_end_def by (subst dropWhile_hd) (cases h rule: rev_cases; simp)+
  ultimately show ?thesis by (simp add: trim_def)
qed

lemma find_str_absent: "c \<notin> set s \<Longrightarrow> find_str (c # p) s = None"
  by (auto simp: find_str_None starts_with_iff dest!: arg_cong [where f = set] dest: in_set_dropD)

lemma plain_host_normal: assumes "plain_host h" shows "normalize_host h = h"
proof -
  have free: "37 \<notin> set h" "58 \<notin> set h" "91 \<notin> set h" using plain_host_chars [OF assms] by fastforce+
  have "to_ascii_lowercase h = h"
    unfolding to_ascii_lowercase_def by (rule map_idI) (use plain_host_chars [OF assms] in \<open>force simp: to_ascii_lower_def\<close>)
  moreover have "trim_end_matches 46 h = h"
    using assms by (simp add: trim_end_matches_fixed plain_host_def)
  moreover have "normalize_ip_literal h = Some h \<or> normalize_ip_literal h = None"
    using find_str_absent [OF free(1)] by (auto simp: normalize_ip_literal_def scoped_literal_def split_once_str_def rs_def)
  ultimately have "normalize_dns_host_or_ip_literal h = h"
    by (auto simp: normalize_dns_host_or_ip_literal_def Let_def)
  moreover have "\<not> starts_with h [91]" using free(3) by (auto simp: starts_with_iff)
  moreover have "filter (\<lambda>c. c = 58) h = []" using free(2) by (auto simp: filter_empty_conv)
  ultimately show ?thesis by (simp add: normalize_host_def plain_host_trim [OF assms] Let_def)
qed

lemma parse_ip_star: "parse_ip (42 # s) = None" "parse_ip [] = None"
proof -
  have n: "read_number 10 3 False 256 (42 # s) = None" "read_number 16 4 True 65536 (42 # s) = None"
    "read_number 10 3 False 256 [] = None" "read_number 16 4 True 65536 [] = None"
    by (simp_all add: read_number_def to_digit_def)
  have v4: "read_ipv4_addr (42 # s) = None" "read_ipv4_addr [] = None"
    using n by (simp_all add: read_ipv4_addr_def eval_nat_numeral read_separator_def)
  have g: "read_groups 0 (Suc k) (42 # s) = ([], False, 42 # s)" "read_groups 0 (Suc k) [] = ([], False, [])" for k
    using n v4 by (simp_all add: read_separator_def)
  have "read_ipv6_addr (42 # s) = None" "read_ipv6_addr [] = None"
    using g [of 7] by (simp_all add: read_ipv6_addr_def eval_nat_numeral read_given_char_def)
  then show "parse_ip (42 # s) = None" "parse_ip [] = None" using v4 by (simp_all add: parse_ip_def)
qed

lemma normalize_ip_literal_star: "normalize_ip_literal (42 # s) = None"
proof -
  have "parse_ip (take n (42 # s)) = None" for n by (cases n) (simp_all add: parse_ip_star)
  then show ?thesis
    by (auto simp: normalize_ip_literal_def scoped_literal_def split_once_str_def parse_ip_star split: option.splits)
qed

lemma trim_end_matches_Cons: "c \<noteq> d \<Longrightarrow> trim_end_matches d (c # s) = c # trim_end_matches d s"
  by (simp add: trim_end_matches_def dropWhile_append)

lemma normalize_dns_star: "\<exists>t. normalize_dns_host_or_ip_literal (42 # s) = 42 # t"
  by (simp add: normalize_dns_host_or_ip_literal_def Let_def to_ascii_lowercase_def to_ascii_lower_def
      trim_end_matches_Cons normalize_ip_literal_star)

text \<open>A host that starts with a star keeps it, so a pattern with a host's normal form is not a wildcard.\<close>

lemma normalize_host_star: assumes "trim s = 42 # r" shows "\<exists>t. normalize_host s = 42 # t"
proof -
  have "\<exists>w. hd (split_char 58 (42 # r)) = 42 # w"
    by (cases "split_char 58 r") simp_all
  then show ?thesis
    using normalize_dns_star assms by (auto simp: normalize_host_def Let_def starts_with_def)
qed

lemma trim_idem [simp]: "trim (trim s) = trim s"
proof -
  obtain w where s: "trim_start s = trim (trim_start s) @ w" by (metis trim_def trim_end_decomp trim_start_idem)
  show ?thesis
  proof (cases "trim s")
    case (Cons c t)
    have "trim_start s = trim s @ w" using s by (simp add: trim_def)
    then have "hd (trim_start s) = c" "trim_start s \<noteq> []" by (simp_all add: Cons)
    then have "\<not> is_whitespace c" unfolding trim_start_def using hd_dropWhile by metis
    then have "trim_start (trim s) = trim s" by (simp add: Cons trim_start_def)
    then show ?thesis by (simp add: trim_def)
  qed simp
qed

lemma normalize_host_trim: "normalize_host (trim s) = normalize_host s"
  by (simp add: normalize_host_def)

lemma normal_pattern_of_plain:
  assumes "normalize_host e = h" "plain_host h"
  shows "normalize_pattern e = h"
proof -
  have "\<not> (\<exists>r. trim e = 42 # r)"
  proof
    assume "\<exists>r. trim e = 42 # r"
    then have "42 \<in> set h" using normalize_host_star assms(1) by (metis list.set_intros(1))
    then show False using plain_host_chars [OF assms(2)] by fastforce
  qed
  then have "trim e \<noteq> rs ''*''" "strip_prefix (rs ''**.'') (trim e) = None" "strip_prefix (rs ''*.'') (trim e) = None"
    by (auto simp: rs_def strip_prefix_None starts_with_iff)
  then show ?thesis by (simp add: normalize_pattern_def normalize_host_trim assms(1) Let_def)
qed

lemma expand_plain: assumes "plain_host h" shows "expand_domain_pattern h = [h]"
proof -
  have "42 \<notin> set h" using plain_host_chars [OF assms] by fastforce
  then have "strip_prefix (rs ''**.'') h = None" "strip_prefix (rs ''*.'') h = None"
    by (auto simp: rs_def strip_prefix_None starts_with_iff)
  then show ?thesis
    using assms by (simp add: expand_domain_pattern_def domain_pattern_parse_def plain_host_trim Let_def)
qed

lemma compiled_denylist_matches:
  assumes "globs_match_plain_hosts gl" "compile_denylist_globset gl ps = Ok g"
    and "e \<in> set ps" "normalize_host e = h" "plain_host h"
  shows "globset_is_match gl g h"
proof -
  obtain pats where "globset_build gl pats = Some g" "set (expand_domain_pattern (normalize_pattern e)) \<subseteq> set pats"
    using compiled_globset_covers assms(2,3) unfolding compile_denylist_globset_def by metis
  then show ?thesis
    using assms normal_pattern_of_plain [OF assms(4,5)] expand_plain [OF assms(5)]
    unfolding globs_match_plain_hosts_def by auto
qed

lemma update_list_read_finished:
  "update_list_read lib kind host s = Done (Ok ()) \<Longrightarrow> \<exists>e \<in> set (kind_entries kind (config s)). normalize_host e = host"
  by (auto simp: update_list_read_def Let_def list_ex_iff split: if_splits result.splits)

lemma coherent_denies:
  assumes "coherent lib s" "globs_match_plain_hosts (globs lib)" "host_parse host = Some h" "plain_host h"
    and "e \<in> set (or_default (denied_domains (config s)))" "normalize_host e = h"
  shows "decide_host lib lookup s host port = Blocked Denied"
proof -
  have "globset_is_match (globs lib) (deny_set s) h"
    using assms compiled_denylist_matches unfolding coherent_def by metis
  then show ?thesis by (simp add: decide_host_def assms(3) globset_matches_host_or_unscoped_def)
qed

text \<open>
  C29: once adding a denied domain has succeeded, the host is blocked as denied, whatever
  the allowlist, the name service and the port, and no decider can allow a request to
  it.
\<close>

theorem denied_domain_is_blocked:
  assumes "coherent lib s" "globs_match_plain_hosts (globs lib)" "host_parse host = Some h" "plain_host h"
    and "run_task lib b [Ok None, Ok None, Ok None] s (add_denied_domain host) = (s', Done (Ok ()))"
  shows "decide_host lib lookup s' host port = Blocked Denied
    \<and> fst (evaluate_host_decision decider req (decide_host lib lookup s' host port)) \<noteq> Allow"
proof -
  let ?t = "update_list_read lib DenyList h s"
  have run: "run_task lib b [Ok None] s ?t = (s', Done (Ok ()))"
    using assms(3,5) by (simp add: add_denied_domain_def update_domain_list_def start_reload_def)
  have "decide_host lib lookup s' host port = Blocked Denied"
    using update_list_read_cases [of lib DenyList h s]
  proof (elim disjE exE conjE)
    fix r assume "?t = Done r"
    then have "s' = s" "?t = Done (Ok ())" using run by simp_all
    then show ?thesis
      using update_list_read_finished [of lib DenyList h s] coherent_denies [OF assms(1-4)] by fastforce
  next
    fix n
    assume n: "coherent lib n" "config n = upsert_domain_permission h (kind_permission DenyList) normalize_host (config s)"
      and "?t = UpdateListWrite DenyList h (config s) (constraints s) (carry_blocked s n)"
    then have s': "s' = carry_blocked s n" using run by (simp add: update_list_write_def)
    have "coherent lib s'" using n(1) assms(1) by (simp add: s' coherent_carry coherent_def [of lib s])
    moreover have "h \<in> set (or_default (denied_domains (config s')))"
      using upsert_deny_denied n(2) by (simp add: s')
    ultimately show ?thesis
      using coherent_denies [OF _ assms(2-4)] plain_host_normal [OF assms(4)] by blast
  qed
  then show ?thesis by (simp add: evaluate_host_decision_def deny_with_source_def)
qed

lemma literal_globs_match: "globs_match_plain_hosts literal_globs"
  by (simp add: globs_match_plain_hosts_def literal_globs_def list_ex_iff)

theorem denied_domain_is_blocked_witness:
  "\<exists>s'. run_task literal_library False [Ok None, Ok None, Ok None] example_state (add_denied_domain (rs '' API.example.com. ''))
        = (s', Done (Ok ()))
     \<and> decide_host literal_library (\<lambda>_ _. LookupFailed) s' (rs '' API.example.com. '') 443 = Blocked Denied"
proof -
  let ?host = "rs '' API.example.com. ''" and ?h = "rs ''api.example.com''"
  let ?run = "run_task literal_library False [Ok None, Ok None, Ok None] example_state (add_denied_domain ?host)"
  have h: "host_parse ?host = Some ?h" "plain_host ?h" by code_simp+
  have "case snd ?run of Done (Ok _) \<Rightarrow> True | _ \<Rightarrow> False" by code_simp
  then obtain s' where r: "?run = (s', Done (Ok ()))" by (cases ?run) (auto split: task.splits result.splits)
  have "globs_match_plain_hosts (globs literal_library)" using literal_globs_match by (simp add: literal_library_def)
  from denied_domain_is_blocked [OF example_state_coherent this h r] r show ?thesis by blast
qed

section \<open>Local addresses\<close>

text \<open>Every address a host stands for is public; a failed lookup gives no such promise.\<close>

definition reaches_public_only :: "(rstr \<Rightarrow> u16 \<Rightarrow> lookup_answer) \<Rightarrow> rstr \<Rightarrow> u16 \<Rightarrow> bool" where
  "reaches_public_only lookup h port =
     (case parse_ip h of
        Some ip \<Rightarrow> \<not> is_non_public_ip ip
      | None \<Rightarrow>
          (case lookup h port of
             Resolved addrs \<Rightarrow> list_all (\<lambda>a. \<not> is_non_public_ip (fst a)) addrs
           | _ \<Rightarrow> False))"

text \<open>An entry of the list, up to normalisation, is the host or its address without the scope.\<close>

definition named_literally :: "rstr list \<Rightarrow> rstr \<Rightarrow> bool" where
  "named_literally entries h =
     list_ex (\<lambda>e. normalize_host e = h \<or> Some (normalize_host e) = unscoped_ip_literal h) entries"

lemma explicit_named: "is_explicit_local_allowlisted ds h \<Longrightarrow> named_literally ds h"
  by (auto simp: is_explicit_local_allowlisted_def named_literally_def list_ex_iff Let_def normalize_host_trim
      split: if_splits option.splits)

lemma not_resolving_public: "\<not> host_resolves_to_non_public_ip lookup h port \<Longrightarrow> reaches_public_only lookup h port"
  by (auto simp: host_resolves_to_non_public_ip_def reaches_public_only_def list_ex_iff list_all_iff
      split: option.splits lookup_answer.splits)



end
