(* ===== verification/Net_Broker.thy ===== *)
theory Net_Broker
  imports Net_Hooks
begin

text \<open>
  The credential broker of the network proxy
  (\<^verbatim>\<open>network-proxy/src/credential_broker.rs\<close> and its providers): credentials in a child's
  environment are replaced by made-up values, and put back into the requests that the
  proxy forwards to the hosts they are bound to. The random draws, header values and
  the printing and reading of JSON are parameters. Credentials that are brokered are
  header values, so they are ASCII and a byte of them is a character.
\<close>

type_synonym env = "rstr \<rightharpoonup> rstr"
type_synonym header_map = "(rstr \<times> rstr option) list"

text \<open>\<^verbatim>\<open>HeaderMap\<close>: \<^verbatim>\<open>get\<close> gives the first value of a name, \<^verbatim>\<open>remove\<close> drops all, \<^verbatim>\<open>insert\<close> replaces all.\<close>

definition header_get :: "rstr \<Rightarrow> header_map \<Rightarrow> rstr option option" where
  "header_get name hs = map_option snd (find (\<lambda>(n, _). n = name) hs)"

definition header_remove :: "rstr \<Rightarrow> header_map \<Rightarrow> header_map" where
  "header_remove name hs = filter (\<lambda>(n, _). n \<noteq> name) hs"

definition header_insert :: "rstr \<Rightarrow> rstr \<Rightarrow> header_map \<Rightarrow> header_map" where
  "header_insert name v hs = header_remove name hs @ [(name, Some v)]"

definition CREDENTIAL_BROKER_ACTIVE_ENV_KEY :: rstr where
  "CREDENTIAL_BROKER_ACTIVE_ENV_KEY = rs ''CODEX_NETWORK_PROXY_CREDENTIAL_BROKER_ACTIVE''"

definition BROKERED_CREDENTIALS_ENV_KEY :: rstr where
  "BROKERED_CREDENTIALS_ENV_KEY = rs ''CODEX_NETWORK_PROXY_BROKERED_CREDENTIALS''"

section \<open>Providers\<close>

text \<open>The providers are compared by address; there are two.\<close>

datatype provider = GithubProvider | OpenaiProvider

datatype credential_host_binding = ExactHost rstr | HostPattern "rstr list" "rstr list"

fun binding_matches_host :: "credential_host_binding \<Rightarrow> rstr \<Rightarrow> bool" where
  "binding_matches_host (ExactHost expected) host = (host = expected)"
| "binding_matches_host (HostPattern exact_hosts sufs) host =
     (list_ex (\<lambda>h. h = host) exact_hosts \<or> list_ex (ends_with host) sufs)"

definition GITHUB_CLOUD_HOSTS :: "rstr list" where
  "GITHUB_CLOUD_HOSTS = [rs ''api.github.com'', rs ''github.com'']"

definition GITHUB_CLOUD_HOST_SUFFIXES :: "rstr list" where
  "GITHUB_CLOUD_HOST_SUFFIXES = [rs ''.ghe.com'']"

definition GITHUB_TOKEN_PREFIXES :: "rstr list" where
  "GITHUB_TOKEN_PREFIXES =
     [rs ''github_pat_'', rs ''ghp_'', rs ''gho_'', rs ''ghu_'', rs ''ghs_'', rs ''ghr_'']"

definition GITHUB_CLOUD_TOKEN_ENV_VARS :: "rstr list" where
  "GITHUB_CLOUD_TOKEN_ENV_VARS = [rs ''GH_TOKEN'', rs ''GITHUB_TOKEN'']"

definition GITHUB_ENTERPRISE_TOKEN_ENV_VARS :: "rstr list" where
  "GITHUB_ENTERPRISE_TOKEN_ENV_VARS = [rs ''GH_ENTERPRISE_TOKEN'', rs ''GITHUB_ENTERPRISE_TOKEN'']"

definition github_cloud_host :: "rstr \<Rightarrow> bool" where
  "github_cloud_host host =
     (list_ex (\<lambda>h. h = host) GITHUB_CLOUD_HOSTS \<or> list_ex (ends_with host) GITHUB_CLOUD_HOST_SUFFIXES)"

definition github_host_hint :: "env \<Rightarrow> rstr option" where
  "github_host_hint env =
     (case env (rs ''GH_HOST'') of
        None \<Rightarrow> None
      | Some v \<Rightarrow> let host = normalize_host v in if host = [] then None else Some host)"

definition github_cloud_binding :: "env \<Rightarrow> credential_host_binding option" where
  "github_cloud_binding env = Some (HostPattern GITHUB_CLOUD_HOSTS GITHUB_CLOUD_HOST_SUFFIXES)"

definition github_enterprise_binding :: "env \<Rightarrow> credential_host_binding option" where
  "github_enterprise_binding env =
     (case github_host_hint env of
        Some host \<Rightarrow> if github_cloud_host host then None else Some (ExactHost host)
      | None \<Rightarrow> None)"

definition openai_binding :: "env \<Rightarrow> credential_host_binding option" where
  "openai_binding env = Some (ExactHost (rs ''api.openai.com''))"

definition github_token_prefix :: "rstr \<Rightarrow> rstr" where
  "github_token_prefix v = (case find (starts_with v) GITHUB_TOKEN_PREFIXES of Some p \<Rightarrow> p | None \<Rightarrow> rs ''ghp_'')"

definition openai_api_key_prefix :: "rstr \<Rightarrow> rstr" where
  "openai_api_key_prefix v =
     (case strip_prefix (rs ''sk-'') v of
        None \<Rightarrow> rs ''sk-''
      | Some suf \<Rightarrow>
          (case find_str [45] suf of
             None \<Rightarrow> rs ''sk-''
           | Some separator \<Rightarrow> take (separator + 4) v))"

definition is_ascii_alphanumeric :: "uchar \<Rightarrow> bool" where
  "is_ascii_alphanumeric c \<longleftrightarrow> (48 \<le> c \<and> c \<le> 57) \<or> (65 \<le> c \<and> c \<le> 90) \<or> (97 \<le> c \<and> c \<le> 122)"

definition DUMMY_ALPHANUMERIC :: rstr where
  "DUMMY_ALPHANUMERIC = rs ''ABCDEFGHIJKLMNOPQRSTUVWXYZabcdefghijklmnopqrstuvwxyz0123456789''"

text \<open>\<open>draws i\<close> is the random draw for position \<open>i\<close>.\<close>

definition dummy_char :: "rstr \<Rightarrow> (nat \<Rightarrow> nat) \<Rightarrow> nat \<Rightarrow> uchar" where
  "dummy_char real_value draws i =
     (if i < length real_value \<and> \<not> is_ascii_alphanumeric (real_value ! i) then real_value ! i
      else DUMMY_ALPHANUMERIC ! (draws i mod 62))"

definition shaped_dummy_value :: "rstr \<Rightarrow> rstr \<Rightarrow> nat \<Rightarrow> (nat \<Rightarrow> nat) \<Rightarrow> rstr" where
  "shaped_dummy_value real_value pre minimum_len draws =
     (let target_len = max (max (length real_value) minimum_len) (length pre + 16)
      in pre @ map (dummy_char real_value draws) [length pre..<target_len])"

fun dummy_value :: "provider \<Rightarrow> rstr \<Rightarrow> (nat \<Rightarrow> nat) \<Rightarrow> rstr" where
  "dummy_value GithubProvider v draws = shaped_dummy_value v (github_token_prefix v) 40 draws"
| "dummy_value OpenaiProvider v draws = shaped_dummy_value v (openai_api_key_prefix v) 51 draws"

text \<open>Both providers use the authorisation header with a bearer token.\<close>

definition request_header :: "header_map \<Rightarrow> rstr option option" where
  "request_header hs = header_get (rs ''authorization'') hs"

definition request_header_value :: "hook_library \<Rightarrow> rstr \<Rightarrow> rstr option" where
  "request_header_value lib v = header_value_from_str lib (rs ''Bearer '' @ v)"

definition insert_request_header :: "header_map \<Rightarrow> rstr \<Rightarrow> header_map" where
  "insert_request_header hs v = header_insert (rs ''authorization'') v hs"

fun provider_sources :: "provider \<Rightarrow> (rstr list \<times> (env \<Rightarrow> credential_host_binding option)) list" where
  "provider_sources GithubProvider =
     [(GITHUB_CLOUD_TOKEN_ENV_VARS, github_cloud_binding), (GITHUB_ENTERPRISE_TOKEN_ENV_VARS, github_enterprise_binding)]"
| "provider_sources OpenaiProvider = [([rs ''OPENAI_API_KEY''], openai_binding)]"

fun context_env_vars :: "provider \<Rightarrow> rstr list" where
  "context_env_vars GithubProvider = [rs ''GH_HOST'']"
| "context_env_vars OpenaiProvider = []"

definition credential_providers :: "provider list" where
  "credential_providers = [GithubProvider, OpenaiProvider]"

definition credential_broker_env_keys :: "rstr list" where
  "credential_broker_env_keys =
     concat (map context_env_vars credential_providers)
     @ concat (map (\<lambda>p. concat (map fst (provider_sources p))) credential_providers)"

section \<open>The broker\<close>

record credential_record =
  cred_env_var :: rstr
  cred_provider :: provider
  cred_binding :: credential_host_binding
  cred_real :: rstr
  cred_dummy :: rstr

record credential_broker_state =
  cb_enabled :: bool
  cb_credentials :: "credential_record list"

definition credential_broker_new :: "bool \<Rightarrow> credential_broker_state" where
  "credential_broker_new on = \<lparr>cb_enabled = on, cb_credentials = []\<rparr>"

definition is_dummy_value :: "credential_broker_state \<Rightarrow> rstr \<Rightarrow> bool" where
  "is_dummy_value st v = list_ex (\<lambda>c. cred_dummy c = v) (cb_credentials st)"

text \<open>
  The loop that draws a value until one is new: \<open>draws k\<close> are the draws of the \<open>k\<close>-th
  attempt of the process. It may draw for ever, and then gives no result.
\<close>

partial_function (option) fresh_dummy ::
  "provider \<Rightarrow> rstr \<Rightarrow> credential_broker_state \<Rightarrow> (nat \<Rightarrow> nat \<Rightarrow> nat) \<Rightarrow> nat \<Rightarrow> (rstr \<times> nat) option" where
  "fresh_dummy p real_value st draws k =
     (let candidate = dummy_value p real_value (draws k) in
      if candidate \<noteq> real_value \<and> \<not> is_dummy_value st candidate then Some (candidate, Suc k)
      else fresh_dummy p real_value st draws (Suc k))"

declare fresh_dummy.simps [code]

definition register ::
  "rstr \<Rightarrow> provider \<Rightarrow> credential_host_binding \<Rightarrow> rstr \<Rightarrow> (nat \<Rightarrow> nat \<Rightarrow> nat)
     \<Rightarrow> credential_broker_state \<times> nat \<Rightarrow> (rstr \<times> credential_broker_state \<times> nat) option" where
  "register var p binding real_value draws sk =
     (case sk of (st, k) \<Rightarrow>
        (case find (\<lambda>c. cred_env_var c = var \<and> cred_provider c = p \<and> cred_binding c = binding
                         \<and> cred_real c = real_value) (cb_credentials st) of
           Some existing \<Rightarrow> Some (cred_dummy existing, st, k)
         | None \<Rightarrow>
             (case fresh_dummy p real_value st draws k of
                None \<Rightarrow> None
              | Some (dummy, k) \<Rightarrow>
                  Some (dummy,
                    st\<lparr>cb_credentials := cb_credentials st @
                         [\<lparr>cred_env_var = var, cred_provider = p, cred_binding = binding, cred_real = real_value,
                           cred_dummy = dummy\<rparr>]\<rparr>, k))))"

definition brokerable_credential_value ::
  "hook_library \<Rightarrow> env \<Rightarrow> credential_broker_state \<Rightarrow> rstr \<Rightarrow> rstr option" where
  "brokerable_credential_value lib env st var =
     (case env var of
        None \<Rightarrow> None
      | Some v \<Rightarrow>
          let real_value = trim v in
          if real_value \<noteq> [] \<and> \<not> is_dummy_value st real_value \<and> request_header_value lib real_value \<noteq> None
          then Some real_value else None)"

definition virtualize_env_var ::
  "hook_library \<Rightarrow> (nat \<Rightarrow> nat \<Rightarrow> nat) \<Rightarrow> provider \<Rightarrow> credential_host_binding \<Rightarrow> rstr
     \<Rightarrow> env \<times> credential_broker_state \<times> nat \<Rightarrow> (env \<times> credential_broker_state \<times> nat) option" where
  "virtualize_env_var lib draws p binding var esk =
     (case esk of (env, st, k) \<Rightarrow>
        (case brokerable_credential_value lib env st var of
           None \<Rightarrow> Some esk
         | Some real_value \<Rightarrow>
             map_option (\<lambda>(dummy, st, k). (env(var \<mapsto> dummy), st, k)) (register var p binding real_value draws (st, k))))"

fun virtualize_vars where
  "virtualize_vars lib draws p binding [] esk = Some esk"
| "virtualize_vars lib draws p binding (var # vars) esk =
     Option.bind (virtualize_env_var lib draws p binding var esk) (virtualize_vars lib draws p binding vars)"

fun virtualize_sources where
  "virtualize_sources lib draws p [] esk = Some esk"
| "virtualize_sources lib draws p ((vars, host_binding) # sources) esk =
     Option.bind
       (case host_binding (fst esk) of
          Some binding \<Rightarrow> virtualize_vars lib draws p binding vars esk
        | None \<Rightarrow> Some esk)
       (virtualize_sources lib draws p sources)"

fun virtualize_providers where
  "virtualize_providers lib draws [] esk = Some esk"
| "virtualize_providers lib draws (p # ps) esk =
     Option.bind (virtualize_sources lib draws p (provider_sources p) esk) (virtualize_providers lib draws ps)"

text \<open>\<open>to_json\<close> prints a list of pairs.\<close>

definition brokered_pairs :: "credential_broker_state \<Rightarrow> env \<Rightarrow> (rstr \<times> rstr) list" where
  "brokered_pairs st env =
     List.map_filter (\<lambda>key. case env key of
        Some v \<Rightarrow> if is_dummy_value st v then Some (key, v) else None | None \<Rightarrow> None) credential_broker_env_keys"

definition update_brokered_credentials_marker ::
  "((rstr \<times> rstr) list \<Rightarrow> rstr option) \<Rightarrow> credential_broker_state \<Rightarrow> env \<Rightarrow> env" where
  "update_brokered_credentials_marker to_json st env =
     (case to_json (brokered_pairs st env) of
        Some marker \<Rightarrow> env(BROKERED_CREDENTIALS_ENV_KEY \<mapsto> marker)
      | None \<Rightarrow> env(BROKERED_CREDENTIALS_ENV_KEY := None))"

definition virtualize_child_env ::
  "hook_library \<Rightarrow> ((rstr \<times> rstr) list \<Rightarrow> rstr option) \<Rightarrow> (nat \<Rightarrow> nat \<Rightarrow> nat)
     \<Rightarrow> env \<times> credential_broker_state \<times> nat \<Rightarrow> (env \<times> credential_broker_state \<times> nat) option" where
  "virtualize_child_env lib to_json draws esk =
     (case esk of (env, st, k) \<Rightarrow>
        if \<not> cb_enabled st
        then Some (env(CREDENTIAL_BROKER_ACTIVE_ENV_KEY := None, BROKERED_CREDENTIALS_ENV_KEY := None), st, k)
        else map_option (\<lambda>(env, st, k). (update_brokered_credentials_marker to_json st env, st, k))
               (virtualize_providers lib draws credential_providers
                  (env(CREDENTIAL_BROKER_ACTIVE_ENV_KEY \<mapsto> rs ''1''), st, k)))"

section \<open>Requests\<close>

definition host_requires_mitm :: "credential_broker_state \<Rightarrow> rstr \<Rightarrow> bool" where
  "host_requires_mitm st host =
     (let normalized_host = normalize_host host in
      cb_enabled st \<and> list_ex (\<lambda>c. binding_matches_host (cred_binding c) normalized_host) (cb_credentials st))"

definition select_credential :: "header_map \<Rightarrow> credential_record list \<Rightarrow> credential_record option" where
  "select_credential hs matching =
     (case filter (\<lambda>c. case request_header hs of
                         Some (Some v) \<Rightarrow> contains_str v (cred_dummy c) | _ \<Rightarrow> False) matching of
        [c] \<Rightarrow> Some c
      | _ \<Rightarrow> None)"

definition broker_inject_request_headers :: "hook_library \<Rightarrow> credential_broker_state \<Rightarrow> rstr \<Rightarrow> header_map \<Rightarrow> header_map" where
  "broker_inject_request_headers lib st host hs =
     (let normalized_host = normalize_host host in
      if \<not> cb_enabled st then hs
      else
        case select_credential hs
               (filter (\<lambda>c. binding_matches_host (cred_binding c) normalized_host) (cb_credentials st)) of
          None \<Rightarrow> hs
        | Some c \<Rightarrow>
            (case request_header_value lib (cred_real c) of
               None \<Rightarrow> hs
             | Some v \<Rightarrow> insert_request_header hs v))"

section \<open>The marker in the environment\<close>

text \<open>\<open>from_json\<close> reads a list of pairs; a marker that cannot be read counts as empty.\<close>

definition brokered_credential_dummy_env_keys :: "(rstr \<Rightarrow> (rstr \<times> rstr) list option) \<Rightarrow> env \<Rightarrow> rstr list" where
  "brokered_credential_dummy_env_keys from_json env =
     List.map_filter (\<lambda>(key, dummy).
        if list_ex (\<lambda>candidate. candidate = key) credential_broker_env_keys \<and> env key = Some dummy
        then Some key else None)
       (case Option.bind (env BROKERED_CREDENTIALS_ENV_KEY) from_json of Some pairs \<Rightarrow> pairs | None \<Rightarrow> [])"

definition brokered_credential_env_keys :: "env \<Rightarrow> rstr list" where
  "brokered_credential_env_keys env =
     (if env CREDENTIAL_BROKER_ACTIVE_ENV_KEY = Some (rs ''1'') then credential_broker_env_keys else [])"

end
