(* ===== verification/Patch_Invocation.thy ===== *)
theory Patch_Invocation
  imports Patch_Files "HOL-Library.AList"
begin

text \<open>
  Recognising a call of the patch tool in a command and working out the changes it
  would make (\<^verbatim>\<open>apply-patch/src/invocation.rs\<close>). The matches of the query over the syntax
  tree of a shell script, the text of a unified diff and the convention that a
  working directory follows are parameters.
\<close>

section \<open>Shell scripts\<close>

definition APPLY_PATCH_COMMANDS :: "rstr list" where
  "APPLY_PATCH_COMMANDS = [rs ''apply_patch'', rs ''applypatch'']"

datatype path_convention = Posix | Windows

datatype apply_patch_shell = UnixShell | PowerShell | CmdShell

definition path_segments :: "path_convention \<Rightarrow> rstr \<Rightarrow> rstr list" where
  "path_segments conv s =
     (case conv of
        Posix \<Rightarrow> split_char 47 s
      | Windows \<Rightarrow> split_char 47 (map (\<lambda>c. if c = 92 then 47 else c) s))"

definition classify_shell_name :: "rstr \<Rightarrow> path_convention \<Rightarrow> rstr" where
  "classify_shell_name shell conv =
     (let base_name = last (path_segments conv shell) in
      to_ascii_lowercase
        (case rsplit_once 46 base_name of
           Some (stem, extension) \<Rightarrow> if stem \<noteq> [] then stem else base_name
         | None \<Rightarrow> base_name))"

definition eq_ignore_ascii_case :: "rstr \<Rightarrow> rstr \<Rightarrow> bool" where
  "eq_ignore_ascii_case a b \<longleftrightarrow> to_ascii_lowercase a = to_ascii_lowercase b"

definition classify_shell :: "rstr \<Rightarrow> rstr \<Rightarrow> path_convention \<Rightarrow> apply_patch_shell option" where
  "classify_shell shell flag conv =
     (let name = classify_shell_name shell conv in
      if name \<in> {rs ''bash'', rs ''zsh'', rs ''sh''} \<and> flag \<in> {rs ''-lc'', rs ''-c''} then Some UnixShell
      else if name \<in> {rs ''pwsh'', rs ''powershell''} \<and> eq_ignore_ascii_case flag (rs ''-command'') then Some PowerShell
      else if name = rs ''cmd'' \<and> eq_ignore_ascii_case flag (rs ''/c'') then Some CmdShell
      else None)"

definition can_skip_flag :: "rstr \<Rightarrow> rstr \<Rightarrow> path_convention \<Rightarrow> bool" where
  "can_skip_flag shell flag conv \<longleftrightarrow>
     classify_shell_name shell conv \<in> {rs ''pwsh'', rs ''powershell''} \<and> eq_ignore_ascii_case flag (rs ''-noprofile'')"

definition parse_shell_script :: "path_convention option \<Rightarrow> rstr list \<Rightarrow> (apply_patch_shell \<times> rstr) option" where
  "parse_shell_script conv argv =
     (case conv of
        None \<Rightarrow> None
      | Some conv \<Rightarrow>
          (case argv of
             [shell, flag, script] \<Rightarrow> map_option (\<lambda>shell_type. (shell_type, script)) (classify_shell shell flag conv)
           | [shell, skip_flag, flag, script] \<Rightarrow>
               if \<not> can_skip_flag shell skip_flag conv then None
               else map_option (\<lambda>shell_type. (shell_type, script)) (classify_shell shell flag conv)
           | _ \<Rightarrow> None))"

section \<open>Heredocs\<close>

datatype extract_heredoc_error =
    CommandDidNotStartWithApplyPatch
  | FailedToLoadBashGrammar
  | HeredocNotUtf8
  | FailedToParsePatchIntoAst
  | FailedToFindHeredocBody

datatype capture_name = HeredocCapture | CdPathCapture | CdRawStringCapture | OtherCapture

text \<open>A capture has a text unless its bytes are not UTF-8; the query gives the captures of each match.\<close>

type_synonym query_match = "(capture_name \<times> rstr option) list"
type_synonym bash_query = "rstr \<Rightarrow> (extract_heredoc_error, query_match list) result"

definition unquote_raw_string :: "rstr \<Rightarrow> rstr" where
  "unquote_raw_string raw =
     (case Option.bind (strip_prefix [39] raw) (strip_suffix [39]) of Some trimmed \<Rightarrow> trimmed | None \<Rightarrow> raw)"

fun scan_captures ::
  "query_match \<Rightarrow> rstr option \<times> rstr option \<Rightarrow> (extract_heredoc_error, rstr option \<times> rstr option) result" where
  "scan_captures [] found = Ok found"
| "scan_captures ((OtherCapture, _) # captures) found = scan_captures captures found"
| "scan_captures ((name, None) # captures) found = Err HeredocNotUtf8"
| "scan_captures ((HeredocCapture, Some s) # captures) (heredoc_text, cd_path) =
     scan_captures captures (Some (trim_end_matches 10 s), cd_path)"
| "scan_captures ((CdPathCapture, Some s) # captures) (heredoc_text, cd_path) =
     scan_captures captures (heredoc_text, Some s)"
| "scan_captures ((CdRawStringCapture, Some s) # captures) (heredoc_text, cd_path) =
     scan_captures captures (heredoc_text, Some (unquote_raw_string s))"

fun first_heredoc :: "query_match list \<Rightarrow> (extract_heredoc_error, rstr \<times> rstr option) result" where
  "first_heredoc [] = Err CommandDidNotStartWithApplyPatch"
| "first_heredoc (m # ms) =
     bind_result (scan_captures m (None, None)) (\<lambda>(heredoc_text, cd_path).
       case heredoc_text of
         Some heredoc \<Rightarrow> Ok (heredoc, cd_path)
       | None \<Rightarrow> first_heredoc ms)"

definition extract_apply_patch_from_bash ::
  "bash_query \<Rightarrow> rstr \<Rightarrow> (extract_heredoc_error, rstr \<times> rstr option) result" where
  "extract_apply_patch_from_bash query src = bind_result (query src) first_heredoc"

definition extract_apply_patch_from_shell ::
  "bash_query \<Rightarrow> apply_patch_shell \<Rightarrow> rstr \<Rightarrow> (extract_heredoc_error, rstr \<times> rstr option) result" where
  "extract_apply_patch_from_shell query shell script = extract_apply_patch_from_bash query script"

datatype maybe_apply_patch =
    PatchBody apply_patch_args
  | ShellParseError extract_heredoc_error
  | PatchParseError parse_error
  | NotApplyPatch

definition maybe_parse_apply_patch ::
  "bash_query \<Rightarrow> path_convention option \<Rightarrow> rstr list \<Rightarrow> maybe_apply_patch" where
  "maybe_parse_apply_patch query conv argv =
     (case (case argv of [cmd, body] \<Rightarrow> if cmd \<in> set APPLY_PATCH_COMMANDS then Some body else None | _ \<Rightarrow> None) of
        Some body \<Rightarrow> (case parse_patch body of Ok source \<Rightarrow> PatchBody source | Err e \<Rightarrow> PatchParseError e)
      | None \<Rightarrow>
          (case parse_shell_script conv argv of
             None \<Rightarrow> NotApplyPatch
           | Some (shell, script) \<Rightarrow>
               (case extract_apply_patch_from_shell query shell script of
                  Ok (body, workdir) \<Rightarrow>
                    (case parse_patch body of
                       Ok source \<Rightarrow> PatchBody (source\<lparr>args_workdir := workdir\<rparr>)
                     | Err e \<Rightarrow> PatchParseError e)
                | Err CommandDidNotStartWithApplyPatch \<Rightarrow> NotApplyPatch
                | Err e \<Rightarrow> ShellParseError e)))"

section \<open>The changes of a patch\<close>

datatype 'p apply_patch_file_change =
    AddChange rstr
  | DeleteChange rstr
  | UpdateChange rstr "'p option" rstr

text \<open>The map of changes is the list of its entries; the code relies on no order.\<close>

record 'p apply_patch_action =
  action_changes :: "('p \<times> 'p apply_patch_file_change) list"
  action_patch :: rstr
  action_cwd :: 'p

text \<open>The change of one hunk. \<open>AnyhowApply\<close> carries the error of the code, \<open>Panic\<close> a panic.\<close>

definition hunk_change ::
  "('p, 'b, 'pe) path_uri_ops \<Rightarrow> ('s, 'p) executor_file_system \<Rightarrow> (rstr \<Rightarrow> rstr \<Rightarrow> rstr) \<Rightarrow> 's \<Rightarrow> 'p \<Rightarrow> hunk
     \<Rightarrow> ('pe anyhow, 'p \<times> 'p apply_patch_file_change) result" where
  "hunk_change po fs diff s effective_cwd hunk =
     bind_result (result_map_err (AnyhowApply \<circ> PathUriErr) (hunk_resolve_path (uri_join po) effective_cwd hunk)) (\<lambda>path.
       case hunk of
         AddFile _ contents \<Rightarrow> Ok (path, AddChange contents)
       | DeleteFile _ \<Rightarrow>
           (case read_file_text fs s path of
              Err source \<Rightarrow> Err (AnyhowApply (IoErr (rs ''Failed to read '' @ uri_display po path) source))
            | Ok content \<Rightarrow> Ok (path, DeleteChange content))
       | UpdateFile _ move_path chunks \<Rightarrow>
           bind_result (derive_new_contents_from_chunks po fs s path chunks) (\<lambda>(original_contents, new_contents).
             let unified_diff = diff original_contents new_contents in
             bind_result
               (case move_path of
                  None \<Rightarrow> Ok None
                | Some dest \<Rightarrow> result_map Some (result_map_err (AnyhowApply \<circ> PathUriErr) (uri_join po effective_cwd dest)))
               (\<lambda>move_path. Ok (path, UpdateChange unified_diff move_path new_contents))))"

fun hunk_changes where
  "hunk_changes po fs diff s effective_cwd [] changes = Ok changes"
| "hunk_changes po fs diff s effective_cwd (hunk # hs) changes =
     bind_result (hunk_change po fs diff s effective_cwd hunk) (\<lambda>(path, c).
       hunk_changes po fs diff s effective_cwd hs (AList.update path c changes))"

definition try_verify_apply_patch_args ::
  "('p, 'b, 'pe) path_uri_ops \<Rightarrow> ('s, 'p) executor_file_system \<Rightarrow> (rstr \<Rightarrow> rstr \<Rightarrow> rstr) \<Rightarrow> 's \<Rightarrow> 'p \<Rightarrow> apply_patch_args
     \<Rightarrow> ('pe anyhow, 'p apply_patch_action) result" where
  "try_verify_apply_patch_args po fs diff s cwd args =
     bind_result
       (case args_workdir args of
          None \<Rightarrow> Ok cwd
        | Some dir \<Rightarrow> result_map_err (AnyhowApply \<circ> PathUriErr) (uri_join po cwd dir))
       (\<lambda>effective_cwd.
          bind_result (hunk_changes po fs diff s effective_cwd (args_hunks args) []) (\<lambda>changes.
            Ok \<lparr>action_changes = changes, action_patch = args_patch args, action_cwd = effective_cwd\<rparr>))"

datatype ('p, 'pe) maybe_apply_patch_verified =
    VerifiedBody "'p apply_patch_action"
  | VerifiedShellParseError extract_heredoc_error
  | CorrectnessError "'pe anyhow"
  | VerifiedNotApplyPatch

definition verify_apply_patch_args where
  "verify_apply_patch_args po fs diff s cwd args =
     (case try_verify_apply_patch_args po fs diff s cwd args of
        Ok action \<Rightarrow> VerifiedBody action
      | Err err \<Rightarrow> CorrectnessError err)"

definition maybe_parse_apply_patch_verified ::
  "bash_query \<Rightarrow> ('p \<Rightarrow> path_convention option) \<Rightarrow> ('p, 'b, 'pe) path_uri_ops \<Rightarrow> ('s, 'p) executor_file_system
     \<Rightarrow> (rstr \<Rightarrow> rstr \<Rightarrow> rstr) \<Rightarrow> 's \<Rightarrow> 'p \<Rightarrow> rstr list \<Rightarrow> ('p, 'pe) maybe_apply_patch_verified" where
  "maybe_parse_apply_patch_verified query infer_convention po fs diff s cwd argv =
     (let conv = infer_convention cwd in
      if (case argv of [body] \<Rightarrow> is_ok (parse_patch body) | _ \<Rightarrow> False)
      then CorrectnessError (AnyhowApply ImplicitInvocation)
      else if (case parse_shell_script conv argv of Some (_, script) \<Rightarrow> is_ok (parse_patch script) | None \<Rightarrow> False)
      then CorrectnessError (AnyhowApply ImplicitInvocation)
      else
        case maybe_parse_apply_patch query conv argv of
          PatchBody args \<Rightarrow> verify_apply_patch_args po fs diff s cwd args
        | ShellParseError e \<Rightarrow> VerifiedShellParseError e
        | PatchParseError e \<Rightarrow> CorrectnessError (AnyhowApply (ParseErr e))
        | NotApplyPatch \<Rightarrow> VerifiedNotApplyPatch)"

end
