(* ===== verification/Fs_Policy.thy ===== *)
theory Fs_Policy
  imports Exec_Approval Absolute_Path "HOL-Library.Product_Lexorder" "HOL-Library.List_Lexorder"
begin

text \<open>
  The file system policy of the sandbox (\<^verbatim>\<open>protocol/src/permissions.rs\<close>, with the legacy
  policies of \<^verbatim>\<open>protocol/src/protocol.rs\<close>): what its entries resolve to, which access a
  path has, the protection of workspace metadata, and the operations that change a
  policy. A \<^verbatim>\<open>Path\<close> is the list of its components; it is printed where the code reads the
  text. The file system, the environment and the glob library are the parameter \<open>fs_host\<close>.
\<close>

record fs_host =
  host :: host_paths
  tmpdir_var :: "rstr option"
  is_dir :: "path \<Rightarrow> bool"
  is_file :: "path \<Rightarrow> bool"
  path_exists :: "path \<Rightarrow> bool"
  symlink_metadata_ok :: "path \<Rightarrow> bool"
  read_text :: "path \<Rightarrow> rstr option"
  links :: link_view
  glob_error :: "rstr \<Rightarrow> rstr option"
  glob_matches :: "rstr \<Rightarrow> path \<Rightarrow> bool"

section \<open>Orders\<close>

text \<open>The order that \<^verbatim>\<open>FileSystemAccessMode\<close> derives: \<^verbatim>\<open>Read\<close>, \<^verbatim>\<open>Write\<close>, \<^verbatim>\<open>Deny\<close>.\<close>

fun access_rank :: "file_system_access_mode \<Rightarrow> nat" where
  "access_rank ReadAccess = 0"
| "access_rank WriteAccess = 1"
| "access_rank DenyAccess = 2"

lemma access_rank_inject: "access_rank a = access_rank b \<longleftrightarrow> a = b"
  by (cases a; cases b) simp_all

instantiation file_system_access_mode :: linorder
begin

definition less_eq_file_system_access_mode :: "file_system_access_mode \<Rightarrow> file_system_access_mode \<Rightarrow> bool" where
  "less_eq_file_system_access_mode a b \<longleftrightarrow> access_rank a \<le> access_rank b"

definition less_file_system_access_mode :: "file_system_access_mode \<Rightarrow> file_system_access_mode \<Rightarrow> bool" where
  "less_file_system_access_mode a b \<longleftrightarrow> access_rank a < access_rank b"

instance
  by standard (auto simp: less_eq_file_system_access_mode_def less_file_system_access_mode_def access_rank_inject)

end

text \<open>The order of \<^verbatim>\<open>Component\<close>: the root, the dots, then names by their text.\<close>

fun component_key :: "path_component \<Rightarrow> nat \<times> rstr" where
  "component_key RootDir = (0, [])"
| "component_key CurDir = (1, [])"
| "component_key ParentDir = (2, [])"
| "component_key (Normal piece) = (3, piece)"

lemma component_key_inject: "component_key a = component_key b \<longleftrightarrow> a = b"
  by (cases a; cases b) simp_all

instantiation path_component :: linorder
begin

definition less_eq_path_component :: "path_component \<Rightarrow> path_component \<Rightarrow> bool" where
  "less_eq_path_component a b \<longleftrightarrow> component_key a \<le> component_key b"

definition less_path_component :: "path_component \<Rightarrow> path_component \<Rightarrow> bool" where
  "less_path_component a b \<longleftrightarrow> component_key a < component_key b"

instance
  by standard (auto simp only: less_eq_path_component_def less_path_component_def component_key_inject
      less_le_not_le order.refl linear dest: order.antisym order.trans simp flip: component_key_inject)

end

section \<open>Entries\<close>

datatype file_system_special_path =
    SpecialRoot
  | Minimal
  | ProjectRoots "path option"
  | Tmpdir
  | SlashTmp
  | UnknownSpecial rstr "path option"

datatype file_system_path = FsPath path | FsGlob rstr | FsSpecial file_system_special_path

type_synonym fs_entry = "file_system_path \<times> file_system_access_mode"
type_synonym fs_policy = "file_system_path file_system_sandbox_policy"

definition can_read :: "file_system_access_mode \<Rightarrow> bool" where
  "can_read access \<longleftrightarrow> access \<noteq> DenyAccess"

definition can_write :: "file_system_access_mode \<Rightarrow> bool" where
  "can_write access \<longleftrightarrow> access = WriteAccess"

text \<open>\<^verbatim>\<open>Path::starts_with\<close> and \<^verbatim>\<open>Path::strip_prefix\<close> compare whole components.\<close>

definition path_starts_with :: "path \<Rightarrow> path \<Rightarrow> bool" where
  "path_starts_with p base \<longleftrightarrow> take (length base) p = base"

definition path_strip_prefix :: "path \<Rightarrow> path \<Rightarrow> path option" where
  "path_strip_prefix p base = (if path_starts_with p base then Some (drop (length base) p) else None)"

definition PROTECTED_METADATA_PATH_NAMES :: "rstr list" where
  "PROTECTED_METADATA_PATH_NAMES = [rs ''.git'', rs ''.agents'', rs ''.codex'']"

definition PROJECT_ROOTS_GLOB_PATTERN_PREFIX :: rstr where
  "PROJECT_ROOTS_GLOB_PATTERN_PREFIX = rs ''codex-project-roots://''"

definition project_roots_glob_pattern :: "path \<Rightarrow> rstr" where
  "project_roots_glob_pattern subpath = PROJECT_ROOTS_GLOB_PATTERN_PREFIX @ path_text subpath"

definition abs_path :: "fs_host \<Rightarrow> path \<Rightarrow> path option" where
  "abs_path h p = result_ok (from_absolute_path (host h) (path_text p))"

definition resolve_candidate_path :: "fs_host \<Rightarrow> path \<Rightarrow> path \<Rightarrow> path option" where
  "resolve_candidate_path h p cwd =
     (if is_absolute p then abs_path h p
      else map_option (\<lambda>c. absolute_join (host h) c (path_text p)) (abs_path h cwd))"

text \<open>\<^const>\<open>None\<close> would be one of the two panics; an absolute working directory has the root as its last ancestor.\<close>

definition absolute_root_path_for_cwd :: "fs_host \<Rightarrow> path \<Rightarrow> path option" where
  "absolute_root_path_for_cwd h cwd = abs_path h (last (path_ancestors cwd))"

definition resolve_file_system_special_path :: "fs_host \<Rightarrow> file_system_special_path \<Rightarrow> path option \<Rightarrow> path option" where
  "resolve_file_system_special_path h v cwd =
     (case v of
        SpecialRoot \<Rightarrow> None
      | Minimal \<Rightarrow> None
      | UnknownSpecial _ _ \<Rightarrow> None
      | ProjectRoots subpath \<Rightarrow>
          Option.bind cwd (\<lambda>cwd.
            case subpath of
              Some subpath \<Rightarrow> Some (resolve_path_against_base (host h) (path_text subpath) cwd)
            | None \<Rightarrow> Some cwd)
      | Tmpdir \<Rightarrow>
          Option.bind (tmpdir_var h) (\<lambda>tmpdir.
            if tmpdir = [] then None else result_ok (from_absolute_path (host h) tmpdir))
      | SlashTmp \<Rightarrow>
          Option.bind (result_ok (from_absolute_path (host h) (rs ''/tmp''))) (\<lambda>slash_tmp.
            if \<not> is_dir h slash_tmp then None else Some slash_tmp))"

definition resolve_file_system_path :: "fs_host \<Rightarrow> file_system_path \<Rightarrow> path option \<Rightarrow> path option" where
  "resolve_file_system_path h p cwd =
     (case p of
        FsPath path \<Rightarrow> Some path
      | FsGlob _ \<Rightarrow> None
      | FsSpecial v \<Rightarrow> resolve_file_system_special_path h v cwd)"

definition resolve_entry_path :: "fs_host \<Rightarrow> file_system_path \<Rightarrow> path option \<Rightarrow> path option" where
  "resolve_entry_path h p cwd =
     (if p = FsSpecial SpecialRoot then Option.bind cwd (absolute_root_path_for_cwd h)
      else resolve_file_system_path h p cwd)"

definition resolved_entries_with_cwd :: "fs_host \<Rightarrow> fs_policy \<Rightarrow> path \<Rightarrow> (path \<times> file_system_access_mode) list" where
  "resolved_entries_with_cwd h fs cwd =
     (let cwd_absolute = abs_path h cwd in
      List.map_filter (\<lambda>(p, access). map_option (\<lambda>path. (path, access)) (resolve_entry_path h p cwd_absolute))
        (fs_entries fs))"

fun special_path_matches_absolute_path :: "file_system_special_path \<Rightarrow> path \<Rightarrow> bool" where
  "special_path_matches_absolute_path SpecialRoot p = (path_parent p = None)"
| "special_path_matches_absolute_path SlashTmp p = (p = components (rs ''/tmp''))"
| "special_path_matches_absolute_path _ p = False"

text \<open>The same token and the same fields.\<close>

definition special_paths_share_target :: "file_system_special_path \<Rightarrow> file_system_special_path \<Rightarrow> bool" where
  "special_paths_share_target l r \<longleftrightarrow> l = r"

fun file_system_paths_share_target :: "file_system_path \<Rightarrow> file_system_path \<Rightarrow> bool" where
  "file_system_paths_share_target (FsPath l) (FsPath r) = (l = r)"
| "file_system_paths_share_target (FsSpecial l) (FsSpecial r) = special_paths_share_target l r"
| "file_system_paths_share_target (FsPath p) (FsSpecial v) = special_path_matches_absolute_path v p"
| "file_system_paths_share_target (FsSpecial v) (FsPath p) = special_path_matches_absolute_path v p"
| "file_system_paths_share_target (FsGlob l) (FsGlob r) = (l = r)"
| "file_system_paths_share_target _ _ = False"

section \<open>Full access\<close>

definition restricted :: "fs_entry list \<Rightarrow> fs_policy" where
  "restricted entries = \<lparr>fs_kind = RestrictedKind, fs_glob_scan_max_depth = None, fs_entries = entries\<rparr>"

definition read_only :: fs_policy where
  "read_only = restricted [(FsSpecial SpecialRoot, ReadAccess)]"

definition has_root_access :: "fs_policy \<Rightarrow> (file_system_access_mode \<Rightarrow> bool) \<Rightarrow> bool" where
  "has_root_access fs predicate \<longleftrightarrow>
     fs_kind fs = RestrictedKind
     \<and> list_ex (\<lambda>(p, access). p = FsSpecial SpecialRoot \<and> predicate access) (fs_entries fs)"

definition has_same_target_write_override :: "fs_policy \<Rightarrow> fs_entry \<Rightarrow> bool" where
  "has_same_target_write_override fs entry =
     list_ex (\<lambda>(p, access). can_write access \<and> access > snd entry \<and> file_system_paths_share_target p (fst entry))
       (fs_entries fs)"

definition narrows_write :: "fs_policy \<Rightarrow> fs_entry \<Rightarrow> bool" where
  "narrows_write fs entry =
     (if can_write (snd entry) then False
      else case fst entry of
        FsPath _ \<Rightarrow> \<not> has_same_target_write_override fs entry
      | FsGlob _ \<Rightarrow> True
      | FsSpecial v \<Rightarrow>
          (case v of
             SpecialRoot \<Rightarrow> snd entry = DenyAccess
           | Minimal \<Rightarrow> False
           | UnknownSpecial _ _ \<Rightarrow> False
           | _ \<Rightarrow> \<not> has_same_target_write_override fs entry))"

definition has_write_narrowing_entries :: "fs_policy \<Rightarrow> bool" where
  "has_write_narrowing_entries fs \<longleftrightarrow> fs_kind fs = RestrictedKind \<and> list_ex (narrows_write fs) (fs_entries fs)"

definition has_full_disk_read_access :: "fs_policy \<Rightarrow> bool" where
  "has_full_disk_read_access fs =
     (if fs_kind fs = RestrictedKind then has_root_access fs can_read \<and> \<not> has_denied_read_restrictions fs else True)"

definition has_full_disk_write_access :: "fs_policy \<Rightarrow> bool" where
  "has_full_disk_write_access fs =
     (if fs_kind fs = RestrictedKind then has_root_access fs can_write \<and> \<not> has_write_narrowing_entries fs else True)"

definition include_platform_defaults :: "fs_policy \<Rightarrow> bool" where
  "include_platform_defaults fs \<longleftrightarrow>
     \<not> has_full_disk_read_access fs \<and> fs_kind fs = RestrictedKind
     \<and> list_ex (\<lambda>(p, access). p = FsSpecial Minimal \<and> can_read access) (fs_entries fs)"

section \<open>Access to a path\<close>

definition resolved_entry_precedence :: "path \<times> file_system_access_mode \<Rightarrow> nat \<times> file_system_access_mode" where
  "resolved_entry_precedence entry = (length (fst entry), snd entry)"

definition resolve_access_with_cwd :: "fs_host \<Rightarrow> fs_policy \<Rightarrow> path \<Rightarrow> path \<Rightarrow> file_system_access_mode" where
  "resolve_access_with_cwd h fs p cwd =
     (if fs_kind fs \<noteq> RestrictedKind then WriteAccess
      else case resolve_candidate_path h p cwd of
        None \<Rightarrow> DenyAccess
      | Some p \<Rightarrow>
          (case max_by_key resolved_entry_precedence
                  (filter (\<lambda>entry. path_starts_with p (fst entry)) (resolved_entries_with_cwd h fs cwd)) of
             None \<Rightarrow> DenyAccess
           | Some entry \<Rightarrow> snd entry))"

definition can_read_path_with_cwd :: "fs_host \<Rightarrow> fs_policy \<Rightarrow> path \<Rightarrow> path \<Rightarrow> bool" where
  "can_read_path_with_cwd h fs p cwd = can_read (resolve_access_with_cwd h fs p cwd)"

text \<open>The text of a component, as \<^verbatim>\<open>as_os_str\<close> gives it; the root of an absolute path is a slash.\<close>

fun component_os_str :: "path_component \<Rightarrow> rstr" where
  "component_os_str RootDir = [47]"
| "component_os_str c = component_text c"

definition metadata_path_name :: "rstr \<Rightarrow> rstr option" where
  "metadata_path_name name = find (\<lambda>metadata_name. name = metadata_name) PROTECTED_METADATA_PATH_NAMES"

definition metadata_child ::
  "fs_host \<Rightarrow> path \<Rightarrow> path \<times> file_system_access_mode \<Rightarrow> (path \<times> rstr) option" where
  "metadata_child h target entry =
     (case path_strip_prefix target (fst entry) of
        Some (first_component # _) \<Rightarrow>
          map_option (\<lambda>metadata_name. (absolute_join (host h) (fst entry) metadata_name, metadata_name))
            (metadata_path_name (component_os_str first_component))
      | _ \<Rightarrow> None)"

definition metadata_child_of_writable_root :: "fs_host \<Rightarrow> fs_policy \<Rightarrow> path \<Rightarrow> path \<Rightarrow> (path \<times> rstr) option" where
  "metadata_child_of_writable_root h fs target cwd =
     (case List.map_filter (metadata_child h target)
             (filter (\<lambda>entry. can_write (snd entry)) (resolved_entries_with_cwd h fs cwd)) of
        [] \<Rightarrow> None
      | x # _ \<Rightarrow> Some x)"

definition has_explicit_write_entry_for_metadata_path :: "fs_host \<Rightarrow> fs_policy \<Rightarrow> path \<Rightarrow> path \<Rightarrow> path \<Rightarrow> bool" where
  "has_explicit_write_entry_for_metadata_path h fs protected_metadata_path target cwd =
     list_ex (\<lambda>entry. can_write (snd entry) \<and> path_starts_with target (fst entry)
                \<and> path_starts_with (fst entry) protected_metadata_path)
       (resolved_entries_with_cwd h fs cwd)"

definition is_metadata_write_denied :: "fs_host \<Rightarrow> fs_policy \<Rightarrow> path \<Rightarrow> path \<Rightarrow> bool" where
  "is_metadata_write_denied h fs p cwd =
     (if fs_kind fs \<noteq> RestrictedKind then False
      else case resolve_candidate_path h p cwd of
        None \<Rightarrow> True
      | Some target \<Rightarrow>
          (case metadata_child_of_writable_root h fs target cwd of
             None \<Rightarrow> False
           | Some (protected_metadata_path, _) \<Rightarrow>
               \<not> has_explicit_write_entry_for_metadata_path h fs protected_metadata_path target cwd))"

definition can_write_path_with_cwd :: "fs_host \<Rightarrow> fs_policy \<Rightarrow> path \<Rightarrow> path \<Rightarrow> bool" where
  "can_write_path_with_cwd h fs p cwd =
     (if \<not> can_write (resolve_access_with_cwd h fs p cwd) then False
      else if has_full_disk_write_access fs then True
      else \<not> is_metadata_write_denied h fs p cwd)"

definition forbidden_agent_metadata_write :: "fs_host \<Rightarrow> path \<Rightarrow> path \<Rightarrow> fs_policy \<Rightarrow> rstr option" where
  "forbidden_agent_metadata_write h p cwd fs =
     (if fs_kind fs \<noteq> RestrictedKind then None
      else Option.bind (resolve_candidate_path h p cwd) (\<lambda>target.
           Option.bind (metadata_child_of_writable_root h fs target cwd) (\<lambda>(protected_metadata_path, metadata_name).
             if has_explicit_write_entry_for_metadata_path h fs protected_metadata_path target cwd then None
             else if \<not> can_write_path_with_cwd h fs target cwd then Some metadata_name
             else None)))"

end
