(* ===== verification/Fs_Roots.thy ===== *)
theory Fs_Roots
  imports Fs_Policy
begin

text \<open>
  The rest of the file system policy (\<^verbatim>\<open>protocol/src/permissions.rs\<close>): default carve-outs of
  a writable root, the operations that build and extend policies, the readable,
  writable and unreadable roots that the sandboxes are given, the matcher of denied
  reads, and the translation from and to the legacy policies of \<^verbatim>\<open>protocol.rs\<close>.
\<close>

section \<open>Effective paths\<close>

text \<open>The loop over the ancestors of the path.\<close>

fun effective_from :: "fs_host \<Rightarrow> path \<Rightarrow> path list \<Rightarrow> path" where
  "effective_from h raw [] = raw"
| "effective_from h raw (ancestor # rest) =
     (if \<not> symlink_metadata_ok h ancestor then effective_from h raw rest
      else case canonicalize_preserving_symlinks (host h) (links h) (path_text ancestor) of
        Err _ \<Rightarrow> effective_from h raw rest
      | Ok normalized_ancestor \<Rightarrow>
          (case path_strip_prefix raw ancestor of
             None \<Rightarrow> effective_from h raw rest
           | Some suf \<Rightarrow>
               (case abs_path h (path_join normalized_ancestor suf) of
                  Some normalized_path \<Rightarrow> normalized_path
                | None \<Rightarrow> effective_from h raw rest)))"

definition normalize_effective_absolute_path :: "fs_host \<Rightarrow> path \<Rightarrow> path" where
  "normalize_effective_absolute_path h p = effective_from h p (path_ancestors p)"

fun dedup_loop :: "path set \<Rightarrow> path list \<Rightarrow> path list" where
  "dedup_loop seen [] = []"
| "dedup_loop seen (p # ps) = (if p \<in> seen then dedup_loop seen ps else p # dedup_loop (insert p seen) ps)"

definition dedup_absolute_paths :: "fs_host \<Rightarrow> path list \<Rightarrow> bool \<Rightarrow> path list" where
  "dedup_absolute_paths h ps normalize_effective_paths =
     dedup_loop {} (map (if normalize_effective_paths then normalize_effective_absolute_path h else id) ps)"

section \<open>Metadata under a writable root\<close>

definition is_git_pointer_file :: "fs_host \<Rightarrow> path \<Rightarrow> bool" where
  "is_git_pointer_file h p \<longleftrightarrow> is_file h p \<and> p \<noteq> [] \<and> last p = Normal (rs ''.git'')"

definition resolve_gitdir_from_file :: "fs_host \<Rightarrow> path \<Rightarrow> path option" where
  "resolve_gitdir_from_file h dot_git =
     (case read_text h dot_git of
        None \<Rightarrow> None
      | Some contents \<Rightarrow>
          (case split_once 58 (trim contents) of
             None \<Rightarrow> None
           | Some (key, gitdir_raw) \<Rightarrow>
               if trim key \<noteq> rs ''gitdir'' then None
               else
                 let gitdir_raw = trim gitdir_raw in
                 if gitdir_raw = [] then None
                 else case path_parent dot_git of
                   None \<Rightarrow> None
                 | Some base \<Rightarrow>
                     let gitdir_path = resolve_path_against_base (host h) gitdir_raw base in
                     if \<not> path_exists h gitdir_path then None else Some gitdir_path))"

definition default_read_only_subpaths_for_writable_root :: "fs_host \<Rightarrow> path \<Rightarrow> bool \<Rightarrow> path list" where
  "default_read_only_subpaths_for_writable_root h writable_root protect_missing_dot_codex =
     (let top_level_git = absolute_join (host h) writable_root (rs ''.git'');
          top_level_agents = absolute_join (host h) writable_root (rs ''.agents'');
          top_level_codex = absolute_join (host h) writable_root (rs ''.codex'');
          git_subpaths =
            (if is_dir h top_level_git \<or> is_file h top_level_git
             then (if is_file h top_level_git \<and> is_git_pointer_file h top_level_git
                   then (case resolve_gitdir_from_file h top_level_git of Some gitdir \<Rightarrow> [gitdir] | None \<Rightarrow> [])
                   else [])
                  @ [top_level_git]
             else [])
      in dedup_absolute_paths h
           (git_subpaths
            @ (if is_dir h top_level_agents then [top_level_agents] else [])
            @ (if protect_missing_dot_codex \<or> is_dir h top_level_codex then [top_level_codex] else []))
           False)"

definition append_default_read_only_entry_if_no_explicit_rule :: "fs_entry list \<Rightarrow> file_system_path \<Rightarrow> fs_entry list" where
  "append_default_read_only_entry_if_no_explicit_rule entries p =
     (if list_ex (\<lambda>entry. file_system_paths_share_target (fst entry) p) entries then entries
      else entries @ [(p, ReadAccess)])"

definition append_default_read_only_path_if_no_explicit_rule :: "fs_entry list \<Rightarrow> path \<Rightarrow> fs_entry list" where
  "append_default_read_only_path_if_no_explicit_rule entries p =
     append_default_read_only_entry_if_no_explicit_rule entries (FsPath p)"

definition append_default_read_only_project_root_subpath_if_no_explicit_rule :: "fs_entry list \<Rightarrow> rstr \<Rightarrow> fs_entry list" where
  "append_default_read_only_project_root_subpath_if_no_explicit_rule entries subpath =
     append_default_read_only_entry_if_no_explicit_rule entries (FsSpecial (ProjectRoots (Some (components subpath))))"

text \<open>The loop over the protected paths of one writable root, and the loop over the roots.\<close>

definition append_protected_paths :: "fs_host \<Rightarrow> bool \<Rightarrow> path \<Rightarrow> fs_entry list \<Rightarrow> fs_entry list" where
  "append_protected_paths h protect_missing_dot_codex writable_root entries =
     foldl append_default_read_only_path_if_no_explicit_rule entries
       (default_read_only_subpaths_for_writable_root h writable_root protect_missing_dot_codex)"

definition append_protected_roots :: "fs_host \<Rightarrow> path list \<Rightarrow> fs_entry list \<Rightarrow> fs_entry list" where
  "append_protected_roots h writable_roots entries = fold (append_protected_paths h False) writable_roots entries"

section \<open>Building policies\<close>

definition workspace_entries :: "path list \<Rightarrow> bool \<Rightarrow> bool \<Rightarrow> fs_entry list" where
  "workspace_entries writable_roots exclude_tmpdir_env_var exclude_slash_tmp =
     [(FsSpecial SpecialRoot, ReadAccess), (FsSpecial (ProjectRoots None), WriteAccess)]
     @ (if \<not> exclude_slash_tmp then [(FsSpecial SlashTmp, WriteAccess)] else [])
     @ (if \<not> exclude_tmpdir_env_var then [(FsSpecial Tmpdir, WriteAccess)] else [])
     @ map (\<lambda>p. (FsPath p, WriteAccess)) writable_roots"

definition workspace_write :: "fs_host \<Rightarrow> path list \<Rightarrow> bool \<Rightarrow> bool \<Rightarrow> fs_policy" where
  "workspace_write h writable_roots exclude_tmpdir_env_var exclude_slash_tmp =
     restricted
       (append_protected_roots h writable_roots
          (foldl append_default_read_only_project_root_subpath_if_no_explicit_rule
             (workspace_entries writable_roots exclude_tmpdir_env_var exclude_slash_tmp)
             [rs ''.git'', rs ''.agents'', rs ''.codex'']))"

definition push_deny_entries :: "fs_entry list \<Rightarrow> fs_entry list \<Rightarrow> fs_entry list" where
  "push_deny_entries existing entries =
     foldl (\<lambda>entries deny_entry. if list_ex (\<lambda>entry. entry = deny_entry) entries then entries else entries @ [deny_entry])
       entries (filter (\<lambda>entry. snd entry = DenyAccess) existing)"

definition preserve_deny_read_restrictions_from :: "fs_policy \<Rightarrow> fs_policy \<Rightarrow> fs_policy" where
  "preserve_deny_read_restrictions_from self existing =
     (let has_deny_read_entries = list_ex (\<lambda>entry. snd entry = DenyAccess) (fs_entries existing);
          self = (if fs_kind self = UnrestrictedKind \<and> has_deny_read_entries
                  then restricted [(FsSpecial SpecialRoot, WriteAccess)] else self)
      in if fs_kind self \<noteq> RestrictedKind then self
         else
           let self = (if fs_glob_scan_max_depth self = None
                       then self\<lparr>fs_glob_scan_max_depth := fs_glob_scan_max_depth existing\<rparr> else self)
           in self\<lparr>fs_entries := push_deny_entries (fs_entries existing) (fs_entries self)\<rparr>)"

section \<open>Legacy policies\<close>

datatype sandbox_policy =
    DangerFullAccess
  | ReadOnly bool
  | ExternalSandbox network_sandbox_policy
  | WorkspaceWrite "path list" bool bool bool

definition has_full_network_access :: "sandbox_policy \<Rightarrow> bool" where
  "has_full_network_access sp =
     (case sp of
        DangerFullAccess \<Rightarrow> True
      | ExternalSandbox network_access \<Rightarrow> network_access = NetworkEnabled
      | ReadOnly network_access \<Rightarrow> network_access
      | WorkspaceWrite _ network_access _ _ \<Rightarrow> network_access)"

definition network_policy_of :: "sandbox_policy \<Rightarrow> network_sandbox_policy" where
  "network_policy_of sp = (if has_full_network_access sp then NetworkEnabled else NetworkRestricted)"

definition policy_of :: "fs_host \<Rightarrow> sandbox_policy \<Rightarrow> fs_policy" where
  "policy_of h sp =
     (case sp of
        DangerFullAccess \<Rightarrow> fs_unrestricted
      | ExternalSandbox _ \<Rightarrow> fs_external_sandbox
      | ReadOnly _ \<Rightarrow> restricted [(FsSpecial SpecialRoot, ReadAccess)]
      | WorkspaceWrite writable_roots _ exclude_tmpdir_env_var exclude_slash_tmp \<Rightarrow>
          workspace_write h writable_roots exclude_tmpdir_env_var exclude_slash_tmp)"

definition append_cwd_protected :: "fs_host \<Rightarrow> path \<Rightarrow> fs_entry list \<Rightarrow> fs_entry list" where
  "append_cwd_protected h cwd entries =
     (case abs_path h cwd of Some cwd_root \<Rightarrow> append_protected_paths h True cwd_root entries | None \<Rightarrow> entries)"

definition from_legacy_sandbox_policy_for_cwd :: "fs_host \<Rightarrow> sandbox_policy \<Rightarrow> path \<Rightarrow> fs_policy" where
  "from_legacy_sandbox_policy_for_cwd h sp cwd =
     (let file_system_policy = policy_of h sp in
      case sp of
        WorkspaceWrite writable_roots _ _ _ \<Rightarrow>
          file_system_policy\<lparr>fs_entries :=
            append_protected_roots h writable_roots (append_cwd_protected h cwd (fs_entries file_system_policy))\<rparr>
      | _ \<Rightarrow> file_system_policy)"

definition from_legacy_sandbox_policy_preserving_deny_entries :: "fs_host \<Rightarrow> sandbox_policy \<Rightarrow> path \<Rightarrow> fs_policy \<Rightarrow> fs_policy" where
  "from_legacy_sandbox_policy_preserving_deny_entries h sp cwd existing =
     (let rebuilt = from_legacy_sandbox_policy_for_cwd h sp cwd in
      if fs_kind rebuilt \<noteq> RestrictedKind then rebuilt
      else rebuilt\<lparr>fs_glob_scan_max_depth := fs_glob_scan_max_depth existing,
                   fs_entries := push_deny_entries (fs_entries existing) (fs_entries rebuilt)\<rparr>)"

definition legacy_runtime_file_system_policy_for_cwd :: "fs_host \<Rightarrow> sandbox_policy \<Rightarrow> path \<Rightarrow> fs_policy" where
  "legacy_runtime_file_system_policy_for_cwd h sp cwd =
     (case sp of
        WorkspaceWrite writable_roots _ exclude_tmpdir_env_var exclude_slash_tmp \<Rightarrow>
          restricted
            (append_protected_roots h writable_roots
               (append_cwd_protected h cwd
                  (workspace_entries writable_roots exclude_tmpdir_env_var exclude_slash_tmp)))
      | _ \<Rightarrow> policy_of h sp)"

record legacy_scan =
  workspace_root_writable :: bool
  scan_writable_roots :: "path list"
  tmpdir_writable :: bool
  slash_tmp_writable :: bool
  unbridgeable_root_write :: bool

definition legacy_scan_entry :: "fs_host \<Rightarrow> path option \<Rightarrow> fs_entry \<Rightarrow> legacy_scan \<Rightarrow> legacy_scan" where
  "legacy_scan_entry h cwd_absolute entry s =
     (case fst entry of
        FsGlob _ \<Rightarrow> s
      | FsPath p \<Rightarrow>
          if can_write (snd entry)
          then (if cwd_absolute = Some p then s\<lparr>workspace_root_writable := True\<rparr>
                else s\<lparr>scan_writable_roots := scan_writable_roots s @ [p]\<rparr>)
          else s
      | FsSpecial v \<Rightarrow>
          (case v of
             SpecialRoot \<Rightarrow> if snd entry = WriteAccess then s\<lparr>unbridgeable_root_write := True\<rparr> else s
           | Minimal \<Rightarrow> s
           | ProjectRoots subpath \<Rightarrow>
               if subpath = None \<and> can_write (snd entry) then s\<lparr>workspace_root_writable := True\<rparr>
               else (case resolve_file_system_special_path h v cwd_absolute of
                       Some p \<Rightarrow>
                         if can_write (snd entry) then s\<lparr>scan_writable_roots := scan_writable_roots s @ [p]\<rparr> else s
                     | None \<Rightarrow> s)
           | Tmpdir \<Rightarrow> if can_write (snd entry) then s\<lparr>tmpdir_writable := True\<rparr> else s
           | SlashTmp \<Rightarrow> if can_write (snd entry) then s\<lparr>slash_tmp_writable := True\<rparr> else s
           | UnknownSpecial _ _ \<Rightarrow> s))"

definition full_access_legacy :: "network_sandbox_policy \<Rightarrow> sandbox_policy" where
  "full_access_legacy network_policy =
     (if network_policy = NetworkEnabled then DangerFullAccess else ExternalSandbox NetworkRestricted)"

text \<open>The error is the one of writes outside the workspace root.\<close>

definition to_legacy_sandbox_policy ::
  "fs_host \<Rightarrow> fs_policy \<Rightarrow> network_sandbox_policy \<Rightarrow> path \<Rightarrow> sandbox_policy option" where
  "to_legacy_sandbox_policy h fs network_policy cwd =
     (case fs_kind fs of
        ExternalSandboxKind \<Rightarrow> Some (ExternalSandbox network_policy)
      | UnrestrictedKind \<Rightarrow> Some (full_access_legacy network_policy)
      | RestrictedKind \<Rightarrow>
          let s = fold (legacy_scan_entry h (abs_path h cwd)) (fs_entries fs)
                    \<lparr>workspace_root_writable = False, scan_writable_roots = [], tmpdir_writable = False,
                     slash_tmp_writable = False, unbridgeable_root_write = False\<rparr>
          in if has_full_disk_write_access fs then Some (full_access_legacy network_policy)
             else if workspace_root_writable s
             then Some (WorkspaceWrite (dedup_absolute_paths h (scan_writable_roots s) False)
                          (network_policy = NetworkEnabled) (\<not> tmpdir_writable s) (\<not> slash_tmp_writable s))
             else if unbridgeable_root_write s \<or> scan_writable_roots s \<noteq> [] \<or> tmpdir_writable s \<or> slash_tmp_writable s
             then None
             else Some (ReadOnly (network_policy = NetworkEnabled)))"

section \<open>Project roots and additional roots\<close>

definition parse_project_roots_glob_pattern :: "rstr \<Rightarrow> path option" where
  "parse_project_roots_glob_pattern pat = map_option components (strip_prefix PROJECT_ROOTS_GLOB_PATTERN_PREFIX pat)"

definition resolve_project_roots_glob_pattern :: "fs_host \<Rightarrow> path \<Rightarrow> path \<Rightarrow> rstr" where
  "resolve_project_roots_glob_pattern h subpath root =
     path_text (resolve_path_against_base (host h) (path_text subpath) root)"

definition materialize_entry_with_cwd :: "fs_host \<Rightarrow> path option \<Rightarrow> fs_entry \<Rightarrow> fs_entry" where
  "materialize_entry_with_cwd h cwd entry =
     (case fst entry of
        FsSpecial (ProjectRoots _) \<Rightarrow>
          (case resolve_file_system_path h (fst entry) cwd of Some p \<Rightarrow> (FsPath p, snd entry) | None \<Rightarrow> entry)
      | FsGlob pat \<Rightarrow>
          (case (cwd, parse_project_roots_glob_pattern pat) of
             (Some cwd, Some subpath) \<Rightarrow> (FsGlob (resolve_project_roots_glob_pattern h subpath cwd), snd entry)
           | _ \<Rightarrow> entry)
      | _ \<Rightarrow> entry)"

definition materialize_project_roots_with_cwd :: "fs_host \<Rightarrow> fs_policy \<Rightarrow> path \<Rightarrow> fs_policy" where
  "materialize_project_roots_with_cwd h fs cwd =
     fs\<lparr>fs_entries := map (materialize_entry_with_cwd h (abs_path h cwd)) (fs_entries fs)\<rparr>"

definition materialize_entry :: "fs_host \<Rightarrow> path list \<Rightarrow> fs_entry \<Rightarrow> fs_entry list" where
  "materialize_entry h workspace_roots entry =
     (case fst entry of
        FsSpecial (ProjectRoots subpath) \<Rightarrow>
          map (\<lambda>root.
             (FsPath (case subpath of
                        Some subpath \<Rightarrow> resolve_path_against_base (host h) (path_text subpath) root
                      | None \<Rightarrow> root), snd entry)) workspace_roots
      | FsGlob pat \<Rightarrow>
          (case parse_project_roots_glob_pattern pat of
             Some subpath \<Rightarrow>
               map (\<lambda>root. (FsGlob (resolve_project_roots_glob_pattern h subpath root), snd entry)) workspace_roots
           | None \<Rightarrow> [entry])
      | _ \<Rightarrow> [entry])"

definition materialize_project_roots_with_workspace_roots :: "fs_host \<Rightarrow> fs_policy \<Rightarrow> path list \<Rightarrow> fs_policy" where
  "materialize_project_roots_with_workspace_roots h fs workspace_roots =
     fs\<lparr>fs_entries := concat (map (materialize_entry h workspace_roots) (fs_entries fs))\<rparr>"

definition with_materialized_project_roots_for_workspace_roots :: "fs_host \<Rightarrow> fs_policy \<Rightarrow> path list \<Rightarrow> fs_policy" where
  "with_materialized_project_roots_for_workspace_roots h fs workspace_roots =
     fs\<lparr>fs_entries :=
       foldl (\<lambda>entries entry. if entry \<in> set entries then entries else entries @ [entry]) (fs_entries fs)
         (fs_entries (materialize_project_roots_with_workspace_roots h fs workspace_roots))\<rparr>"

definition add_readable_root :: "fs_host \<Rightarrow> path \<Rightarrow> fs_policy \<Rightarrow> path \<Rightarrow> fs_policy" where
  "add_readable_root h cwd fs p =
     (if can_read_path_with_cwd h fs p cwd then fs else fs\<lparr>fs_entries := fs_entries fs @ [(FsPath p, ReadAccess)]\<rparr>)"

definition with_additional_readable_roots :: "fs_host \<Rightarrow> fs_policy \<Rightarrow> path \<Rightarrow> path list \<Rightarrow> fs_policy" where
  "with_additional_readable_roots h fs cwd additional_readable_roots =
     (if has_full_disk_read_access fs then fs else foldl (add_readable_root h cwd) fs additional_readable_roots)"

definition add_writable_root :: "fs_host \<Rightarrow> path \<Rightarrow> fs_policy \<Rightarrow> path \<Rightarrow> fs_policy" where
  "add_writable_root h cwd fs p =
     (if can_write_path_with_cwd h fs p cwd then fs else fs\<lparr>fs_entries := fs_entries fs @ [(FsPath p, WriteAccess)]\<rparr>)"

definition with_additional_writable_roots :: "fs_host \<Rightarrow> fs_policy \<Rightarrow> path \<Rightarrow> path list \<Rightarrow> fs_policy" where
  "with_additional_writable_roots h fs cwd additional_writable_roots =
     foldl (add_writable_root h cwd) fs additional_writable_roots"

definition add_legacy_root :: "fs_host \<Rightarrow> fs_entry list \<Rightarrow> path \<Rightarrow> fs_entry list" where
  "add_legacy_root h entries p =
     append_protected_paths h False p
       (if list_ex (\<lambda>entry. can_write (snd entry) \<and> fst entry = FsPath p) entries then entries
        else entries @ [(FsPath p, WriteAccess)])"

definition with_additional_legacy_workspace_writable_roots :: "fs_host \<Rightarrow> fs_policy \<Rightarrow> path list \<Rightarrow> fs_policy" where
  "with_additional_legacy_workspace_writable_roots h fs additional_writable_roots =
     (if fs_kind fs \<noteq> RestrictedKind then fs
      else fs\<lparr>fs_entries := foldl (add_legacy_root h) (fs_entries fs) additional_writable_roots\<rparr>)"

section \<open>Roots for the sandboxes\<close>

record writable_root =
  wr_root :: path
  read_only_subpaths :: "path list"
  protected_metadata_names :: "rstr list"

definition path_contains_protected_metadata_name :: "writable_root \<Rightarrow> path \<Rightarrow> bool" where
  "path_contains_protected_metadata_name wr p =
     (case path_strip_prefix p (wr_root wr) of
        Some (first_component # _) \<Rightarrow>
          list_ex (\<lambda>name. component_os_str first_component = name) (protected_metadata_names wr)
      | _ \<Rightarrow> False)"

definition is_path_writable :: "writable_root \<Rightarrow> path \<Rightarrow> bool" where
  "is_path_writable wr p =
     (if \<not> path_starts_with p (wr_root wr) then False
      else if list_ex (path_starts_with p) (read_only_subpaths wr) then False
      else if path_contains_protected_metadata_name wr p then False
      else True)"

definition get_readable_roots_with_cwd :: "fs_host \<Rightarrow> fs_policy \<Rightarrow> path \<Rightarrow> path list" where
  "get_readable_roots_with_cwd h fs cwd =
     (if has_full_disk_read_access fs then []
      else dedup_absolute_paths h
             (map fst (filter (\<lambda>entry. can_read (snd entry) \<and> can_read_path_with_cwd h fs (fst entry) cwd)
                         (resolved_entries_with_cwd h fs cwd)))
             True)"

definition protected_metadata_names_for_writable_root ::
  "fs_host \<Rightarrow> fs_policy \<Rightarrow> path \<Rightarrow> path list \<Rightarrow> path \<Rightarrow> rstr list" where
  "protected_metadata_names_for_writable_root h fs root raw_writable_roots cwd =
     filter (\<lambda>metadata_name.
        list_all (\<lambda>r. \<not> can_write_path_with_cwd h fs (absolute_join (host h) r metadata_name) cwd)
          (root # raw_writable_roots)) PROTECTED_METADATA_PATH_NAMES"

definition has_explicit_resolved_path_entry :: "(path \<times> file_system_access_mode) list \<Rightarrow> path \<Rightarrow> bool" where
  "has_explicit_resolved_path_entry entries p = list_ex (\<lambda>entry. fst entry = p) entries"

text \<open>\<^verbatim>\<open>root.join(suffix)\<close> for the first raw root that the entry lies strictly under.\<close>

fun join_under_raw_root :: "fs_host \<Rightarrow> path \<Rightarrow> path \<Rightarrow> path list \<Rightarrow> path option" where
  "join_under_raw_root h root p [] = None"
| "join_under_raw_root h root p (raw_root # raw_roots) =
     (case path_strip_prefix p raw_root of
        Some suf \<Rightarrow>
          if suf = [] then join_under_raw_root h root p raw_roots else Some (absolute_join (host h) root (path_text suf))
      | None \<Rightarrow> join_under_raw_root h root p raw_roots)"

definition carveout_path :: "fs_host \<Rightarrow> path \<Rightarrow> path list \<Rightarrow> path \<Rightarrow> path option" where
  "carveout_path h root raw_writable_roots p =
     (let effective_path = normalize_effective_absolute_path h p;
          preserve_raw_carveout_paths = path_parent root \<noteq> None;
          raw_carveout_path =
            (if preserve_raw_carveout_paths then
               (if p = root then None
                else if path_starts_with p root then Some p
                else join_under_raw_root h root p raw_writable_roots)
             else None)
      in case raw_carveout_path of
           Some q \<Rightarrow> Some q
         | None \<Rightarrow>
             if effective_path = root \<or> \<not> path_starts_with effective_path root then None else Some effective_path)"

definition writable_root_of :: "fs_host \<Rightarrow> fs_policy \<Rightarrow> path \<Rightarrow> path list \<Rightarrow> path \<Rightarrow> writable_root" where
  "writable_root_of h fs cwd writable_entries root =
     (let resolved_entries = resolved_entries_with_cwd h fs cwd;
          raw_writable_roots = filter (\<lambda>p. normalize_effective_absolute_path h p = root) writable_entries;
          protect_missing_dot_codex = (map_option (normalize_effective_absolute_path h) (abs_path h cwd) = Some root);
          defaults = filter (\<lambda>p. \<not> has_explicit_resolved_path_entry resolved_entries p)
                       (default_read_only_subpaths_for_writable_root h root protect_missing_dot_codex);
          carveouts = List.map_filter (\<lambda>entry. carveout_path h root raw_writable_roots (fst entry))
                        (filter (\<lambda>entry. \<not> can_write (snd entry) \<and> \<not> can_write_path_with_cwd h fs (fst entry) cwd)
                           resolved_entries)
      in \<lparr>wr_root = root,
          read_only_subpaths = dedup_absolute_paths h (defaults @ carveouts) False,
          protected_metadata_names = protected_metadata_names_for_writable_root h fs root raw_writable_roots cwd\<rparr>)"

definition get_writable_roots_with_cwd :: "fs_host \<Rightarrow> fs_policy \<Rightarrow> path \<Rightarrow> writable_root list" where
  "get_writable_roots_with_cwd h fs cwd =
     (if has_full_disk_write_access fs then []
      else
        let writable_entries =
              map fst (filter (\<lambda>entry. can_write (snd entry) \<and> can_write_path_with_cwd h fs (fst entry) cwd)
                         (resolved_entries_with_cwd h fs cwd))
        in map (writable_root_of h fs cwd writable_entries) (dedup_absolute_paths h writable_entries True))"

definition get_unreadable_roots_with_cwd :: "fs_host \<Rightarrow> fs_policy \<Rightarrow> path \<Rightarrow> path list" where
  "get_unreadable_roots_with_cwd h fs cwd =
     (if fs_kind fs \<noteq> RestrictedKind then []
      else
        let root = Option.bind (abs_path h cwd) (absolute_root_path_for_cwd h)
        in dedup_absolute_paths h
             (map fst (filter (\<lambda>entry. snd entry = DenyAccess \<and> \<not> can_read_path_with_cwd h fs (fst entry) cwd
                                  \<and> root \<noteq> Some (fst entry))
                         (resolved_entries_with_cwd h fs cwd)))
             True)"

text \<open>\<^verbatim>\<open>Vec::dedup\<close> on a sorted list is \<^const>\<open>remdups_adj\<close>.\<close>

definition get_unreadable_globs_with_cwd :: "fs_host \<Rightarrow> fs_policy \<Rightarrow> path \<Rightarrow> rstr list" where
  "get_unreadable_globs_with_cwd h fs cwd =
     (if fs_kind fs \<noteq> RestrictedKind then []
      else remdups_adj (sort
             (List.map_filter (\<lambda>(p, access).
                 if access = DenyAccess
                 then (case p of
                         FsGlob pat \<Rightarrow> Some (path_text (resolve_path_against_base (host h) pat cwd))
                       | _ \<Rightarrow> None)
                 else None) (fs_entries fs))))"

section \<open>Denied reads\<close>

definition push_unique :: "path list \<Rightarrow> path \<Rightarrow> path list" where
  "push_unique candidates candidate =
     (if list_ex (\<lambda>existing. existing = candidate) candidates then candidates else candidates @ [candidate])"

definition normalized_and_canonical_candidates :: "fs_host \<Rightarrow> path \<Rightarrow> path list" where
  "normalized_and_canonical_candidates h p =
     (let candidates = push_unique [] (case abs_path h p of Some normalized \<Rightarrow> normalized | None \<Rightarrow> p) in
      case Option.bind (fs_canonicalize (links h) (path_text p)) (abs_path h) of
        Some canonical_absolute \<Rightarrow> push_unique candidates canonical_absolute
      | None \<Rightarrow> candidates)"

datatype invalid_deny_read_glob_behavior = FailClosed | ReturnError

record read_deny_matcher =
  denied_candidates :: "path list list"
  deny_read_matchers :: "rstr list"
  invalid_pattern :: bool

fun build_deny_globs ::
  "fs_host \<Rightarrow> invalid_deny_read_glob_behavior \<Rightarrow> rstr list \<Rightarrow> rstr list \<times> bool \<Rightarrow> (rstr, rstr list \<times> bool) result" where
  "build_deny_globs h behavior [] (matchers, invalid) = Ok (matchers, invalid)"
| "build_deny_globs h behavior (pat # pats) (matchers, invalid) =
     (case glob_error h pat of
        None \<Rightarrow> build_deny_globs h behavior pats (matchers @ [pat], invalid)
      | Some err \<Rightarrow>
          (case behavior of
             FailClosed \<Rightarrow> build_deny_globs h behavior pats (matchers, True)
           | ReturnError \<Rightarrow> Err (rs ''invalid deny-read glob pattern `'' @ pat @ rs ''`: '' @ err)))"

definition build_read_deny_matcher ::
  "fs_host \<Rightarrow> fs_policy \<Rightarrow> path \<Rightarrow> invalid_deny_read_glob_behavior \<Rightarrow> (rstr, read_deny_matcher option) result" where
  "build_read_deny_matcher h fs cwd behavior =
     (if \<not> has_denied_read_restrictions fs then Ok None
      else result_map (\<lambda>(matchers, invalid).
             Some \<lparr>denied_candidates = map (normalized_and_canonical_candidates h) (get_unreadable_roots_with_cwd h fs cwd),
                   deny_read_matchers = matchers, invalid_pattern = invalid\<rparr>)
           (build_deny_globs h behavior (get_unreadable_globs_with_cwd h fs cwd) ([], False)))"

definition is_read_denied :: "fs_host \<Rightarrow> read_deny_matcher \<Rightarrow> path \<Rightarrow> bool" where
  "is_read_denied h m p =
     (if invalid_pattern m then True
      else
        let path_candidates = normalized_and_canonical_candidates h p in
        if list_ex (\<lambda>denied. list_ex (\<lambda>candidate.
             list_ex (\<lambda>d. candidate = d \<or> path_starts_with candidate d) denied) path_candidates) (denied_candidates m)
        then True
        else list_ex (\<lambda>pat. list_ex (glob_matches h pat) path_candidates) (deny_read_matchers m))"

section \<open>Comparison with what the legacy sandboxes enforce\<close>

record file_system_semantic_signature =
  sig_full_disk_read :: bool
  sig_full_disk_write :: bool
  sig_platform_defaults :: bool
  sig_readable_roots :: "path list"
  sig_writable_roots :: "writable_root list"
  sig_unreadable_roots :: "path list"
  sig_unreadable_globs :: "rstr list"

definition sorted_writable_roots :: "writable_root list \<Rightarrow> writable_root list" where
  "sorted_writable_roots roots =
     sort_key wr_root
       (map (\<lambda>wr. wr\<lparr>read_only_subpaths := sort (read_only_subpaths wr),
                      protected_metadata_names := remdups_adj (sort (protected_metadata_names wr))\<rparr>) roots)"

definition semantic_signature :: "fs_host \<Rightarrow> fs_policy \<Rightarrow> path \<Rightarrow> file_system_semantic_signature" where
  "semantic_signature h fs cwd =
     \<lparr>sig_full_disk_read = has_full_disk_read_access fs,
      sig_full_disk_write = has_full_disk_write_access fs,
      sig_platform_defaults = include_platform_defaults fs,
      sig_readable_roots = sort (get_readable_roots_with_cwd h fs cwd),
      sig_writable_roots = sorted_writable_roots (get_writable_roots_with_cwd h fs cwd),
      sig_unreadable_roots = sort (get_unreadable_roots_with_cwd h fs cwd),
      sig_unreadable_globs = get_unreadable_globs_with_cwd h fs cwd\<rparr>"

definition is_semantically_equivalent_to :: "fs_host \<Rightarrow> fs_policy \<Rightarrow> fs_policy \<Rightarrow> path \<Rightarrow> bool" where
  "is_semantically_equivalent_to h fs other cwd \<longleftrightarrow> semantic_signature h fs cwd = semantic_signature h other cwd"

definition legacy_writable_roots_with_cwd :: "fs_host \<Rightarrow> sandbox_policy \<Rightarrow> path \<Rightarrow> writable_root list" where
  "legacy_writable_roots_with_cwd h sp cwd =
     (case sp of
        WorkspaceWrite writable_roots _ exclude_tmpdir_env_var exclude_slash_tmp \<Rightarrow>
          let roots = writable_roots
                @ (case abs_path h cwd of Some cwd \<Rightarrow> [cwd] | None \<Rightarrow> [])
                @ (if \<not> exclude_slash_tmp
                   then (case from_absolute_path (host h) (rs ''/tmp'') of
                           Ok slash_tmp \<Rightarrow> if is_dir h slash_tmp then [slash_tmp] else [] | Err _ \<Rightarrow> [])
                   else [])
                @ (case tmpdir_var h of
                     Some tmpdir \<Rightarrow>
                       if \<not> exclude_tmpdir_env_var \<and> tmpdir \<noteq> []
                       then (case from_absolute_path (host h) tmpdir of Ok tmpdir_path \<Rightarrow> [tmpdir_path] | Err _ \<Rightarrow> [])
                       else []
                   | None \<Rightarrow> [])
          in map (\<lambda>writable_root.
               \<lparr>wr_root = writable_root,
                read_only_subpaths =
                  default_read_only_subpaths_for_writable_root h writable_root (abs_path h cwd = Some writable_root),
                protected_metadata_names = []\<rparr>) roots
      | _ \<Rightarrow> [])"

definition protected_metadata_names_need_direct_runtime_enforcement ::
  "fs_host \<Rightarrow> fs_policy \<Rightarrow> sandbox_policy \<Rightarrow> path \<Rightarrow> bool" where
  "protected_metadata_names_need_direct_runtime_enforcement h fs legacy_policy cwd =
     (let legacy_roots = legacy_writable_roots_with_cwd h legacy_policy cwd in
      list_ex (\<lambda>wr.
        case find (\<lambda>candidate. wr_root candidate = wr_root wr) legacy_roots of
          None \<Rightarrow> protected_metadata_names wr \<noteq> []
        | Some legacy_root \<Rightarrow>
            list_ex (\<lambda>metadata_name.
              \<not> list_ex (\<lambda>subpath. subpath = absolute_join (host h) (wr_root wr) metadata_name)
                   (read_only_subpaths legacy_root))
              (protected_metadata_names wr))
        (get_writable_roots_with_cwd h fs cwd))"

definition needs_direct_runtime_enforcement :: "fs_host \<Rightarrow> fs_policy \<Rightarrow> network_sandbox_policy \<Rightarrow> path \<Rightarrow> bool" where
  "needs_direct_runtime_enforcement h fs network_policy cwd =
     (if fs_kind fs \<noteq> RestrictedKind then False
      else case to_legacy_sandbox_policy h fs network_policy cwd of
        None \<Rightarrow> True
      | Some legacy_policy \<Rightarrow>
          if protected_metadata_names_need_direct_runtime_enforcement h fs legacy_policy cwd then True
          else semantic_signature h fs cwd
                 \<noteq> semantic_signature h (legacy_runtime_file_system_policy_for_cwd h legacy_policy cwd) cwd)"

end
