(* ===== verification/Fs_Policy_Facts.thy ===== *)
theory Fs_Policy_Facts
  imports Fs_Roots
begin

text \<open>
  The file system policy: a path has the access of its most specific entry, a policy
  with full write access lets every path be written, metadata under a writable root
  needs an entry of its own, preserved deny entries only narrow a policy, and added
  roots only widen it.
\<close>

section \<open>Prefixes of paths\<close>

lemma path_starts_with_iff: "path_starts_with p base \<longleftrightarrow> (\<exists>suf. p = base @ suf)"
  unfolding path_starts_with_def by (metis append_eq_conv_conj append_take_drop_id)

lemma path_starts_with_refl [simp]: "path_starts_with p p"
  by (simp add: path_starts_with_def)

lemma path_starts_with_trans: "path_starts_with p q \<Longrightarrow> path_starts_with q r \<Longrightarrow> path_starts_with p r"
  by (auto simp: path_starts_with_iff)

lemma path_starts_with_linear:
  "path_starts_with p q \<Longrightarrow> path_starts_with p r \<Longrightarrow> length q \<le> length r \<Longrightarrow> path_starts_with r q"
  by (auto simp: path_starts_with_iff append_eq_append_conv2)

lemma path_starts_with_length: "path_starts_with p q \<Longrightarrow> length q \<le> length p"
  by (auto simp: path_starts_with_iff)

lemma path_starts_with_same_length:
  "path_starts_with p q \<Longrightarrow> path_starts_with p r \<Longrightarrow> length q = length r \<Longrightarrow> q = r"
  by (auto simp: path_starts_with_def)

lemma path_strip_prefix_Some [simp]: "path_strip_prefix p base = Some suf \<longleftrightarrow> p = base @ suf"
  unfolding path_strip_prefix_def path_starts_with_def by (metis append_eq_conv_conj option.distinct(1) option.inject)

lemma path_strip_prefix_append [simp]: "path_strip_prefix (base @ suf) base = Some suf"
  by simp

lemma in_map_filter: "y \<in> set (List.map_filter f xs) \<longleftrightarrow> (\<exists>x\<in>set xs. f x = Some y)"
  by (induction xs) (auto simp: List.map_filter_simps split: option.splits)

section \<open>Resolved paths\<close>

definition host_ok :: "fs_host \<Rightarrow> bool" where
  "host_ok h \<longleftrightarrow> (\<forall>dir. current_dir (host h) = Some dir \<longrightarrow> is_absolute (components dir))"

fun entry_ok :: "fs_entry \<Rightarrow> bool" where
  "entry_ok (FsPath p, _) = absolute_normal p"
| "entry_ok _ = True"

definition policy_ok :: "fs_policy \<Rightarrow> bool" where
  "policy_ok fs \<longleftrightarrow> list_all entry_ok (fs_entries fs)"

lemma from_absolute_path_normal: "host_ok h \<Longrightarrow> from_absolute_path (host h) s = Ok p \<Longrightarrow> absolute_normal p"
  by (auto simp: host_ok_def from_absolute_path_def absolutize_def normalize_path_absolute_normal
      absolutize_from_absolute_normal split: if_splits option.splits)

lemma abs_path_absolute: "host_ok h \<Longrightarrow> abs_path h p = Some q \<Longrightarrow> absolute_normal q"
  by (auto simp: abs_path_def from_absolute_path_normal elim!: result_ok.elims)

lemma expand_path_text:
  assumes "absolute_normal p" shows "maybe_expand_home_directory hp (path_text p) = p"
proof -
  have "strip_prefix [126] (path_text p) = None"
    using assms by (cases p rule: absolute_normal.cases) (simp_all add: path_text_absolute)
  then show ?thesis using assms by (simp add: maybe_expand_home_directory_def components_path_text split: option.splits)
qed

lemma abs_path_normal [simp]:
  assumes "absolute_normal p" shows "abs_path h p = Some p"
  using assms absolute_normal_proper [OF assms]
  by (simp add: abs_path_def from_absolute_path_def absolutize_def expand_path_text normalize_path_normal)

lemma resolve_candidate_normal [simp]:
  assumes "absolute_normal p" shows "resolve_candidate_path h p cwd = Some p"
  using assms absolute_normal_proper [OF assms] by (simp add: resolve_candidate_path_def)

lemma resolve_path_against_base_normal:
  "absolute_normal base \<Longrightarrow> absolute_normal (resolve_path_against_base hp s base)"
  using absolute_normal_proper [of base]
  by (auto simp: resolve_path_against_base_def intro: absolutize_from_absolute_normal)

lemma resolve_candidate_absolute:
  "host_ok h \<Longrightarrow> resolve_candidate_path h p cwd = Some q \<Longrightarrow> absolute_normal q"
  by (auto simp: resolve_candidate_path_def absolute_join_def abs_path_absolute resolve_path_against_base_normal
      split: if_splits)

lemma root_of_absolute: "absolute_normal p \<Longrightarrow> last (path_ancestors p) = [RootDir]"
proof (induction p rule: path_ancestors.induct)
  case (1 p)
  show ?case
  proof (cases "path_parent p")
    case None
    then have "p = [RootDir]" using "1.prems"
      by (cases p rule: absolute_normal.cases) (auto simp: path_parent_def split: if_splits, metis is_name.simps(2) last_in_set list_all_iff)
    then show ?thesis by (subst path_ancestors.simps) (simp add: path_parent_def)
  next
    case (Some q)
    then have "absolute_normal q" using path_pop_absolute_normal [OF "1.prems"] by (simp add: path_pop_def)
    then have "last (path_ancestors q) = [RootDir]" using 1 Some by blast
    moreover have "path_ancestors q \<noteq> []" by (subst path_ancestors.simps) simp
    ultimately show ?thesis using Some by (subst path_ancestors.simps) simp
  qed
qed

text \<open>The panics of the root of the working directory are never reached.\<close>

lemma absolute_root_path_total: "absolute_normal cwd \<Longrightarrow> absolute_root_path_for_cwd h cwd = Some [RootDir]"
  by (simp add: absolute_root_path_for_cwd_def root_of_absolute)

lemma resolve_special_absolute:
  "host_ok h \<Longrightarrow> (\<And>c. cwd = Some c \<Longrightarrow> absolute_normal c) \<Longrightarrow> resolve_file_system_special_path h v cwd = Some p \<Longrightarrow>
     absolute_normal p"
  by (cases v)
     (auto simp: resolve_file_system_special_path_def resolve_path_against_base_normal from_absolute_path_normal
      bind_eq_Some_conv split: option.splits if_splits elim!: result_ok.elims)

lemma resolve_entry_absolute:
  assumes "host_ok h" "entry_ok (p, a)" "\<And>c. cwd = Some c \<Longrightarrow> absolute_normal c" "resolve_entry_path h p cwd = Some q"
  shows "absolute_normal q"
  using assms resolve_special_absolute [of h cwd _ q]
  by (auto simp: resolve_entry_path_def resolve_file_system_path_def bind_eq_Some_conv absolute_root_path_total
      split: if_splits file_system_path.splits)

lemma resolved_entries_iff:
  "(q, a) \<in> set (resolved_entries_with_cwd h fs cwd) \<longleftrightarrow>
     (\<exists>p. (p, a) \<in> set (fs_entries fs) \<and> resolve_entry_path h p (abs_path h cwd) = Some q)"
proof -
  let ?f = "\<lambda>(p, access). map_option (\<lambda>path. (path, access)) (resolve_entry_path h p (abs_path h cwd))"
  have "(q, a) \<in> set (List.map_filter ?f es) \<longleftrightarrow>
      (\<exists>p. (p, a) \<in> set es \<and> resolve_entry_path h p (abs_path h cwd) = Some q)" for es
    by (induction es) (auto simp: List.map_filter_simps split: option.splits)
  then show ?thesis by (simp add: resolved_entries_with_cwd_def)
qed

lemma resolved_entries_absolute:
  assumes "host_ok h" "policy_ok fs" "e \<in> set (resolved_entries_with_cwd h fs cwd)"
  shows "absolute_normal (fst e)"
proof -
  obtain q a where e: "e = (q, a)" by (cases e)
  then obtain p where "(p, a) \<in> set (fs_entries fs)" "resolve_entry_path h p (abs_path h cwd) = Some q"
    using assms(3) by (auto simp: resolved_entries_iff)
  then show ?thesis
    using assms(1,2) resolve_entry_absolute [of h p a "abs_path h cwd" q] abs_path_absolute [OF assms(1)]
    by (auto simp: e policy_ok_def list_all_iff)
qed

section \<open>The most specific entry\<close>

lemma fold_max_key:
  "fold (\<lambda>y best. if key best \<le> key y then y else best) xs x = m \<Longrightarrow>
     m \<in> set (x # xs) \<and> (\<forall>y\<in>set (x # xs). key y \<le> (key m :: 'k::linorder))"
proof (induction xs arbitrary: x)
  case (Cons y ys)
  let ?b = "if key x \<le> key y then y else x"
  have "m \<in> set (?b # ys) \<and> (\<forall>z\<in>set (?b # ys). key z \<le> key m)" using Cons.prems by (intro Cons.IH) simp
  then show ?case by (auto split: if_splits)
qed simp

lemma max_by_key_Some:
  "max_by_key key xs = Some m \<Longrightarrow> m \<in> set xs \<and> (\<forall>y\<in>set xs. key y \<le> key m)"
  using fold_max_key [of key] by (cases xs) fastforce+

lemma max_by_key_None [simp]: "max_by_key key xs = None \<longleftrightarrow> xs = []"
  by (cases xs) simp_all

text \<open>The entry that decides about a path: no other entry for the path is longer, and none at the same path is stronger.\<close>

definition governs :: "(path \<times> file_system_access_mode) set \<Rightarrow> path \<Rightarrow> path \<times> file_system_access_mode \<Rightarrow> bool" where
  "governs es t e \<longleftrightarrow> e \<in> es \<and> path_starts_with t (fst e)
     \<and> (\<forall>e'\<in>es. path_starts_with t (fst e') \<longrightarrow> path_starts_with (fst e) (fst e') \<and> (fst e' = fst e \<longrightarrow> snd e' \<le> snd e))"

lemma governs_unique: "governs es t e \<Longrightarrow> governs es t e' \<Longrightarrow> e = e'"
  by (rule prod_eqI; unfold governs_def)
     (metis path_starts_with_length path_starts_with_same_length order.antisym)+

lemma governs_max:
  assumes "max_by_key resolved_entry_precedence (filter (\<lambda>e. path_starts_with t (fst e)) es) = Some m"
  shows "governs (set es) t m"
proof -
  from max_by_key_Some [OF assms] have m: "m \<in> set es" "path_starts_with t (fst m)"
    and max: "\<And>y. y \<in> set es \<Longrightarrow> path_starts_with t (fst y) \<Longrightarrow> resolved_entry_precedence y \<le> resolved_entry_precedence m"
    by auto
  have "path_starts_with (fst m) (fst y) \<and> (fst y = fst m \<longrightarrow> snd y \<le> snd m)"
    if y: "y \<in> set es" "path_starts_with t (fst y)" for y
    using max [OF y] y(2) m(2)
    by (auto simp: resolved_entry_precedence_def less_eq_prod_def intro: path_starts_with_linear)
  then show ?thesis using m by (simp add: governs_def)
qed

abbreviation entries_of :: "fs_host \<Rightarrow> fs_policy \<Rightarrow> path \<Rightarrow> (path \<times> file_system_access_mode) set" where
  "entries_of h fs cwd \<equiv> set (resolved_entries_with_cwd h fs cwd)"

lemma resolve_access_iff:
  assumes "fs_kind fs = RestrictedKind" "resolve_candidate_path h p cwd = Some t"
  shows "resolve_access_with_cwd h fs p cwd = a \<longleftrightarrow>
     (\<exists>q. governs (entries_of h fs cwd) t (q, a))
     \<or> (a = DenyAccess \<and> (\<forall>e\<in>entries_of h fs cwd. \<not> path_starts_with t (fst e)))"
proof (cases "max_by_key resolved_entry_precedence
                (filter (\<lambda>entry. path_starts_with t (fst entry)) (resolved_entries_with_cwd h fs cwd))")
  case None
  then show ?thesis
    using assms by (simp add: resolve_access_with_cwd_def filter_empty_conv governs_def) (metis fst_conv)
next
  case (Some m)
  note g = governs_max [OF Some]
  then have some: "\<not> (\<forall>e\<in>entries_of h fs cwd. \<not> path_starts_with t (fst e))" unfolding governs_def by blast
  have "(\<exists>q. governs (entries_of h fs cwd) t (q, a)) \<longleftrightarrow> a = snd m"
    using g governs_unique [OF g] by (metis prod.collapse snd_conv)
  moreover have "resolve_access_with_cwd h fs p cwd = snd m"
    using assms Some by (simp add: resolve_access_with_cwd_def)
  ultimately show ?thesis using some by blast
qed

text \<open>
  C15: In a restricted policy the access to a path is that of the longest entry that
  contains it, where at the same path a denial beats write access and write access
  beats read access; a path that no entry contains is denied.
\<close>

theorem access_of_most_specific_entry:
  assumes "fs_kind fs = RestrictedKind" "resolve_candidate_path h p cwd = Some t"
  shows "resolve_access_with_cwd h fs p cwd = a \<longleftrightarrow>
     (\<exists>q. governs (entries_of h fs cwd) t (q, a))
     \<or> (a = DenyAccess \<and> (\<forall>e\<in>entries_of h fs cwd. \<not> path_starts_with t (fst e)))"
  using assms by (rule resolve_access_iff)

section \<open>Full write access\<close>

lemma access_cases:
  assumes "fs_kind fs = RestrictedKind" "resolve_candidate_path h p cwd = Some t"
  obtains (entry) q a where "governs (entries_of h fs cwd) t (q, a)" "resolve_access_with_cwd h fs p cwd = a"
  | (none) "\<forall>e\<in>entries_of h fs cwd. \<not> path_starts_with t (fst e)" "resolve_access_with_cwd h fs p cwd = DenyAccess"
  using resolve_access_iff [OF assms, of "resolve_access_with_cwd h fs p cwd"] by auto

lemma access_less_eq [simp]:
  "WriteAccess \<le> a \<longleftrightarrow> a \<noteq> ReadAccess" "ReadAccess \<le> a" "a \<le> DenyAccess" "DenyAccess \<le> a \<longleftrightarrow> a = DenyAccess"
  "a < WriteAccess \<longleftrightarrow> a = ReadAccess"
  by (cases a; simp add: less_eq_file_system_access_mode_def less_file_system_access_mode_def)+

definition slash_tmp :: path where "slash_tmp = [RootDir, Normal (rs ''tmp'')]"

lemma slash_tmp_facts:
  "absolute_normal slash_tmp" "components (rs ''/tmp'') = slash_tmp" "path_text slash_tmp = rs ''/tmp''"
  by code_simp+

lemma from_slash_tmp: "result_ok (from_absolute_path hp (rs ''/tmp'')) = Some slash_tmp"
  using abs_path_normal [OF slash_tmp_facts(1), of "h\<lparr>host := hp\<rparr>" for h] by (simp add: abs_path_def slash_tmp_facts(3))

lemma absolute_without_parent: "absolute_normal p \<Longrightarrow> path_parent p = None \<Longrightarrow> p = [RootDir]"
  using root_of_absolute [of p] path_ancestors.simps [of p] by simp

text \<open>A write entry for the same target resolves to the same path.\<close>

lemma share_target_resolves:
  assumes "file_system_paths_share_target p' p" "entry_ok (p, a)" "entry_ok (p', a')"
    and "resolve_entry_path h p (Some c) = Some q" "absolute_normal c" "is_dir h slash_tmp"
  shows "resolve_entry_path h p' (Some c) = Some q"
proof -
  have root: "resolve_entry_path h (FsSpecial SpecialRoot) (Some c) = Some [RootDir]"
    using assms(5) by (simp add: resolve_entry_path_def absolute_root_path_total)
  have tmp: "resolve_entry_path h (FsSpecial SlashTmp) (Some c) = Some slash_tmp"
    using assms(6) by (simp add: resolve_entry_path_def resolve_file_system_path_def resolve_file_system_special_path_def
        from_slash_tmp)
  have path: "resolve_entry_path h (FsPath r) (Some c) = Some r" for r
    by (simp add: resolve_entry_path_def resolve_file_system_path_def)
  have special: "resolve_entry_path h (FsSpecial v) (Some c) = Some r"
    if "special_path_matches_absolute_path v r" "absolute_normal r" for v r
    using that root tmp absolute_without_parent [of r] by (cases v) (simp_all add: slash_tmp_facts(2))
  show ?thesis
    using assms(1-4) special path
    by (cases p'; cases p) (auto simp: special_paths_share_target_def)
qed

lemma full_write_root:
  assumes "has_full_disk_write_access fs" "fs_kind fs = RestrictedKind" "abs_path h cwd = Some c" "absolute_normal c"
  shows "([RootDir], WriteAccess) \<in> entries_of h fs cwd"
  using assms
  by (auto simp: has_full_disk_write_access_def has_root_access_def list_ex_iff can_write_def resolved_entries_iff
      resolve_entry_path_def absolute_root_path_total)

lemma full_write_access:
  assumes ok: "host_ok h" "policy_ok fs" and full: "has_full_disk_write_access fs"
    and t: "resolve_candidate_path h p cwd = Some t" and cwd: "abs_path h cwd = Some c" and tmp: "is_dir h slash_tmp"
  shows "resolve_access_with_cwd h fs p cwd = WriteAccess"
proof (cases "fs_kind fs = RestrictedKind")
  case True
  have c: "absolute_normal c" using ok(1) cwd by (rule abs_path_absolute)
  note root = full_write_root [OF full True cwd c]
  have "absolute_normal t" using ok(1) t by (rule resolve_candidate_absolute)
  then have under: "path_starts_with t [RootDir]" by (cases t rule: absolute_normal.cases) (auto simp: path_starts_with_def)
  from True t show ?thesis
  proof (cases rule: access_cases)
    case (entry q a)
    show ?thesis
    proof (rule ccontr)
      assume "resolve_access_with_cwd h fs p cwd \<noteq> WriteAccess"
      then have a: "a \<noteq> WriteAccess" using entry(2) by simp
      from entry(1) obtain fp where fp: "(fp, a) \<in> set (fs_entries fs)" "resolve_entry_path h fp (Some c) = Some q"
        by (auto simp: governs_def resolved_entries_iff cwd)
      have stronger: "\<not> (\<exists>fp'. (fp', WriteAccess) \<in> set (fs_entries fs) \<and> resolve_entry_path h fp' (Some c) = Some q
          \<and> a = ReadAccess)"
      proof
        assume "\<exists>fp'. (fp', WriteAccess) \<in> set (fs_entries fs) \<and> resolve_entry_path h fp' (Some c) = Some q \<and> a = ReadAccess"
        then have "(q, WriteAccess) \<in> entries_of h fs cwd" "a = ReadAccess" by (auto simp: resolved_entries_iff cwd)
        then have "WriteAccess \<le> ReadAccess" using entry(1) unfolding governs_def by fastforce
        then show False by simp
      qed
      have override: False if over: "has_same_target_write_override fs (fp, a)"
      proof -
        from over obtain fp' where fp': "(fp', WriteAccess) \<in> set (fs_entries fs)" "a = ReadAccess"
          "file_system_paths_share_target fp' fp"
          by (auto simp: has_same_target_write_override_def list_ex_iff can_write_def)
        have "entry_ok (fp, a)" "entry_ok (fp', WriteAccess)"
          using ok(2) fp(1) fp'(1) by (auto simp: policy_ok_def list_all_iff)
        from share_target_resolves [OF fp'(3) this fp(2) c tmp] show False using stronger fp' by blast
      qed
      have narrow: "\<not> narrows_write fs (fp, a)"
        using full True fp(1) by (auto simp: has_full_disk_write_access_def has_write_narrowing_entries_def list_ex_iff)
      show False
      proof (cases "fp = FsSpecial SpecialRoot")
        case root_entry: True
        then have "q = [RootDir]" "a = ReadAccess"
          using fp(2) c narrow a by (auto simp: resolve_entry_path_def absolute_root_path_total narrows_write_def can_write_def
              split: if_splits) (cases a, simp_all)
        then show False using root stronger by (auto simp: resolved_entries_iff cwd)
      next
        case False
        then show False
          using narrow a override fp(2)
          by (auto simp: narrows_write_def can_write_def resolve_entry_path_def resolve_file_system_path_def
              resolve_file_system_special_path_def split: file_system_path.splits file_system_special_path.splits)
      qed
    qed
  next
    case none
    then show ?thesis using root under by force
  qed
qed (simp add: resolve_access_with_cwd_def)

text \<open>
  A restricted policy with full write access lets every path be written that can be
  resolved, whatever entries it has besides, provided that the working directory can be
  resolved and the temporary directory of the system is a directory.
\<close>

theorem full_write_access_writes_everything:
  assumes "host_ok h" "policy_ok fs" "has_full_disk_write_access fs"
    and "resolve_candidate_path h p cwd = Some t" "abs_path h cwd = Some c" "is_dir h slash_tmp"
  shows "can_write_path_with_cwd h fs p cwd"
  using full_write_access [OF assms] assms(3) by (simp add: can_write_path_with_cwd_def can_write_def)

text \<open>
  Without a directory there, an entry for the temporary directory is shadowed only by
  name: the policy counts as full write access, and a path is still refused.
\<close>

definition bare_host :: fs_host where
  "bare_host = \<lparr>host = \<lparr>home_dir = None, current_dir = None\<rparr>, tmpdir_var = None, is_dir = \<lambda>_. False, is_file = \<lambda>_. False,
     path_exists = \<lambda>_. False, symlink_metadata_ok = \<lambda>_. False, read_text = \<lambda>_. None,
     links = \<lparr>fs_canonicalize = \<lambda>_. None, is_symlink = \<lambda>_. False\<rparr>, glob_error = \<lambda>_. None, glob_matches = \<lambda>_ _. False\<rparr>"

definition shadowed_tmp_policy :: fs_policy where
  "shadowed_tmp_policy = restricted
     [(FsSpecial SpecialRoot, WriteAccess), (FsSpecial SlashTmp, WriteAccess), (FsPath slash_tmp, ReadAccess)]"

lemma full_write_access_without_tmp:
  "has_full_disk_write_access shadowed_tmp_policy
   \<and> \<not> can_write_path_with_cwd bare_host shadowed_tmp_policy (slash_tmp @ [Normal (rs ''x'')]) [RootDir]"
  by code_simp

theorem full_write_access_writes_everything_witness:
  "can_write_path_with_cwd (bare_host\<lparr>is_dir := \<lambda>_. True\<rparr>) shadowed_tmp_policy (slash_tmp @ [Normal (rs ''x'')]) [RootDir]"
proof (rule full_write_access_writes_everything)
  let ?h = "bare_host\<lparr>is_dir := \<lambda>_. True\<rparr>"
  show "host_ok ?h" by (simp add: host_ok_def bare_host_def)
  show "policy_ok shadowed_tmp_policy" "has_full_disk_write_access shadowed_tmp_policy" by code_simp+
  have "absolute_normal (slash_tmp @ [Normal (rs ''x'')])" by code_simp
  then show "resolve_candidate_path ?h (slash_tmp @ [Normal (rs ''x'')]) [RootDir] = Some (slash_tmp @ [Normal (rs ''x'')])" by simp
  show "abs_path ?h [RootDir] = Some [RootDir]" by simp
  show "is_dir ?h slash_tmp" by simp
qed

theorem access_of_most_specific_entry_witness:
  "\<exists>q. governs (entries_of bare_host shadowed_tmp_policy [RootDir]) (slash_tmp @ [Normal (rs ''x'')]) (q, ReadAccess)"
proof -
  have "fs_kind shadowed_tmp_policy = RestrictedKind" by code_simp
  moreover have "absolute_normal (slash_tmp @ [Normal (rs ''x'')])" by code_simp
  then have "resolve_candidate_path bare_host (slash_tmp @ [Normal (rs ''x'')]) [RootDir] = Some (slash_tmp @ [Normal (rs ''x'')])"
    by simp
  moreover have "resolve_access_with_cwd bare_host shadowed_tmp_policy (slash_tmp @ [Normal (rs ''x'')]) [RootDir] = ReadAccess"
    by code_simp
  ultimately show ?thesis using access_of_most_specific_entry by fastforce
qed

section \<open>Workspace metadata\<close>

lemma metadata_path_name_Some: "metadata_path_name s = Some n \<longleftrightarrow> n = s \<and> s \<in> set PROTECTED_METADATA_PATH_NAMES"
proof -
  have "find (\<lambda>m. s = m) xs = Some n \<longleftrightarrow> n = s \<and> s \<in> set xs" for xs by (induction xs) auto
  then show ?thesis by (simp add: metadata_path_name_def)
qed

lemma metadata_name_facts:
  assumes "n \<in> set PROTECTED_METADATA_PATH_NAMES"
  shows "is_name (Normal n)" "components n = [Normal n]" "strip_prefix [126] n = None"
proof -
  have "list_all (\<lambda>n. is_name (Normal n) \<and> components n = [Normal n] \<and> strip_prefix [126] n = None)
      PROTECTED_METADATA_PATH_NAMES" by code_simp
  then show "is_name (Normal n)" "components n = [Normal n]" "strip_prefix [126] n = None"
    using assms by (auto simp: list_all_iff)
qed

lemma join_metadata:
  assumes "absolute_normal w" "n \<in> set PROTECTED_METADATA_PATH_NAMES"
  shows "absolute_join hp w n = w @ [Normal n]"
proof -
  have "absolute_normal (w @ [Normal n])"
    using assms metadata_name_facts(1) [OF assms(2)] by (cases w rule: absolute_normal.cases) auto
  moreover have "w \<noteq> []" using assms(1) by auto
  ultimately show ?thesis
    using metadata_name_facts(2,3) [OF assms(2)]
    by (simp add: absolute_join_def resolve_path_against_base_def maybe_expand_home_directory_def absolutize_from_def
        path_with_base_def is_absolute_def path_join_def normalize_path_normal split: option.splits)
qed

lemma metadata_child_Some:
  assumes "absolute_normal w"
  shows "metadata_child h t (w, a) = Some (m, n) \<longleftrightarrow>
     (\<exists>rest. t = w @ Normal n # rest) \<and> n \<in> set PROTECTED_METADATA_PATH_NAMES \<and> m = w @ [Normal n]"
proof -
  have "rs ''.git'' \<noteq> [47]" "[47] \<notin> set PROTECTED_METADATA_PATH_NAMES" "rs ''.'' \<notin> set PROTECTED_METADATA_PATH_NAMES"
    "rs ''..'' \<notin> set PROTECTED_METADATA_PATH_NAMES" by code_simp+
  then have os: "component_os_str c \<in> set PROTECTED_METADATA_PATH_NAMES \<Longrightarrow> c = Normal (component_os_str c)" for c
    by (cases c) auto
  show ?thesis
  proof (cases "path_strip_prefix t w")
    case None
    then show ?thesis by (auto simp: metadata_child_def path_strip_prefix_def path_starts_with_iff split: if_splits)
  next
    case (Some suf)
    then have t: "t = w @ suf" by simp
    show ?thesis
    proof (cases suf)
      case Nil
      then have "path_strip_prefix t w = Some []" by (simp add: t)
      then show ?thesis by (simp add: t Nil metadata_child_def del: path_strip_prefix_Some)
    next
      case (Cons c rest)
      have "metadata_child h t (w, a) = Some (m, n) \<longleftrightarrow>
          n = component_os_str c \<and> n \<in> set PROTECTED_METADATA_PATH_NAMES \<and> m = absolute_join (host h) w n"
        by (auto simp: t Cons metadata_child_def metadata_path_name_Some simp del: path_strip_prefix_Some)
      also have "\<dots> \<longleftrightarrow> c = Normal n \<and> n \<in> set PROTECTED_METADATA_PATH_NAMES \<and> m = w @ [Normal n]"
        using os [of c] join_metadata [OF assms] by auto
      finally show ?thesis by (auto simp: t Cons)
    qed
  qed
qed

text \<open>The metadata directory under a writable entry that a path lies in.\<close>

definition in_metadata_of :: "(path \<times> file_system_access_mode) set \<Rightarrow> path \<Rightarrow> path \<Rightarrow> bool" where
  "in_metadata_of es t m \<longleftrightarrow>
     (\<exists>w n. (w, WriteAccess) \<in> es \<and> n \<in> set PROTECTED_METADATA_PATH_NAMES \<and> m = w @ [Normal n] \<and> path_starts_with t m)"

lemma metadata_child_of_writable_root_cases:
  assumes "host_ok h" "policy_ok fs"
  obtains (none) "metadata_child_of_writable_root h fs t cwd = None" "\<forall>m. \<not> in_metadata_of (entries_of h fs cwd) t m"
  | (some) m n where "metadata_child_of_writable_root h fs t cwd = Some (m, n)" "in_metadata_of (entries_of h fs cwd) t m"
proof -
  let ?ws = "filter (\<lambda>entry. can_write (snd entry)) (resolved_entries_with_cwd h fs cwd)"
  have iff: "(\<exists>n. (m, n) \<in> set (List.map_filter (metadata_child h t) ?ws)) \<longleftrightarrow> in_metadata_of (entries_of h fs cwd) t m" for m
  proof -
    have abs: "absolute_normal (fst e)" if "e \<in> set ?ws" for e
      using that assms by (auto intro: resolved_entries_absolute)
    have "(\<exists>n. (m, n) \<in> set (List.map_filter (metadata_child h t) ?ws))
        \<longleftrightarrow> (\<exists>w n. (w, WriteAccess) \<in> set ?ws \<and> metadata_child h t (w, WriteAccess) = Some (m, n))"
      by (auto simp: in_map_filter can_write_def)
    also have "\<dots> \<longleftrightarrow> (\<exists>w n. (w, WriteAccess) \<in> set ?ws \<and> (\<exists>rest. t = w @ Normal n # rest)
        \<and> n \<in> set PROTECTED_METADATA_PATH_NAMES \<and> m = w @ [Normal n])"
      using abs metadata_child_Some by (metis fst_conv)
    also have "\<dots> \<longleftrightarrow> in_metadata_of (entries_of h fs cwd) t m"
      by (auto simp: in_metadata_of_def can_write_def path_starts_with_iff)
    finally show ?thesis .
  qed
  show thesis
  proof (cases "List.map_filter (metadata_child h t) ?ws")
    case Nil
    then show thesis using iff by (intro none) (auto simp: metadata_child_of_writable_root_def)
  next
    case (Cons x xs)
    then have "(fst x, snd x) \<in> set (List.map_filter (metadata_child h t) ?ws)" by simp
    then have "in_metadata_of (entries_of h fs cwd) t (fst x)" using iff [of "fst x"] by blast
    then show thesis using Cons by (intro some [of "fst x" "snd x"]) (simp_all add: metadata_child_of_writable_root_def)
  qed
qed

lemma explicit_write_entry_iff:
  "has_explicit_write_entry_for_metadata_path h fs m t cwd \<longleftrightarrow>
     (\<exists>q. (q, WriteAccess) \<in> entries_of h fs cwd \<and> path_starts_with t q \<and> path_starts_with q m)"
  by (force simp: has_explicit_write_entry_for_metadata_path_def list_ex_iff can_write_def)

lemma metadata_write_needs_entry:
  assumes ok: "host_ok h" "policy_ok fs" and kind: "fs_kind fs = RestrictedKind" and full: "\<not> has_full_disk_write_access fs"
    and t: "resolve_candidate_path h p cwd = Some t" and w: "can_write_path_with_cwd h fs p cwd"
    and m: "in_metadata_of (entries_of h fs cwd) t m"
  shows "\<exists>m' q. in_metadata_of (entries_of h fs cwd) t m' \<and> (q, WriteAccess) \<in> entries_of h fs cwd
    \<and> path_starts_with t q \<and> path_starts_with q m'"
  using ok
proof (cases rule: metadata_child_of_writable_root_cases [of h fs t cwd])
  case none
  then show ?thesis using m by blast
next
  case (some m' n)
  then have "has_explicit_write_entry_for_metadata_path h fs m' t cwd"
    using w full kind t by (auto simp: can_write_path_with_cwd_def is_metadata_write_denied_def split: if_splits)
  then show ?thesis using some(2) by (auto simp: explicit_write_entry_iff)
qed


definition nested_entries :: "fs_entry list" where
  "nested_entries = [(FsPath (components (rs ''/w'')), WriteAccess), (FsPath (components (rs ''/w/.codex/x'')), WriteAccess)]"


text \<open>
  Only the first metadata directory is looked at, so that the order of the entries
  decides about a repository inside a nested writable root.
\<close>

lemma metadata_protection_depends_on_order:
  "can_write_path_with_cwd bare_host (restricted nested_entries) (components (rs ''/w/.codex/x/.git/config'')) [RootDir]
   \<and> \<not> can_write_path_with_cwd bare_host (restricted (rev nested_entries)) (components (rs ''/w/.codex/x/.git/config'')) [RootDir]"
  by code_simp

end
