(* ===== verification/Fs_Change_Facts.thy ===== *)
theory Fs_Change_Facts
  imports Fs_Policy_Facts
begin

text \<open>
  Changing a file system policy: deny entries that are carried over only narrow it,
  additional writable roots only widen it and become writable unless denied, the
  legacy policies survive the translation to entries and back, and denied entries
  are seen by the matcher of denied reads.
\<close>

section \<open>Deny entries\<close>

text \<open>The entries of one policy, followed by denials.\<close>

definition narrowed :: "fs_policy \<Rightarrow> fs_policy \<Rightarrow> bool" where
  "narrowed fs fs' \<longleftrightarrow> fs_kind fs' = fs_kind fs
     \<and> (\<exists>ds. fs_entries fs' = fs_entries fs @ ds \<and> list_all (\<lambda>d. snd d = DenyAccess) ds)"

lemma push_deny_appends:
  "\<exists>ds. foldl (\<lambda>es d. if list_ex (\<lambda>e. e = d) es then es else es @ [d]) entries xs = entries @ ds \<and> set ds \<subseteq> set xs"
proof (induction xs arbitrary: entries)
  case (Cons x xs)
  show ?case
  proof (cases "list_ex (\<lambda>e. e = x) entries")
    case True
    then show ?thesis using Cons.IH [of entries] by auto
  next
    case False
    then show ?thesis using Cons.IH [of "entries @ [x]"] by auto
  qed
qed simp

lemma push_deny_contains:
  "set (foldl (\<lambda>es d. if list_ex (\<lambda>e. e = d) es then es else es @ [d]) entries xs) = set entries \<union> set xs"
  by (induction xs arbitrary: entries) (auto simp: list_ex_iff)

lemma push_deny_entries_narrows:
  "\<exists>ds. push_deny_entries existing entries = entries @ ds \<and> list_all (\<lambda>d. snd d = DenyAccess) ds"
  using push_deny_appends [of entries "filter (\<lambda>e. snd e = DenyAccess) existing"]
  by (fastforce simp: push_deny_entries_def list_all_iff)

lemma push_deny_entries_set:
  "set (push_deny_entries existing entries) = set entries \<union> {e \<in> set existing. snd e = DenyAccess}"
  unfolding push_deny_entries_def push_deny_contains by auto

lemma governs_subset: "governs es' t e \<Longrightarrow> es \<subseteq> es' \<Longrightarrow> e \<in> es \<Longrightarrow> governs es t e"
  by (auto simp: governs_def)

lemma resolved_entries_append:
  "fs_entries fs' = fs_entries fs @ ds \<Longrightarrow>
     resolved_entries_with_cwd h fs' cwd
       = resolved_entries_with_cwd h fs cwd @ resolved_entries_with_cwd h (fs\<lparr>fs_entries := ds\<rparr>) cwd"
  by (simp add: resolved_entries_with_cwd_def Let_def List.map_filter_def)

lemma narrowed_resolved:
  assumes "narrowed fs fs'"
  obtains rs where "resolved_entries_with_cwd h fs' cwd = resolved_entries_with_cwd h fs cwd @ rs"
    "list_all (\<lambda>e. snd e = DenyAccess) rs"
proof -
  from assms obtain ds where ds: "fs_entries fs' = fs_entries fs @ ds" "list_all (\<lambda>d. snd d = DenyAccess) ds"
    by (auto simp: narrowed_def)
  have "snd e = DenyAccess" if "e \<in> entries_of h (fs\<lparr>fs_entries := ds\<rparr>) cwd" for e
    using that ds(2) by (cases e rule: prod.exhaust) (auto simp: resolved_entries_iff list_all_iff)
  then show thesis using that [OF resolved_entries_append [OF ds(1)]] by (simp add: list_all_iff)
qed

lemma narrowed_access:
  assumes n: "narrowed fs fs'" and a: "resolve_access_with_cwd h fs' p cwd \<noteq> DenyAccess"
  shows "resolve_access_with_cwd h fs p cwd = resolve_access_with_cwd h fs' p cwd"
proof (cases "fs_kind fs = RestrictedKind")
  case True
  then have kind: "fs_kind fs' = RestrictedKind" using n by (simp add: narrowed_def)
  obtain t where t: "resolve_candidate_path h p cwd = Some t"
    using a kind by (auto simp: resolve_access_with_cwd_def split: option.splits)
  obtain rs where rs: "resolved_entries_with_cwd h fs' cwd = resolved_entries_with_cwd h fs cwd @ rs"
    "list_all (\<lambda>e. snd e = DenyAccess) rs" using n by (rule narrowed_resolved)
  from kind t show ?thesis
  proof (cases rule: access_cases)
    case (entry q b)
    then have "(q, b) \<in> entries_of h fs cwd" using a rs by (auto simp: governs_def list_all_iff)
    then have "governs (entries_of h fs cwd) t (q, b)" using entry(1) rs(1) by (auto intro: governs_subset)
    then have "resolve_access_with_cwd h fs p cwd = b" using resolve_access_iff [OF True t, where a = b] by blast
    then show ?thesis using entry(2) by simp
  qed (use a in simp)
next
  case False
  then show ?thesis using n by (simp add: resolve_access_with_cwd_def narrowed_def)
qed

lemma narrowed_full_write:
  assumes n: "narrowed fs fs'" and full: "has_full_disk_write_access fs'"
  shows "has_full_disk_write_access fs"
proof (cases "fs_kind fs = RestrictedKind")
  case True
  from n obtain ds where ds: "fs_entries fs' = fs_entries fs @ ds" "list_all (\<lambda>d. snd d = DenyAccess) ds"
    and kind: "fs_kind fs' = fs_kind fs" by (auto simp: narrowed_def)
  have "\<not> list_ex (\<lambda>(p, access). can_write access \<and> access > snd e \<and> file_system_paths_share_target p (fst e)) ds" for e
    using ds(2) by (auto simp: list_ex_iff list_all_iff can_write_def)
  then have "has_same_target_write_override fs' e = has_same_target_write_override fs e" for e
    by (simp add: has_same_target_write_override_def ds(1))
  then have "narrows_write fs' e = narrows_write fs e" for e
    by (simp add: narrows_write_def split: file_system_path.split file_system_special_path.split)
  moreover have "\<not> list_ex (\<lambda>(p, access). p = FsSpecial SpecialRoot \<and> can_write access) ds"
    using ds(2) by (auto simp: list_ex_iff list_all_iff can_write_def)
  ultimately show ?thesis
    using full True kind
    by (simp add: has_full_disk_write_access_def has_root_access_def has_write_narrowing_entries_def ds(1) list_ex_iff) blast
qed (simp add: has_full_disk_write_access_def)

lemma narrowed_metadata:
  assumes "narrowed fs fs'"
  shows "is_metadata_write_denied h fs' p cwd = is_metadata_write_denied h fs p cwd"
proof -
  obtain rs where rs: "resolved_entries_with_cwd h fs' cwd = resolved_entries_with_cwd h fs cwd @ rs"
    "list_all (\<lambda>e. snd e = DenyAccess) rs" using assms by (rule narrowed_resolved)
  have "filter (\<lambda>e. can_write (snd e)) rs = []" using rs(2) by (auto simp: filter_empty_conv list_all_iff can_write_def)
  then have "metadata_child_of_writable_root h fs' t cwd = metadata_child_of_writable_root h fs t cwd" for t
    by (simp add: metadata_child_of_writable_root_def rs(1))
  moreover have "has_explicit_write_entry_for_metadata_path h fs' m t cwd
      = has_explicit_write_entry_for_metadata_path h fs m t cwd" for m t
    using rs by (auto simp: explicit_write_entry_iff list_all_iff)
  ultimately show ?thesis using assms by (simp add: is_metadata_write_denied_def narrowed_def split: option.split)
qed

lemma narrowed_only_narrows:
  assumes "narrowed fs fs'"
  shows "can_read_path_with_cwd h fs' p cwd \<Longrightarrow> can_read_path_with_cwd h fs p cwd"
    and "can_write_path_with_cwd h fs' p cwd \<Longrightarrow> can_write_path_with_cwd h fs p cwd"
  using narrowed_access [OF assms, of h p cwd] narrowed_full_write [OF assms] narrowed_metadata [OF assms]
  by (auto simp: can_read_path_with_cwd_def can_write_path_with_cwd_def can_read_def can_write_def split: if_splits)

lemma preserve_deny_cases:
  obtains (kept) "narrowed fs (preserve_deny_read_restrictions_from fs existing)"
  | (widest) "fs_kind fs = UnrestrictedKind"
proof (cases "fs_kind fs = RestrictedKind")
  case True
  then show thesis
    using push_deny_entries_narrows [of "fs_entries existing" "fs_entries fs"]
    by (intro kept) (auto simp: narrowed_def preserve_deny_read_restrictions_from_def Let_def)
next
  case False
  then show thesis
    by (cases "fs_kind fs") (auto simp: narrowed_def preserve_deny_read_restrictions_from_def Let_def intro: kept widest)
qed


definition deny_policy :: fs_policy where
  "deny_policy = restricted [(FsPath (components (rs ''/w/secret'')), DenyAccess)]"


section \<open>Additional writable roots\<close>

definition grant :: "fs_policy \<Rightarrow> path \<Rightarrow> fs_policy" where
  "grant fs r = fs\<lparr>fs_entries := fs_entries fs @ [(FsPath r, WriteAccess)]\<rparr>"

lemma grant_kind [simp]: "fs_kind (grant fs r) = fs_kind fs"
  by (simp add: grant_def)

lemma grant_policy_ok: "policy_ok fs \<Longrightarrow> absolute_normal r \<Longrightarrow> policy_ok (grant fs r)"
  by (simp add: grant_def policy_ok_def)

lemma grant_entries: "entries_of h (grant fs r) cwd = insert (r, WriteAccess) (entries_of h fs cwd)"
proof (rule set_eqI)
  have path: "resolve_entry_path h (FsPath r) c = Some r" for c
    by (simp add: resolve_entry_path_def resolve_file_system_path_def)
  fix e :: "path \<times> file_system_access_mode"
  obtain q a where e: "e = (q, a)" by fastforce
  show "e \<in> entries_of h (grant fs r) cwd \<longleftrightarrow> e \<in> insert (r, WriteAccess) (entries_of h fs cwd)"
    unfolding e insert_iff resolved_entries_iff using path by (auto simp: grant_def)
qed

lemma grant_access:
  "resolve_access_with_cwd h (grant fs r) p cwd \<in> {resolve_access_with_cwd h fs p cwd, WriteAccess}"
proof (cases "fs_kind fs = RestrictedKind \<and> resolve_candidate_path h p cwd \<noteq> None")
  case True
  then obtain t where kind: "fs_kind fs = RestrictedKind" and t: "resolve_candidate_path h p cwd = Some t" by auto
  have "fs_kind (grant fs r) = RestrictedKind" using kind by simp
  from this t show ?thesis
  proof (cases rule: access_cases)
    case (entry q a)
    show ?thesis
    proof (cases "(q, a) \<in> entries_of h fs cwd")
      case True
      have "governs (entries_of h fs cwd) t (q, a)"
        by (rule governs_subset [OF entry(1) _ True]) (simp add: grant_entries subset_insertI)
      then have "resolve_access_with_cwd h fs p cwd = a" using resolve_access_iff [OF kind t, where a = a] by blast
      then show ?thesis using entry(2) by simp
    next
      case False
      then have "a = WriteAccess" using entry(1) unfolding grant_entries governs_def by blast
      then show ?thesis using entry(2) by simp
    qed
  next
    case none
    then have "\<forall>e\<in>entries_of h fs cwd. \<not> path_starts_with t (fst e)" unfolding grant_entries by blast
    then have "resolve_access_with_cwd h fs p cwd = DenyAccess" using resolve_access_iff [OF kind t, where a = DenyAccess] by blast
    then show ?thesis using none(2) by simp
  qed
next
  case False
  then show ?thesis by (auto simp: resolve_access_with_cwd_def)
qed

lemma governs_own_path:
  assumes "(r, a) \<in> es" "\<And>b. (r, b) \<in> es \<Longrightarrow> b \<le> a" shows "governs es r (r, a)"
  using assms by (auto simp: governs_def)

lemma denied_root:
  assumes "fs_kind fs = RestrictedKind" "absolute_normal r" "(r, DenyAccess) \<in> entries_of h fs cwd"
  shows "\<not> can_write_path_with_cwd h fs r cwd"
proof -
  have "governs (entries_of h fs cwd) r (r, DenyAccess)" using assms(3) by (rule governs_own_path) simp
  then have "resolve_access_with_cwd h fs r cwd = DenyAccess" 
    using resolve_access_iff [OF assms(1) resolve_candidate_normal [OF assms(2)], where a = DenyAccess] by blast
  then show ?thesis by (simp add: can_write_path_with_cwd_def can_write_def)
qed

lemma grant_full_write:
  assumes "has_full_disk_write_access fs" shows "has_full_disk_write_access (grant fs r)"
proof (cases "fs_kind fs = RestrictedKind")
  case True
  have over: "has_same_target_write_override (grant fs r) e" if "has_same_target_write_override fs e" for e
    using that by (simp add: has_same_target_write_override_def grant_def)
  have "narrows_write fs e" if "narrows_write (grant fs r) e" for e
    using that over [of e] by (auto simp: narrows_write_def
        split: file_system_path.splits file_system_special_path.splits if_splits)
  moreover have "\<not> narrows_write (grant fs r) (FsPath r, WriteAccess)" by (simp add: narrows_write_def can_write_def)
  ultimately show ?thesis
    using assms True
    by (auto simp: has_full_disk_write_access_def has_root_access_def has_write_narrowing_entries_def list_ex_iff grant_def)
qed (simp add: has_full_disk_write_access_def)

lemma grant_resolved: "resolved_entries_with_cwd h (grant fs r) cwd = resolved_entries_with_cwd h fs cwd @ [(r, WriteAccess)]"
proof -
  have "fs_entries (grant fs r) = fs_entries fs @ [(FsPath r, WriteAccess)]" by (simp add: grant_def)
  moreover have "resolved_entries_with_cwd h (fs\<lparr>fs_entries := [(FsPath r, WriteAccess)]\<rparr>) cwd = [(r, WriteAccess)]"
    by (simp add: resolved_entries_with_cwd_def Let_def List.map_filter_simps resolve_entry_path_def resolve_file_system_path_def)
  ultimately show ?thesis using resolved_entries_append by metis
qed

lemma grant_metadata_child:
  "metadata_child_of_writable_root h (grant fs r) t cwd =
     (case metadata_child_of_writable_root h fs t cwd of Some x \<Rightarrow> Some x | None \<Rightarrow> metadata_child h t (r, WriteAccess))"
proof -
  have app: "List.map_filter f (xs @ ys) = List.map_filter f xs @ List.map_filter f ys" for f :: "'x \<Rightarrow> 'y option" and xs ys
    by (simp add: List.map_filter_def)
  show ?thesis
    by (auto simp: metadata_child_of_writable_root_def grant_resolved app List.map_filter_simps can_write_def
        split: list.split option.split)
qed

lemma governs_shorter:
  assumes "governs es t (q, a)" "path_starts_with t r" "path_starts_with r q"
  shows "governs es r (q, a)"
  using assms unfolding governs_def by (auto intro: path_starts_with_trans)

lemma no_metadata_iff:
  assumes "host_ok h" "policy_ok fs"
  shows "metadata_child_of_writable_root h fs t cwd = None \<longleftrightarrow> (\<forall>m. \<not> in_metadata_of (entries_of h fs cwd) t m)"
  using metadata_child_of_writable_root_cases [OF assms, of t cwd] by (metis option.distinct(1))

lemma no_metadata:
  assumes "host_ok h" "policy_ok fs" "metadata_child_of_writable_root h fs t cwd = None" "path_starts_with t r"
  shows "metadata_child_of_writable_root h fs r cwd = None"
  using assms(3,4) unfolding no_metadata_iff [OF assms(1,2)] in_metadata_of_def by (blast intro: path_starts_with_trans)

lemma grant_write:
  assumes ok: "host_ok h" "policy_ok fs" "absolute_normal r" and kind: "fs_kind fs = RestrictedKind"
    and t: "resolve_candidate_path h p cwd = Some t"
    and not_yet: "\<not> can_write_path_with_cwd h fs r cwd" and w: "can_write_path_with_cwd h fs p cwd"
  shows "can_write_path_with_cwd h (grant fs r) p cwd"
proof -
  let ?child = "metadata_child_of_writable_root h fs t cwd"
  have acc: "resolve_access_with_cwd h fs p cwd = WriteAccess"
    using w by (simp add: can_write_path_with_cwd_def can_write_def split: if_splits)
  have acc': "resolve_access_with_cwd h (grant fs r) p cwd = WriteAccess" using grant_access [of h fs r p cwd] acc by auto
  have explicit: "has_explicit_write_entry_for_metadata_path h fs m t cwd \<Longrightarrow>
      has_explicit_write_entry_for_metadata_path h (grant fs r) m t cwd" for m
    by (auto simp: explicit_write_entry_iff grant_entries)
  obtain q where q: "governs (entries_of h fs cwd) t (q, WriteAccess)"
    using resolve_access_iff [OF kind t, of WriteAccess] acc by blast
  have "\<not> is_metadata_write_denied h (grant fs r) p cwd" if full: "\<not> has_full_disk_write_access fs"
  proof (cases "?child")
    case (Some mn)
    then have "has_explicit_write_entry_for_metadata_path h fs (fst mn) t cwd"
      using w full kind t by (cases mn) (simp add: can_write_path_with_cwd_def is_metadata_write_denied_def split: if_splits)
    then show ?thesis using explicit Some t by (cases mn) (simp add: is_metadata_write_denied_def grant_metadata_child)
  next
    case None
    show ?thesis
    proof (cases "metadata_child h t (r, WriteAccess)")
      case new: (Some mn)
      then obtain n rest where n: "t = r @ Normal n # rest" "fst mn = r @ [Normal n]"
        using metadata_child_Some [OF ok(3), of h t WriteAccess "fst mn" "snd mn"] by auto
      then have tr: "path_starts_with t r" "path_starts_with t (fst mn)" by (auto simp: path_starts_with_iff)
      have tq: "path_starts_with t q" "(q, WriteAccess) \<in> entries_of h fs cwd" using q by (auto simp: governs_def)
      have "length r < length q"
      proof (rule ccontr)
        assume "\<not> length r < length q"
        then have "path_starts_with r q" using path_starts_with_linear [OF tq(1) tr(1)] by simp
        then have "governs (entries_of h fs cwd) r (q, WriteAccess)" using governs_shorter [OF q tr(1)] by blast
        then have "resolve_access_with_cwd h fs r cwd = WriteAccess"
          using resolve_access_iff [OF kind resolve_candidate_normal [OF ok(3)], where a = WriteAccess] by blast
        moreover have "metadata_child_of_writable_root h fs r cwd = None" using no_metadata [OF ok(1,2) None tr(1)] .
        ultimately show False
          using not_yet ok(3) by (simp add: can_write_path_with_cwd_def can_write_def is_metadata_write_denied_def split: if_splits)
      qed
      then have "path_starts_with q (fst mn)" using path_starts_with_linear [OF tr(2) tq(1)] n(2) by simp
      then have "has_explicit_write_entry_for_metadata_path h fs (fst mn) t cwd"
        using tq by (auto simp: explicit_write_entry_iff)
      then show ?thesis using explicit None new t by (cases mn) (simp add: is_metadata_write_denied_def grant_metadata_child)
    qed (use None t in \<open>simp add: is_metadata_write_denied_def grant_metadata_child\<close>)
  qed
  then show ?thesis using acc' grant_full_write [of fs r] by (auto simp: can_write_path_with_cwd_def can_write_def)
qed

lemma grant_root:
  assumes ok: "host_ok h" "policy_ok fs" "absolute_normal r" and deny: "(r, DenyAccess) \<notin> entries_of h fs cwd"
  shows "can_write_path_with_cwd h (grant fs r) r cwd"
proof (cases "fs_kind fs = RestrictedKind")
  case True
  have "b \<le> WriteAccess" if "(r, b) \<in> entries_of h (grant fs r) cwd" for b
    using that deny by (cases b) (auto simp: grant_entries)
  then have "governs (entries_of h (grant fs r) cwd) r (r, WriteAccess)"
    by (intro governs_own_path) (auto simp: grant_entries)
  moreover have kind: "fs_kind (grant fs r) = RestrictedKind" using True by simp
  ultimately have acc: "resolve_access_with_cwd h (grant fs r) r cwd = WriteAccess"
    using resolve_access_iff [OF kind resolve_candidate_normal [OF ok(3)], where a = WriteAccess] by blast
  have ok': "policy_ok (grant fs r)" using ok by (simp add: grant_policy_ok)
  have "\<not> is_metadata_write_denied h (grant fs r) r cwd"
    using ok(1) ok'
  proof (cases rule: metadata_child_of_writable_root_cases [of h "grant fs r" r cwd])
    case (some m n)
    then have "has_explicit_write_entry_for_metadata_path h (grant fs r) m r cwd"
      by (auto simp: explicit_write_entry_iff grant_entries in_metadata_of_def)
    then show ?thesis using some(1) ok(3) by (simp add: is_metadata_write_denied_def)
  qed (use ok(3) in \<open>simp add: is_metadata_write_denied_def\<close>)
  then show ?thesis using acc by (simp add: can_write_path_with_cwd_def can_write_def)
qed (simp add: can_write_path_with_cwd_def resolve_access_with_cwd_def can_write_def has_full_disk_write_access_def)

text \<open>What one step of the loop keeps; \<open>widened\<close> also covers the roots that are skipped.\<close>

definition widened :: "fs_host \<Rightarrow> path \<Rightarrow> fs_policy \<Rightarrow> fs_policy \<Rightarrow> bool" where
  "widened h cwd fs fs' \<longleftrightarrow> fs_kind fs' = fs_kind fs \<and> policy_ok fs'
     \<and> (\<forall>q. (q, DenyAccess) \<in> entries_of h fs' cwd \<longleftrightarrow> (q, DenyAccess) \<in> entries_of h fs cwd)
     \<and> (\<forall>p. can_read_path_with_cwd h fs p cwd \<longrightarrow> can_read_path_with_cwd h fs' p cwd)
     \<and> (\<forall>p. can_write_path_with_cwd h fs p cwd \<longrightarrow> can_write_path_with_cwd h fs' p cwd)"

lemma widened_refl: "policy_ok fs \<Longrightarrow> widened h cwd fs fs"
  by (simp add: widened_def)

lemma widened_trans: "widened h cwd fs fs' \<Longrightarrow> widened h cwd fs' fs'' \<Longrightarrow> widened h cwd fs fs''"
  by (simp add: widened_def)

lemma unrestricted_writes: "fs_kind fs \<noteq> RestrictedKind \<Longrightarrow> can_write_path_with_cwd h fs p cwd"
  by (simp add: can_write_path_with_cwd_def resolve_access_with_cwd_def can_write_def has_full_disk_write_access_def)

lemma add_writable_root_step:
  assumes "host_ok h" "policy_ok fs" "absolute_normal r"
  shows "widened h cwd fs (add_writable_root h cwd fs r)
    \<and> ((r, DenyAccess) \<notin> entries_of h fs cwd \<longrightarrow> can_write_path_with_cwd h (add_writable_root h cwd fs r) r cwd)"
proof (cases "can_write_path_with_cwd h fs r cwd")
  case True
  then show ?thesis using assms(2) by (simp add: add_writable_root_def widened_refl)
next
  case False
  then have kind: "fs_kind fs = RestrictedKind" using unrestricted_writes by blast
  have add: "add_writable_root h cwd fs r = grant fs r" using False by (simp add: add_writable_root_def grant_def)
  have "can_write_path_with_cwd h (grant fs r) p cwd" if w: "can_write_path_with_cwd h fs p cwd" for p
  proof -
    have "resolve_candidate_path h p cwd \<noteq> None"
      using w kind by (auto simp: can_write_path_with_cwd_def resolve_access_with_cwd_def can_write_def split: if_splits option.splits)
    then show ?thesis using grant_write [OF assms kind _ False w] by blast
  qed
  moreover have "can_read_path_with_cwd h (grant fs r) p cwd" if "can_read_path_with_cwd h fs p cwd" for p
    using that grant_access [of h fs r p cwd] by (auto simp: can_read_path_with_cwd_def can_read_def)
  ultimately show ?thesis
    using assms grant_root [OF assms] by (auto simp: add widened_def grant_policy_ok grant_entries)
qed

lemma add_writable_roots:
  assumes "host_ok h" "policy_ok fs" "list_all absolute_normal roots"
  shows "widened h cwd fs (foldl (add_writable_root h cwd) fs roots)
    \<and> (\<forall>r\<in>set roots. (r, DenyAccess) \<notin> entries_of h fs cwd \<longrightarrow>
          can_write_path_with_cwd h (foldl (add_writable_root h cwd) fs roots) r cwd)"
  using assms(2,3)
proof (induction roots arbitrary: fs)
  case Nil
  then show ?case by (simp add: widened_refl)
next
  case (Cons r roots)
  let ?fs = "add_writable_root h cwd fs r"
  have step: "widened h cwd fs ?fs" "(r, DenyAccess) \<notin> entries_of h fs cwd \<longrightarrow> can_write_path_with_cwd h ?fs r cwd"
    using add_writable_root_step [OF assms(1) Cons.prems(1), of r cwd] Cons.prems(2) by simp_all
  have rest: "widened h cwd ?fs (foldl (add_writable_root h cwd) ?fs roots)"
    "\<forall>r\<in>set roots. (r, DenyAccess) \<notin> entries_of h ?fs cwd \<longrightarrow>
       can_write_path_with_cwd h (foldl (add_writable_root h cwd) ?fs roots) r cwd"
    using Cons.IH [of ?fs] step(1) Cons.prems(2) by (simp_all add: widened_def)
  show ?case
    using step rest widened_trans [OF step(1) rest(1)] by (simp add: widened_def)
qed

text \<open>
  C17: Adding writable roots to a policy never takes access from any path, and
  afterwards each of these roots can be written exactly when no entry denies that path itself.
\<close>

theorem additional_writable_roots:
  assumes "host_ok h" "policy_ok fs" "list_all absolute_normal roots" "r \<in> set roots"
  shows "(can_read_path_with_cwd h fs p cwd \<longrightarrow> can_read_path_with_cwd h (with_additional_writable_roots h fs cwd roots) p cwd)
    \<and> (can_write_path_with_cwd h fs p cwd \<longrightarrow> can_write_path_with_cwd h (with_additional_writable_roots h fs cwd roots) p cwd)
    \<and> (can_write_path_with_cwd h (with_additional_writable_roots h fs cwd roots) r cwd
        \<longleftrightarrow> fs_kind fs \<noteq> RestrictedKind \<or> (r, DenyAccess) \<notin> entries_of h fs cwd)"
proof -
  let ?fs = "with_additional_writable_roots h fs cwd roots"
  have wide: "widened h cwd fs ?fs" "(r, DenyAccess) \<notin> entries_of h fs cwd \<Longrightarrow> can_write_path_with_cwd h ?fs r cwd"
    using add_writable_roots [OF assms(1-3), of cwd] assms(4) by (simp_all add: with_additional_writable_roots_def)
  have "absolute_normal r" using assms(3,4) by (simp add: list_all_iff)
  then have "\<not> can_write_path_with_cwd h ?fs r cwd"
    if "fs_kind fs = RestrictedKind" "(r, DenyAccess) \<in> entries_of h fs cwd"
    using denied_root [of ?fs r h cwd] wide(1) that by (simp add: widened_def)
  moreover have "can_write_path_with_cwd h ?fs r cwd" if "fs_kind fs \<noteq> RestrictedKind"
    using that wide(1) unrestricted_writes [of ?fs] by (simp add: widened_def)
  ultimately show ?thesis using wide by (auto simp: widened_def)
qed

theorem additional_writable_roots_witness:
  "\<not> can_write_path_with_cwd bare_host
        (with_additional_writable_roots bare_host deny_policy [RootDir] [components (rs ''/w''), components (rs ''/w/secret'')])
        (components (rs ''/w/secret'')) [RootDir]"
proof -
  have "host_ok bare_host" by (simp add: host_ok_def bare_host_def)
  moreover have "policy_ok deny_policy" "list_all absolute_normal [components (rs ''/w''), components (rs ''/w/secret'')]"
    by code_simp+
  moreover have "components (rs ''/w/secret'') \<in> set [components (rs ''/w''), components (rs ''/w/secret'')]" by simp
  ultimately have "can_write_path_with_cwd bare_host
        (with_additional_writable_roots bare_host deny_policy [RootDir] [components (rs ''/w''), components (rs ''/w/secret'')])
        (components (rs ''/w/secret'')) [RootDir]
      \<longleftrightarrow> fs_kind deny_policy \<noteq> RestrictedKind \<or> (components (rs ''/w/secret''), DenyAccess) \<notin> entries_of bare_host deny_policy [RootDir]"
    by (rule additional_writable_roots [where p = "[RootDir]", THEN conjunct2, THEN conjunct2])
  moreover have "fs_kind deny_policy = RestrictedKind"
    "(components (rs ''/w/secret''), DenyAccess) \<in> entries_of bare_host deny_policy [RootDir]" by code_simp+
  ultimately show ?thesis by blast
qed

section \<open>Legacy policies\<close>

lemma append_default_entries:
  "\<exists>ds. append_default_read_only_entry_if_no_explicit_rule entries p = entries @ ds \<and> list_all (\<lambda>d. snd d = ReadAccess) ds"
  by (simp add: append_default_read_only_entry_if_no_explicit_rule_def)

text \<open>The read-only entries that are appended to a list.\<close>

definition only_reads_added :: "fs_entry list \<Rightarrow> fs_entry list \<Rightarrow> bool" where
  "only_reads_added es es' \<longleftrightarrow> (\<exists>ds. es' = es @ ds \<and> list_all (\<lambda>d. snd d = ReadAccess) ds)"

lemma only_reads_added_refl: "only_reads_added es es"
  by (simp add: only_reads_added_def)

lemma only_reads_added_trans: "only_reads_added es es' \<Longrightarrow> only_reads_added es' es'' \<Longrightarrow> only_reads_added es es''"
  unfolding only_reads_added_def by (metis append.assoc list_all_append)

lemma only_reads_added_foldl:
  "(\<And>es x. only_reads_added es (f es x)) \<Longrightarrow> only_reads_added es (foldl f es xs)"
  by (induction xs arbitrary: es) (auto intro: only_reads_added_refl only_reads_added_trans)

lemma only_reads_added_fold:
  "(\<And>es x. only_reads_added es (f x es)) \<Longrightarrow> only_reads_added es (fold f xs es)"
  by (induction xs arbitrary: es) (auto intro: only_reads_added_refl only_reads_added_trans)

lemma append_default_path_reads: "only_reads_added es (append_default_read_only_path_if_no_explicit_rule es p)"
  unfolding append_default_read_only_path_if_no_explicit_rule_def only_reads_added_def by (rule append_default_entries)

lemma append_default_project_reads:
  "only_reads_added es (append_default_read_only_project_root_subpath_if_no_explicit_rule es s)"
  unfolding append_default_read_only_project_root_subpath_if_no_explicit_rule_def only_reads_added_def
  by (rule append_default_entries)

lemma append_protected_reads: "only_reads_added es (append_protected_paths h b r es)"
  unfolding append_protected_paths_def by (intro only_reads_added_foldl append_default_path_reads)

lemma append_protected_roots_reads: "only_reads_added es (append_protected_roots h roots es)"
  unfolding append_protected_roots_def by (intro only_reads_added_fold append_protected_reads)

lemma append_cwd_protected_reads: "only_reads_added es (append_cwd_protected h cwd es)"
  by (simp add: append_cwd_protected_def append_protected_reads only_reads_added_refl split: option.split)

lemma legacy_workspace_entries:
  "only_reads_added (workspace_entries roots et es)
     (fs_entries (from_legacy_sandbox_policy_for_cwd h (WorkspaceWrite roots net et es) cwd))"
proof -
  have "only_reads_added (workspace_entries roots et es)
      (foldl append_default_read_only_project_root_subpath_if_no_explicit_rule (workspace_entries roots et es)
         [rs ''.git'', rs ''.agents'', rs ''.codex''])"
    by (rule only_reads_added_foldl [OF append_default_project_reads])
  then show ?thesis
    by (simp add: from_legacy_sandbox_policy_for_cwd_def policy_of_def workspace_write_def restricted_def Let_def)
       (meson only_reads_added_trans append_protected_roots_reads append_cwd_protected_reads)
qed

lemma legacy_scan_reads: "list_all (\<lambda>d. snd d = ReadAccess) ds \<Longrightarrow> fold (legacy_scan_entry h c) ds s = s"
  by (induction ds)
     (auto simp: legacy_scan_entry_def can_write_def split: file_system_path.split file_system_special_path.split option.split)

lemma legacy_scan_roots:
  "fold (legacy_scan_entry h c) (map (\<lambda>p. (FsPath p, WriteAccess)) roots) s =
     s\<lparr>workspace_root_writable := workspace_root_writable s \<or> c \<in> Some ` set roots,
       scan_writable_roots := scan_writable_roots s @ filter (\<lambda>r. c \<noteq> Some r) roots\<rparr>"
  by (induction roots arbitrary: s) (auto simp: legacy_scan_entry_def can_write_def)

text \<open>
  C20: A legacy policy that is turned into entries for a working directory and back is
  the same policy, except that the working directory and repetitions are left out of
  the list of writable roots, where the legacy policy implies them.
\<close>

theorem legacy_policy_roundtrip:
  "to_legacy_sandbox_policy h (from_legacy_sandbox_policy_for_cwd h sp cwd) (network_policy_of sp) cwd =
     Some (case sp of
             WorkspaceWrite roots net et es \<Rightarrow>
               WorkspaceWrite (dedup_absolute_paths h (filter (\<lambda>r. abs_path h cwd \<noteq> Some r) roots) False) net et es
           | _ \<Rightarrow> sp)"
proof (cases sp)
  case (WorkspaceWrite roots net et es)
  let ?fs = "from_legacy_sandbox_policy_for_cwd h sp cwd"
  from legacy_workspace_entries [of roots et es h net cwd] obtain ds
    where entries: "fs_entries ?fs = workspace_entries roots et es @ ds" and ds: "list_all (\<lambda>d. snd d = ReadAccess) ds"
    by (auto simp: only_reads_added_def WorkspaceWrite)
  have kind: "fs_kind ?fs = RestrictedKind"
    by (simp add: WorkspaceWrite from_legacy_sandbox_policy_for_cwd_def policy_of_def workspace_write_def restricted_def)
  have "\<not> has_root_access ?fs can_write"
    using ds by (auto simp: has_root_access_def entries list_ex_iff list_all_iff can_write_def workspace_entries_def)
  then have full: "\<not> has_full_disk_write_access ?fs" by (simp add: has_full_disk_write_access_def kind)
  have scan: "fold (legacy_scan_entry h (abs_path h cwd)) (fs_entries ?fs)
      \<lparr>workspace_root_writable = False, scan_writable_roots = [], tmpdir_writable = False, slash_tmp_writable = False,
       unbridgeable_root_write = False\<rparr>
    = \<lparr>workspace_root_writable = True, scan_writable_roots = filter (\<lambda>r. abs_path h cwd \<noteq> Some r) roots,
       tmpdir_writable = \<not> et, slash_tmp_writable = \<not> es, unbridgeable_root_write = False\<rparr>"
    by (simp add: entries workspace_entries_def legacy_scan_reads [OF ds] legacy_scan_roots)
       (simp add: legacy_scan_entry_def can_write_def)
  have "network_policy_of sp = NetworkEnabled \<longleftrightarrow> net"
    by (simp add: WorkspaceWrite network_policy_of_def has_full_network_access_def)
  then show ?thesis
    unfolding to_legacy_sandbox_policy_def kind scan using full by (simp add: WorkspaceWrite)
next
  case (ReadOnly net)
  then show ?thesis
    by (simp add: from_legacy_sandbox_policy_for_cwd_def policy_of_def to_legacy_sandbox_policy_def restricted_def
        has_full_disk_write_access_def has_root_access_def can_write_def legacy_scan_entry_def network_policy_of_def
        has_full_network_access_def)
next
  case (ExternalSandbox n)
  then show ?thesis
    by (cases n) (simp_all add: from_legacy_sandbox_policy_for_cwd_def policy_of_def to_legacy_sandbox_policy_def
        fs_external_sandbox_def network_policy_of_def has_full_network_access_def)
next
  case DangerFullAccess
  then show ?thesis
    by (simp add: from_legacy_sandbox_policy_for_cwd_def policy_of_def to_legacy_sandbox_policy_def
        fs_unrestricted_def network_policy_of_def has_full_network_access_def full_access_legacy_def)
qed

section \<open>Denied reads\<close>

lemma build_deny_globs_total:
  "\<exists>matchers. build_deny_globs h FailClosed pats (ms, invalid)
     = Ok (matchers, invalid \<or> list_ex (\<lambda>pat. glob_error h pat \<noteq> None) pats)"
proof (induction pats arbitrary: ms invalid)
  case (Cons pat pats)
  then show ?case using Cons.IH [of ms True] by (cases "glob_error h pat") auto
qed simp

lemma dedup_loop_set: "set (dedup_loop seen ps) = set ps - seen"
  by (induction ps arbitrary: seen) auto

lemma candidates_contain: "absolute_normal p \<Longrightarrow> p \<in> set (normalized_and_canonical_candidates h p)"
  by (auto simp: normalized_and_canonical_candidates_def push_unique_def Let_def split: option.split)

lemma governing_denial_unreadable:
  assumes ok: "host_ok h" "policy_ok fs" and kind: "fs_kind fs = RestrictedKind"
    and g: "governs (entries_of h fs cwd) t (q, DenyAccess)" and root: "q \<noteq> [RootDir]" "abs_path h cwd = Some c"
    and links: "normalize_effective_absolute_path h q = q"
  shows "q \<in> set (get_unreadable_roots_with_cwd h fs cwd)"
proof -
  have mem: "(q, DenyAccess) \<in> entries_of h fs cwd" and tq: "path_starts_with t q" using g by (simp_all add: governs_def)
  have q: "absolute_normal q" using resolved_entries_absolute [OF ok mem] by simp
  have "governs (entries_of h fs cwd) q (q, DenyAccess)" using governs_shorter [OF g tq] by simp
  then have "resolve_access_with_cwd h fs q cwd = DenyAccess"
    using resolve_access_iff [OF kind resolve_candidate_normal [OF q], where a = DenyAccess] by blast
  then have unreadable: "\<not> can_read_path_with_cwd h fs q cwd" by (simp add: can_read_path_with_cwd_def can_read_def)
  have top: "absolute_root_path_for_cwd h c = Some [RootDir]"
    using absolute_root_path_total abs_path_absolute [OF ok(1) root(2)] by blast
  have "q \<in> fst ` {e \<in> entries_of h fs cwd. snd e = DenyAccess \<and> \<not> can_read_path_with_cwd h fs (fst e) cwd
      \<and> Some [RootDir] \<noteq> Some (fst e)}"
    using mem unreadable root(1) by (intro image_eqI [where x = "(q, DenyAccess)"]) auto
  then have "normalize_effective_absolute_path h q \<in> normalize_effective_absolute_path h ` fst `
      {e \<in> entries_of h fs cwd. snd e = DenyAccess \<and> \<not> can_read_path_with_cwd h fs (fst e) cwd \<and> Some [RootDir] \<noteq> Some (fst e)}"
    by (rule imageI)
  then show ?thesis
    by (simp add: get_unreadable_roots_with_cwd_def kind root(2) top dedup_absolute_paths_def dedup_loop_set links image_image)
qed



end
