(* ===== verification/Patch_Safety.thy ===== *)
theory Patch_Safety
  imports Patch_Invocation Fs_Change_Facts
begin

text \<open>
  Whether a patch may be applied without a question (\<^verbatim>\<open>core/src/safety.rs\<close>, with the
  platform sandbox of \<^verbatim>\<open>sandboxing/src/manager.rs\<close>), and what an approved patch can
  touch: the recognised changes, the file system policy and the application of hunks
  put together. \<open>to_abs\<close> stands for \<^verbatim>\<open>PathUri::to_abs_path\<close>.
\<close>

section \<open>The check\<close>

datatype target_os = MacosTarget | LinuxTarget | WindowsTarget | OtherTarget

datatype sandbox_type = NoSandbox | MacosSeatbelt | LinuxSeccomp | WindowsRestrictedToken

datatype windows_sandbox_level = LevelDisabled | LevelRestrictedToken | LevelElevated

definition get_platform_sandbox :: "target_os \<Rightarrow> bool \<Rightarrow> sandbox_type option" where
  "get_platform_sandbox os windows_sandbox_enabled =
     (case os of
        MacosTarget \<Rightarrow> Some MacosSeatbelt
      | LinuxTarget \<Rightarrow> Some LinuxSeccomp
      | WindowsTarget \<Rightarrow> if windows_sandbox_enabled then Some WindowsRestrictedToken else None
      | OtherTarget \<Rightarrow> None)"

datatype safety_check = AutoApprove sandbox_type bool | AskUser | RejectPatch rstr

definition PATCH_REJECTED_OUTSIDE_PROJECT_REASON :: rstr where
  "PATCH_REJECTED_OUTSIDE_PROJECT_REASON = rs ''writing outside of the project; rejected by user approval settings''"

definition PATCH_REJECTED_READ_ONLY_REASON :: rstr where
  "PATCH_REJECTED_READ_ONLY_REASON = rs ''writing is blocked by read-only sandbox; rejected by user approval settings''"

definition patch_rejection_reason ::
  "fs_host \<Rightarrow> ('p \<Rightarrow> path option) \<Rightarrow> file_system_path permission_profile \<Rightarrow> fs_policy \<Rightarrow> 'p \<Rightarrow> rstr" where
  "patch_rejection_reason h to_abs permission_profile fsp cwd =
     (let has_no_writable_roots =
            (case to_abs cwd of Some cwd \<Rightarrow> get_writable_roots_with_cwd h fsp cwd = [] | None \<Rightarrow> False) in
      case permission_profile of
        Managed _ _ \<Rightarrow>
          if \<not> has_full_disk_write_access fsp \<and> has_no_writable_roots then PATCH_REJECTED_READ_ONLY_REASON
          else PATCH_REJECTED_OUTSIDE_PROJECT_REASON
      | _ \<Rightarrow> PATCH_REJECTED_OUTSIDE_PROJECT_REASON)"

text \<open>The local function \<^verbatim>\<open>normalize\<close>, which always returns a path.\<close>

definition lexically_normal :: "path \<Rightarrow> path" where
  "lexically_normal p =
     foldl (\<lambda>out comp. case comp of ParentDir \<Rightarrow> path_pop out | CurDir \<Rightarrow> out | other \<Rightarrow> path_join out [other]) [] p"

definition is_uri_writable :: "fs_host \<Rightarrow> ('p \<Rightarrow> path option) \<Rightarrow> fs_policy \<Rightarrow> path \<Rightarrow> 'p \<Rightarrow> bool" where
  "is_uri_writable h to_abs fsp native_cwd uri =
     (case to_abs uri of
        None \<Rightarrow> False
      | Some p \<Rightarrow> can_write_path_with_cwd h fsp (lexically_normal p) native_cwd)"

fun change_is_writable :: "('p \<Rightarrow> bool) \<Rightarrow> 'p \<times> 'p apply_patch_file_change \<Rightarrow> bool" where
  "change_is_writable writable (p, AddChange _) = writable p"
| "change_is_writable writable (p, DeleteChange _) = writable p"
| "change_is_writable writable (p, UpdateChange _ move_path _) =
     (if \<not> writable p then False else case move_path of Some dest \<Rightarrow> writable dest | None \<Rightarrow> True)"

definition is_write_patch_constrained_to_writable_paths ::
  "fs_host \<Rightarrow> ('p \<Rightarrow> path option) \<Rightarrow> 'p apply_patch_action \<Rightarrow> fs_policy \<Rightarrow> 'p \<Rightarrow> bool" where
  "is_write_patch_constrained_to_writable_paths h to_abs action fsp cwd =
     (if has_full_disk_write_access fsp then True
      else case to_abs cwd of
        None \<Rightarrow> False
      | Some native_cwd \<Rightarrow> list_all (change_is_writable (is_uri_writable h to_abs fsp native_cwd)) (action_changes action))"

definition assess_patch_safety ::
  "target_os \<Rightarrow> fs_host \<Rightarrow> ('p \<Rightarrow> path option) \<Rightarrow> 'p apply_patch_action \<Rightarrow> ask_for_approval
     \<Rightarrow> file_system_path permission_profile \<Rightarrow> fs_policy \<Rightarrow> 'p \<Rightarrow> windows_sandbox_level \<Rightarrow> safety_check" where
  "assess_patch_safety os h to_abs action policy permission_profile fsp cwd level =
     (if action_changes action = [] then RejectPatch (rs ''empty patch'')
      else if policy = UnlessTrusted then AskUser
      else
        let rejects_sandbox_approval =
              (case policy of Never \<Rightarrow> True | Granular g \<Rightarrow> \<not> ga_sandbox_approval g | _ \<Rightarrow> False);
            rejection = RejectPatch (patch_rejection_reason h to_abs permission_profile fsp cwd)
        in if is_write_patch_constrained_to_writable_paths h to_abs action fsp cwd
           then (case permission_profile of
                   Managed _ _ \<Rightarrow>
                     (case get_platform_sandbox os (level \<noteq> LevelDisabled) of
                        Some st \<Rightarrow> AutoApprove st False
                      | None \<Rightarrow> if rejects_sandbox_approval then rejection else AskUser)
                 | _ \<Rightarrow> AutoApprove NoSandbox False)
           else if rejects_sandbox_approval then rejection
           else AskUser)"

section \<open>Outcomes\<close>

lemma auto_approved:
  assumes "assess_patch_safety os h to_abs action policy profile fsp cwd level = AutoApprove st e"
  shows "action_changes action \<noteq> [] \<and> policy \<noteq> UnlessTrusted \<and> \<not> e
    \<and> is_write_patch_constrained_to_writable_paths h to_abs action fsp cwd
    \<and> (case profile of Managed _ _ \<Rightarrow> get_platform_sandbox os (level \<noteq> LevelDisabled) = Some st | _ \<Rightarrow> st = NoSandbox)"
  using assms
  by (auto simp: assess_patch_safety_def Let_def split: if_splits permission_profile.splits option.splits)


section \<open>What applying a patch touches\<close>

definition hunk_targets :: "('p, 'b, 'pe) path_uri_ops \<Rightarrow> 'p \<Rightarrow> hunk \<Rightarrow> 'p set" where
  "hunk_targets po cwd hunk =
     {path. hunk_resolve_path (uri_join po) cwd hunk = Ok path}
     \<union> {dest. \<exists>p m cs. hunk = UpdateFile p (Some m) cs \<and> uri_join po cwd m = Ok dest}"

text \<open>A property of the file system that changes at some path, and the creation of its parent, cannot break.\<close>

definition preserved_at :: "('p, 'b, 'pe) path_uri_ops \<Rightarrow> ('s, 'p) executor_file_system \<Rightarrow> ('s \<Rightarrow> bool) \<Rightarrow> 'p \<Rightarrow> bool" where
  "preserved_at po fs I u \<longleftrightarrow>
     (\<forall>s c. I s \<longrightarrow> I (fst (write_file fs s u c)) \<and> I (fst (remove_path fs s u))
        \<and> (\<forall>q. uri_parent po u = Some q \<longrightarrow> I (fst (create_directory fs s q))))"

lemma preserved_write: "preserved_at po fs I u \<Longrightarrow> I s \<Longrightarrow> write_file fs s u c = (s', r) \<Longrightarrow> I s'"
  unfolding preserved_at_def by (metis fst_conv)

lemma preserved_remove: "preserved_at po fs I u \<Longrightarrow> I s \<Longrightarrow> remove_path fs s u = (s', r) \<Longrightarrow> I s'"
  unfolding preserved_at_def by (metis fst_conv)

lemma preserved_create:
  "preserved_at po fs I u \<Longrightarrow> I s \<Longrightarrow> uri_parent po u = Some q \<Longrightarrow> create_directory fs s q = (s', r) \<Longrightarrow> I s'"
  unfolding preserved_at_def by (metis fst_conv)

lemmas preserved_intros = preserved_write preserved_remove preserved_create

lemma write_retry_frame:
  assumes "preserved_at po fs I u" "I s"
  shows "I (fst (write_file_with_missing_parent_retry po fs s u c))"
proof -
  have wr: "I (fst (write_file fs s' u c))" if "I s'" for s' using assms(1) that by (simp add: preserved_at_def)
  have create: "I (fst (create_directory fs s' q))" if "I s'" "uri_parent po u = Some q" for s' q
    using assms(1) that by (simp add: preserved_at_def)
  obtain s1 r where first: "write_file fs s u c = (s1, r)" "I s1" using wr [OF assms(2)] by (metis prod.collapse)
  obtain s2 r2 where made: "(case uri_parent po u of Some parent \<Rightarrow> create_directory fs s1 parent | None \<Rightarrow> (s1, Ok ())) = (s2, r2)"
    "I s2"
    using create [OF first(2)] first(2) by (cases "uri_parent po u") (auto, metis prod.collapse)
  show ?thesis
    using first made wr [OF made(2)]
    by (auto simp: write_file_with_missing_parent_retry_def split: result.split prod.split)
qed

lemma apply_add_frame:
  assumes "preserved_at po fs I u" "I s" shows "I (fst (apply_add_hunk po fs s d u c))"
  using write_retry_frame [OF assms, of c] by (auto simp: apply_add_hunk_def Let_def split: prod.splits result.splits)

lemma apply_delete_frame:
  assumes "preserved_at po fs I u" "I s" shows "I (fst (apply_delete_hunk po fs s d u))"
  using assms by (auto simp: apply_delete_hunk_def Let_def split: prod.splits result.splits intro: preserved_intros)

lemma apply_move_frame:
  assumes "preserved_at po fs I u" "preserved_at po fs I dest" "I s"
  shows "I (fst (apply_move_hunk po fs s d u dest old new))"
  using write_retry_frame [OF assms(2,3), of new] assms(1)
  by (auto simp: apply_move_hunk_def Let_def split: prod.splits result.splits intro: preserved_intros)

lemma apply_hunk_frame:
  assumes frame: "\<And>u. u \<in> hunk_targets po cwd hunk \<Longrightarrow> preserved_at po fs I u" and I: "I s"
  shows "I (fst (apply_hunk po fs cwd s d hunk))"
proof (cases "hunk_resolve_path (uri_join po) cwd hunk")
  case (Err e)
  then show ?thesis using I by (simp add: apply_hunk_def)
next
  case (Ok path)
  then have path: "preserved_at po fs I path" by (intro frame) (simp add: hunk_targets_def)
  show ?thesis
  proof (cases hunk)
    case (UpdateFile p m cs)
    have move: "preserved_at po fs I dest" if "m = Some q" "uri_join po cwd q = Ok dest" for q dest
      using that by (intro frame) (simp add: hunk_targets_def UpdateFile)
    show ?thesis
      using Ok path move I
      by (auto simp: apply_hunk_def apply_update_hunk_def UpdateFile Let_def
          split: result.splits option.splits prod.splits intro: preserved_intros apply_move_frame)
  qed (use Ok path I in \<open>simp_all add: apply_hunk_def apply_add_frame apply_delete_frame\<close>)
qed

lemma apply_hunk_list_frame:
  "(\<And>u hunk. hunk \<in> set hs \<Longrightarrow> u \<in> hunk_targets po cwd hunk \<Longrightarrow> preserved_at po fs I u) \<Longrightarrow> I s \<Longrightarrow>
     I (fst (apply_hunk_list po fs cwd s d a hs))"
proof (induction hs arbitrary: s d a)
  case (Cons hunk hs)
  have "I (fst (apply_hunk po fs cwd s d hunk))" 
    by (rule apply_hunk_frame [where I = I]) (rule Cons.prems(1) [OF list.set_intros(1)], assumption, rule Cons.prems(2))
  then obtain s1 d1 r where one: "apply_hunk po fs cwd s d hunk = (s1, d1, r)" "I s1" by (metis prod.collapse)
  have "I (fst (apply_hunk_list po fs cwd s1 d1 (note_affected hunk a) hs))" 
    by (rule Cons.IH) (rule Cons.prems(1) [OF list.set_intros(2)], assumption, assumption, rule one(2))
  then show ?case using one by (cases r) simp_all
qed simp

section \<open>The changes cover the hunks\<close>

lemma hunk_change_targets:
  assumes "hunk_change po fs diff s cwd hunk = Ok (p, c)"
  shows "hunk_resolve_path (uri_join po) cwd hunk = Ok p
    \<and> hunk_targets po cwd hunk = {p} \<union> (case c of UpdateChange _ (Some dest) _ \<Rightarrow> {dest} | _ \<Rightarrow> {})"
proof -
  from assms obtain path where path: "hunk_resolve_path (uri_join po) cwd hunk = Ok path"
    by (auto simp: hunk_change_def bind_result_eq result_map_err_Ok)
  show ?thesis
  proof (cases hunk)
    case (AddFile f contents)
    then show ?thesis using assms path by (auto simp: hunk_change_def hunk_targets_def)
  next
    case (DeleteFile f)
    then show ?thesis
      using assms path by (cases "read_file_text fs s path") (auto simp: hunk_change_def hunk_targets_def)
  next
    case (UpdateFile f m cs)
    then show ?thesis
      using assms path
      by (cases m) (auto simp: hunk_change_def hunk_targets_def Let_def bind_result_eq result_map_err_Ok result_map_eq)
  qed
qed

lemma hunk_changes_other:
  "hunk_changes po fs diff s cwd hs changes = Ok changes' \<Longrightarrow>
     (\<And>hunk. hunk \<in> set hs \<Longrightarrow> hunk_resolve_path (uri_join po) cwd hunk \<noteq> Ok q) \<Longrightarrow> map_of changes' q = map_of changes q"
proof (induction hs arbitrary: changes)
  case (Cons hunk hs)
  from Cons.prems(1) obtain p c where one: "hunk_change po fs diff s cwd hunk = Ok (p, c)"
    and rest: "hunk_changes po fs diff s cwd hs (AList.update p c changes) = Ok changes'"
    by (auto simp: bind_result_eq)
  have "p \<noteq> q" using hunk_change_targets [OF one] Cons.prems(2) [OF list.set_intros(1)] by auto
  then show ?case using Cons.IH [OF rest Cons.prems(2) [OF list.set_intros(2)]] by (simp add: update_conv')
qed simp

text \<open>When no two hunks are for the same path, every hunk has its change in the map.\<close>

lemma hunk_changes_cover:
  "hunk_changes po fs diff s cwd hs changes = Ok changes' \<Longrightarrow>
     distinct (map (hunk_resolve_path (uri_join po) cwd) hs) \<Longrightarrow> hunk \<in> set hs \<Longrightarrow>
     \<exists>p c. hunk_change po fs diff s cwd hunk = Ok (p, c) \<and> (p, c) \<in> set changes'"
proof (induction hs arbitrary: changes)
  case (Cons h0 hs)
  from Cons.prems(1) obtain p c where one: "hunk_change po fs diff s cwd h0 = Ok (p, c)"
    and rest: "hunk_changes po fs diff s cwd hs (AList.update p c changes) = Ok changes'"
    by (auto simp: bind_result_eq)
  show ?case
  proof (cases "hunk = h0")
    case True
    have "hunk_resolve_path (uri_join po) cwd k \<noteq> Ok p" if "k \<in> set hs" for k
      using Cons.prems(2) that hunk_change_targets [OF one] by force
    then have "map_of changes' p = Some c" using hunk_changes_other [OF rest, of p] by (simp add: update_conv')
    then show ?thesis using one True by (auto dest: map_of_SomeD)
  next
    case False
    then show ?thesis using Cons.IH [OF rest] Cons.prems(2,3) by simp
  qed
qed simp

section \<open>Approved patches\<close>

definition policy_allows :: "fs_host \<Rightarrow> ('p \<Rightarrow> path option) \<Rightarrow> fs_policy \<Rightarrow> 'p \<Rightarrow> 'p \<Rightarrow> bool" where
  "policy_allows h to_abs fsp cwd u \<longleftrightarrow>
     has_full_disk_write_access fsp \<or> (\<exists>native_cwd. to_abs cwd = Some native_cwd \<and> is_uri_writable h to_abs fsp native_cwd u)"

lemma constrained_targets_allowed:
  assumes "is_write_patch_constrained_to_writable_paths h to_abs action fsp cwd" "(p, c) \<in> set (action_changes action)"
    and "u \<in> {p} \<union> (case c of UpdateChange _ (Some dest) _ \<Rightarrow> {dest} | _ \<Rightarrow> {})"
  shows "policy_allows h to_abs fsp cwd u"
proof (cases "has_full_disk_write_access fsp")
  case False
  then obtain native_cwd where cwd: "to_abs cwd = Some native_cwd"
    and all: "list_all (change_is_writable (is_uri_writable h to_abs fsp native_cwd)) (action_changes action)"
    using assms(1) by (auto simp: is_write_patch_constrained_to_writable_paths_def split: option.splits)
  have "change_is_writable (is_uri_writable h to_abs fsp native_cwd) (p, c)" using all assms(2) by (simp add: list_all_iff)
  then have "is_uri_writable h to_abs fsp native_cwd u"
    using assms(3) by (cases c) (auto split: if_splits option.splits)
  then show ?thesis using cwd by (simp add: policy_allows_def)
qed (simp add: policy_allows_def)


text \<open>A file system that only logs the paths that are written and removed.\<close>

definition log_fs :: "(rstr list, rstr) executor_file_system" where
  "log_fs = \<lparr>read_file_text = \<lambda>_ _. Err \<lparr>io_kind = NotFound, io_message = []\<rparr>,
     get_metadata = \<lambda>_ _. Err \<lparr>io_kind = NotFound, io_message = []\<rparr>,
     write_file = \<lambda>s u _. (u # s, Ok ()), create_directory = \<lambda>s u. (u # s, Ok ()), remove_path = \<lambda>s u. (u # s, Ok ())\<rparr>"

definition text_uris :: "(rstr, rstr, unit) path_uri_ops" where
  "text_uris = \<lparr>uri_join = \<lambda>_ p. Ok p, uri_parent = \<lambda>_. None, uri_to_path_buf = id, uri_display = id\<rparr>"

definition example_patch :: apply_patch_args where
  "example_patch = \<lparr>args_patch = [], args_hunks = [AddFile (rs ''/w/x'') (rs ''hi'')], args_workdir = None, args_environment_id = None\<rparr>"

definition in_workspace :: "rstr list \<Rightarrow> bool" where
  "in_workspace = list_all (\<lambda>u. can_write_path_with_cwd bare_host (restricted nested_entries) (lexically_normal (components u)) [RootDir])"


text \<open>
  C14: When two hunks are for the same path, the later change replaces the earlier one: a
  patch that moves a file and then adds a file under the old name is approved without
  a question although the destination of the move may not be written, and the
  destination is among the paths that applying the patch touches.
\<close>

theorem moved_destination_unchecked:
  assumes "hunk_change po fs diff s cwd (UpdateFile a (Some m) cs) = Ok (p, UpdateChange u (Some dest) n)"
    and "to_abs session_cwd = Some native_cwd" "is_uri_writable h to_abs fsp native_cwd p"
  shows "hunk_changes po fs diff s cwd [UpdateFile a (Some m) cs, AddFile a c] [] = Ok [(p, AddChange c)]
    \<and> assess_patch_safety LinuxTarget h to_abs \<lparr>action_changes = [(p, AddChange c)], action_patch = patch, action_cwd = cwd\<rparr>
        OnRequest (Managed permissions network) fsp session_cwd level = AutoApprove LinuxSeccomp False
    \<and> dest \<in> hunk_targets po cwd (UpdateFile a (Some m) cs)"
proof -
  note t = hunk_change_targets [OF assms(1)]
  then have "hunk_change po fs diff s cwd (AddFile a c) = Ok (p, AddChange c)" by (simp add: hunk_change_def)
  then have "hunk_changes po fs diff s cwd [UpdateFile a (Some m) cs, AddFile a c] [] = Ok [(p, AddChange c)]"
    using assms(1) by simp
  then show ?thesis
    using t assms(2,3)
    by (simp add: assess_patch_safety_def is_write_patch_constrained_to_writable_paths_def get_platform_sandbox_def)
qed

definition moving_chunk :: update_file_chunk where
  "moving_chunk = \<lparr>change_context = None, old_lines = [rs ''a''], new_lines = [rs ''b''], is_end_of_file = False\<rparr>"

definition text_fs :: "(rstr list, rstr) executor_file_system" where
  "text_fs = log_fs\<lparr>read_file_text := \<lambda>_ _. Ok (rs ''a'' @ [10])\<rparr>"

theorem moved_destination_unchecked_witness:
  "assess_patch_safety LinuxTarget bare_host (\<lambda>u. Some (components u))
     \<lparr>action_changes = [(rs ''/w/x'', AddChange [])], action_patch = [], action_cwd = rs ''/w''\<rparr>
     OnRequest (Managed ManagedUnrestricted NetworkRestricted) (restricted nested_entries) (rs ''/'') LevelDisabled
     = AutoApprove LinuxSeccomp False
   \<and> rs ''/etc/x'' \<in> hunk_targets text_uris (rs ''/w'') (UpdateFile (rs ''/w/x'') (Some (rs ''/etc/x'')) [moving_chunk])
   \<and> \<not> is_uri_writable bare_host (\<lambda>u. Some (components u)) (restricted nested_entries) [RootDir] (rs ''/etc/x'')"
proof -
  have change: "hunk_change text_uris text_fs (\<lambda>_ _. []) [] (rs ''/w'') (UpdateFile (rs ''/w/x'') (Some (rs ''/etc/x'')) [moving_chunk])
      = Ok (rs ''/w/x'', UpdateChange [] (Some (rs ''/etc/x'')) (rs ''b'' @ [10]))" by code_simp
  have cwd: "(\<lambda>u. Some (components u)) (rs ''/'') = Some [RootDir]" by code_simp
  have w: "is_uri_writable bare_host (\<lambda>u. Some (components u)) (restricted nested_entries) [RootDir] (rs ''/w/x'')" by code_simp
  have "\<not> is_uri_writable bare_host (\<lambda>u. Some (components u)) (restricted nested_entries) [RootDir] (rs ''/etc/x'')" by code_simp
  then show ?thesis using moved_destination_unchecked [OF change cwd w] by blast
qed


end
