(* ===== verification/Turn_Diff.thy ===== *)
theory Turn_Diff
  imports Patch_Delta Fs_Policy "HOL-Library.AList" "HOL-Library.Multiset"
begin

text \<open>
  The diff of a turn (\<^verbatim>\<open>core/src/turn_diff_tracker.rs\<close>): the tracker collects the changes
  that patches committed and keeps a rendered diff between the files at the start of
  the turn and now, and \<^verbatim>\<open>emit_patch_end\<close> of \<^verbatim>\<open>core/src/tools/events.rs\<close> reports it. A
  \<^verbatim>\<open>HashMap\<close> is an association list with distinct keys; the order in which it is
  iterated, the line diff and SHA-1 are the parameter \<open>diff_library\<close>. The time limit of
  the line diff is part of that library: it is asked for the diff of two texts.
\<close>

section \<open>The tracker\<close>

record tracked_content =
  content :: rstr
  revision :: nat

record tracked_path =
  environment_id :: rstr
  tp_path :: path

record diff_cache_key =
  left_path :: tracked_path
  left_revision :: "nat option"
  right_path :: tracked_path
  right_revision :: "nat option"

record turn_diff_tracker =
  valid :: bool
  display_roots_by_environment :: "(rstr \<times> path) list"
  baseline_by_path :: "(tracked_path \<times> tracked_content) list"
  current_by_path :: "(tracked_path \<times> tracked_content) list"
  origin_by_current_path :: "(tracked_path \<times> tracked_path) list"
  next_revision :: nat
  rendered_diffs :: "(diff_cache_key \<times> rstr option) list"
  unified_diff :: "rstr option"

record diff_library =
  iter_keys :: "tracked_path list \<Rightarrow> tracked_path list"
  iter_origins :: "(tracked_path \<times> tracked_path) list \<Rightarrow> (tracked_path \<times> tracked_path) list"
  diff_lines :: "rstr \<Rightarrow> rstr \<Rightarrow> rstr \<Rightarrow> rstr \<Rightarrow> rstr"
  sha1_hex :: "rstr \<Rightarrow> rstr"

definition ZERO_OID :: rstr where "ZERO_OID = rs ''0000000000000000000000000000000000000000''"
definition DEV_NULL :: rstr where "DEV_NULL = rs ''/dev/null''"
definition REGULAR_FILE_MODE :: rstr where "REGULAR_FILE_MODE = rs ''100644''"

definition new_tracker :: turn_diff_tracker where
  "new_tracker = \<lparr>valid = True, display_roots_by_environment = [], baseline_by_path = [], current_by_path = [],
     origin_by_current_path = [], next_revision = 0, rendered_diffs = [], unified_diff = None\<rparr>"

definition with_environment_display_roots :: "(rstr \<times> path) list \<Rightarrow> turn_diff_tracker" where
  "with_environment_display_roots display_roots =
     new_tracker\<lparr>display_roots_by_environment := fold (\<lambda>(e, root). AList.update e root) display_roots []\<rparr>"

definition invalidate :: "turn_diff_tracker \<Rightarrow> turn_diff_tracker" where
  "invalidate t = t\<lparr>valid := False, rendered_diffs := [], unified_diff := None\<rparr>"

section \<open>Applying a change\<close>

definition tracked_content_of :: "turn_diff_tracker \<Rightarrow> rstr \<Rightarrow> tracked_content \<times> turn_diff_tracker" where
  "tracked_content_of t text = (\<lparr>content = text, revision = next_revision t\<rparr>, t\<lparr>next_revision := next_revision t + 1\<rparr>)"

text \<open>The two statements that record a content, in the baseline or as the current one.\<close>

definition insert_baseline :: "tracked_path \<Rightarrow> rstr \<Rightarrow> turn_diff_tracker \<Rightarrow> turn_diff_tracker" where
  "insert_baseline p text t =
     (let (c, t) = tracked_content_of t text in t\<lparr>baseline_by_path := AList.update p c (baseline_by_path t)\<rparr>)"

definition insert_current :: "tracked_path \<Rightarrow> rstr \<Rightarrow> turn_diff_tracker \<Rightarrow> turn_diff_tracker" where
  "insert_current p text t =
     (let (c, t) = tracked_content_of t text in t\<lparr>current_by_path := AList.update p c (current_by_path t)\<rparr>)"

definition untracked :: "turn_diff_tracker \<Rightarrow> tracked_path \<Rightarrow> bool" where
  "untracked t p \<longleftrightarrow> map_of (current_by_path t) p = None \<and> map_of (baseline_by_path t) p = None"

definition apply_add :: "tracked_path \<Rightarrow> rstr \<Rightarrow> rstr option \<Rightarrow> turn_diff_tracker \<Rightarrow> turn_diff_tracker" where
  "apply_add p new overwritten_content t =
     (let t = t\<lparr>origin_by_current_path := AList.delete p (origin_by_current_path t)\<rparr>;
          t = (if untracked t p then
                 (case overwritten_content of Some old \<Rightarrow> insert_baseline p old t | None \<Rightarrow> t)
               else t)
      in insert_current p new t)"

definition apply_delete :: "tracked_path \<Rightarrow> rstr \<Rightarrow> turn_diff_tracker \<Rightarrow> turn_diff_tracker" where
  "apply_delete p old t =
     (let removed = map_of (current_by_path t) p;
          t = t\<lparr>current_by_path := AList.delete p (current_by_path t)\<rparr>;
          t = (if removed = None \<and> map_of (baseline_by_path t) p = None then insert_baseline p old t else t)
      in t\<lparr>origin_by_current_path := AList.delete p (origin_by_current_path t)\<rparr>)"

definition apply_update ::
  "tracked_path \<Rightarrow> tracked_path option \<Rightarrow> rstr \<Rightarrow> rstr option \<Rightarrow> rstr \<Rightarrow> turn_diff_tracker \<Rightarrow> turn_diff_tracker" where
  "apply_update source_path move_path old overwritten_move_content new t =
     (let t = (if untracked t source_path then insert_baseline source_path old t else t) in
      case move_path of
        Some dest_path \<Rightarrow>
          (let t = (if untracked t dest_path then
                      (case overwritten_move_content of
                         Some overwritten \<Rightarrow> insert_baseline dest_path overwritten t
                       | None \<Rightarrow> t)
                    else t);
               origin = (case map_of (origin_by_current_path t) source_path of Some origin \<Rightarrow> origin | None \<Rightarrow> source_path);
               t = t\<lparr>origin_by_current_path := AList.delete source_path (origin_by_current_path t)\<rparr>;
               t = t\<lparr>current_by_path := AList.delete source_path (current_by_path t)\<rparr>;
               t = insert_current dest_path new t;
               t = t\<lparr>origin_by_current_path := AList.delete dest_path (origin_by_current_path t)\<rparr>
           in if dest_path \<noteq> origin
              then t\<lparr>origin_by_current_path := AList.update dest_path origin (origin_by_current_path t)\<rparr>
              else t)
      | None \<Rightarrow> insert_current source_path new t)"

definition tracked :: "rstr \<Rightarrow> path \<Rightarrow> tracked_path" where
  "tracked e p = \<lparr>environment_id = e, tp_path = p\<rparr>"

definition apply_change :: "rstr \<Rightarrow> path applied_patch_change \<Rightarrow> turn_diff_tracker \<Rightarrow> turn_diff_tracker" where
  "apply_change e c t =
     (let source_path = tracked e (change_path c) in
      case change c of
        ChangeAdd new overwritten_content \<Rightarrow> apply_add source_path new overwritten_content t
      | ChangeDelete old \<Rightarrow> apply_delete source_path old t
      | ChangeUpdate move_path old overwritten_move_content new \<Rightarrow>
          apply_update source_path (map_option (tracked e) move_path) old overwritten_move_content new t)"

section \<open>Rendering\<close>

definition display_path :: "turn_diff_tracker \<Rightarrow> tracked_path \<Rightarrow> rstr" where
  "display_path t p =
     (let display = (case Option.bind (map_of (display_roots_by_environment t) (environment_id p))
                            (path_strip_prefix (tp_path p)) of
                       Some rest \<Rightarrow> rest
                     | None \<Rightarrow> tp_path p);
          display = map (\<lambda>c. if c = 92 then 47 else c) (path_text display)
      in if length (display_roots_by_environment t) > 1 \<and> environment_id p \<noteq> []
         then environment_id p @ [47] @ display else display)"

definition git_blob_oid :: "diff_library \<Rightarrow> rstr \<Rightarrow> rstr" where
  "git_blob_oid lib data = sha1_hex lib (rs ''blob '' @ decimal (str_len data) @ [0] @ data)"

definition render_diff ::
  "diff_library \<Rightarrow> turn_diff_tracker \<Rightarrow> tracked_path \<Rightarrow> rstr option \<Rightarrow> tracked_path \<Rightarrow> rstr option \<Rightarrow> rstr option" where
  "render_diff lib t left left_content right right_content =
     (if left_content = right_content then None
      else
        let left_display = display_path t left;
            right_display = display_path t right;
            left_oid = (case left_content of None \<Rightarrow> ZERO_OID | Some c \<Rightarrow> git_blob_oid lib c);
            right_oid = (case right_content of None \<Rightarrow> ZERO_OID | Some c \<Rightarrow> git_blob_oid lib c);
            diff = rs ''diff --git a/'' @ left_display @ rs '' b/'' @ right_display @ [LF];
            mode = (case (left_content, right_content) of
                      (None, Some _) \<Rightarrow> rs ''new file mode '' @ REGULAR_FILE_MODE @ [LF]
                    | (Some _, None) \<Rightarrow> rs ''deleted file mode '' @ REGULAR_FILE_MODE @ [LF]
                    | _ \<Rightarrow> []);
            index = rs ''index '' @ left_oid @ rs ''..'' @ right_oid @ [LF];
            old_header = (if left_content \<noteq> None then rs ''a/'' @ left_display else DEV_NULL);
            new_header = (if right_content \<noteq> None then rs ''b/'' @ right_display else DEV_NULL)
        in Some (diff @ mode @ index @ diff_lines lib old_header new_header
             (case left_content of Some c \<Rightarrow> c | None \<Rightarrow> [])
             (case right_content of Some c \<Rightarrow> c | None \<Rightarrow> [])))"

text \<open>The pairs are collected into a map: a later one with the same origin replaces an earlier one.\<close>

definition rename_pair :: "turn_diff_tracker \<Rightarrow> tracked_path \<times> tracked_path \<Rightarrow> (tracked_path \<times> tracked_path) option" where
  "rename_pair t = (\<lambda>(dest_path, origin_path).
     if dest_path = origin_path
        \<or> map_of (current_by_path t) origin_path \<noteq> None
        \<or> map_of (current_by_path t) dest_path = None
        \<or> map_of (baseline_by_path t) origin_path = None
        \<or> map_of (baseline_by_path t) dest_path \<noteq> None
     then None
     else Some (origin_path, dest_path))"

definition rename_pairs :: "diff_library \<Rightarrow> turn_diff_tracker \<Rightarrow> (tracked_path \<times> tracked_path) list" where
  "rename_pairs lib t =
     fold (\<lambda>(origin_path, dest_path). AList.update origin_path dest_path)
       (List.map_filter (rename_pair t) (iter_origins lib (origin_by_current_path t))) []"

record refresh_state =
  handled :: "tracked_path set"
  previous :: "(diff_cache_key \<times> rstr option) list"
  rendered :: "(diff_cache_key \<times> rstr option) list"
  aggregated :: rstr

definition push_diff :: "rstr \<Rightarrow> rstr option \<Rightarrow> rstr" where
  "push_diff acc diff =
     (case diff of
        None \<Rightarrow> acc
      | Some diff \<Rightarrow> let acc = acc @ diff in if ends_with acc [LF] then acc else acc @ [LF])"

definition content_key :: "turn_diff_tracker \<Rightarrow> tracked_path \<Rightarrow> tracked_path \<Rightarrow> diff_cache_key" where
  "content_key t left right =
     \<lparr>left_path = left, left_revision = map_option revision (map_of (baseline_by_path t) left),
      right_path = right, right_revision = map_option revision (map_of (current_by_path t) right)\<rparr>"

definition refresh_path ::
  "diff_library \<Rightarrow> turn_diff_tracker \<Rightarrow> (tracked_path \<times> tracked_path) list \<Rightarrow> tracked_path \<Rightarrow> refresh_state \<Rightarrow> refresh_state" where
  "refresh_path lib t pairs p st =
     (if p \<in> handled st then st
      else
        let st = st\<lparr>handled := insert p (handled st)\<rparr> in
        if p \<in> set (map snd pairs) then st
        else
          let (right, st) = (case map_of pairs p of
                               Some dest \<Rightarrow> (dest, st\<lparr>handled := insert dest (handled st)\<rparr>)
                             | None \<Rightarrow> (p, st));
              key = content_key t p right;
              rendered_diff = (case map_of (previous st) key of
                            Some cached \<Rightarrow> cached
                          | None \<Rightarrow> render_diff lib t p (map_option content (map_of (baseline_by_path t) p))
                                      right (map_option content (map_of (current_by_path t) right)))
          in st\<lparr>previous := AList.delete key (previous st),
                rendered := AList.update key rendered_diff (rendered st),
                aggregated := push_diff (aggregated st) rendered_diff\<rparr>)"

definition diff_paths :: "diff_library \<Rightarrow> turn_diff_tracker \<Rightarrow> tracked_path list" where
  "diff_paths lib t =
     remdups_adj (sort_key (display_path t)
       (iter_keys lib (map fst (baseline_by_path t)) @ iter_keys lib (map fst (current_by_path t))))"

definition refresh_unified_diff :: "diff_library \<Rightarrow> turn_diff_tracker \<Rightarrow> turn_diff_tracker" where
  "refresh_unified_diff lib t =
     (let st = fold (refresh_path lib t (rename_pairs lib t)) (diff_paths lib t)
                 \<lparr>handled = {}, previous = rendered_diffs t, rendered = [], aggregated = []\<rparr>
      in t\<lparr>rendered_diffs := rendered st,
           unified_diff := (if aggregated st = [] then None else Some (aggregated st))\<rparr>)"

definition track_delta :: "diff_library \<Rightarrow> rstr \<Rightarrow> path applied_patch_delta \<Rightarrow> turn_diff_tracker \<Rightarrow> turn_diff_tracker" where
  "track_delta lib e delta t =
     (if \<not> valid t then t
      else if \<not> exact delta then invalidate t
      else refresh_unified_diff lib (fold (apply_change e) (delta_changes delta) t))"

section \<open>Reporting\<close>

text \<open>
  The part of \<^verbatim>\<open>emit_patch_end\<close> that holds the tracker: the tracker afterwards, and the
  text of the \<^verbatim>\<open>TurnDiffEvent\<close> if one is sent.
\<close>

datatype tracker_update = TrackUpdate "rstr option" "path applied_patch_delta" | InvalidateUpdate | NoUpdate

definition emit_turn_diff :: "diff_library \<Rightarrow> tracker_update \<Rightarrow> turn_diff_tracker \<Rightarrow> turn_diff_tracker \<times> rstr option" where
  "emit_turn_diff lib upd t =
     (let had_unified_diff = (unified_diff t \<noteq> None);
          (t, tracker_changed) = (case upd of
             TrackUpdate e delta \<Rightarrow> (track_delta lib (case e of Some e \<Rightarrow> e | None \<Rightarrow> []) delta t, True)
           | InvalidateUpdate \<Rightarrow> (invalidate t, True)
           | NoUpdate \<Rightarrow> (t, False));
          diff = unified_diff t
      in (t, if tracker_changed \<and> (had_unified_diff \<or> diff \<noteq> None)
             then Some (case diff of Some text \<Rightarrow> text | None \<Rightarrow> []) else None))"

end
