(* ===== verification/Turn_Diff_Facts.thy ===== *)
theory Turn_Diff_Facts
  imports Turn_Diff
begin

text \<open>
  The diff of a turn shows the net change of the files: the tracker follows the file
  system through every exact delta, the cache of rendered diffs changes nothing, and the
  text that is reported renders pairs of paths that account for every changed file.
\<close>

section \<open>The tracked texts\<close>

definition old_text :: "turn_diff_tracker \<Rightarrow> tracked_path \<Rightarrow> rstr option" where
  "old_text t p = map_option content (map_of (baseline_by_path t) p)"

definition now_text :: "turn_diff_tracker \<Rightarrow> tracked_path \<Rightarrow> rstr option" where
  "now_text t p = map_option content (map_of (current_by_path t) p)"

lemma untracked_iff: "untracked t p \<longleftrightarrow> now_text t p = None \<and> old_text t p = None"
  by (simp add: untracked_def now_text_def old_text_def)

lemma texts_insert [simp]:
  "old_text (insert_baseline p c t) = (old_text t)(p \<mapsto> c)"
  "now_text (insert_baseline p c t) = now_text t"
  "old_text (insert_current p c t) = old_text t"
  "now_text (insert_current p c t) = (now_text t)(p \<mapsto> c)"
  by (auto simp: insert_baseline_def insert_current_def tracked_content_of_def old_text_def now_text_def update_conv')

lemma texts_fields [simp]:
  "old_text (t\<lparr>origin_by_current_path := x\<rparr>) = old_text t"
  "now_text (t\<lparr>origin_by_current_path := x\<rparr>) = now_text t"
  "old_text (t\<lparr>current_by_path := y\<rparr>) = old_text t"
  "now_text (t\<lparr>current_by_path := AList.delete p (current_by_path t)\<rparr>) = (now_text t)(p := None)"
  by (auto simp: old_text_def now_text_def delete_conv')

lemma untracked_fields [simp]: "untracked (t\<lparr>origin_by_current_path := x\<rparr>) p = untracked t p"
  by (simp add: untracked_iff)

text \<open>The texts after each kind of change.\<close>

definition noted :: "turn_diff_tracker \<Rightarrow> tracked_path \<Rightarrow> rstr option \<Rightarrow> tracked_path \<Rightarrow> rstr option" where
  "noted t p c = (if untracked t p then (old_text t)(p := c) else old_text t)"

lemma noted_untracked [simp]: "untracked t p \<Longrightarrow> (old_text t)(p := None) = old_text t"
  by (auto simp: untracked_iff)

lemma texts_add:
  "old_text (apply_add p new overwritten t) = noted t p overwritten"
  "now_text (apply_add p new overwritten t) = (now_text t)(p \<mapsto> new)"
  by (auto simp: apply_add_def Let_def noted_def split: option.splits)

lemma texts_delete:
  "old_text (apply_delete p old t) = noted t p (Some old)"
  "now_text (apply_delete p old t) = (now_text t)(p := None)"
proof -
  have "map_of (current_by_path t) p = None \<and> map_of (baseline_by_path t) p = None \<longleftrightarrow> untracked t p"
    by (simp add: untracked_def)
  then show "old_text (apply_delete p old t) = noted t p (Some old)"
    "now_text (apply_delete p old t) = (now_text t)(p := None)"
    by (auto simp: apply_delete_def Let_def noted_def)
qed

definition with_source :: "tracked_path \<Rightarrow> rstr \<Rightarrow> turn_diff_tracker \<Rightarrow> turn_diff_tracker" where
  "with_source p old t = (if untracked t p then insert_baseline p old t else t)"

lemma texts_with_source [simp]:
  "old_text (with_source p old t) = noted t p (Some old)"
  "now_text (with_source p old t) = now_text t"
  by (auto simp: with_source_def noted_def)

lemma texts_update:
  "old_text (apply_update p None old ov new t) = noted t p (Some old)"
  "now_text (apply_update p None old ov new t) = (now_text t)(p \<mapsto> new)"
  by (auto simp: apply_update_def Let_def noted_def)

definition with_overwritten :: "tracked_path \<Rightarrow> rstr option \<Rightarrow> turn_diff_tracker \<Rightarrow> turn_diff_tracker" where
  "with_overwritten q ov t =
     (if untracked t q then (case ov of Some c \<Rightarrow> insert_baseline q c t | None \<Rightarrow> t) else t)"

lemma texts_with_overwritten [simp]:
  "old_text (with_overwritten q ov t) = noted t q ov"
  "now_text (with_overwritten q ov t) = now_text t"
  by (auto simp: with_overwritten_def noted_def split: option.splits)

definition moved :: "tracked_path \<Rightarrow> tracked_path \<Rightarrow> rstr \<Rightarrow> turn_diff_tracker \<Rightarrow> turn_diff_tracker" where
  "moved p q new t =
     (let origin = (case map_of (origin_by_current_path t) p of Some origin \<Rightarrow> origin | None \<Rightarrow> p);
          t = insert_current q new (t\<lparr>origin_by_current_path := AList.delete p (origin_by_current_path t),
                current_by_path := AList.delete p (current_by_path t)\<rparr>);
          t = t\<lparr>origin_by_current_path := AList.delete q (origin_by_current_path t)\<rparr>
      in if q \<noteq> origin then t\<lparr>origin_by_current_path := AList.update q origin (origin_by_current_path t)\<rparr> else t)"

lemma texts_moved [simp]:
  "old_text (moved p q new t) = old_text t"
  "now_text (moved p q new t) = (now_text t)(p := None, q \<mapsto> new)"
proof -
  have "now_text (t\<lparr>origin_by_current_path := x, current_by_path := AList.delete p (current_by_path t)\<rparr>) = (now_text t)(p := None)"
    for x by (auto simp: now_text_def delete_conv')
  then show "old_text (moved p q new t) = old_text t" "now_text (moved p q new t) = (now_text t)(p := None, q \<mapsto> new)"
    by (simp_all add: moved_def Let_def)
qed

lemma apply_update_move:
  "apply_update p (Some q) old ov new t = moved p q new (with_overwritten q ov (with_source p old t))"
  by (simp add: apply_update_def moved_def with_overwritten_def with_source_def Let_def)

section \<open>The net change\<close>

text \<open>From \<open>v0\<close> at the start of the turn to \<open>v\<close> now: a path that is not tracked has not changed.\<close>

definition net_change :: "turn_diff_tracker \<Rightarrow> (tracked_path \<Rightarrow> rstr option) \<Rightarrow> (tracked_path \<Rightarrow> rstr option) \<Rightarrow> bool" where
  "net_change t v0 v \<longleftrightarrow>
     (\<forall>p. if untracked t p then v p = v0 p else v0 p = old_text t p \<and> v p = now_text t p)"

lemma net_changeI:
  assumes "net_change t v0 v" and "old_text t' = noted t p (v p)" and "now_text t' = (now_text t)(p := c)"
  shows "net_change t' v0 (v(p := c))"
  unfolding net_change_def
proof
  fix q
  show "if untracked t' q then (v(p := c)) q = v0 q else v0 q = old_text t' q \<and> (v(p := c)) q = now_text t' q"
    using assms(1) [unfolded net_change_def, rule_format, of q] assms(2,3)
    by (cases "q = p") (auto simp: untracked_iff noted_def split: if_splits)
qed

lemma net_add: "net_change t v0 v \<Longrightarrow> v p = ov \<Longrightarrow> net_change (apply_add p new ov t) v0 (v(p \<mapsto> new))"
  by (rule net_changeI) (simp_all add: texts_add)

lemma net_delete: "net_change t v0 v \<Longrightarrow> v p = Some old \<Longrightarrow> net_change (apply_delete p old t) v0 (v(p := None))"
  by (rule net_changeI) (simp_all add: texts_delete)

lemma net_update: "net_change t v0 v \<Longrightarrow> v p = Some old \<Longrightarrow> net_change (apply_update p None old ov new t) v0 (v(p \<mapsto> new))"
  by (rule net_changeI) (simp_all add: texts_update)

lemma net_move:
  assumes "net_change t v0 v" and "v p = Some old" and "q \<noteq> p \<Longrightarrow> v q = ov"
  shows "net_change (apply_update p (Some q) old ov new t) v0 (v(p := None, q \<mapsto> new))"
proof (rule net_changeI [OF net_delete [OF assms(1,2)]])
  let ?t = "apply_delete p old t"
  have "noted (with_source p old t) q ov = noted ?t q ((v(p := None)) q)"
    using assms(3) by (cases "q = p") (auto simp: noted_def untracked_iff texts_delete)
  then show "old_text (apply_update p (Some q) old ov new t) = noted ?t q ((v(p := None)) q)"
    by (simp add: apply_update_move)
qed (simp add: apply_update_move texts_delete)

text \<open>Changes are relative to an environment.\<close>

definition in_env :: "rstr \<Rightarrow> (tracked_path \<Rightarrow> rstr option) \<Rightarrow> path \<Rightarrow> rstr option" where
  "in_env e v = (\<lambda>p. v (tracked e p))"

definition put_env :: "rstr \<Rightarrow> (path \<Rightarrow> rstr option) \<Rightarrow> (tracked_path \<Rightarrow> rstr option) \<Rightarrow> tracked_path \<Rightarrow> rstr option" where
  "put_env e w v = (\<lambda>tp. if environment_id tp = e then w (tp_path tp) else v tp)"

lemma tracked_eq: "tp = tracked e p \<longleftrightarrow> environment_id tp = e \<and> tp_path tp = p"
  by (cases tp) (auto simp: tracked_def)

lemma env_laws [simp]:
  "in_env e (put_env e w v) = w" "put_env e (in_env e v) v = v" "put_env e w' (put_env e w v) = put_env e w' v"
  by (auto simp: in_env_def put_env_def tracked_def fun_eq_iff) (metis tracked_def tracked_eq)

lemma put_env_upd: "put_env e (w(p := c)) v = (put_env e w v)(tracked e p := c)"
  by (auto simp: put_env_def fun_eq_iff tracked_eq)

lemma net_apply_change:
  assumes "net_change t v0 v" and "revert_change c (replay_change c (in_env e v)) = in_env e v"
  shows "net_change (apply_change e c t) v0 (put_env e (replay_change c (in_env e v)) v)"
proof -
  obtain p ch where c: "c = \<lparr>change_path = p, change = ch\<rparr>" by (cases c)
  show ?thesis
  proof (cases ch)
    case (ChangeAdd new ov)
    have "v (tracked e p) = ov" using assms(2) [THEN fun_cong, of p] c ChangeAdd by (simp add: in_env_def)
    with assms(1) show ?thesis by (simp add: c ChangeAdd apply_change_def put_env_upd net_add)
  next
    case (ChangeDelete old)
    have "v (tracked e p) = Some old" using assms(2) [THEN fun_cong, of p] c ChangeDelete by (simp add: in_env_def)
    with assms(1) show ?thesis by (simp add: c ChangeDelete apply_change_def put_env_upd net_delete)
  next
    case (ChangeUpdate m old ov new)
    have p: "v (tracked e p) = Some old"
      using assms(2) [THEN fun_cong, of p] c ChangeUpdate by (cases m) (simp_all add: in_env_def)
    show ?thesis
    proof (cases m)
      case None
      with assms(1) p show ?thesis by (simp add: c ChangeUpdate apply_change_def put_env_upd net_update)
    next
      case (Some q)
      have "v (tracked e q) = ov" if "tracked e q \<noteq> tracked e p"
        using assms(2) [THEN fun_cong, of q] c ChangeUpdate Some that by (auto simp: in_env_def split: if_splits)
      with net_move [OF assms(1) p] Some show ?thesis
        by (simp add: c ChangeUpdate apply_change_def put_env_upd)
    qed
  qed
qed

lemma net_apply_changes:
  "net_change t v0 v \<Longrightarrow> faithful cs (in_env e v) \<Longrightarrow>
     net_change (fold (apply_change e) cs t) v0 (put_env e (replay cs (in_env e v)) v)"
proof (induction cs arbitrary: t v)
  case (Cons c cs)
  let ?v = "put_env e (replay_change c (in_env e v)) v"
  have "net_change (apply_change e c t) v0 ?v"
    using Cons.prems by (intro net_apply_change) (simp_all del: replay_change.simps revert_change.simps)
  from Cons.IH [OF this] Cons.prems(2) show ?case
    by (simp add: replay_def del: replay_change.simps revert_change.simps)
qed (simp add: replay_def)

section \<open>The cache\<close>

text \<open>
  Every revision stands for one text, which \<open>text_of\<close> returns; the contents carry their
  own text and a cached diff is the one of the texts of its revisions.
\<close>

definition revisions_ok :: "(nat \<Rightarrow> rstr) \<Rightarrow> nat \<Rightarrow> (tracked_path \<times> tracked_content) list \<Rightarrow> bool" where
  "revisions_ok text_of n cs \<longleftrightarrow>
     (\<forall>p c. map_of cs p = Some c \<longrightarrow> revision c < n \<and> text_of (revision c) = content c)"

definition diff_of :: "diff_library \<Rightarrow> turn_diff_tracker \<Rightarrow> (nat \<Rightarrow> rstr) \<Rightarrow> diff_cache_key \<Rightarrow> rstr option" where
  "diff_of lib t text_of k =
     render_diff lib t (left_path k) (map_option text_of (left_revision k))
       (right_path k) (map_option text_of (right_revision k))"

definition cache_ok :: "diff_library \<Rightarrow> turn_diff_tracker \<Rightarrow> (nat \<Rightarrow> rstr) \<Rightarrow> (diff_cache_key \<times> rstr option) list \<Rightarrow> bool" where
  "cache_ok lib t text_of cache \<longleftrightarrow>
     (\<forall>k d. map_of cache k = Some d \<longrightarrow>
        d = diff_of lib t text_of k \<and> (\<forall>r. left_revision k = Some r \<or> right_revision k = Some r \<longrightarrow> r < next_revision t))"

definition coherent :: "diff_library \<Rightarrow> turn_diff_tracker \<Rightarrow> (nat \<Rightarrow> rstr) \<Rightarrow> bool" where
  "coherent lib t text_of \<longleftrightarrow>
     distinct (map fst (origin_by_current_path t))
     \<and> revisions_ok text_of (next_revision t) (baseline_by_path t)
     \<and> revisions_ok text_of (next_revision t) (current_by_path t)
     \<and> cache_ok lib t text_of (rendered_diffs t)"

lemma render_diff_cong:
  "display_roots_by_environment t' = display_roots_by_environment t \<Longrightarrow> render_diff lib t' = render_diff lib t"
proof -
  assume "display_roots_by_environment t' = display_roots_by_environment t"
  then have "display_path t' = display_path t" by (simp add: display_path_def fun_eq_iff)
  then show ?thesis by (simp add: render_diff_def fun_eq_iff)
qed

lemma revisions_ok_update:
  assumes "revisions_ok text_of n cs"
  shows "revisions_ok (text_of(n := c)) (Suc n) cs"
    and "revisions_ok (text_of(n := c)) (Suc n) (AList.update p \<lparr>content = c, revision = n\<rparr> cs)"
    and "revisions_ok text_of n (AList.delete p cs)"
  using assms by (auto simp: revisions_ok_def update_conv' delete_conv' split: if_splits)
    (auto dest!: spec simp: less_Suc_eq)

lemma cache_ok_next:
  assumes "cache_ok lib t text_of cache" and "display_roots_by_environment t' = display_roots_by_environment t"
    and "next_revision t' = Suc (next_revision t)"
  shows "cache_ok lib t' (text_of(next_revision t := c)) cache"
proof -
  have "map_option (text_of(next_revision t := c)) r = map_option text_of r"
    if "\<And>x. r = Some x \<Longrightarrow> x < next_revision t" for r
    using that by (cases r) auto
  with assms show ?thesis
    unfolding cache_ok_def diff_of_def render_diff_cong [OF assms(2)] by (metis less_Suc_eq)
qed

lemma cache_ok_cong:
  assumes "display_roots_by_environment t' = display_roots_by_environment t" and "next_revision t' = next_revision t"
  shows "cache_ok lib t' = cache_ok lib t"
  using assms by (simp add: cache_ok_def diff_of_def render_diff_cong [OF assms(1)] fun_eq_iff)

definition coherent_tracker :: "diff_library \<Rightarrow> turn_diff_tracker \<Rightarrow> bool" where
  "coherent_tracker lib t \<longleftrightarrow> (\<exists>text_of. coherent lib t text_of)"

lemma coherent_insert:
  assumes "coherent_tracker lib t"
  shows "coherent_tracker lib (insert_baseline p c t)" and "coherent_tracker lib (insert_current p c t)"
proof -
  obtain text_of where "coherent lib t text_of" using assms by (auto simp: coherent_tracker_def)
  then have "coherent lib (insert_baseline p c t) (text_of(next_revision t := c))"
    "coherent lib (insert_current p c t) (text_of(next_revision t := c))"
    by (auto simp: coherent_def insert_baseline_def insert_current_def tracked_content_of_def
        intro: revisions_ok_update cache_ok_next)
  then show "coherent_tracker lib (insert_baseline p c t)" "coherent_tracker lib (insert_current p c t)"
    by (auto simp: coherent_tracker_def)
qed

lemma coherent_fields:
  assumes "coherent_tracker lib t"
  shows "coherent_tracker lib (t\<lparr>current_by_path := AList.delete p (current_by_path t)\<rparr>)"
    and "distinct (map fst origins) \<Longrightarrow> coherent_tracker lib (t\<lparr>origin_by_current_path := origins\<rparr>)"
  using assms by (auto simp: coherent_tracker_def coherent_def cache_ok_cong [of "t\<lparr>current_by_path := _\<rparr>" t]
      cache_ok_cong [of "t\<lparr>origin_by_current_path := _\<rparr>" t] intro: revisions_ok_update)

lemma coherent_origins: "coherent_tracker lib t \<Longrightarrow> distinct (map fst (origin_by_current_path t))"
  by (auto simp: coherent_tracker_def coherent_def)

lemma coherent_without_origin:
  "coherent_tracker lib t \<Longrightarrow> coherent_tracker lib (t\<lparr>origin_by_current_path := AList.delete p (origin_by_current_path t)\<rparr>)"
  by (intro coherent_fields(2) distinct_delete coherent_origins)

lemma coherent_with_origin:
  "coherent_tracker lib t \<Longrightarrow> coherent_tracker lib (t\<lparr>origin_by_current_path := AList.update p q (origin_by_current_path t)\<rparr>)"
  by (intro coherent_fields(2) distinct_update coherent_origins)

lemma coherent_with_source: "coherent_tracker lib t \<Longrightarrow> coherent_tracker lib (with_source p c t)"
  by (simp add: with_source_def coherent_insert)

lemma coherent_with_overwritten: "coherent_tracker lib t \<Longrightarrow> coherent_tracker lib (with_overwritten p c t)"
  by (simp add: with_overwritten_def coherent_insert split: option.split)

lemma coherent_moved:
  assumes "coherent_tracker lib t"
  shows "coherent_tracker lib (moved p q c t)"
proof -
  let ?o = "t\<lparr>origin_by_current_path := AList.delete p (origin_by_current_path t)\<rparr>"
  have "coherent_tracker lib (?o\<lparr>current_by_path := AList.delete p (current_by_path ?o)\<rparr>)"
    by (intro coherent_fields(1) coherent_without_origin assms)
  then have "coherent_tracker lib (insert_current q c (t\<lparr>origin_by_current_path := AList.delete p (origin_by_current_path t),
      current_by_path := AList.delete p (current_by_path t)\<rparr>))"
    by (intro coherent_insert) simp
  then show ?thesis
    unfolding moved_def Let_def by (simp only: if_split coherent_without_origin coherent_with_origin simp_thms)
qed

lemma apply_add_eq:
  "apply_add p new ov t =
     insert_current p new (with_overwritten p ov (t\<lparr>origin_by_current_path := AList.delete p (origin_by_current_path t)\<rparr>))"
  by (simp add: apply_add_def with_overwritten_def Let_def)

lemma coherent_apply_add: "coherent_tracker lib t \<Longrightarrow> coherent_tracker lib (apply_add p new ov t)"
  unfolding apply_add_eq by (intro coherent_insert coherent_with_overwritten coherent_without_origin)

lemma coherent_apply_delete: "coherent_tracker lib t \<Longrightarrow> coherent_tracker lib (apply_delete p old t)"
  unfolding apply_delete_def Let_def
  by (intro coherent_without_origin) (simp add: coherent_insert coherent_fields(1))

lemma coherent_apply_update: "coherent_tracker lib t \<Longrightarrow> coherent_tracker lib (apply_update p m old ov new t)"
proof (cases m)
  case None
  moreover assume "coherent_tracker lib t"
  ultimately show ?thesis by (simp add: apply_update_def coherent_insert)
next
  case (Some q)
  moreover assume "coherent_tracker lib t"
  ultimately show ?thesis
    by (simp only: apply_update_move coherent_moved coherent_with_overwritten coherent_with_source)
qed

lemma coherent_apply_changes: "coherent_tracker lib t \<Longrightarrow> coherent_tracker lib (fold (apply_change e) cs t)"
  by (induction cs arbitrary: t)
    (simp_all add: apply_change_def Let_def coherent_apply_add coherent_apply_delete coherent_apply_update
      split: applied_patch_file_change.split)

section \<open>The rendered pairs\<close>

fun firsts :: "'a set \<Rightarrow> 'a list \<Rightarrow> 'a list" where
  "firsts seen [] = []"
| "firsts seen (x # xs) = (if x \<in> seen then firsts seen xs else x # firsts (insert x seen) xs)"

lemma firsts_cong: "(\<And>x. x \<in> set xs \<Longrightarrow> x \<in> A \<longleftrightarrow> x \<in> B) \<Longrightarrow> firsts A xs = firsts B xs"
proof (induction xs arbitrary: A B)
  case (Cons x xs)
  have "firsts A xs = firsts B xs" "firsts (insert x A) xs = firsts (insert x B) xs"
    by (rule Cons.IH, simp add: Cons.prems)+
  then show ?case using Cons.prems [of x] by simp
qed simp

lemma set_firsts: "set (firsts seen xs) = set xs - seen"
  by (induction xs arbitrary: seen) auto

lemma distinct_firsts: "distinct (firsts seen xs)"
  by (induction xs arbitrary: seen) (auto simp: set_firsts)

lemma sorted_firsts: "sorted (map f xs) \<Longrightarrow> sorted (map f (firsts seen xs))"
  by (induction xs arbitrary: seen) (auto simp: set_firsts)

definition right_of :: "(tracked_path \<times> tracked_path) list \<Rightarrow> tracked_path \<Rightarrow> tracked_path" where
  "right_of pairs p = (case map_of pairs p of Some dest \<Rightarrow> dest | None \<Rightarrow> p)"

definition shown_paths :: "(tracked_path \<times> tracked_path) list \<Rightarrow> tracked_path list \<Rightarrow> tracked_path set \<Rightarrow> tracked_path list" where
  "shown_paths pairs ps seen = firsts seen (filter (\<lambda>p. p \<notin> set (map snd pairs)) ps)"

definition pair_diff :: "diff_library \<Rightarrow> turn_diff_tracker \<Rightarrow> tracked_path \<times> tracked_path \<Rightarrow> rstr option" where
  "pair_diff lib t = (\<lambda>(l, r). render_diff lib t l (old_text t l) r (now_text t r))"

definition shown_pairs :: "diff_library \<Rightarrow> turn_diff_tracker \<Rightarrow> (tracked_path \<times> tracked_path) list" where
  "shown_pairs lib t =
     map (\<lambda>p. (p, right_of (rename_pairs lib t) p)) (shown_paths (rename_pairs lib t) (diff_paths lib t) {})"

definition rendering :: "rstr option list \<Rightarrow> rstr" where
  "rendering diffs = foldl push_diff [] diffs"

lemma content_key_diff:
  "coherent lib t text_of \<Longrightarrow> diff_of lib t text_of (content_key t l r) = pair_diff lib t (l, r)"
  by (auto simp: diff_of_def content_key_def pair_diff_def coherent_def revisions_ok_def old_text_def now_text_def
      option.map_comp intro!: arg_cong2 [where f = "\<lambda>a b. render_diff lib t l a r b"] map_option_cong)

lemma content_key_revisions:
  "coherent lib t text_of \<Longrightarrow>
     left_revision (content_key t l r) = Some n \<or> right_revision (content_key t l r) = Some n \<Longrightarrow> n < next_revision t"
  by (auto simp: content_key_def coherent_def revisions_ok_def)

lemma cache_ok_update:
  assumes "cache_ok lib t text_of cache" and "coherent lib t text_of"
  shows "cache_ok lib t text_of (AList.update (content_key t l r) (pair_diff lib t (l, r)) cache)"
    and "cache_ok lib t text_of (AList.delete k cache)"
  using assms(1) content_key_diff [OF assms(2), of l r] content_key_revisions [OF assms(2), of l r]
  by (auto simp: cache_ok_def update_conv' delete_conv' split: if_splits)

definition refresh_ok :: "diff_library \<Rightarrow> turn_diff_tracker \<Rightarrow> (nat \<Rightarrow> rstr) \<Rightarrow> refresh_state \<Rightarrow> bool" where
  "refresh_ok lib t text_of st \<longleftrightarrow> cache_ok lib t text_of (previous st) \<and> cache_ok lib t text_of (rendered st)"

lemma refresh_path_cases:
  fixes p :: tracked_path and pairs :: "(tracked_path \<times> tracked_path) list"
  assumes "coherent lib t text_of" and "refresh_ok lib t text_of st"
  defines "st' \<equiv> refresh_path lib t pairs p st"
  shows "refresh_ok lib t text_of st'"
    and "p \<in> handled st \<Longrightarrow> st' = st"
    and "p \<notin> handled st \<Longrightarrow> p \<in> set (map snd pairs) \<Longrightarrow>
      handled st' = insert p (handled st) \<and> aggregated st' = aggregated st"
    and "p \<notin> handled st \<Longrightarrow> p \<notin> set (map snd pairs) \<Longrightarrow>
      handled st' = insert (right_of pairs p) (insert p (handled st))
      \<and> aggregated st' = push_diff (aggregated st) (pair_diff lib t (p, right_of pairs p))"
proof -
  let ?r = "right_of pairs p"
  let ?d = "case map_of (previous st) (content_key t p ?r) of Some cached \<Rightarrow> cached
     | None \<Rightarrow> render_diff lib t p (map_option content (map_of (baseline_by_path t) p))
                 ?r (map_option content (map_of (current_by_path t) ?r))"
  have d: "?d = pair_diff lib t (p, ?r)"
    using assms(2) content_key_diff [OF assms(1), of p ?r]
    by (auto simp: refresh_ok_def cache_ok_def pair_diff_def old_text_def now_text_def split: option.split)
  have st': "st' = st\<lparr>handled := insert ?r (insert p (handled st)),
      previous := AList.delete (content_key t p ?r) (previous st),
      rendered := AList.update (content_key t p ?r) (pair_diff lib t (p, ?r)) (rendered st),
      aggregated := push_diff (aggregated st) (pair_diff lib t (p, ?r))\<rparr>"
    if "p \<notin> handled st" "p \<notin> set (map snd pairs)"
  proof (cases "map_of pairs p")
    case None
    then have r: "?r = p" by (simp add: right_of_def)
    with that None d [unfolded r] show ?thesis by (simp add: st'_def refresh_path_def Let_def)
  next
    case (Some dest)
    then have r: "?r = dest" by (simp add: right_of_def)
    with that Some d [unfolded r] show ?thesis by (simp add: st'_def refresh_path_def Let_def)
  qed
  show "p \<in> handled st \<Longrightarrow> st' = st" by (simp add: st'_def refresh_path_def)
  show "p \<notin> handled st \<Longrightarrow> p \<in> set (map snd pairs) \<Longrightarrow>
      handled st' = insert p (handled st) \<and> aggregated st' = aggregated st"
    by (auto simp: st'_def refresh_path_def Let_def)
  show "p \<notin> handled st \<Longrightarrow> p \<notin> set (map snd pairs) \<Longrightarrow>
      handled st' = insert ?r (insert p (handled st))
      \<and> aggregated st' = push_diff (aggregated st) (pair_diff lib t (p, ?r))"
    by (simp add: st')
  show "refresh_ok lib t text_of st'"
  proof (cases "p \<notin> handled st \<and> p \<notin> set (map snd pairs)")
    case True
    with assms(1,2) show ?thesis by (simp add: st' refresh_ok_def cache_ok_update)
  next
    case False
    with assms(2) show ?thesis by (auto simp: st'_def refresh_ok_def refresh_path_def Let_def)
  qed
qed

lemma right_of_paired: "right_of pairs p \<noteq> p \<Longrightarrow> right_of pairs p \<in> set (map snd pairs)"
  by (auto simp: right_of_def image_iff split: option.splits dest!: map_of_SomeD) (metis snd_conv)

lemma fold_refresh_path:
  assumes "coherent lib t text_of" and "refresh_ok lib t text_of st"
  shows "refresh_ok lib t text_of (fold (refresh_path lib t pairs) ps st)
    \<and> aggregated (fold (refresh_path lib t pairs) ps st) =
        foldl push_diff (aggregated st)
          (map (\<lambda>p. pair_diff lib t (p, right_of pairs p)) (shown_paths pairs ps (handled st)))"
  using assms(2)
proof (induction ps arbitrary: st)
  case Nil
  then show ?case by (simp add: shown_paths_def)
next
  case (Cons p ps)
  let ?st = "refresh_path lib t pairs p st" and ?free = "filter (\<lambda>p. p \<notin> set (map snd pairs)) ps"
  note cases = refresh_path_cases [OF assms(1) Cons.prems, where pairs = pairs and p = p]
  note IH = Cons.IH [OF cases(1)]
  consider "p \<in> handled st" | "p \<notin> handled st" "p \<in> set (map snd pairs)"
    | "p \<notin> handled st" "p \<notin> set (map snd pairs)" by blast
  then show ?case
  proof cases
    case 1
    with cases(2) IH show ?thesis by (simp add: shown_paths_def)
  next
    case 2
    then have "firsts (handled ?st) ?free = firsts (handled st) ?free"
      using cases(3) by (intro firsts_cong) auto
    with 2 cases(3) IH show ?thesis by (simp add: shown_paths_def)
  next
    case 3
    then have "firsts (handled ?st) ?free = firsts (insert p (handled st)) ?free"
      using cases(4) right_of_paired [of pairs p] by (intro firsts_cong) auto
    with 3 cases(4) IH show ?thesis by (simp add: shown_paths_def)
  qed
qed

lemma refresh_reference:
  assumes "coherent_tracker lib t"
  defines "t' \<equiv> refresh_unified_diff lib t" and "shown \<equiv> rendering (map (pair_diff lib t) (shown_pairs lib t))"
  shows "coherent_tracker lib t'" and "unified_diff t' = (if shown = [] then None else Some shown)"
proof -
  obtain text_of where c: "coherent lib t text_of" using assms(1) by (auto simp: coherent_tracker_def)
  let ?start = "\<lparr>handled = {}, previous = rendered_diffs t, rendered = [], aggregated = []\<rparr>"
  let ?st = "fold (refresh_path lib t (rename_pairs lib t)) (diff_paths lib t) ?start"
  have "refresh_ok lib t text_of ?start" using c by (simp add: refresh_ok_def coherent_def cache_ok_def)
  note run = fold_refresh_path [OF c this, of "rename_pairs lib t" "diff_paths lib t"]
  have t': "t' = t\<lparr>rendered_diffs := rendered ?st,
      unified_diff := (if aggregated ?st = [] then None else Some (aggregated ?st))\<rparr>"
    by (simp add: t'_def refresh_unified_diff_def Let_def)
  have "cache_ok lib t' = cache_ok lib t" by (rule cache_ok_cong) (simp_all add: t')
  with run c have "coherent lib t' text_of"
    unfolding coherent_def by (simp add: refresh_ok_def) (simp add: t')
  then show "coherent_tracker lib t'" by (auto simp: coherent_tracker_def)
  have "aggregated ?st = shown"
    using run by (simp add: shown_def rendering_def shown_pairs_def comp_def)
  then show "unified_diff t' = (if shown = [] then None else Some shown)" by (simp add: t')
qed

text \<open>A hash map is iterated in some order of its entries.\<close>

definition iterates :: "diff_library \<Rightarrow> bool" where
  "iterates lib \<longleftrightarrow> (\<forall>ks. set (iter_keys lib ks) = set ks) \<and> (\<forall>es. set (iter_origins lib es) = set es)"

lemma collect_pairs:
  "map_of (fold (\<lambda>(k, v). AList.update k v) kvs al) k = Some v \<Longrightarrow> (k, v) \<in> set kvs \<or> map_of al k = Some v"
proof (induction kvs arbitrary: al)
  case (Cons kv kvs)
  obtain a b where "kv = (a, b)" by fastforce
  with Cons.prems Cons.IH [of "AList.update a b al"] show ?case by (auto simp: update_conv' split: if_splits)
qed simp

lemma distinct_collect: "distinct (map fst al) \<Longrightarrow> distinct (map fst (fold (\<lambda>(k, v). AList.update k v) kvs al))"
  by (induction kvs arbitrary: al) (auto intro: distinct_update)

lemma rename_pairs_distinct: "distinct (map fst (rename_pairs lib t))"
  unfolding rename_pairs_def by (rule distinct_collect) simp

lemma rename_pairsD:
  assumes "(l, r) \<in> set (rename_pairs lib t)" and "iterates lib"
  shows "(r, l) \<in> set (origin_by_current_path t)" and "l \<noteq> r" and "now_text t l = None" and "now_text t r \<noteq> None"
    and "old_text t l \<noteq> None" and "old_text t r = None"
proof -
  have "map_of (rename_pairs lib t) l = Some r" using assms(1) rename_pairs_distinct by simp
  then have "(l, r) \<in> set (List.map_filter (rename_pair t) (iter_origins lib (origin_by_current_path t)))"
    unfolding rename_pairs_def by (auto dest: collect_pairs)
  then obtain dest origin where "(dest, origin) \<in> set (origin_by_current_path t)" "rename_pair t (dest, origin) = Some (l, r)"
    using assms(2) by (auto simp: map_filter_def iterates_def)
  then show "(r, l) \<in> set (origin_by_current_path t)" "l \<noteq> r" "now_text t l = None" "now_text t r \<noteq> None"
    "old_text t l \<noteq> None" "old_text t r = None"
    by (auto simp: rename_pair_def now_text_def old_text_def split: if_splits)
qed

lemma rename_pairs_functional:
  assumes "(l, r) \<in> set (rename_pairs lib t)" and "(l', r) \<in> set (rename_pairs lib t)"
    and "iterates lib" and "coherent_tracker lib t"
  shows "l = l'"
  using rename_pairsD(1) [OF assms(1,3)] rename_pairsD(1) [OF assms(2,3)] coherent_origins [OF assms(4)]
  by (metis eq_key_imp_eq_value)

lemma diff_paths_set: "iterates lib \<Longrightarrow> p \<in> set (diff_paths lib t) \<longleftrightarrow> \<not> untracked t p"
  unfolding diff_paths_def iterates_def untracked_def map_of_eq_None_iff by simp blast

text \<open>
  The pairs that are rendered: a path with itself, or a file that is gone with a new file;
  no path occurs twice, and every changed path occurs.
\<close>

definition accounts_for ::
  "(tracked_path \<times> tracked_path) list \<Rightarrow> (tracked_path \<Rightarrow> rstr option) \<Rightarrow> (tracked_path \<Rightarrow> rstr option) \<Rightarrow> bool" where
  "accounts_for pairs v0 v \<longleftrightarrow>
     distinct (map fst pairs) \<and> distinct (map snd pairs)
     \<and> (\<forall>(l, r) \<in> set pairs. l \<noteq> r \<longrightarrow>
          v0 l \<noteq> None \<and> v l = None \<and> v0 r = None \<and> v r \<noteq> None \<and> l \<notin> snd ` set pairs \<and> r \<notin> fst ` set pairs)
     \<and> (\<forall>p. v0 p \<noteq> v p \<longrightarrow> p \<in> fst ` set pairs \<union> snd ` set pairs)"

lemma shown_pairs_iff:
  assumes "iterates lib"
  shows "(l, r) \<in> set (shown_pairs lib t) \<longleftrightarrow>
    \<not> untracked t l \<and> l \<notin> snd ` set (rename_pairs lib t) \<and> r = right_of (rename_pairs lib t) l"
  using diff_paths_set [OF assms] by (auto simp: shown_pairs_def shown_paths_def set_firsts)

lemma right_of_cases:
  "(right_of (rename_pairs lib t) l = l \<and> l \<notin> fst ` set (rename_pairs lib t))
    \<or> (l, right_of (rename_pairs lib t) l) \<in> set (rename_pairs lib t)"
  by (auto simp: right_of_def map_of_eq_None_iff split: option.splits dest: map_of_SomeD)

lemma shown_pairs_account:
  assumes "iterates lib" and "coherent_tracker lib t" and "net_change t v0 v"
  shows "accounts_for (shown_pairs lib t) v0 v"
proof -
  let ?ps = "rename_pairs lib t"
  note shown = shown_pairs_iff [OF assms(1), of _ _ t]
  have net: "if untracked t p then v p = v0 p else v0 p = old_text t p \<and> v p = now_text t p" for p
    using assms(3) by (simp add: net_change_def)
  have fsts: "map fst (shown_pairs lib t) = shown_paths ?ps (diff_paths lib t) {}"
    by (simp add: shown_pairs_def comp_def)
  have d1: "distinct (map fst (shown_pairs lib t))" unfolding fsts by (simp add: shown_paths_def distinct_firsts)
  have same: "l = l'" if "(l, r) \<in> set (shown_pairs lib t)" "(l', r) \<in> set (shown_pairs lib t)" for l l' r
    using that right_of_cases [of lib t l] right_of_cases [of lib t l'] rename_pairs_functional [OF _ _ assms(1,2)]
    unfolding shown by (metis image_eqI snd_conv)
  have d2: "distinct (map snd (shown_pairs lib t))"
    using d1 same by (auto simp: distinct_map inj_on_def)
  have renamed: "(l, r) \<in> set ?ps" if "(l, r) \<in> set (shown_pairs lib t)" "l \<noteq> r" for l r
    using that right_of_cases [of lib t l] unfolding shown by auto
  have moved: "v0 l \<noteq> None \<and> v l = None \<and> v0 r = None \<and> v r \<noteq> None
      \<and> l \<notin> snd ` set (shown_pairs lib t) \<and> r \<notin> fst ` set (shown_pairs lib t)"
    if p: "(l, r) \<in> set (shown_pairs lib t)" "l \<noteq> r" for l r
  proof -
    note ren = rename_pairsD [OF renamed [OF p] assms(1)]
    have "l \<notin> snd ` set (shown_pairs lib t)"
    proof
      assume "l \<in> snd ` set (shown_pairs lib t)"
      then obtain k where k: "(k, l) \<in> set (shown_pairs lib t)" by force
      show False
        using ren(3,5) rename_pairsD(4) [OF renamed [OF k] assms(1)] same [OF k] p k shown [of l]
        by (metis)
    qed
    moreover have "r \<notin> fst ` set (shown_pairs lib t)"
      using renamed [OF p] unfolding image_iff by (auto simp: shown) (metis snd_conv image_eqI)
    ultimately show ?thesis using ren net [of l] net [of r] by (auto simp: untracked_iff)
  qed
  have all: "p \<in> fst ` set (shown_pairs lib t) \<union> snd ` set (shown_pairs lib t)" if "v0 p \<noteq> v p" for p
  proof (cases "p \<in> snd ` set ?ps")
    case False
    then have "(p, right_of ?ps p) \<in> set (shown_pairs lib t)" using that net [of p] by (auto simp: shown split: if_splits)
    then show ?thesis by force
  next
    case True
    then obtain l where l: "(l, p) \<in> set ?ps" by force
    have "right_of ?ps l = p" using l rename_pairs_distinct [of lib t] by (simp add: right_of_def)
    moreover have "l \<notin> snd ` set ?ps" "\<not> untracked t l"
      using rename_pairsD [OF l assms(1)] rename_pairsD(4) [OF _ assms(1), of _ l t] by (auto simp: untracked_iff)
    ultimately have "(l, p) \<in> set (shown_pairs lib t)" by (simp add: shown)
    then show ?thesis by force
  qed
  show ?thesis unfolding accounts_for_def using d1 d2 moved all by blast
qed

section \<open>A turn\<close>

text \<open>
  The patches of a turn in one environment, each a working directory and the hunks of a
  patch: the file system, the tracker and the text of the last \<^verbatim>\<open>TurnDiffEvent\<close> afterwards,
  and the deltas on the way.
\<close>

fun run_patches ::
  "('p, path, 'pe) path_uri_ops \<Rightarrow> ('s, 'p) executor_file_system \<Rightarrow> diff_library \<Rightarrow> rstr
     \<Rightarrow> ('p \<times> hunk list) list \<Rightarrow> 's \<times> turn_diff_tracker \<times> rstr \<Rightarrow> 's \<times> turn_diff_tracker \<times> rstr" where
  "run_patches po fs lib e [] st = st"
| "run_patches po fs lib e ((cwd, hs) # runs) (s, t, shown) =
     (case apply_hunks_to_files po fs cwd s delta_empty hs of (s', d, _) \<Rightarrow>
        case emit_turn_diff lib (TrackUpdate (Some e) d) t of (t', event) \<Rightarrow>
          run_patches po fs lib e runs (s', t', case event of Some diff \<Rightarrow> diff | None \<Rightarrow> shown))"

fun patch_deltas ::
  "('p, path, 'pe) path_uri_ops \<Rightarrow> ('s, 'p) executor_file_system \<Rightarrow> ('p \<times> hunk list) list \<Rightarrow> 's
     \<Rightarrow> path applied_patch_delta list" where
  "patch_deltas po fs [] s = []"
| "patch_deltas po fs ((cwd, hs) # runs) s =
     (case apply_hunks_to_files po fs cwd s delta_empty hs of (s', d, _) \<Rightarrow> d # patch_deltas po fs runs s')"

definition files_in :: "rstr \<Rightarrow> (path \<Rightarrow> rstr option) \<Rightarrow> tracked_path \<Rightarrow> rstr option" where
  "files_in e w = put_env e w (\<lambda>_. None)"

definition shown_diff :: "turn_diff_tracker \<Rightarrow> rstr" where
  "shown_diff t = (case unified_diff t of Some diff \<Rightarrow> diff | None \<Rightarrow> [])"

lemma event_in_sync:
  "emit_turn_diff lib upd t = (t', event) \<Longrightarrow>
     shown_diff t' = (case event of Some diff \<Rightarrow> diff | None \<Rightarrow> shown_diff t)"
  by (auto simp: emit_turn_diff_def shown_diff_def Let_def split: tracker_update.splits option.splits prod.splits if_splits)

lemma same_tracker [simp]:
  "old_text (t\<lparr>rendered_diffs := x, unified_diff := y\<rparr>) = old_text t"
  "now_text (t\<lparr>rendered_diffs := x, unified_diff := y\<rparr>) = now_text t"
  "untracked (t\<lparr>rendered_diffs := x, unified_diff := y\<rparr>) = untracked t"
  "display_path (t\<lparr>rendered_diffs := x, unified_diff := y\<rparr>) = display_path t"
  "rename_pairs lib (t\<lparr>rendered_diffs := x, unified_diff := y\<rparr>) = rename_pairs lib t"
  by (simp_all add: fun_eq_iff old_text_def now_text_def untracked_def display_path_def rename_pairs_def rename_pair_def)

lemma same_pairs [simp]:
  "shown_pairs lib (t\<lparr>rendered_diffs := x, unified_diff := y\<rparr>) = shown_pairs lib t"
  "pair_diff lib (t\<lparr>rendered_diffs := x, unified_diff := y\<rparr>) = pair_diff lib t"
  "net_change (t\<lparr>rendered_diffs := x, unified_diff := y\<rparr>) = net_change t"
  by (simp_all add: fun_eq_iff shown_pairs_def diff_paths_def pair_diff_def net_change_def
      render_diff_cong [of "t\<lparr>rendered_diffs := x, unified_diff := y\<rparr>" t])

lemma refresh_form: "\<exists>x y. refresh_unified_diff lib t = t\<lparr>rendered_diffs := x, unified_diff := y\<rparr>"
  by (auto simp: refresh_unified_diff_def Let_def)

lemma valid_inserts [simp]: "valid (insert_baseline p c t) = valid t" "valid (insert_current p c t) = valid t"
  by (simp_all add: insert_baseline_def insert_current_def tracked_content_of_def)

lemma valid_apply_change: "valid (apply_change e c t) = valid t"
proof -
  have "valid (apply_update p (Some q) old ov new t) = valid t" for p q old ov new
    by (simp add: apply_update_move moved_def with_overwritten_def with_source_def Let_def split: option.split)
  moreover have "valid (apply_update p None old ov new t) = valid t" for p old ov new
    by (simp add: apply_update_def Let_def)
  ultimately have "valid (apply_update p m old ov new t) = valid t" for p m old ov new by (cases m) simp_all
  then show ?thesis
    by (simp add: apply_change_def apply_add_eq with_overwritten_def apply_delete_def Let_def
        split: applied_patch_file_change.split option.split)
qed

lemma valid_apply_changes: "valid (fold (apply_change e) cs t) = valid t"
  by (induction cs arbitrary: t) (simp_all add: valid_apply_change)

text \<open>What holds between the patches of a turn.\<close>

definition turn_ok :: "diff_library \<Rightarrow> (tracked_path \<Rightarrow> rstr option) \<Rightarrow> (tracked_path \<Rightarrow> rstr option) \<Rightarrow> turn_diff_tracker \<Rightarrow> bool" where
  "turn_ok lib v0 v t \<longleftrightarrow>
     (if valid t then coherent_tracker lib t \<and> net_change t v0 v
        \<and> shown_diff t = rendering (map (pair_diff lib t) (shown_pairs lib t))
      else shown_diff t = [])"

lemma turn_ok_start:
  assumes "iterates lib"
  shows "turn_ok lib v v (with_environment_display_roots roots)"
proof -
  let ?t = "with_environment_display_roots roots"
  have "set (iter_keys lib []) = {}" using assms by (simp only: iterates_def list.set)
  then have "diff_paths lib ?t = []"
    by (simp add: diff_paths_def with_environment_display_roots_def new_tracker_def)
  then show ?thesis
    by (simp add: turn_ok_def with_environment_display_roots_def new_tracker_def shown_pairs_def shown_paths_def
        rendering_def shown_diff_def net_change_def untracked_def coherent_tracker_def coherent_def revisions_ok_def cache_ok_def)
qed

lemma turn_ok_track:
  assumes "turn_ok lib v0 v t" and "exact d \<Longrightarrow> faithful (delta_changes d) (in_env e v)"
  shows "turn_ok lib v0 (if exact d then put_env e (replay (delta_changes d) (in_env e v)) v else v') (track_delta lib e d t)"
    and "valid (track_delta lib e d t) \<longleftrightarrow> valid t \<and> exact d"
proof -
  let ?u = "fold (apply_change e) (delta_changes d) t"
  obtain x y where r: "refresh_unified_diff lib ?u = ?u\<lparr>rendered_diffs := x, unified_diff := y\<rparr>"
    using refresh_form by blast
  show v: "valid (track_delta lib e d t) \<longleftrightarrow> valid t \<and> exact d"
    by (simp add: track_delta_def invalidate_def r valid_apply_changes)
  show "turn_ok lib v0 (if exact d then put_env e (replay (delta_changes d) (in_env e v)) v else v') (track_delta lib e d t)"
  proof (cases "valid t \<and> exact d")
    case False
    with assms(1) show ?thesis by (auto simp: turn_ok_def track_delta_def invalidate_def shown_diff_def)
  next
    case True
    then have t: "track_delta lib e d t = refresh_unified_diff lib ?u" by (simp add: track_delta_def)
    have c: "coherent_tracker lib ?u" using True assms(1) by (simp add: turn_ok_def coherent_apply_changes)
    have "net_change ?u v0 (put_env e (replay (delta_changes d) (in_env e v)) v)"
      using True assms by (intro net_apply_changes) (simp_all add: turn_ok_def)
    with True refresh_reference [OF c] show ?thesis
      unfolding turn_ok_def t shown_diff_def by (auto simp: r valid_apply_changes)
  qed
qed

lemma run_patches_ok:
  assumes "lawful_fs (uri_to_path_buf po) fs view"
    and "\<forall>(cwd, hs) \<in> set runs. \<forall>h \<in> set hs. \<not> self_move po cwd h"
    and "run_patches po fs lib e runs (s, t, shown) = (s', t', shown')"
    and "turn_ok lib v0 (files_in e (view s)) t" and "shown = shown_diff t"
  shows "turn_ok lib v0 (files_in e (view s')) t' \<and> shown' = shown_diff t'
    \<and> (valid t' \<longleftrightarrow> valid t \<and> (\<forall>d \<in> set (patch_deltas po fs runs s). exact d))"
  using assms(2-5)
proof (induction runs arbitrary: s t shown)
  case Nil
  then show ?case by auto
next
  case (Cons run runs)
  obtain cwd hs where run: "run = (cwd, hs)" by fastforce
  obtain s1 d r where a: "apply_hunks_to_files po fs cwd s delta_empty hs = (s1, d, r)" by (metis prod_cases3)
  obtain t1 event where ev: "emit_turn_diff lib (TrackUpdate (Some e) d) t = (t1, event)" by fastforce
  have t1: "t1 = track_delta lib e d t" using ev by (auto simp: emit_turn_diff_def Let_def)
  have env: "in_env e (files_in e w) = w" "put_env e w (files_in e w') = files_in e w" for w w'
    by (simp_all add: files_in_def)
  have acc: "exact d \<Longrightarrow> faithful (delta_changes d) (view s) \<and> replay (delta_changes d) (view s) = view s1"
    using apply_hunks_accounts [OF assms(1) a] Cons.prems(1) run by (simp add: accounts_def)
  note track = turn_ok_track(1) [OF Cons.prems(3), where d = d and e = e and v' = "files_in e (view s1)", unfolded env]
    turn_ok_track(2) [OF Cons.prems(3), where d = d and e = e, unfolded env]
  have "turn_ok lib v0 (files_in e (view s1)) t1"
    using track(1) acc by (cases "exact d") (simp_all add: t1)
  moreover have "run_patches po fs lib e runs (s1, t1, shown_diff t1) = (s', t', shown')"
    using Cons.prems(2,4) a ev event_in_sync [OF ev] by (simp add: run)
  moreover have "valid t1 \<longleftrightarrow> valid t \<and> exact d" using track(2) acc by (simp add: t1)
  ultimately show ?case using Cons.IH [of s1 t1 "shown_diff t1"] Cons.prems(1) a by (simp add: run)
qed

lemma sorted_map_remdups_adj: "sorted (map f xs) \<Longrightarrow> sorted (map f (remdups_adj xs))"
  by (induction xs rule: remdups_adj.induct) auto

lemma sorted_shown_pairs: "sorted (map (\<lambda>(l, r). display_path t l) (shown_pairs lib t))"
proof -
  have "sorted (map (display_path t) (shown_paths (rename_pairs lib t) (diff_paths lib t) {}))"
    unfolding shown_paths_def diff_paths_def
    by (intro sorted_firsts sorted_filter sorted_map_remdups_adj) simp
  then show ?thesis by (simp add: shown_pairs_def comp_def)
qed

lemma shown_pair_texts:
  assumes "iterates lib" and "net_change t v0 v" and "(l, r) \<in> set (shown_pairs lib t)"
  shows "old_text t l = v0 l" and "now_text t r = v r"
proof -
  have "\<not> untracked t l" using assms(3) by (simp add: shown_pairs_iff [OF assms(1)])
  moreover have "r = l \<or> now_text t r \<noteq> None"
    using assms(3) right_of_cases [of lib t l] rename_pairsD(4) [OF _ assms(1)]
    by (metis shown_pairs_iff [OF assms(1)])
  then have "r = l \<or> \<not> untracked t r" by (auto simp: untracked_iff)
  ultimately have "\<not> untracked t l" "\<not> untracked t r" by auto
  with assms(2) show "old_text t l = v0 l" "now_text t r = v r" by (auto simp: net_change_def split: if_splits)
qed


text \<open>One file added at the root of an empty file system.\<close>

definition rooted_paths :: "(rstr, path, unit) path_uri_ops" where
  "rooted_paths = \<lparr>uri_join = (\<lambda>cwd p. Ok p), uri_parent = (\<lambda>p. None),
     uri_to_path_buf = (\<lambda>p. [RootDir, Normal p]), uri_display = id\<rparr>"

definition rooted_view :: "(rstr \<Rightarrow> rstr option) \<Rightarrow> path \<Rightarrow> rstr option" where
  "rooted_view s q = (case q of [RootDir, Normal n] \<Rightarrow> s n | _ \<Rightarrow> None)"

definition plain_library :: diff_library where
  "plain_library = \<lparr>iter_keys = (\<lambda>ks. ks), iter_origins = (\<lambda>es. es),
     diff_lines = (\<lambda>old new left right. left @ right), sha1_hex = (\<lambda>data. rs ''0'')\<rparr>"

lemma rooted_view_upd: "rooted_view (s(p := c)) = (rooted_view s)([RootDir, Normal p] := c)"
  by (auto simp: rooted_view_def fun_eq_iff split: list.splits path_component.splits)

lemma rooted_lawful: "lawful_fs (uri_to_path_buf rooted_paths) mem_fs rooted_view"
  by (auto simp: lawful_fs_def mem_fs_def rooted_paths_def regular_or_absent_def rooted_view_upd
      split: option.splits if_splits) (auto simp: rooted_view_def)


end
