(* ===== verification/Spec2Isabelle.thy ===== *)
theory Spec2Isabelle
  imports Patch_Invariants Patch_Roundtrip Patch_Delta Exec_Approval_Facts Head_Tail_Buffer Assistant_Text Utf8_Stream Context_Manager_Facts Net_Proxy_Facts Net_Broker_Facts Patch_Safety Turn_Diff_Facts
begin

text \<open>
  The decision-making core of the Codex command-line agent, as the Rust crates under src/codex-rs
  have it. The agent receives instructions, keeps a history of the conversation, sends it to a
  model, and carries out what the model asks for: commands in a shell, patches to files, requests
  to the network. What is verified here is the code between the model and the machine: the parser
  and the applier of patches, the rules that decide whether a command or a patch needs a question,
  the file system policy of the sandbox, the proxy that filters network requests and replaces
  credentials, the history with its truncation, and the parsers of the text that streams back.

  How the parts interact. A command is split into simple commands (Bash_Commands), every part is
  judged by the rules of the execution policy (Policy_Rules, Policy_Check) or, without a rule, by
  the lists of safe and dangerous commands (Command_Safety); Exec_Approval composes these into the
  requirement for the whole command and the sandbox of its first attempt, and writes accepted
  rules back through Policy_Amend. A command that is a call of the patch tool is recognised by
  Patch_Invocation, which also works out the changes it would make; Patch_Safety compares them
  with the file system policy (Fs_Policy, Fs_Roots), and Patch_Files applies them after
  Patch_Parser has read them and Seek_Sequence and Patch_Apply have placed them. Outputs go
  through Head_Tail_Buffer and Text_Truncation into the history (History_Items, Context_Manager)
  next to the injected fragments (Context_Fragments). Requests to the network meet Net_Proxy,
  which decides with the settings (Net_Config) compiled under managed constraints
  (Net_Constraints) from host patterns (Net_Hosts) and hooks (Net_Hooks), and Net_Broker swaps
  made-up credentials for real ones. Text from the model passes Utf8_Stream, Inline_Tags,
  Tagged_Lines and Assistant_Text.

  \<^bold>\<open>Conventions.\<close>

  Every theory models a file or a few files of the source and says which in its first lines. A
  function, method or type of the source has the definition of the same name where the name is
  free. Structs are records, enums datatypes, fallible functions return the result type of
  Rust_Prelude with Ok and Err, and every early return and error of the source is a branch.
  Methods that change their receiver return it. Panics (arithmetic overflow in debug builds,
  slices out of range) are values where an input can reach them. Counters that saturate or wrap
  are words or saturate explicitly; file and text lengths are natural numbers, since memory bounds
  them below the width of a machine word.

  Strings are lists of code points (type rstr of Rust_Prelude, with the UTF-8 lengths where the
  source counts bytes) and bytes are words of eight bits. Paths on Unix are lists of components
  (Absolute_Path) where the code works on components.

  Loops are structural recursion, or functions with a termination proof. Two loops are partial
  functions of option type: push_loop of Inline_Tags, for which it is proved that it always
  returns, and fresh_dummy of Net_Broker, which draws values until one is new; it is proved to
  return when some draw is new and never to return when every draw equals the credential.

  Code that is not in the repository is a parameter: the file system and the path operations of
  Patch_Files, the trees and query matches of tree-sitter in Bash_Commands and Patch_Invocation,
  Starlark, shlex and JSON in Policy_Parser and Policy_Amend, the glob, header and certificate
  libraries (record net_library), the line diff and SHA-1 (record diff_library), name resolution
  and random draws in the proxy, image decoding in Context_Manager, the mapping of a URI to a
  path. Where a theorem relies on documented behaviour of such code, the behaviour is a named
  predicate in its hypotheses and the witness discharges it on a concrete instance.

  \<^bold>\<open>Patches.\<close>

  Patch_Parser: parser.rs and streaming_parser.rs of apply-patch, the hunk types and the line-by-
  line state machine with its buffer. Seek_Sequence: seek_sequence.rs. Patch_Apply: placing the
  chunks and rewriting the lines (lib.rs). Patch_Files: apply_hunks_to_files over a file system
  given by its operations, with the delta of committed changes. Patch_Invocation: invocation.rs.
  Patch_Safety: core/src/safety.rs and its composition with the applier. Turn_Diff:
  core/src/turn_diff_tracker.rs, the diff of all patches of a turn, and the part of
  core/src/tools/events.rs that reports it.

  Shown: every update hunk of an accepted patch has chunks and no chunk is empty; text fed in
  pieces gives the same result as in one piece; a rendered list of hunks parses back to itself
  (Patch_Roundtrip); replacements from the back equal one simultaneous splice; the delta of a run,
  also of a failed one while it is exact, describes how the file system changed (Patch_Delta); a
  patch approved without a question writes only inside the policy, if no path occurs in two hunks.
  The last condition is needed: moved_destination_unchecked exhibits the case without it. The diff
  reported at the end of a turn renders exactly the net change of the files through all its
  patches, and the cache of rendered diffs is never out of date (Turn_Diff_Facts).

  \<^bold>\<open>Commands.\<close>

  Policy_Rules, Policy_Check, Policy_Parser, Policy_Amend: the crate execpolicy without its front
  end. Bash_Commands and Command_Safety: the crate shell-command on Unix. Exec_Approval:
  core/src/exec_policy.rs and tools/sandboxing.rs.

  Shown (Policy_Facts, Exec_Approval_Facts): the index by program name is only an optimisation and
  the strictest matching rule decides; an overlay never relaxes a policy; the requirement for a
  command is that of its strictest part; a dangerous command without a rule does not start
  unasked; the sandbox is lifted only by allowing rules for every part or for a command that asks
  for escalation, and never while reads are denied; an accepted amendment takes effect; git
  commands on the safe list are one of five subcommands without an unsafe option. The multimap of
  rules is used through the locale multimap, interpreted on mm_insert and mm_rules.

  \<^bold>\<open>File system policy.\<close>

  Fs_Policy and Fs_Roots: protocol/src/permissions.rs and the legacy policies of protocol.rs, over
  the host record fs_host (existing paths, symbolic links, directories, environment).

  Shown (Fs_Policy_Facts, Fs_Change_Facts): a path has the access of its most specific entry, with
  denial before write before read; repository metadata under a writable root is not writable
  without an entry of its own; preserved denials only narrow a policy; added writable roots take
  access from no path, and each can be written exactly when no entry denies it; denied entries are
  refused by the matcher of denied reads; a legacy policy survives the translation and back.
  Access modes and path components are instances of linorder.

  \<^bold>\<open>History.\<close>

  History_Items: context_manager/normalize.rs on the items of protocol/src/models.rs.
  Text_Truncation: the truncation crates, with floating-point scaling written out.
  Context_Fragments: the injected fragments and their recognition; the locale contextual_fragment
  states what a kind of fragment promises and is interpreted for every registered kind.
  Context_Manager: context_manager/history.rs. Head_Tail_Buffer: unified_exec/head_tail_buffer.rs.

  Shown (History_Pairs, Context_Manager_Facts): normalisation pairs calls with outputs and leaves
  a paired history alone, dropping the oldest item keeps it paired; a truncated text is head,
  marker and tail within the budget; a rollback removes exactly the last turns; recording always
  returns and keeps calls paired with outputs; the buffer shows the first and the last bytes of
  all bytes pushed.

  \<^bold>\<open>Network proxy.\<close>

  Net_Hosts: policy.rs. Net_Config: config.rs. Net_Hooks: mitm_hook.rs. Net_Constraints: state.rs.
  Net_Proxy: runtime.rs, network_policy.rs and connect_policy.rs; operations are split at their
  lock sections, and the inductive relation world_step interleaves any number of them. Net_Broker:
  credential_broker.rs and its providers.

  Shown (Net_Host_Facts, Net_Config_Facts, Net_Hook_Facts, Net_Constraints_Facts, Net_Proxy_Facts,
  Net_Broker_Facts): under every interleaving the state is the one compiled from its settings and
  the settings satisfy the constraints (through the locale invariant_system); an operation ends
  when the others pause; a denied host is blocked; with local binding off, a local address is
  reached only when the allowlist names it; the first configured hook that matches acts; no
  credential that could be brokered is left in a child's environment, and it goes to its own hosts
  only.

  \<^bold>\<open>Streamed text.\<close>

  Stream_Text: the interface of utils/stream-parser as the locale stream_parser, whose law is that
  pushing two pieces equals pushing their concatenation. Inline_Tags, Tagged_Lines, Assistant_Text
  model the parsers, Utf8_Stream the byte layer over any of them; the locale text_stream extends
  stream_parser, and inline, tagged and inline_text are the interpretations.

  Shown: every parser is independent of how its input is cut, the assistant parser is the
  composition of its two stages on the whole text, and bytes cut inside code points decode to the
  same text.

  \<^bold>\<open>Not modelled.\<close>

  Windows-only code, since the model is that of the Unix build; the sandboxes of the operating
  systems and the processes that run in them, whose meaning is not in the repository; the HTTP,
  TLS and SOCKS handlers of the proxy, which are plumbing over libraries around the modelled
  decisions; sessions, tasks and the model client, which are asynchronous glue; configuration
  files, the app server, the terminal interface, databases, login and the extension mechanisms,
  which are serialisation, input and output; and the merging and intersecting of additional
  permissions (sandboxing/src/policy_transforms.rs), which is pure and could be added on top of
  Fs_Roots.
\<close>

end
